(* ===== verification/Cabinet_Base.thy ===== *)
theory Cabinet_Base
  imports Complex_Main "HOL-Library.Char_ord" "HOL-Library.List_Lexorder" "HOL-Library.Sublist"
    "HOL-Library.Product_Lexorder"
begin

text \<open>
  The shared vocabulary of the development.

  \<^item> Values of \<^verbatim>\<open>json.loads\<close> and \<^verbatim>\<open>yaml.safe_load\<close> are the datatype
    \<^verbatim>\<open>pyval\<close>: None, bool, int (unbounded), float (as an exact rational; NaN and the
    infinities are outside the model), str (a list of code points below 256), list, dict with
    string keys in insertion order, and the two YAML time types.
  \<^item> A Python exception is a value of \<^verbatim>\<open>py_exc\<close>: the class and the fixed part of the
    message. A validator that raises or returns None is a \<^verbatim>\<open>py_exc option\<close>: the
    exception that escapes, or no exception.
  \<^item> A validator body is the list of its checks in the order of the source
    (\<^verbatim>\<open>run_checks\<close>, \<^verbatim>\<open>for_each\<close>, \<^verbatim>\<open>raise_if\<close>): the first check that
    raises decides. The lemmas in \<^verbatim>\<open>checks\<close> turn "no exception" into the conjunction
    of the conditions.
\<close>

named_theorems checks \<open>what a validator that does not raise has established\<close>
named_theorems py_defs \<open>accessors of Python values, unfolded for evaluation\<close>

section \<open>Python values\<close>

datatype pyval =
    PNone
  | PBool bool
  | PInt int
  | PFloat rat
  | PStr string
  | PList "pyval list"
  | PDict "(string \<times> pyval) list"
  | PDate int                   \<comment> \<open>days since 1970-01-01\<close>
  | PDatetime int "int option"  \<comment> \<open>wall-clock microseconds since 1970, UTC offset (None: naive)\<close>

type_synonym pydict = "(string \<times> pyval) list"

fun is_dict :: "pyval \<Rightarrow> bool" where
  "is_dict (PDict _) = True"
| "is_dict _ = False"

fun is_list :: "pyval \<Rightarrow> bool" where
  "is_list (PList _) = True"
| "is_list _ = False"

fun is_str :: "pyval \<Rightarrow> bool" where
  "is_str (PStr _) = True"
| "is_str _ = False"

fun is_bool :: "pyval \<Rightarrow> bool" where
  "is_bool (PBool _) = True"
| "is_bool _ = False"

text \<open>\<^verbatim>\<open>isinstance(v, int) and not isinstance(v, bool)\<close>: the model keeps the two apart.\<close>

fun is_int :: "pyval \<Rightarrow> bool" where
  "is_int (PInt _) = True"
| "is_int _ = False"

fun is_number :: "pyval \<Rightarrow> bool" where
  "is_number (PInt _) = True"
| "is_number (PFloat _) = True"
| "is_number _ = False"

fun num_of :: "pyval \<Rightarrow> rat" where
  "num_of (PInt i) = of_int i"
| "num_of (PFloat r) = r"
| "num_of (PBool b) = (if b then 1 else 0)"
| "num_of _ = 0"

fun int_of :: "pyval \<Rightarrow> int" where
  "int_of (PInt i) = i"
| "int_of _ = 0"

fun str_of :: "pyval \<Rightarrow> string" where
  "str_of (PStr s) = s"
| "str_of _ = []"

fun elems :: "pyval \<Rightarrow> pyval list" where
  "elems (PList xs) = xs"
| "elems _ = []"

fun items :: "pyval \<Rightarrow> pydict" where
  "items (PDict kvs) = kvs"
| "items _ = []"

definition keys :: "pyval \<Rightarrow> string list" where
  "keys v = map fst (items v)"

definition vals :: "pyval \<Rightarrow> pyval list" where
  "vals v = map snd (items v)"

text \<open>\<^verbatim>\<open>d.get(k)\<close>, \<^verbatim>\<open>d.get(k, dflt)\<close> and \<^verbatim>\<open>k in d\<close>.\<close>

definition dget_opt :: "pyval \<Rightarrow> string \<Rightarrow> pyval option" where
  "dget_opt d k = map_of (items d) k"

definition dget :: "pyval \<Rightarrow> string \<Rightarrow> pyval" where
  "dget d k = (case dget_opt d k of None \<Rightarrow> PNone | Some v \<Rightarrow> v)"

definition dget_or :: "pyval \<Rightarrow> string \<Rightarrow> pyval \<Rightarrow> pyval" where
  "dget_or d k e = (case dget_opt d k of None \<Rightarrow> e | Some v \<Rightarrow> v)"

definition has_key :: "pyval \<Rightarrow> string \<Rightarrow> bool" where
  "has_key d k \<longleftrightarrow> dget_opt d k \<noteq> None"

text \<open>Truth testing, and hashability (what a set or dict membership test demands).\<close>

fun truthy :: "pyval \<Rightarrow> bool" where
  "truthy PNone = False"
| "truthy (PBool b) = b"
| "truthy (PInt i) = (i \<noteq> 0)"
| "truthy (PFloat r) = (r \<noteq> 0)"
| "truthy (PStr s) = (s \<noteq> [])"
| "truthy (PList xs) = (xs \<noteq> [])"
| "truthy (PDict kvs) = (kvs \<noteq> [])"
| "truthy (PDate _) = True"
| "truthy (PDatetime _ _) = True"

fun hashable :: "pyval \<Rightarrow> bool" where
  "hashable (PList _) = False"
| "hashable (PDict _) = False"
| "hashable _ = True"

text \<open>
  \<^verbatim>\<open>==\<close> on the hashable values: Python compares bool, int and float by value
  (\<^verbatim>\<open>1 == 1.0 == True\<close>), so numbers are brought to one form first.
\<close>

fun py_norm :: "pyval \<Rightarrow> pyval" where
  "py_norm (PBool b) = PFloat (if b then 1 else 0)"
| "py_norm (PInt i) = PFloat (of_int i)"
| "py_norm v = v"

definition py_eq :: "pyval \<Rightarrow> pyval \<Rightarrow> bool" where
  "py_eq a b \<longleftrightarrow> py_norm a = py_norm b"

section \<open>Exceptions and checks\<close>

datatype py_exc =
    MatrixValidationError string
  | ConsequenceValidationError string
  | TypeError string
  | KeyError string
  | ValueError string
  | AttributeError string

definition raise_if :: "bool \<Rightarrow> 'e \<Rightarrow> 'e option" where
  "raise_if b e = (if b then Some e else None)"

fun run_checks :: "'e option list \<Rightarrow> 'e option" where
  "run_checks [] = None"
| "run_checks (c # cs) = (case c of Some e \<Rightarrow> Some e | None \<Rightarrow> run_checks cs)"

fun for_each :: "('a \<Rightarrow> 'e option) \<Rightarrow> 'a list \<Rightarrow> 'e option" where
  "for_each f [] = None"
| "for_each f (x # xs) = (case f x of Some e \<Rightarrow> Some e | None \<Rightarrow> for_each f xs)"

lemma raise_if_None [simp, checks]: "raise_if b e = None \<longleftrightarrow> \<not> b"
  by (simp add: raise_if_def)

lemma raise_if_Some [simp]: "raise_if b e = Some e' \<longleftrightarrow> b \<and> e = e'"
  by (simp add: raise_if_def)

lemma run_checks_Cons_None [simp, checks]:
  "run_checks (c # cs) = None \<longleftrightarrow> c = None \<and> run_checks cs = None"
  by (simp split: option.splits)

lemma run_checks_None_iff: "run_checks cs = None \<longleftrightarrow> (\<forall>c \<in> set cs. c = None)"
  by (induction cs) (simp_all split: option.splits)

lemma for_each_None_iff [simp, checks]: "for_each f xs = None \<longleftrightarrow> (\<forall>x \<in> set xs. f x = None)"
  by (induction xs) (simp_all split: option.splits)

lemma for_each_Some:
  "for_each f xs = Some e \<Longrightarrow> \<exists>x \<in> set xs. f x = Some e"
  by (induction xs) (auto split: option.splits)

declare run_checks.simps(2) [simp del] for_each.simps(2) [simp del]

text \<open>A step that goes on only when its checks do not raise.\<close>

lemma guarded_Inr [simp, checks]:
  "(case c of None \<Rightarrow> r | Some e \<Rightarrow> Inl e) = Inr x \<longleftrightarrow> c = None \<and> r = Inr x"
  by (cases c) simp_all

lemma bind_Inr [simp, checks]:
  "(case s of Inl e \<Rightarrow> Inl e | Inr y \<Rightarrow> f y) = Inr x \<longleftrightarrow> (\<exists>y. s = Inr y \<and> f y = Inr x)"
  by (cases s) simp_all

lemma run_checks_Cons_Some:
  "run_checks (c # cs) = Some e \<longleftrightarrow> c = Some e \<or> (c = None \<and> run_checks cs = Some e)"
  by (simp add: run_checks.simps split: option.splits)

section \<open>Laws of the accessors\<close>

lemma is_dict_iff: "is_dict v \<longleftrightarrow> (\<exists>kvs. v = PDict kvs)"
  by (cases v) simp_all

lemma is_list_iff: "is_list v \<longleftrightarrow> (\<exists>xs. v = PList xs)"
  by (cases v) simp_all

lemma is_str_iff: "is_str v \<longleftrightarrow> (\<exists>s. v = PStr s)"
  by (cases v) simp_all

lemma keys_PDict [simp]: "keys (PDict kvs) = map fst kvs"
  by (simp add: keys_def)

lemma vals_PDict [simp]: "vals (PDict kvs) = map snd kvs"
  by (simp add: vals_def)

lemma dget_opt_PDict [simp]: "dget_opt (PDict kvs) k = map_of kvs k"
  by (simp add: dget_opt_def)

lemma dget_opt_items: "dget_opt d k = Some v \<Longrightarrow> (k, v) \<in> set (items d)"
  by (simp add: dget_opt_def map_of_SomeD)

lemma dget_opt_dict: "dget_opt d k = Some v \<Longrightarrow> is_dict d"
  by (cases d) (simp_all add: dget_opt_def)

lemma has_key_iff: "has_key d k \<longleftrightarrow> k \<in> set (keys d)"
  by (simp add: has_key_def dget_opt_def keys_def map_of_eq_None_iff)

lemma has_key_dget: "has_key d k \<Longrightarrow> (k, dget d k) \<in> set (items d)"
  by (auto simp: has_key_def dget_def dget_opt_def dest: map_of_SomeD)

lemma dget_opt_eq_dget: "has_key d k \<Longrightarrow> dget_opt d k = Some (dget d k)"
  by (auto simp: has_key_def dget_def)

lemma dget_not_None_has_key: "dget d k \<noteq> PNone \<Longrightarrow> has_key d k"
  by (auto simp: has_key_def dget_def split: option.splits)

lemma dget_or_has_key: "has_key d k \<Longrightarrow> dget_or d k e = dget d k"
  by (auto simp: has_key_def dget_def dget_or_def split: option.splits)

lemma dget_or_no_key: "\<not> has_key d k \<Longrightarrow> dget_or d k e = e"
  by (simp add: has_key_def dget_or_def)

lemma py_eq_PStr [simp]: "py_eq v (PStr s) \<longleftrightarrow> v = PStr s"
  by (cases v) (simp_all add: py_eq_def)

lemma py_eq_PNone [simp]: "py_eq v PNone \<longleftrightarrow> v = PNone"
  by (cases v) (simp_all add: py_eq_def)

lemma py_eq_sym: "py_eq a b = py_eq b a"
  by (auto simp: py_eq_def)

lemma py_eq_PInt:
  "py_eq v (PInt i) \<longleftrightarrow> v = PInt i \<or> v = PFloat (of_int i) \<or>
     (i = 1 \<and> v = PBool True) \<or> (i = 0 \<and> v = PBool False)"
  by (cases v) (auto simp: py_eq_def split: if_splits)

section \<open>Strings\<close>

text \<open>\<^verbatim>\<open>str.isspace\<close> and \<^verbatim>\<open>str.lower\<close> on the code points below 256.\<close>

definition is_space :: "char \<Rightarrow> bool" where
  "is_space c \<longleftrightarrow> (let n = of_char c :: nat in
     (9 \<le> n \<and> n \<le> 13) \<or> (28 \<le> n \<and> n \<le> 32) \<or> n = 133 \<or> n = 160)"

definition lstrip :: "string \<Rightarrow> string" where
  "lstrip s = dropWhile is_space s"

definition rstrip :: "string \<Rightarrow> string" where
  "rstrip s = rev (dropWhile is_space (rev s))"

definition strip :: "string \<Rightarrow> string" where
  "strip s = rstrip (lstrip s)"

definition lower_char :: "char \<Rightarrow> char" where
  "lower_char c = (let n = of_char c :: nat in
     if (65 \<le> n \<and> n \<le> 90) \<or> (192 \<le> n \<and> n \<le> 222 \<and> n \<noteq> 215) then char_of (n + 32) else c)"

definition lower :: "string \<Rightarrow> string" where
  "lower s = map lower_char s"

definition starts_with :: "string \<Rightarrow> string \<Rightarrow> bool" where
  "starts_with p s \<longleftrightarrow> take (length p) s = p"

definition ends_with :: "string \<Rightarrow> string \<Rightarrow> bool" where
  "ends_with suf s \<longleftrightarrow> length suf \<le> length s \<and> drop (length s - length suf) s = suf"

fun join :: "string \<Rightarrow> string list \<Rightarrow> string" where
  "join sep [] = []"
| "join sep [x] = x"
| "join sep (x # y # ys) = x @ sep @ join sep (y # ys)"

lemma lstrip_Nil_or_hd: "lstrip s = [] \<or> \<not> is_space (hd (lstrip s))"
  by (metis lstrip_def hd_dropWhile)

lemma rstrip_Nil [simp]: "rstrip [] = []"
  by (simp add: rstrip_def)

lemma lstrip_Nil [simp]: "lstrip [] = []"
  by (simp add: lstrip_def)

lemma strip_Nil [simp]: "strip [] = []"
  by (simp add: strip_def)

lemma rstrip_idem [simp]: "rstrip (rstrip s) = rstrip s"
  by (simp add: rstrip_def)

lemma lstrip_idem [simp]: "lstrip (lstrip s) = lstrip s"
  by (simp add: lstrip_def)

lemma set_strip: "set (strip s) \<subseteq> set s"
proof
  fix c
  assume "c \<in> set (strip s)"
  then have "c \<in> set (dropWhile is_space (rev (dropWhile is_space s)))"
    by (simp add: strip_def rstrip_def lstrip_def)
  then have "c \<in> set (rev (dropWhile is_space s))"
    by (rule set_dropWhileD)
  then show "c \<in> set s"
    by (simp add: set_dropWhileD)
qed

lemma strip_eq_Nil: "strip s = [] \<longleftrightarrow> list_all is_space s"
proof -
  have "strip s = [] \<longleftrightarrow> (\<forall>c \<in> set (dropWhile is_space s). is_space c)"
    by (simp add: strip_def rstrip_def lstrip_def dropWhile_eq_Nil_conv)
  also have "\<dots> \<longleftrightarrow> dropWhile is_space s = []"
    by (metis dropWhile_eq_Nil_conv hd_dropWhile list.set_sel(1) set_dropWhileD)
  finally show ?thesis
    by (simp add: list_all_iff dropWhile_eq_Nil_conv)
qed

lemma strip_strip: "strip (strip s) = strip s"
proof -
  have "lstrip (rstrip t) = rstrip t" if t: "lstrip t = t" for t
  proof (cases "rstrip t")
    case (Cons c cs)
    have "t = rstrip t @ takeWhile_end" if "takeWhile_end = rev (takeWhile is_space (rev t))" for takeWhile_end
      using that by (simp add: rstrip_def flip: rev_append)
    then have "t = c # cs @ rev (takeWhile is_space (rev t))"
      by (metis Cons append_Cons)
    then have "\<not> is_space c"
      using t by (metis lstrip_Nil_or_hd list.distinct(1) list.sel(1))
    then show ?thesis
      by (simp add: Cons lstrip_def)
  qed simp
  then show ?thesis
    unfolding strip_def by simp
qed

lemma starts_with_prefix: "starts_with p s \<longleftrightarrow> prefix p s"
  unfolding starts_with_def prefix_def
  by (metis append_eq_conv_conj append_take_drop_id)

lemma starts_with_append [simp]: "starts_with p (p @ s)"
  by (simp add: starts_with_def)

lemmas py_access = keys_def vals_def dget_def dget_opt_def dget_or_def has_key_def

declare py_access [py_defs] raise_if_def [py_defs] run_checks.simps [py_defs] for_each.simps [py_defs]
  py_eq_def [py_defs]

section \<open>Lists updated by key\<close>

text \<open>\<^verbatim>\<open>d[k] = v\<close> on a dict in insertion order: an existing key keeps its place.\<close>

fun kv_put :: "'k \<Rightarrow> 'v \<Rightarrow> ('k \<times> 'v) list \<Rightarrow> ('k \<times> 'v) list" where
  "kv_put k v [] = [(k, v)]"
| "kv_put k v ((k', v') # kvs) = (if k = k' then (k, v) # kvs else (k', v') # kv_put k v kvs)"

lemma map_of_kv_put [simp]: "map_of (kv_put k v kvs) = (map_of kvs)(k \<mapsto> v)"
  by (induction kvs) (auto simp: fun_eq_iff)

lemma fst_set_kv_put [simp]: "fst ` set (kv_put k v kvs) = insert k (fst ` set kvs)"
  by (induction k v kvs rule: kv_put.induct) auto

lemma distinct_kv_put [simp]:
  "distinct (map fst (kv_put k v kvs)) = distinct (map fst kvs)"
proof (induction kvs)
  case Nil
  show ?case by simp
next
  case (Cons kv kvs)
  obtain k' v' where kv: "kv = (k', v')" by (cases kv)
  have "k' \<in> fst ` set (kv_put k v kvs) \<longleftrightarrow> k' = k \<or> k' \<in> fst ` set kvs"
    by simp
  then show ?case
    using Cons.IH kv by (simp del: fst_set_kv_put)
qed

lemma set_kv_put: "set (kv_put k v kvs) \<subseteq> insert (k, v) (set kvs)"
  by (induction kvs) (auto split: if_splits)

definition dput :: "pyval \<Rightarrow> string \<Rightarrow> pyval \<Rightarrow> pyval" where
  "dput d k v = PDict (kv_put k v (items d))"

lemma dget_dput [simp]: "dget (dput d k v) k' = (if k' = k then v else dget d k')"
  by (simp add: dget_def dget_opt_def dput_def)

lemma has_key_dput [simp]: "has_key (dput d k v) k' \<longleftrightarrow> k' = k \<or> has_key d k'"
  by (simp add: has_key_def dget_opt_def dput_def)

lemma items_dput [simp]: "items (dput d k v) = kv_put k v (items d)"
  by (simp add: dput_def)

lemma keys_dput [simp]: "set (keys (dput d k v)) = insert k (set (keys d))"
  by (simp add: keys_def)

lemma is_dict_dput [simp]: "is_dict (dput d k v)"
  by (simp add: dput_def)

text \<open>Scanning helpers that several components share.\<close>

lemma find_SomeD: "find P xs = Some x \<Longrightarrow> x \<in> set xs \<and> P x"
  by (auto simp: find_Some_iff)

lemma in_set_fst: "(x, y) \<in> set xys \<Longrightarrow> x \<in> set (map fst xys)"
  by force

lemma filter_length_mono:
  "(\<And>x. x \<in> set xs \<Longrightarrow> P x \<Longrightarrow> Q x) \<Longrightarrow> length (filter P xs) \<le> length (filter Q xs)"
  by (induction xs) (auto simp: le_SucI)

end
