(* ===== verification/Authority_Vocab.thy ===== *)
theory Authority_Vocab
  imports Cabinet_Base
begin

text \<open>
  The closed vocabularies of the authority plane (\<^verbatim>\<open>framework/authority/classifier.py\<close>,
  \<^verbatim>\<open>framework/authority/matrix.py\<close>, \<^verbatim>\<open>framework/learning/capability_gaps.py\<close>)
  and the resolver of deployment-declared operations (\<^verbatim>\<open>framework/env.py\<close>). The frozen
  sets of the source are lists here; only their \<^verbatim>\<open>set\<close> is used.
\<close>

section \<open>Action kinds\<close>

definition AMBIGUOUS :: string where "AMBIGUOUS = ''ambiguous''"

definition REVERSIBLE :: "string list" where
  "REVERSIBLE = [''task_status_move'', ''label'', ''tier2_note'', ''draft_only'', ''local_edit'',
     ''investigation_run'']"

definition PM_WRITE :: "string list" where
  "PM_WRITE = [''task_create'', ''board_status'']"

definition CALENDAR_WRITE :: "string list" where
  "CALENDAR_WRITE = [''calendar_event_create'']"

definition INTERNAL_COMMS :: "string list" where
  "INTERNAL_COMMS = [''internal_message'', ''internal_email'', ''officer_dispatch'']"

definition EXTERNAL_COMMS :: "string list" where
  "EXTERNAL_COMMS = [''external_message'', ''external_email'']"

definition DEPLOY_PROD :: "string list" where
  "DEPLOY_PROD = [''vercel_deploy_prod'', ''git_push_main'']"

definition DEPLOY :: "string list" where
  "DEPLOY = [''vercel_deploy_preview'', ''git_push_nonmain''] @ DEPLOY_PROD"

definition SPEND :: "string list" where
  "SPEND = [''purchase'', ''provision_paid'', ''billing'']"

definition SECRETS :: "string list" where
  "SECRETS = [''secret_read'', ''secret_write'', ''env_write'']"

definition NETWORK_WRITE :: "string list" where
  "NETWORK_WRITE = [''mcp_post'', ''mcp_put'', ''mcp_delete'']"

definition CREDENTIALS_GRANT :: "string list" where
  "CREDENTIALS_GRANT = [''oauth_grant'', ''token_grant'']"

definition CEILING_CLASS_ACTION_TYPES :: "(string \<times> string list) list" where
  "CEILING_CLASS_ACTION_TYPES =
     [(''external_comms'', EXTERNAL_COMMS), (''deploy_prod'', DEPLOY_PROD), (''spend'', SPEND),
      (''secrets'', SECRETS), (''network_write'', NETWORK_WRITE),
      (''credentials_grant'', CREDENTIALS_GRANT)]"

definition ACTION_TYPES :: "string list" where
  "ACTION_TYPES = REVERSIBLE @ PM_WRITE @ CALENDAR_WRITE @ INTERNAL_COMMS @ EXTERNAL_COMMS @
     DEPLOY @ SPEND @ SECRETS @ NETWORK_WRITE @ CREDENTIALS_GRANT @ [AMBIGUOUS]"

lemmas kind_sets = REVERSIBLE_def PM_WRITE_def CALENDAR_WRITE_def INTERNAL_COMMS_def
  EXTERNAL_COMMS_def DEPLOY_PROD_def DEPLOY_def SPEND_def SECRETS_def NETWORK_WRITE_def
  CREDENTIALS_GRANT_def AMBIGUOUS_def

text \<open>\<^verbatim>\<open>capability_gaps.HARD_CEILING_TOUCHES\<close>.\<close>

definition HARD_CEILING_TOUCHES :: "string list" where
  "HARD_CEILING_TOUCHES = [''secrets'', ''spending'', ''external_comms'', ''production'',
     ''network_write'', ''credentials_grant'']"

section \<open>Deployment-declared operations\<close>

definition is_lower_alnum :: "char \<Rightarrow> bool" where
  "is_lower_alnum c \<longleftrightarrow> (let n = of_char c :: nat in (97 \<le> n \<and> n \<le> 122) \<or> (48 \<le> n \<and> n \<le> 57))"

definition is_alnum_ascii :: "char \<Rightarrow> bool" where
  "is_alnum_ascii c \<longleftrightarrow> (let n = of_char c :: nat in
     (97 \<le> n \<and> n \<le> 122) \<or> (65 \<le> n \<and> n \<le> 90) \<or> (48 \<le> n \<and> n \<le> 57))"

text \<open>One half of the pattern: \<^verbatim>\<open>[a-z0-9][a-z0-9._-]*\<close>.\<close>

fun op_half :: "string \<Rightarrow> bool" where
  "op_half [] = False"
| "op_half (c # cs) = (is_lower_alnum c \<and>
     list_all (\<lambda>d. is_lower_alnum d \<or> d \<in> set ''._-'') cs)"

text \<open>
  \<^verbatim>\<open>^[a-z0-9][a-z0-9._-]*/[a-z0-9][a-z0-9._-]*$\<close> on a stripped string: neither half
  admits a slash, so the split is at the first one.
\<close>

definition declared_op_shape :: "string \<Rightarrow> bool" where
  "declared_op_shape s = (let ns = takeWhile (\<lambda>c. c \<noteq> CHR ''/'') s;
                              rest = dropWhile (\<lambda>c. c \<noteq> CHR ''/'') s
                          in op_half ns \<and> rest \<noteq> [] \<and> op_half (tl rest))"

definition is_declared_operation_id :: "pyval \<Rightarrow> bool" where
  "is_declared_operation_id v = (case v of PStr s \<Rightarrow> declared_op_shape (strip s) | _ \<Rightarrow> False)"

text \<open>\<^verbatim>\<open>^[A-Za-z0-9][A-Za-z0-9._:-]*$\<close>.\<close>

fun declared_op_token :: "string \<Rightarrow> bool" where
  "declared_op_token [] = False"
| "declared_op_token (c # cs) = (is_alnum_ascii c \<and>
     list_all (\<lambda>d. is_alnum_ascii d \<or> d \<in> set ''._:-'') cs)"

record declared_op =
  op_id :: string
  op_invoked_as :: "string list"
  op_risk_class :: string

fun clean_tokens :: "string set \<Rightarrow> pyval list \<Rightarrow> string list" where
  "clean_tokens seen [] = []"
| "clean_tokens seen (t # ts) = (case t of
     PStr s \<Rightarrow> (let s' = strip s in
       if s' = [] \<or> \<not> declared_op_token s' \<or> lower s' \<in> seen then clean_tokens seen ts
       else s' # clean_tokens seen ts)
   | _ \<Rightarrow> clean_tokens seen ts)"

text \<open>The row loop; \<open>ids\<close> and \<open>toks\<close> are \<^verbatim>\<open>seen_ids\<close> and \<^verbatim>\<open>seen_tokens\<close>.\<close>

fun declared_rows :: "string set \<Rightarrow> string set \<Rightarrow> pyval list \<Rightarrow> declared_op list" where
  "declared_rows ids toks [] = []"
| "declared_rows ids toks (item # rest) = (
     let oid = dget item ''id''; rc = dget item ''risk_class''; ts = dget item ''invoked_as'';
         oid' = strip (str_of oid); clean = clean_tokens toks (elems ts) in
     if \<not> is_dict item \<or> \<not> is_declared_operation_id oid \<or> oid' \<in> ids
        \<or> \<not> is_str rc \<or> strip (str_of rc) = [] \<or> \<not> is_list ts \<or> elems ts = [] \<or> clean = []
     then declared_rows ids toks rest
     else \<lparr>op_id = oid', op_invoked_as = clean, op_risk_class = strip (str_of rc)\<rparr> #
          declared_rows (insert oid' ids) (toks \<union> set (map lower clean)) rest)"

text \<open>
  \<open>data\<close> is the parsed \<^verbatim>\<open>instance/config/operations.yml\<close>, \<^verbatim>\<open>PNone\<close> when the file
  is absent, empty or unreadable. The process-wide cache of the result is not modelled.
\<close>

definition declared_operations :: "pyval \<Rightarrow> declared_op list" where
  "declared_operations data = declared_rows {} {} (elems (dget data ''operations''))"

lemma declared_op_shape_slash:
  assumes "declared_op_shape s"
  shows "CHR ''/'' \<in> set s"
proof -
  from assms have "dropWhile (\<lambda>c. c \<noteq> CHR ''/'') s \<noteq> []"
    by (simp add: declared_op_shape_def Let_def)
  then show ?thesis
    by (auto simp: dropWhile_eq_Nil_conv)
qed

lemma is_declared_operation_id_slash:
  "is_declared_operation_id (PStr s) \<Longrightarrow> CHR ''/'' \<in> set s"
  using set_strip declared_op_shape_slash by (auto simp: is_declared_operation_id_def)

text \<open>The two vocabularies cannot collide: no framework kind has the namespaced shape.\<close>

lemma framework_kind_not_declared:
  assumes "k \<in> set ACTION_TYPES"
  shows "\<not> is_declared_operation_id (PStr k)"
proof -
  have "list_all (\<lambda>a. CHR ''/'' \<notin> set a) ACTION_TYPES"
    by code_simp
  then show ?thesis
    using assms is_declared_operation_id_slash by (auto simp: list_all_iff)
qed

lemma declared_rows_sound:
  assumes "r \<in> set (declared_rows ids toks rows)"
  shows "declared_op_shape (op_id r) \<and> op_id r \<notin> ids \<and> op_invoked_as r \<noteq> []
     \<and> op_risk_class r \<noteq> []"
  using assms
proof (induction rows arbitrary: ids toks)
  case Nil
  then show ?case by simp
next
  case (Cons item rows)
  show ?case
    using Cons.prems Cons.IH
    by (fastforce simp: Let_def is_declared_operation_id_def split: if_splits pyval.splits)
qed

lemma declared_rows_distinct: "distinct (map op_id (declared_rows ids toks rows))"
proof (induction rows arbitrary: ids toks)
  case Nil
  show ?case by simp
next
  case (Cons item rows)
  then show ?case
    using declared_rows_sound by (fastforce simp: Let_def)
qed

lemma clean_tokens_fresh: "t \<in> set (clean_tokens seen ts) \<Longrightarrow> lower t \<notin> seen"
  by (induction ts) (auto simp: Let_def split: pyval.splits if_splits)

end
