(* ===== verification/Matrix.thy ===== *)
theory Matrix
  imports Authority_Vocab
begin

text \<open>
  The authority matrix: \<^verbatim>\<open>framework/authority/matrix.py\<close>. The floor is a YAML value; the
  validator is the list of its checks in source order, over arbitrary values (a malformed floor is
  an input like any other). Messages are cut to their fixed part. The parity probe and the command
  line entry are not modelled; reading the file is the caller's.
\<close>

section \<open>Vocabulary\<close>

definition RISK_CLASSES :: "string list" where
  "RISK_CLASSES = [''reversible'', ''read_only_dispatch'', ''draft_only'', ''pm_write'',
     ''calendar_write'', ''internal_comms'', ''external_comms'', ''deploy_nonprod'',
     ''deploy_prod'', ''spend'', ''secrets'', ''network_write'', ''credentials_grant'']"

definition VERDICTS :: "string list" where
  "VERDICTS = [''auto'', ''act_with_undo'', ''auto_with_veto_window'', ''notify_after'',
     ''propose_only'', ''always_gated'', ''classifier'', ''standing_grant'']"

definition POSTURES :: "string list" where
  "POSTURES = [''earn_up'', ''sovereign'']"

definition VERDICT_PERMISSIVENESS :: "(string \<times> nat) list" where
  "VERDICT_PERMISSIVENESS = [(''always_gated'', 0), (''propose_only'', 1), (''classifier'', 2),
     (''auto_with_veto_window'', 3), (''act_with_undo'', 4), (''notify_after'', 4), (''auto'', 5)]"

definition CONFIDENCE_STATES :: "string list" where
  "CONFIDENCE_STATES = [''unmeasured'', ''propose_only'', ''eligible'', ''graduated'', ''demote'']"

definition TRUST_FIRST_UNMEASURED :: "(string \<times> string) list" where
  "TRUST_FIRST_UNMEASURED =
     [(''reversible'', ''act_with_undo''), (''read_only_dispatch'', ''notify_after'')]"

definition MAPPABLE_ACTION_TYPES :: "string list" where
  "MAPPABLE_ACTION_TYPES = filter (\<lambda>a. a \<noteq> AMBIGUOUS) ACTION_TYPES"

definition ROOT_KEYS :: "string list" where "ROOT_KEYS = [''version'', ''policies'']"

definition POLICY_REQUIRED :: "string list" where
  "POLICY_REQUIRED = [''name'', ''type'', ''message'', ''risk_classes'', ''hard_ceiling'',
     ''ceiling_frozenset_map'', ''verdicts'', ''veto_window_minutes'', ''deploy'', ''bars'',
     ''cooldown_days'']"

definition POLICY_KEYS :: "string list" where
  "POLICY_KEYS = POLICY_REQUIRED @ [''description'', ''postures'']"

definition DEPLOY_KEYS :: "string list" where
  "DEPLOY_KEYS = [''safe_globs'', ''high_risk_globs'']"

definition BAR_KEYS :: "string list" where
  "BAR_KEYS = [''match_rate'', ''samples'', ''max_divergent_last10'', ''recency_clean_days'']"

section \<open>Accessors and the join with declared operations\<close>

abbreviation MErr :: "string \<Rightarrow> py_exc" where "MErr \<equiv> MatrixValidationError"

definition matrix_policy :: "pyval \<Rightarrow> py_exc + pyval" where
  "matrix_policy data =
     (if \<not> is_dict data \<or> \<not> is_list (dget data ''policies'')
      then Inl (MErr ''matrix has no policies list'')
      else (case filter (\<lambda>p. is_dict p \<and> dget p ''type'' = PStr ''authority_matrix'')
                   (elems (dget data ''policies'')) of
              [p] \<Rightarrow> Inr p
            | _ \<Rightarrow> Inl (MErr ''expected exactly one authority_matrix policy'')))"

text \<open>
  \<^verbatim>\<open>bind_declared_operations\<close> on the \<^verbatim>\<open>risk_classes\<close> dict; \<open>already\<close> is
  the set of kinds mapped so far. Any exception leaves the rows bound so far in place (the append
  is in place), and a value that cannot be hashed in the first sweep raises before any append.
\<close>

definition append_kind :: "pyval \<Rightarrow> string \<Rightarrow> string \<Rightarrow> pyval" where
  "append_kind rcs rc_name oid =
     (let entry = dget rcs rc_name in
      dput rcs rc_name (dput entry ''action_types''
        (PList (elems (dget entry ''action_types'') @ [PStr oid]))))"

fun bind_rows :: "pyval set \<Rightarrow> declared_op list \<Rightarrow> pyval \<Rightarrow> pyval" where
  "bind_rows already [] rcs = rcs"
| "bind_rows already (row # rows) rcs =
     (if PStr (op_id row) \<in> already \<or> \<not> is_declared_operation_id (PStr (op_id row))
      then bind_rows already rows rcs
      else let entry = dget rcs (op_risk_class row) in
        if \<not> is_dict entry \<or> \<not> is_list (dget entry ''action_types'')
        then bind_rows already rows rcs
        else bind_rows (insert (PStr (op_id row)) already) rows
               (append_kind rcs (op_risk_class row) (op_id row)))"

text \<open>\<^verbatim>\<open>for at in (rc.get("action_types") or [])\<close>: what that sweep can iterate and hash.\<close>

fun sweepable :: "pyval \<Rightarrow> bool" where
  "sweepable (PList xs) = list_all hashable xs"
| "sweepable (PStr _) = True"
| "sweepable (PDict _) = True"
| "sweepable v = (\<not> truthy v)"

fun swept :: "pyval \<Rightarrow> pyval list" where
  "swept (PList xs) = xs"
| "swept (PStr s) = map (\<lambda>c. PStr [c]) s"
| "swept (PDict kvs) = map (PStr \<circ> fst) kvs"
| "swept _ = []"

definition bind_declared_operations :: "declared_op list \<Rightarrow> pyval \<Rightarrow> pyval" where
  "bind_declared_operations rows policy =
     (let rcs = dget policy ''risk_classes'';
          ats = map (\<lambda>rc. dget rc ''action_types'') (filter is_dict (vals rcs)) in
      if rows = [] \<or> \<not> is_dict rcs \<or> \<not> list_all sweepable ats then policy
      else dput policy ''risk_classes'' (bind_rows (set (concat (map swept ats))) rows rcs))"

definition ceiling_cells :: "pyval \<Rightarrow> pyval \<Rightarrow> pyval list" where
  "ceiling_cells t rc = (case rc of PStr r \<Rightarrow> vals (dget t r) | _ \<Rightarrow> [])"

definition no_ceiling_or_prod_auto :: "pyval \<Rightarrow> bool" where
  "no_ceiling_or_prod_auto policy =
     (let tables = dget policy ''verdicts'' #
            map (\<lambda>e. dget e ''verdicts'')
              (filter (\<lambda>e. is_dict e \<and> is_dict (dget e ''verdicts'')) (vals (dget policy ''postures'')))
      in list_all (\<lambda>t. list_all (\<lambda>rc. PStr ''auto'' \<notin> set (ceiling_cells t rc))
                          (elems (dget policy ''hard_ceiling''))) tables)"

section \<open>The validator\<close>

definition reject_extra :: "pyval \<Rightarrow> string list \<Rightarrow> py_exc option" where
  "reject_extra d allowed =
     raise_if (\<not> set (keys d) \<subseteq> set allowed) (MErr ''additional properties not allowed'')"

definition require_keys :: "pyval \<Rightarrow> string list \<Rightarrow> py_exc option" where
  "require_keys d ks = for_each (\<lambda>k. raise_if (\<not> has_key d k) (MErr ''missing required field'')) ks"

text \<open>A membership test on a set or dict, or the construction of a set: unhashable values raise.\<close>

definition hash_check :: "pyval \<Rightarrow> py_exc option" where
  "hash_check v = raise_if (\<not> hashable v) (TypeError ''unhashable type'')"

definition is_member :: "pyval \<Rightarrow> string list \<Rightarrow> bool" where
  "is_member v xs \<longleftrightarrow> is_str v \<and> str_of v \<in> set xs"

text \<open>The nested loop over \<^verbatim>\<open>risk_classes.items()\<close> with the running set \<^verbatim>\<open>mapped\<close>.\<close>

fun check_kinds :: "pyval list \<Rightarrow> pyval list \<Rightarrow> py_exc + pyval list" where
  "check_kinds mapped [] = Inr mapped"
| "check_kinds mapped (k # ks) =
     (case run_checks
        [hash_check k,
         raise_if (\<not> is_member k MAPPABLE_ACTION_TYPES \<and> \<not> is_declared_operation_id k)
           (MErr ''action_type is neither a framework kind nor a declared operation id''),
         raise_if (k \<in> set mapped) (MErr ''action_type is mapped to more than one risk_class'')]
      of Some e \<Rightarrow> Inl e | None \<Rightarrow> check_kinds (k # mapped) ks)"

fun check_rows :: "pyval list \<Rightarrow> pydict \<Rightarrow> py_exc + pyval list" where
  "check_rows mapped [] = Inr mapped"
| "check_rows mapped ((name, rc) # rows) =
     (case run_checks
        [raise_if (\<not> is_dict rc) (MErr ''risk_class must be a mapping''),
         reject_extra rc [''action_types''],
         raise_if (\<not> is_list (dget rc ''action_types'') \<or> elems (dget rc ''action_types'') = [])
           (MErr ''action_types must be a non-empty list'')]
      of Some e \<Rightarrow> Inl e
       | None \<Rightarrow> (case check_kinds mapped (elems (dget rc ''action_types'')) of
                     Inl e \<Rightarrow> Inl e | Inr mapped' \<Rightarrow> check_rows mapped' rows))"

definition validate_risk_classes :: "pyval \<Rightarrow> py_exc option" where
  "validate_risk_classes rcs = run_checks
     [raise_if (\<not> is_dict rcs) (MErr ''risk_classes must be a mapping''),
      raise_if (set (keys rcs) \<noteq> set RISK_CLASSES) (MErr ''risk_classes must be exactly''),
      (case check_rows [] (items rcs) of
         Inl e \<Rightarrow> Some e
       | Inr mapped \<Rightarrow> raise_if (\<not> PStr ` set MAPPABLE_ACTION_TYPES \<subseteq> set mapped)
           (MErr ''action_types not mapped to any risk_class''))]"

definition validate_hard_ceiling :: "pyval \<Rightarrow> py_exc option" where
  "validate_hard_ceiling hc = run_checks
     [raise_if (\<not> is_list hc \<or> elems hc = []) (MErr ''hard_ceiling must be a non-empty list''),
      for_each hash_check (elems hc),
      raise_if (\<not> distinct (map py_norm (elems hc))) (MErr ''hard_ceiling contains duplicates''),
      raise_if (\<not> list_all (\<lambda>v. is_member v RISK_CLASSES) (elems hc))
        (MErr ''hard_ceiling references unknown risk_classes'')]"

definition check_ceiling_row :: "pyval \<Rightarrow> string \<Rightarrow> string list \<Rightarrow> py_exc option" where
  "check_ceiling_row rcs rc declared = (let ats = dget (dget rcs rc) ''action_types'' in run_checks
     [raise_if (declared = []) (MErr ''declared ceiling action_types are empty''),
      raise_if (\<not> is_list ats \<or> elems ats = [])
        (MErr ''action_types must be a non-empty list (hard-ceiling row)''),
      for_each hash_check (elems ats),
      raise_if (\<not> PStr ` set declared \<subseteq> set (elems ats))
        (MErr ''a hard-ceiling kind may never be relocated off its ceiling row''),
      raise_if (list_ex (\<lambda>a. a \<notin> PStr ` set declared \<and> \<not> is_declared_operation_id a) (elems ats))
        (MErr ''action_types carries a stray kind'')])"

definition validate_ceiling_class_mapping :: "pyval \<Rightarrow> pyval list \<Rightarrow> py_exc option" where
  "validate_ceiling_class_mapping rcs hc = run_checks
     [raise_if (\<not> is_dict rcs) (MErr ''risk_classes must be a mapping''),
      raise_if (PStr ` set (map fst CEILING_CLASS_ACTION_TYPES) \<noteq> set hc)
        (MErr ''hard_ceiling must be exactly the declared ceiling classes''),
      for_each (\<lambda>(rc, declared). check_ceiling_row rcs rc declared) CEILING_CLASS_ACTION_TYPES]"

definition validate_ceiling_map :: "pyval \<Rightarrow> pyval list \<Rightarrow> py_exc option" where
  "validate_ceiling_map cmap hc = run_checks
     [raise_if (\<not> is_dict cmap) (MErr ''ceiling_frozenset_map must be a mapping''),
      raise_if (PStr ` set (keys cmap) \<noteq> set hc)
        (MErr ''ceiling_frozenset_map keys must equal hard_ceiling''),
      for_each (\<lambda>v. run_checks [hash_check v,
          raise_if (\<not> is_member v HARD_CEILING_TOUCHES)
            (MErr ''value is not a member of HARD_CEILING_TOUCHES'')]) (vals cmap),
      raise_if (set (vals cmap) \<noteq> PStr ` set HARD_CEILING_TOUCHES)
        (MErr ''ceiling_frozenset_map must cover every HARD_CEILING_TOUCHES member'')]"

text \<open>\<^verbatim>\<open>_validate_verdicts\<close>; \<open>pt\<close> is \<^verbatim>\<open>posture_table\<close>.\<close>

definition check_cell :: "pyval list \<Rightarrow> bool \<Rightarrow> string \<Rightarrow> pyval \<Rightarrow> py_exc option" where
  "check_cell hc pt rc verdict = run_checks
     [hash_check verdict,
      raise_if (\<not> is_member verdict VERDICTS) (MErr ''verdict not in VERDICTS''),
      raise_if (verdict = PStr ''standing_grant'' \<and> \<not> pt)
        (MErr ''standing_grant is forbidden in the root/guardian verdicts table''),
      raise_if (verdict = PStr ''standing_grant'' \<and> PStr rc \<notin> set hc)
        (MErr ''standing_grant is only legal on a hard-ceiling row'')]"

definition check_verdict_row :: "pyval list \<Rightarrow> bool \<Rightarrow> string \<Rightarrow> pyval \<Rightarrow> py_exc option" where
  "check_verdict_row hc pt rc states = run_checks
     [raise_if (\<not> is_dict states \<or> items states = []) (MErr ''row must be a non-empty mapping''),
      for_each (check_cell hc pt rc) (vals states),
      (if PStr rc \<in> set hc then run_checks
         [raise_if (set (keys states) \<noteq> {''*''})
            (MErr ''hard-ceiling row must use the single * wildcard''),
          for_each (\<lambda>verdict.
            if pt then raise_if (verdict \<notin> {PStr ''always_gated'', PStr ''standing_grant''})
                         (MErr ''posture-table hard-ceiling rows must be gated or standing_grant'')
            else raise_if (verdict \<noteq> PStr ''always_gated'')
                   (MErr ''hard-ceiling rows must be always_gated'')) (vals states)]
       else raise_if (set (keys states) \<noteq> set CONFIDENCE_STATES)
              (MErr ''row must cover all confidence states''))]"

definition validate_verdicts :: "pyval \<Rightarrow> pyval list \<Rightarrow> bool \<Rightarrow> py_exc option" where
  "validate_verdicts verdicts hc pt = run_checks
     [raise_if (\<not> is_dict verdicts) (MErr ''verdicts must be a mapping''),
      raise_if (set (keys verdicts) \<noteq> set RISK_CLASSES) (MErr ''verdicts must cover exactly''),
      for_each (\<lambda>(rc, states). check_verdict_row hc pt rc states) (items verdicts)]"

definition check_act_first_row :: "pyval list \<Rightarrow> string \<Rightarrow> pyval \<Rightarrow> py_exc option" where
  "check_act_first_row hc rc states =
     (if PStr rc \<in> set hc
      then raise_if (rc \<in> set (map fst TRUST_FIRST_UNMEASURED))
             (MErr ''trust-first class may not be moved under the hard ceiling'')
      else if \<not> is_dict states then None
      else run_checks
        [for_each hash_check (vals states),
         (if PStr ''act_with_undo'' \<in> set (vals states) then run_checks
            [raise_if (dget states ''unmeasured'' \<noteq> PStr ''act_with_undo'')
               (MErr ''grants act_with_undo but not at unmeasured''),
             raise_if (dget states ''demote'' \<noteq> PStr ''propose_only'')
               (MErr ''an act_with_undo row must demote to propose_only'')]
          else None),
         (case map_of TRUST_FIRST_UNMEASURED rc of
            None \<Rightarrow> None
          | Some pinned \<Rightarrow> run_checks
              [raise_if (dget states ''unmeasured'' \<noteq> PStr pinned)
                 (MErr ''the trust-inversion floor pins this cell''),
               raise_if (dget states ''demote'' \<noteq> PStr ''propose_only'')
                 (MErr ''trust-first rows must demote to propose_only'')])])"

definition validate_act_first_floor :: "pyval \<Rightarrow> pyval list \<Rightarrow> py_exc option" where
  "validate_act_first_floor verdicts hc =
     for_each (\<lambda>(rc, states). check_act_first_row hc rc states) (items verdicts)"

definition rank :: "pyval \<Rightarrow> nat option" where
  "rank v = (case v of PStr s \<Rightarrow> map_of VERDICT_PERMISSIVENESS s | _ \<Rightarrow> None)"

definition check_narrow_cell :: "pyval \<Rightarrow> string \<Rightarrow> pyval \<Rightarrow> py_exc option" where
  "check_narrow_cell root_row state verdict =
     (let root_verdict = dget_or root_row state (dget root_row ''*'') in run_checks
        [raise_if (verdict = PStr ''standing_grant'') (MErr ''standing_grant is forbidden in earn_up''),
         hash_check root_verdict,
         raise_if (rank root_verdict = None) (MErr ''root verdict is not orderable''),
         raise_if (rank verdict = None) (KeyError ''VERDICT_PERMISSIVENESS''),
         raise_if (the (rank root_verdict) < the (rank verdict)) (MErr ''earn_up may only narrow'')])"

definition validate_earn_up_narrows :: "pyval \<Rightarrow> pyval \<Rightarrow> py_exc option" where
  "validate_earn_up_narrows table root_verdicts =
     for_each (\<lambda>(rc, states). run_checks
       [raise_if (\<not> is_dict (dget root_verdicts rc)) (MErr ''no root/guardian row to narrow against''),
        for_each (\<lambda>(state, verdict). check_narrow_cell (dget root_verdicts rc) state verdict)
          (items states)]) (items table)"

definition check_demote_invariance :: "pyval list \<Rightarrow> pyval \<Rightarrow> string \<Rightarrow> pyval \<Rightarrow> py_exc option" where
  "check_demote_invariance hc root_verdicts rc states =
     (if PStr rc \<in> set hc then None
      else run_checks
        [raise_if (\<not> is_dict (dget root_verdicts rc) \<or> \<not> has_key (dget root_verdicts rc) ''demote'')
           (MErr ''root verdicts row has no demote cell''),
         raise_if (dget states ''demote'' \<noteq> dget (dget root_verdicts rc) ''demote'')
           (MErr ''demote is posture-invariant'')])"

definition check_posture_entry :: "pyval list \<Rightarrow> pyval \<Rightarrow> string \<Rightarrow> pyval \<Rightarrow> py_exc option" where
  "check_posture_entry hc root_verdicts name entry =
     (let table = dget entry ''verdicts'' in run_checks
        [raise_if (\<not> is_dict entry) (MErr ''posture must be a mapping''),
         require_keys entry [''verdicts''],
         reject_extra entry [''verdicts''],
         validate_verdicts table hc True,
         (if name = ''earn_up'' then validate_earn_up_narrows table root_verdicts else None),
         for_each (\<lambda>(rc, states). check_demote_invariance hc root_verdicts rc states)
           (items table)])"

definition validate_postures :: "pyval \<Rightarrow> py_exc option" where
  "validate_postures policy =
     (if \<not> is_dict policy \<or> \<not> has_key policy ''postures'' then None
      else let postures = dget policy ''postures''; hc = elems (dget policy ''hard_ceiling'');
               root_verdicts = dget policy ''verdicts'' in run_checks
        [raise_if (\<not> is_dict postures \<or> items postures = [])
           (MErr ''postures must be a non-empty mapping''),
         raise_if (has_key postures ''guardian'') (MErr ''postures.guardian is forbidden''),
         raise_if (\<not> set (keys postures) \<subseteq> set POSTURES) (MErr ''postures keys must be a subset''),
         raise_if (\<not> is_list (dget policy ''hard_ceiling'') \<or> \<not> is_dict root_verdicts)
           (MErr ''postures require a well-formed hard_ceiling list + root verdicts''),
         for_each hash_check hc,
         for_each (\<lambda>(name, entry). check_posture_entry hc root_verdicts name entry)
           (items postures)])"

definition validate_veto_window :: "pyval \<Rightarrow> py_exc option" where
  "validate_veto_window v = raise_if (\<not> is_int v \<or> int_of v \<le> 0)
     (MErr ''veto_window_minutes must be a positive integer'')"

definition validate_deploy :: "pyval \<Rightarrow> py_exc option" where
  "validate_deploy deploy = run_checks
     [raise_if (\<not> is_dict deploy) (MErr ''deploy must be a mapping''),
      reject_extra deploy DEPLOY_KEYS,
      for_each (\<lambda>key. let globs = dget deploy key in run_checks
        [raise_if (\<not> is_list globs \<or> elems globs = []) (MErr ''deploy globs must be a non-empty list''),
         for_each (\<lambda>g. raise_if (\<not> is_str g \<or> str_of g = [])
           (MErr ''deploy entries must be non-empty strings'')) (elems globs)])
        [''safe_globs'', ''high_risk_globs'']]"

definition check_bar :: "pyval \<Rightarrow> py_exc option" where
  "check_bar bar = (let mr = dget bar ''match_rate'' in run_checks
     [raise_if (\<not> is_dict bar) (MErr ''bar must be a mapping''),
      reject_extra bar BAR_KEYS,
      require_keys bar BAR_KEYS,
      raise_if (\<not> is_number mr \<or> \<not> (0 \<le> num_of mr \<and> num_of mr \<le> 1))
        (MErr ''match_rate must be in [0, 1]''),
      for_each (\<lambda>k. raise_if (\<not> is_int (dget bar k) \<or> int_of (dget bar k) < 0)
        (MErr ''must be a non-negative integer''))
        [''samples'', ''max_divergent_last10'', ''recency_clean_days'']])"

definition validate_bars :: "pyval \<Rightarrow> py_exc option" where
  "validate_bars bars = run_checks
     [raise_if (\<not> is_dict bars \<or> \<not> has_key bars ''default'')
        (MErr ''bars must be a mapping with a default entry''),
      for_each check_bar (vals bars)]"

definition validate_cooldowns :: "pyval \<Rightarrow> py_exc option" where
  "validate_cooldowns cooldowns = run_checks
     [raise_if (\<not> is_dict cooldowns \<or> \<not> has_key cooldowns ''default'')
        (MErr ''cooldown_days must be a mapping with a default entry''),
      for_each (\<lambda>days. raise_if (\<not> is_int days \<or> int_of days < 0)
        (MErr ''must be a non-negative integer'')) (vals cooldowns)]"

definition validate_policy :: "pyval \<Rightarrow> py_exc option" where
  "validate_policy policy =
     (let hc = elems (dget policy ''hard_ceiling'') in run_checks
        [require_keys policy POLICY_REQUIRED,
         reject_extra policy POLICY_KEYS,
         raise_if (dget policy ''type'' \<noteq> PStr ''authority_matrix'')
           (MErr ''policy.type must be authority_matrix''),
         raise_if (\<not> is_str (dget policy ''name'') \<or> str_of (dget policy ''name'') = [])
           (MErr ''policy.name must be a non-empty string''),
         raise_if (\<not> is_str (dget policy ''message'') \<or> str_of (dget policy ''message'') = [])
           (MErr ''policy.message must be a non-empty string''),
         validate_risk_classes (dget policy ''risk_classes''),
         validate_hard_ceiling (dget policy ''hard_ceiling''),
         validate_ceiling_class_mapping (dget policy ''risk_classes'') hc,
         validate_ceiling_map (dget policy ''ceiling_frozenset_map'') hc,
         validate_verdicts (dget policy ''verdicts'') hc False,
         validate_act_first_floor (dget policy ''verdicts'') hc,
         validate_postures policy,
         validate_veto_window (dget policy ''veto_window_minutes''),
         validate_deploy (dget policy ''deploy''),
         validate_bars (dget policy ''bars''),
         validate_cooldowns (dget policy ''cooldown_days'')])"

definition validate_matrix :: "pyval \<Rightarrow> py_exc option" where
  "validate_matrix data = run_checks
     [raise_if (\<not> is_dict data) (MErr ''matrix must be a mapping''),
      require_keys data ROOT_KEYS,
      reject_extra data ROOT_KEYS,
      raise_if (\<not> py_eq (dget data ''version'') (PInt 1) \<or> is_bool (dget data ''version''))
        (MErr ''version must be the integer 1''),
      raise_if (\<not> is_list (dget data ''policies'') \<or> elems (dget data ''policies'') = [])
        (MErr ''policies must be a non-empty list''),
      (case matrix_policy data of Inl e \<Rightarrow> Some e | Inr policy \<Rightarrow> validate_policy policy)]"

end
