(* ===== verification/Matrix_Laws.thy ===== *)
theory Matrix_Laws
  imports Matrix
begin

text \<open>
  What a matrix that passes \<^verbatim>\<open>validate_matrix\<close> is known to satisfy: the ceiling rows, their
  kinds, the verdict tables and the posture tables, stated on lookups so that the gate's theory can
  use them as they are. The first section also reads a cell of the verdict tables the way
  \<^verbatim>\<open>policy_engine.risk_of\<close> and \<^verbatim>\<open>policy_engine.resolve_verdict\<close> do.
\<close>

section \<open>Lookups\<close>

definition risk_of :: "string \<Rightarrow> pyval \<Rightarrow> string option" where
  "risk_of action_type risk_classes =
     map_option fst (find (\<lambda>(rc_name, rc). is_dict rc \<and> is_list (dget rc ''action_types'')
       \<and> PStr action_type \<in> set (elems (dget rc ''action_types''))) (items risk_classes))"

definition POSTURE_TABLES :: "string list" where
  "POSTURE_TABLES = [''sovereign'', ''earn_up'']"

definition select_table :: "pyval \<Rightarrow> string option \<Rightarrow> pyval \<Rightarrow> pyval" where
  "select_table verdicts posture postures =
     (case posture of None \<Rightarrow> verdicts
      | Some p \<Rightarrow>
          (let entry = dget postures p in
           if p \<in> set POSTURE_TABLES \<and> is_dict postures \<and> is_dict entry
              \<and> is_dict (dget entry ''verdicts'')
           then dget entry ''verdicts'' else verdicts))"

definition resolve_verdict :: "pyval \<Rightarrow> string \<Rightarrow> string \<Rightarrow> string option \<Rightarrow> pyval \<Rightarrow> pyval" where
  "resolve_verdict verdicts risk_class state posture postures =
     (let row = dget (select_table verdicts posture postures) risk_class in
      if \<not> is_dict (select_table verdicts posture postures) \<or> \<not> is_dict row
      then PStr ''propose_only''
      else if has_key row state then dget row state
      else if has_key row ''*'' then dget row ''*''
      else PStr ''propose_only'')"

section \<open>From the validator to lookups\<close>

lemma is_dict_has_key: "is_dict (dget d k) \<Longrightarrow> has_key d k"
  by (rule dget_not_None_has_key) auto

lemma hash_check_None [simp, checks]: "hash_check v = None \<longleftrightarrow> hashable v"
  by (simp add: hash_check_def)

lemma require_keys_None [simp, checks]:
  "require_keys d ks = None \<longleftrightarrow> (\<forall>k \<in> set ks. has_key d k)"
  by (simp add: require_keys_def)

lemma reject_extra_None [simp, checks]:
  "reject_extra d ks = None \<longleftrightarrow> set (keys d) \<subseteq> set ks"
  by (simp add: reject_extra_def)

lemma item_row: "has_key d k \<Longrightarrow> \<forall>(x, y) \<in> set (items d). P x y \<Longrightarrow> P k (dget d k)"
  using has_key_dget by fastforce

lemma key_in_items: "k \<in> set (keys d) \<Longrightarrow> (k, dget d k) \<in> set (items d)"
  using has_key_dget has_key_iff by blast

lemma dget_in_vals: "has_key d k \<Longrightarrow> dget d k \<in> set (vals d)"
  using has_key_dget [of d k] by (force simp: vals_def)

lemma validate_matrix_policy:
  assumes "validate_matrix data = None"
  obtains p where "matrix_policy data = Inr p" "validate_policy p = None"
  using assms by (auto simp: validate_matrix_def split: sum.splits)

lemma is_member_iff: "is_member v xs \<longleftrightarrow> (\<exists>s \<in> set xs. v = PStr s)"
  by (cases v) (auto simp: is_member_def)

text \<open>The parts of a validated policy; each is unfolded where it is used, never all at once.\<close>

lemma validated_parts:
  assumes "validate_policy p = None"
  shows "validate_risk_classes (dget p ''risk_classes'') = None"
    and "validate_ceiling_class_mapping (dget p ''risk_classes'') (elems (dget p ''hard_ceiling'')) = None"
    and "validate_verdicts (dget p ''verdicts'') (elems (dget p ''hard_ceiling'')) False = None"
    and "validate_act_first_floor (dget p ''verdicts'') (elems (dget p ''hard_ceiling'')) = None"
    and "validate_postures p = None"
    and "validate_bars (dget p ''bars'') = None"
    and "\<forall>k \<in> set POLICY_REQUIRED. has_key p k"
  using assms by (simp_all add: validate_policy_def Let_def)

lemma validated_ceiling:
  assumes "validate_policy p = None"
  shows "set (elems (dget p ''hard_ceiling'')) = PStr ` set (map fst CEILING_CLASS_ACTION_TYPES)"
  using validated_parts(2) [OF assms] by (simp add: validate_ceiling_class_mapping_def)

text \<open>A row of a verdict table, and the cells of a row.\<close>

lemma validate_verdicts_row:
  assumes "validate_verdicts t hc pt = None" "rc \<in> set RISK_CLASSES"
  shows "check_verdict_row hc pt rc (dget t rc) = None"
proof -
  from assms have "(rc, dget t rc) \<in> set (items t)"
    by (simp add: validate_verdicts_def key_in_items)
  then show ?thesis
    using assms(1) by (auto simp: validate_verdicts_def)
qed

lemma check_verdict_row_dict:
  "check_verdict_row hc pt rc row = None \<Longrightarrow> is_dict row"
  by (simp add: check_verdict_row_def)

lemma check_verdict_row_cell:
  assumes "check_verdict_row hc pt rc row = None" "v \<in> set (vals row)"
  shows "check_cell hc pt rc v = None"
  using assms by (simp add: check_verdict_row_def)

lemma ceiling_row_keys:
  assumes "check_verdict_row hc pt rc row = None" "PStr rc \<in> set hc"
  shows "set (keys row) = {''*''}"
  using assms by (simp add: check_verdict_row_def)

lemma plain_row_keys:
  assumes "check_verdict_row hc pt rc row = None" "PStr rc \<notin> set hc"
  shows "set (keys row) = set CONFIDENCE_STATES"
  using assms by (simp add: check_verdict_row_def)

lemma ceiling_row_root:
  assumes "check_verdict_row hc False rc row = None" "PStr rc \<in> set hc" "v \<in> set (vals row)"
  shows "v = PStr ''always_gated''"
  using assms by (simp add: check_verdict_row_def)

lemma ceiling_row_posture:
  assumes "check_verdict_row hc True rc row = None" "PStr rc \<in> set hc" "v \<in> set (vals row)"
  shows "v = PStr ''always_gated'' \<or> v = PStr ''standing_grant''"
  using assms by (auto simp: check_verdict_row_def)

text \<open>What a lookup in a validated table returns: a cell of the row.\<close>

definition table_cell :: "pyval \<Rightarrow> string \<Rightarrow> string \<Rightarrow> pyval" where
  "table_cell t rc state = (let row = dget t rc in
     if has_key row state then dget row state else dget row ''*'')"

lemma validated_cell:
  assumes "validate_verdicts t hc pt = None" "rc \<in> set RISK_CLASSES"
    "state \<in> set CONFIDENCE_STATES"
  shows "table_cell t rc state \<in> set (vals (dget t rc))"
    and "has_key (dget t rc) state \<or> has_key (dget t rc) ''*''"
proof -
  have row: "check_verdict_row hc pt rc (dget t rc) = None"
    using assms by (simp add: validate_verdicts_row)
  show *: "has_key (dget t rc) state \<or> has_key (dget t rc) ''*''"
    using ceiling_row_keys [OF row] plain_row_keys [OF row] assms(3)
    by (cases "PStr rc \<in> set hc") (auto simp: has_key_iff)
  then show "table_cell t rc state \<in> set (vals (dget t rc))"
    by (auto simp: table_cell_def Let_def dget_in_vals)
qed

lemma validated_cell_member:
  assumes "validate_verdicts t hc pt = None" "rc \<in> set RISK_CLASSES"
    "state \<in> set CONFIDENCE_STATES"
  shows "is_member (table_cell t rc state) VERDICTS"
  using check_verdict_row_cell [OF validate_verdicts_row [OF assms(1,2)] validated_cell(1) [OF assms]]
  by (simp add: check_cell_def)

lemma resolve_in_table:
  assumes t: "select_table v posture postures = t"
    and val: "validate_verdicts t hc pt = None"
    and rc: "rc \<in> set RISK_CLASSES" and st: "state \<in> set CONFIDENCE_STATES"
  shows "resolve_verdict v rc state posture postures = table_cell t rc state"
proof -
  have "is_dict t"
    using val by (simp add: validate_verdicts_def)
  moreover have "is_dict (dget t rc)"
    using check_verdict_row_dict validate_verdicts_row [OF val rc] by blast
  ultimately show ?thesis
    using validated_cell(2) [OF val rc st]
    by (auto simp: resolve_verdict_def t Let_def table_cell_def)
qed

text \<open>The posture tables of a validated policy.\<close>

lemma validated_posture_entry:
  assumes p: "validate_policy p = None"
    and name: "has_key (dget p ''postures'') name"
  shows "check_posture_entry (elems (dget p ''hard_ceiling'')) (dget p ''verdicts'') name
           (dget (dget p ''postures'') name) = None"
proof -
  have d: "is_dict p"
    using validated_parts(7) [OF p] by (auto simp: POLICY_REQUIRED_def has_key_def
        dest: dget_opt_dict)
  have k: "has_key p ''postures''"
    using name dget_opt_dict [of "dget p ''postures''"] dget_not_None_has_key [of p]
    by (force simp: has_key_def)
  note post = validated_parts(5) [OF p]
  from post have "\<forall>(n, entry) \<in> set (items (dget p ''postures'')).
      check_posture_entry (elems (dget p ''hard_ceiling'')) (dget p ''verdicts'') n entry = None"
    using d k by (simp add: validate_postures_def Let_def case_prod_beta)
  then show ?thesis
    by (rule item_row [OF name])
qed

lemma validated_tables:
  assumes "validate_policy p = None"
  defines "hc \<equiv> elems (dget p ''hard_ceiling'')"
  obtains pt where
    "validate_verdicts (select_table (dget p ''verdicts'') posture (dget p ''postures'')) hc pt = None"
    "pt \<longrightarrow> posture \<noteq> None"
proof (cases "select_table (dget p ''verdicts'') posture (dget p ''postures'') = dget p ''verdicts''")
  case True
  then show thesis
    using validated_parts(3) [OF assms(1)] that [of False] by (simp add: hc_def)
next
  case False
  then obtain name where name: "posture = Some name" "is_dict (dget (dget p ''postures'') name)"
    and sel: "select_table (dget p ''verdicts'') posture (dget p ''postures'')
                = dget (dget (dget p ''postures'') name) ''verdicts''"
    by (auto simp: select_table_def Let_def split: option.splits if_splits)
  have "has_key (dget p ''postures'') name"
    using name(2) by (rule is_dict_has_key)
  from validated_posture_entry [OF assms(1) this] show thesis
    using that [of True] name sel by (simp add: check_posture_entry_def Let_def hc_def)
qed

section \<open>The mapping of kinds to rows\<close>

definition row_kinds :: "pydict \<Rightarrow> pyval list" where
  "row_kinds rows = concat (map (\<lambda>(n, rc). elems (dget rc ''action_types'')) rows)"

lemma row_kinds_simps [simp]:
  "row_kinds [] = []"
  "row_kinds ((n, rc) # rows) = elems (dget rc ''action_types'') @ row_kinds rows"
  by (simp_all add: row_kinds_def)

lemma row_kinds_iff:
  "k \<in> set (row_kinds rows) \<longleftrightarrow> (\<exists>(n, rc) \<in> set rows. k \<in> set (elems (dget rc ''action_types'')))"
  by (auto simp: row_kinds_def)

lemma check_kinds_mapped:
  "check_kinds mapped ks = Inr m \<Longrightarrow>
     m = rev ks @ mapped \<and> (distinct mapped \<longrightarrow> distinct m)"
proof (induction ks arbitrary: mapped m)
  case Nil
  then show ?case by simp
next
  case (Cons k ks)
  then show ?case
    by (fastforce split: option.splits)
qed

lemma check_rows_mapped:
  "check_rows mapped rows = Inr m \<Longrightarrow>
     set m = set mapped \<union> set (row_kinds rows) \<and>
     (distinct mapped \<longrightarrow> distinct (row_kinds rows) \<and> set (row_kinds rows) \<inter> set mapped = {})"
proof (induction rows arbitrary: mapped m)
  case Nil
  then show ?case by simp
next
  case (Cons row rows)
  obtain name rc where row: "row = (name, rc)" by (cases row)
  obtain m1 where m1: "check_kinds mapped (elems (dget rc ''action_types'')) = Inr m1"
    and m: "check_rows m1 rows = Inr m"
    using Cons.prems row by (auto split: option.splits sum.splits)
  note ks = check_kinds_mapped [OF m1] and rs = Cons.IH [OF m]
  show ?case
    using ks rs unfolding row row_kinds_simps set_append by auto
qed

lemma check_rows_shape:
  "check_rows mapped rows = Inr m \<Longrightarrow> (n, rc) \<in> set rows \<Longrightarrow>
     is_dict rc \<and> is_list (dget rc ''action_types'')"
  by (induction rows arbitrary: mapped)
    (auto split: option.splits sum.splits)

lemma distinct_kinds_unique:
  assumes "distinct (row_kinds rows)" "(n, rc) \<in> set rows" "(n', rc') \<in> set rows"
    "k \<in> set (elems (dget rc ''action_types''))" "k \<in> set (elems (dget rc' ''action_types''))"
  shows "(n, rc) = (n', rc')"
  using assms
proof (induction rows)
  case Nil
  then show ?case by simp
next
  case (Cons row rows)
  obtain m rm where row: "row = (m, rm)" by (cases row)
  have fresh: "(x, y) \<in> set rows \<Longrightarrow> k \<in> set (elems (dget y ''action_types'')) \<Longrightarrow>
      k \<notin> set (elems (dget rm ''action_types''))" for x y
    using Cons.prems(1) row_kinds_iff [of k rows] by (auto simp: row disjoint_iff)
  show ?case
    using Cons.prems Cons.IH fresh [of n rc] fresh [of n' rc'] by (auto simp: row)
qed

lemma find_Some_unique:
  assumes "x \<in> set xs" "P x" "\<And>y. y \<in> set xs \<Longrightarrow> P y \<Longrightarrow> y = x"
  shows "find P xs = Some x"
proof (cases "find P xs")
  case None
  then show ?thesis using assms(1,2) by (auto simp: find_None_iff)
next
  case (Some y)
  then have "y \<in> set xs \<and> P y"
    by (rule find_SomeD)
  then show ?thesis using assms(3) [of y] Some by blast
qed

lemma risk_of_unique:
  assumes rcs: "validate_risk_classes rcs = None"
    and row: "(n, rc) \<in> set (items rcs)" and k: "PStr a \<in> set (elems (dget rc ''action_types''))"
  shows "risk_of a rcs = Some n"
proof -
  obtain m where m: "check_rows [] (items rcs) = Inr m"
    using rcs by (auto simp: validate_risk_classes_def split: sum.splits)
  have dist: "distinct (row_kinds (items rcs))"
    using check_rows_mapped [OF m] by simp
  define P where "P = (\<lambda>(rc_name :: string, rc). is_dict rc \<and> is_list (dget rc ''action_types'')
       \<and> PStr a \<in> set (elems (dget rc ''action_types'')))"
  have "find P (items rcs) = Some (n, rc)"
  proof (rule find_Some_unique [OF row])
    show "P (n, rc)"
      using check_rows_shape [OF m row] k by (simp add: P_def)
  next
    fix y
    assume y: "y \<in> set (items rcs)" "P y"
    obtain n' rc' where "y = (n', rc')" by (cases y)
    then show "y = (n, rc)"
      using distinct_kinds_unique [OF dist _ row _ k, of n' rc'] y by (simp add: P_def)
  qed
  then show ?thesis
    by (simp add: risk_of_def P_def)
qed

lemma risk_of_total:
  assumes rcs: "validate_risk_classes rcs = None" and k: "a \<in> set MAPPABLE_ACTION_TYPES"
  shows "\<exists>n \<in> set RISK_CLASSES. risk_of a rcs = Some n"
proof -
  obtain m where m: "check_rows [] (items rcs) = Inr m"
      and all: "PStr ` set MAPPABLE_ACTION_TYPES \<subseteq> set m"
      and ks: "set (keys rcs) = set RISK_CLASSES"
    using rcs by (auto simp: validate_risk_classes_def split: sum.splits)
  from all k have "PStr a \<in> set (row_kinds (items rcs))"
    using check_rows_mapped [OF m] by auto
  then obtain n rc where row: "(n, rc) \<in> set (items rcs)"
      and a: "PStr a \<in> set (elems (dget rc ''action_types''))"
    by (auto simp: row_kinds_iff)
  have "n \<in> set RISK_CLASSES"
    using row ks by (force simp: keys_def)
  then show ?thesis
    using risk_of_unique [OF rcs row a] by blast
qed

lemma ceiling_kind_row:
  assumes p: "validate_policy p = None"
    and c: "(rc, declared) \<in> set CEILING_CLASS_ACTION_TYPES" and a: "a \<in> set declared"
  shows "risk_of a (dget p ''risk_classes'') = Some rc"
proof -
  let ?rcs = "dget p ''risk_classes''"
  have rcs: "validate_risk_classes ?rcs = None"
    by (rule validated_parts(1) [OF p])
  have "\<forall>(rc, declared) \<in> set CEILING_CLASS_ACTION_TYPES. check_ceiling_row ?rcs rc declared = None"
    using validated_parts(2) [OF p] by (simp add: validate_ceiling_class_mapping_def case_prod_beta)
  then have "check_ceiling_row ?rcs rc declared = None"
    using c by blast
  then have a': "PStr a \<in> set (elems (dget (dget ?rcs rc) ''action_types''))"
    using a by (auto simp: check_ceiling_row_def Let_def)
  have "list_all (\<lambda>(rc, _). rc \<in> set RISK_CLASSES) CEILING_CLASS_ACTION_TYPES"
    by code_simp
  then have "rc \<in> set (keys ?rcs)"
    using c rcs by (auto simp: validate_risk_classes_def list_all_iff)
  then show ?thesis
    using risk_of_unique [OF rcs key_in_items a'] by simp
qed

end
