(* ===== verification/Matrix_Bind.thy ===== *)
theory Matrix_Bind
  imports Matrix_Laws
begin

text \<open>
  \<^verbatim>\<open>bind_declared_operations\<close> keeps a validated floor valid: the characterisation of the
  row checks as plain conditions on the rows, and the invariant of the binding loop.
\<close>

section \<open>The row checks as conditions\<close>

definition kind_ok :: "pyval \<Rightarrow> bool" where
  "kind_ok k \<longleftrightarrow> hashable k \<and> (is_member k MAPPABLE_ACTION_TYPES \<or> is_declared_operation_id k)"

definition row_ok :: "pyval \<Rightarrow> bool" where
  "row_ok rc \<longleftrightarrow> is_dict rc \<and> set (keys rc) \<subseteq> {''action_types''} \<and> is_list (dget rc ''action_types'')
     \<and> elems (dget rc ''action_types'') \<noteq> []
     \<and> list_all kind_ok (elems (dget rc ''action_types''))"

lemma check_kinds_Inr:
  "(\<exists>m. check_kinds mapped ks = Inr m) \<longleftrightarrow>
     list_all kind_ok ks \<and> distinct ks \<and> set ks \<inter> set mapped = {}"
proof (induction ks arbitrary: mapped)
  case Nil
  show ?case by simp
next
  case (Cons k ks)
  show ?case
    using Cons.IH [of "k # mapped"]
    by (auto simp: kind_ok_def)
qed

lemma check_rows_Cons:
  "check_rows mapped ((n, rc) # rows) = Inr m \<longleftrightarrow>
     is_dict rc \<and> set (keys rc) \<subseteq> {''action_types''} \<and> is_list (dget rc ''action_types'')
     \<and> elems (dget rc ''action_types'') \<noteq> []
     \<and> (\<exists>m1. check_kinds mapped (elems (dget rc ''action_types'')) = Inr m1
          \<and> check_rows m1 rows = Inr m)"
  by auto

lemma check_rows_Inr:
  "(\<exists>m. check_rows mapped rows = Inr m) \<longleftrightarrow>
     (\<forall>(n, rc) \<in> set rows. row_ok rc) \<and> distinct (row_kinds rows)
     \<and> set (row_kinds rows) \<inter> set mapped = {}"
proof (induction rows arbitrary: mapped)
  case Nil
  show ?case by simp
next
  case (Cons row rows)
  obtain n rc where row: "row = (n, rc)" by (cases row)
  let ?ks = "elems (dget rc ''action_types'')"
  have ks: "check_kinds mapped ?ks = Inr m1 \<Longrightarrow> set m1 = set ?ks \<union> set mapped" for m1
    using check_kinds_mapped by fastforce
  have "(\<exists>m. check_rows mapped (row # rows) = Inr m) \<longleftrightarrow>
      is_dict rc \<and> set (keys rc) \<subseteq> {''action_types''} \<and> is_list (dget rc ''action_types'')
      \<and> ?ks \<noteq> [] \<and> (\<exists>m1. check_kinds mapped ?ks = Inr m1 \<and> (\<exists>m. check_rows m1 rows = Inr m))"
    unfolding row check_rows_Cons by blast
  also have "(\<exists>m1. check_kinds mapped ?ks = Inr m1 \<and> (\<exists>m. check_rows m1 rows = Inr m)) \<longleftrightarrow>
      (\<exists>m1. check_kinds mapped ?ks = Inr m1) \<and> (\<forall>(n, rc) \<in> set rows. row_ok rc)
      \<and> distinct (row_kinds rows) \<and> set (row_kinds rows) \<inter> (set ?ks \<union> set mapped) = {}"
    unfolding Cons.IH using ks by fast
  finally show ?case
    unfolding check_kinds_Inr row by (auto simp: row_ok_def)
qed

lemma validate_risk_classes_iff:
  "validate_risk_classes rcs = None \<longleftrightarrow>
     is_dict rcs \<and> set (keys rcs) = set RISK_CLASSES \<and> (\<forall>(n, rc) \<in> set (items rcs). row_ok rc)
     \<and> distinct (row_kinds (items rcs))
     \<and> PStr ` set MAPPABLE_ACTION_TYPES \<subseteq> set (row_kinds (items rcs))"
proof (cases "\<exists>m. check_rows [] (items rcs) = Inr m")
  case True
  then obtain m where m: "check_rows [] (items rcs) = Inr m" by blast
  have "set m = set (row_kinds (items rcs))"
    using check_rows_mapped [OF m] by simp
  then show ?thesis
    using m True [unfolded check_rows_Inr] by (simp add: validate_risk_classes_def)
next
  case False
  then have "\<exists>e. check_rows [] (items rcs) = Inl e"
    by (cases "check_rows [] (items rcs)") auto
  then show ?thesis
    using False [unfolded check_rows_Inr] by (auto simp: validate_risk_classes_def)
qed

section \<open>One binding\<close>

definition bindable :: "pyval \<Rightarrow> string \<Rightarrow> string \<Rightarrow> bool" where
  "bindable rcs n oid \<longleftrightarrow> is_declared_operation_id (PStr oid)
     \<and> PStr oid \<notin> set (row_kinds (items rcs))
     \<and> is_dict (dget rcs n) \<and> is_list (dget (dget rcs n) ''action_types'')"

lemma row_kinds_put:
  assumes "map_of rows n = Some rc"
    and "elems (dget rc' ''action_types'') = elems (dget rc ''action_types'') @ [k]"
    and "k \<notin> set (row_kinds rows)" "distinct (row_kinds rows)"
  shows "set (row_kinds (kv_put n rc' rows)) = insert k (set (row_kinds rows))
     \<and> distinct (row_kinds (kv_put n rc' rows))"
  using assms
proof (induction rows)
  case Nil
  then show ?case by simp
next
  case (Cons row rows)
  obtain n1 rc1 where row: "row = (n1, rc1)" by (cases row)
  show ?case
    using Cons.prems Cons.IH by (auto simp: row split: if_splits)
qed

lemma append_kind_rows:
  assumes "bindable rcs n oid" "validate_risk_classes rcs = None"
  shows "validate_risk_classes (append_kind rcs n oid) = None"
    and "set (row_kinds (items (append_kind rcs n oid))) =
           insert (PStr oid) (set (row_kinds (items rcs)))"
proof -
  let ?e = "dget rcs n"
  let ?e' = "dput ?e ''action_types'' (PList (elems (dget ?e ''action_types'') @ [PStr oid]))"
  have k: "has_key rcs n"
    using assms(1) is_dict_has_key by (simp add: bindable_def)
  then have m: "map_of (items rcs) n = Some ?e"
    using dget_opt_eq_dget by (simp add: dget_opt_def)
  have rk: "set (row_kinds (kv_put n ?e' (items rcs))) = insert (PStr oid) (set (row_kinds (items rcs)))
     \<and> distinct (row_kinds (kv_put n ?e' (items rcs)))"
    using assms by (intro row_kinds_put [OF m]) (simp_all add: bindable_def validate_risk_classes_iff)
  have "(n, ?e) \<in> set (items rcs)"
    using has_key_dget [OF k] .
  then have "row_ok ?e"
    using assms(2) by (auto simp: validate_risk_classes_iff)
  then have "row_ok ?e'"
    using assms(1) by (auto simp: row_ok_def bindable_def kind_ok_def simp del: items_dput)
  moreover have "set (kv_put n ?e' (items rcs)) \<subseteq> insert (n, ?e') (set (items rcs))"
    by (rule set_kv_put)
  ultimately have rows: "\<forall>(x, rc) \<in> set (kv_put n ?e' (items rcs)). row_ok rc"
    using assms(2) by (fastforce simp: validate_risk_classes_iff)
  have "n \<in> set (keys rcs)"
    using k by (simp add: has_key_iff)
  then have "set (keys (append_kind rcs n oid)) = set (keys rcs)"
    by (auto simp: append_kind_def Let_def)
  then show "validate_risk_classes (append_kind rcs n oid) = None"
    using rk rows assms(2)
    by (auto simp: validate_risk_classes_iff append_kind_def Let_def)
  show "set (row_kinds (items (append_kind rcs n oid))) =
           insert (PStr oid) (set (row_kinds (items rcs)))"
    using rk by (simp add: append_kind_def Let_def)
qed

lemma append_kind_ceiling:
  assumes "bindable rcs n oid" "check_ceiling_row rcs rc declared = None"
  shows "check_ceiling_row (append_kind rcs n oid) rc declared = None"
  using assms
  by (auto simp: check_ceiling_row_def append_kind_def Let_def bindable_def list_ex_iff)

lemma append_kind_risk_of:
  assumes "bindable rcs n oid" "validate_risk_classes rcs = None" "risk_of a rcs = Some m"
  shows "risk_of a (append_kind rcs n oid) = Some m"
proof -
  let ?rcs = "append_kind rcs n oid"
  obtain x where "find (\<lambda>(rc_name, rc). is_dict rc \<and> is_list (dget rc ''action_types'')
       \<and> PStr a \<in> set (elems (dget rc ''action_types''))) (items rcs) = Some x" "fst x = m"
    using assms(3) by (auto simp: risk_of_def)
  from find_SomeD [OF this(1)] this(2)
  obtain rc where rc: "(m, rc) \<in> set (items rcs)" "PStr a \<in> set (elems (dget rc ''action_types''))"
    by (cases x) auto
  have ok: "validate_risk_classes ?rcs = None"
    by (rule append_kind_rows(1) [OF assms(1,2)])
  show ?thesis
  proof (cases "(m, rc) \<in> set (items ?rcs)")
    case True
    then show ?thesis using risk_of_unique [OF ok _ rc(2)] by blast
  next
    case False
    have "\<exists>rc'. (m, rc') \<in> set (items ?rcs) \<and> PStr a \<in> set (elems (dget rc' ''action_types''))"
    proof -
      have "(x, y) \<in> set rows \<Longrightarrow> (x, y) \<notin> set (kv_put n e' rows) \<Longrightarrow>
          x = n \<and> (n, e') \<in> set (kv_put n e' rows) \<and> map_of rows n = Some y" for x y e' and rows :: pydict
        by (induction rows) (auto split: if_splits)
      then have "m = n \<and> map_of (items rcs) n = Some rc \<and>
          (n, dput (dget rcs n) ''action_types'' (PList (elems (dget (dget rcs n) ''action_types'') @ [PStr oid])))
            \<in> set (items ?rcs)"
        using rc(1) False by (simp add: append_kind_def Let_def dput_def)
      then show ?thesis
        using rc(2) by (auto simp: dget_def [of rcs] dget_opt_def [of rcs])
    qed
    then show ?thesis using risk_of_unique [OF ok] by blast
  qed
qed

section \<open>The loop\<close>

lemma bind_rows_keeps:
  assumes "validate_risk_classes rcs = None" "set (row_kinds (items rcs)) \<subseteq> already"
    and "\<forall>(rc, declared) \<in> set CEILING_CLASS_ACTION_TYPES. check_ceiling_row rcs rc declared = None"
  shows "validate_risk_classes (bind_rows already rows rcs) = None
     \<and> (\<forall>(rc, declared) \<in> set CEILING_CLASS_ACTION_TYPES.
          check_ceiling_row (bind_rows already rows rcs) rc declared = None)
     \<and> (\<forall>a m. risk_of a rcs = Some m \<longrightarrow> risk_of a (bind_rows already rows rcs) = Some m)"
  using assms
proof (induction already rows rcs rule: bind_rows.induct)
  case (1 already rcs)
  then show ?case by simp
next
  case (2 already row rows rcs)
  show ?case
  proof (cases "PStr (op_id row) \<in> already \<or> \<not> is_declared_operation_id (PStr (op_id row))
      \<or> \<not> is_dict (dget rcs (op_risk_class row))
      \<or> \<not> is_list (dget (dget rcs (op_risk_class row)) ''action_types'')")
    case True
    then have eq: "bind_rows already (row # rows) rcs = bind_rows already rows rcs"
      by (auto simp: Let_def)
    have IH: "validate_risk_classes (bind_rows already rows rcs) = None
     \<and> (\<forall>(rc, declared) \<in> set CEILING_CLASS_ACTION_TYPES.
          check_ceiling_row (bind_rows already rows rcs) rc declared = None)
     \<and> (\<forall>a m. risk_of a rcs = Some m \<longrightarrow> risk_of a (bind_rows already rows rcs) = Some m)"
      using True "2.IH"(1,2) "2.prems" by blast
    show ?thesis
      unfolding eq by (rule IH)
  next
    case False
    let ?rcs = "append_kind rcs (op_risk_class row) (op_id row)"
    have b: "bindable rcs (op_risk_class row) (op_id row)"
      using False "2.prems"(2) by (auto simp: bindable_def)
    have "bind_rows already (row # rows) rcs = bind_rows (insert (PStr (op_id row)) already) rows ?rcs"
      using False by (simp add: Let_def)
    moreover have "validate_risk_classes ?rcs = None"
      by (rule append_kind_rows(1) [OF b "2.prems"(1)])
    moreover have "set (row_kinds (items ?rcs)) \<subseteq> insert (PStr (op_id row)) already"
      using append_kind_rows(2) [OF b "2.prems"(1)] "2.prems"(2) by auto
    moreover have "\<forall>(rc, declared) \<in> set CEILING_CLASS_ACTION_TYPES.
        check_ceiling_row ?rcs rc declared = None"
      using "2.prems"(3) append_kind_ceiling [OF b] by blast
    moreover have "risk_of a rcs = Some m \<Longrightarrow> risk_of a ?rcs = Some m" for a m
      by (rule append_kind_risk_of [OF b "2.prems"(1)])
    ultimately show ?thesis
      using "2.IH"(3) False by auto
  qed
qed

lemma item_mapped:
  assumes "is_dict rcs" "(n, rc) \<in> set (items rcs)" "row_ok rc"
    "k \<in> set (elems (dget rc ''action_types''))"
  shows "k \<in> set (concat (map swept (map (\<lambda>rc. dget rc ''action_types'') (filter is_dict (vals rcs)))))"
proof -
  obtain ks where ks: "dget rc ''action_types'' = PList ks"
    using assms(3) by (auto simp: row_ok_def is_list_iff)
  have "rc \<in> set (filter is_dict (vals rcs))"
    using assms(2,3) by (force simp: vals_def row_ok_def)
  then show ?thesis
    using assms(4) ks by (auto intro!: bexI [of _ rc])
qed

lemma validate_policy_put_rcs:
  assumes "validate_policy p = None"
    and "validate_risk_classes rcs = None"
    and "validate_ceiling_class_mapping rcs (elems (dget p ''hard_ceiling'')) = None"
  shows "validate_policy (dput p ''risk_classes'' rcs) = None"
proof -
  have k: "has_key p ''risk_classes''"
    using validated_parts(7) [OF assms(1)] by (simp add: POLICY_REQUIRED_def)
  have "set (keys p) \<subseteq> set POLICY_KEYS"
    using assms(1) by (simp add: validate_policy_def Let_def)
  then have ks: "set (keys (dput p ''risk_classes'' rcs)) \<subseteq> set POLICY_KEYS"
    using k by (auto simp: has_key_iff)
  have "is_dict p"
    using k by (auto simp: has_key_def dest: dget_opt_dict)
  then have "validate_postures (dput p ''risk_classes'' rcs) = validate_postures p"
    by (simp add: validate_postures_def)
  then show ?thesis
    using assms ks by (simp add: validate_policy_def Let_def)
qed

lemma bind_keeps:
  assumes p: "validate_policy p = None"
  shows "validate_policy (bind_declared_operations rows p) = None
     \<and> (\<forall>a m. risk_of a (dget p ''risk_classes'') = Some m \<longrightarrow>
          risk_of a (dget (bind_declared_operations rows p) ''risk_classes'') = Some m)"
proof -
  let ?rcs = "dget p ''risk_classes''"
  let ?ats = "map (\<lambda>rc. dget rc ''action_types'') (filter is_dict (vals ?rcs))"
  let ?new = "bind_rows (set (concat (map swept ?ats))) rows ?rcs"
  have rcs: "validate_risk_classes ?rcs = None"
    by (rule validated_parts(1) [OF p])
  have "set (row_kinds (items ?rcs)) \<subseteq> set (concat (map swept ?ats))"
    using rcs item_mapped [of ?rcs]
    unfolding validate_risk_classes_iff by (fastforce simp: row_kinds_iff)
  moreover have ceil: "\<forall>(rc, declared) \<in> set CEILING_CLASS_ACTION_TYPES.
      check_ceiling_row ?rcs rc declared = None"
    using validated_parts(2) [OF p] by (simp add: validate_ceiling_class_mapping_def case_prod_beta)
  ultimately have new: "validate_risk_classes ?new = None"
      "\<forall>(rc, declared) \<in> set CEILING_CLASS_ACTION_TYPES. check_ceiling_row ?new rc declared = None"
      "\<And>a m. risk_of a ?rcs = Some m \<Longrightarrow> risk_of a ?new = Some m"
    using bind_rows_keeps [OF rcs, of "set (concat (map swept ?ats))" rows] by blast+
  have "validate_ceiling_class_mapping ?new (elems (dget p ''hard_ceiling'')) = None"
    using new(1,2) validated_ceiling [OF p]
    by (simp add: validate_ceiling_class_mapping_def validate_risk_classes_iff case_prod_beta)
  then have "validate_policy (dput p ''risk_classes'' ?new) = None"
    by (rule validate_policy_put_rcs [OF p new(1)])
  then show ?thesis
    using p new(3) by (auto simp: bind_declared_operations_def Let_def)
qed

end
