(* ===== verification/Shipped_Floor.thy ===== *)
theory Shipped_Floor
  imports Matrix
begin

text \<open>
  The floor the repository ships, \<^verbatim>\<open>framework/policies/authority-matrix.yml\<close>, as the value
  \<^verbatim>\<open>yaml.safe_load\<close> returns for it. It is the concrete matrix the gate is run on.
\<close>

definition yrow :: "string list \<Rightarrow> pyval" where
  "yrow ks = PDict [(''action_types'', PList (map PStr ks))]"

definition ystates :: "string \<Rightarrow> string \<Rightarrow> string \<Rightarrow> string \<Rightarrow> string \<Rightarrow> pyval" where
  "ystates g e p u d = PDict [(''graduated'', PStr g), (''eligible'', PStr e),
     (''propose_only'', PStr p), (''unmeasured'', PStr u), (''demote'', PStr d)]"

definition yall :: "string \<Rightarrow> string \<Rightarrow> pyval" where
  "yall v d = ystates v v v v d"

definition yceil :: "string \<Rightarrow> pydict" where
  "yceil v = map (\<lambda>rc. (rc, PDict [(''*'', PStr v)]))
     [''external_comms'', ''deploy_prod'', ''spend'', ''secrets'', ''network_write'',
      ''credentials_grant'']"

definition shipped_risk_classes :: pyval where
  "shipped_risk_classes = PDict
     [(''reversible'', yrow [''task_status_move'', ''label'', ''tier2_note'', ''local_edit'']),
      (''read_only_dispatch'', yrow [''investigation_run'']),
      (''draft_only'', yrow [''draft_only'']),
      (''pm_write'', yrow [''task_create'', ''board_status'']),
      (''calendar_write'', yrow [''calendar_event_create'']),
      (''internal_comms'', yrow [''internal_message'', ''internal_email'', ''officer_dispatch'']),
      (''external_comms'', yrow [''external_message'', ''external_email'']),
      (''deploy_nonprod'', yrow [''vercel_deploy_preview'', ''git_push_nonmain'']),
      (''deploy_prod'', yrow [''vercel_deploy_prod'', ''git_push_main'']),
      (''spend'', yrow [''purchase'', ''provision_paid'', ''billing'']),
      (''secrets'', yrow [''secret_read'', ''secret_write'', ''env_write'']),
      (''network_write'', yrow [''mcp_post'', ''mcp_put'', ''mcp_delete'']),
      (''credentials_grant'', yrow [''oauth_grant'', ''token_grant''])]"

definition shipped_ceiling :: pyval where
  "shipped_ceiling = PList (map PStr [''external_comms'', ''deploy_prod'', ''spend'', ''secrets'',
     ''network_write'', ''credentials_grant''])"

definition shipped_ceiling_map :: pyval where
  "shipped_ceiling_map = PDict
     [(''external_comms'', PStr ''external_comms''), (''deploy_prod'', PStr ''production''),
      (''spend'', PStr ''spending''), (''secrets'', PStr ''secrets''),
      (''network_write'', PStr ''network_write''),
      (''credentials_grant'', PStr ''credentials_grant'')]"

definition shipped_root :: pyval where
  "shipped_root = PDict (
     [(''reversible'', yall ''act_with_undo'' ''propose_only''),
      (''read_only_dispatch'', yall ''notify_after'' ''propose_only''),
      (''draft_only'', yall ''notify_after'' ''propose_only''),
      (''pm_write'', yall ''act_with_undo'' ''propose_only''),
      (''calendar_write'', yall ''act_with_undo'' ''propose_only''),
      (''internal_comms'', ystates ''auto_with_veto_window'' ''propose_only'' ''propose_only''
         ''propose_only'' ''propose_only''),
      (''deploy_nonprod'', ystates ''classifier'' ''classifier'' ''propose_only''
         ''propose_only'' ''propose_only'')] @ yceil ''always_gated'')"

definition shipped_earn_up :: pyval where
  "shipped_earn_up = PDict (
     map (\<lambda>rc. (rc, yall ''propose_only'' ''propose_only''))
       [''reversible'', ''read_only_dispatch'', ''draft_only'', ''pm_write'', ''calendar_write'',
        ''internal_comms'', ''deploy_nonprod''] @ yceil ''always_gated'')"

definition shipped_sovereign :: pyval where
  "shipped_sovereign = PDict (
     [(''reversible'', yall ''auto'' ''propose_only''),
      (''read_only_dispatch'', yall ''notify_after'' ''propose_only''),
      (''draft_only'', yall ''notify_after'' ''propose_only''),
      (''pm_write'', yall ''act_with_undo'' ''propose_only''),
      (''calendar_write'', yall ''act_with_undo'' ''propose_only''),
      (''internal_comms'', yall ''notify_after'' ''propose_only''),
      (''deploy_nonprod'', yall ''notify_after'' ''propose_only'')] @ yceil ''standing_grant'')"

definition ybar :: "rat \<Rightarrow> int \<Rightarrow> int \<Rightarrow> int \<Rightarrow> pyval" where
  "ybar mr n d r = PDict [(''match_rate'', PFloat mr), (''samples'', PInt n),
     (''max_divergent_last10'', PInt d), (''recency_clean_days'', PInt r)]"

definition shipped_policy :: pyval where
  "shipped_policy = PDict
     [(''name'', PStr ''authority-matrix''), (''type'', PStr ''authority_matrix''),
      (''message'', PStr ''Below the autonomy bar for this (lane x action-type) - proposing instead.''),
      (''risk_classes'', shipped_risk_classes),
      (''hard_ceiling'', shipped_ceiling),
      (''ceiling_frozenset_map'', shipped_ceiling_map),
      (''verdicts'', shipped_root),
      (''postures'', PDict [(''earn_up'', PDict [(''verdicts'', shipped_earn_up)]),
                           (''sovereign'', PDict [(''verdicts'', shipped_sovereign)])]),
      (''veto_window_minutes'', PInt 7),
      (''deploy'', PDict
         [(''safe_globs'', PList (map PStr [''**/*.md'', ''docs/**'', ''**/__tests__/**'',
             ''**/*.test.*'', ''**/*.spec.*'', ''tsconfig.json'', ''.eslintrc*''])),
          (''high_risk_globs'', PList (map PStr [''**/migrations/*.sql'', ''**/schema*.sql'',
             ''**/*_schema.*'', ''auth/**'', ''authentication/**'', ''**/jwt/*'', ''**/oauth*'',
             ''payment*'', ''stripe/**'', ''billing/**'', ''**/checkout*'', ''**/subscription*'',
             ''neon.json'', ''**/neon/**'', ''vercel.json'', ''.vercelignore'', ''.env*'',
             ''policies/**'', ''framework/schemas-base.sql'', ''cabinet/init.sql'',
             ''presets/*/schemas.sql'']))]),
      (''bars'', PDict [(''default'', ybar (17/20) 20 1 14),
                       (''internal_comms'', ybar (9/10) 30 0 21),
                       (''deploy_nonprod'', ybar (19/20) 30 0 21)]),
      (''cooldown_days'', PDict [(''default'', PInt 14), (''internal_comms'', PInt 21),
                                (''deploy_nonprod'', PInt 21)])]"

definition shipped_floor :: pyval where
  "shipped_floor = PDict [(''version'', PInt 1), (''policies'', PList [shipped_policy])]"

lemma matrix_policy_shipped: "matrix_policy shipped_floor = Inr shipped_policy"
  by (simp add: matrix_policy_def shipped_floor_def shipped_policy_def dget_def)

end
