(* ===== verification/Matrix_Correct.thy ===== *)
theory Matrix_Correct
  imports Matrix_Bind Shipped_Floor
begin

text \<open>
  The properties of the authority matrix: what every floor that the validator accepts guarantees
  for each cell the gate can look up, and that the shipped floor is such a floor.
\<close>

lemma shipped_validates: "validate_matrix shipped_floor = None"
  by code_simp

lemma shipped_policy_valid: "validate_policy shipped_policy = None"
proof -
  obtain p where "matrix_policy shipped_floor = Inr p" "validate_policy p = None"
    using shipped_validates by (rule validate_matrix_policy)
  then show ?thesis
    by (simp add: matrix_policy_shipped)
qed

abbreviation verdict_of :: "pyval \<Rightarrow> string \<Rightarrow> string \<Rightarrow> string option \<Rightarrow> pyval" where
  "verdict_of p rc state posture \<equiv>
     resolve_verdict (dget p ''verdicts'') rc state posture (dget p ''postures'')"

lemma CEILING_rows_are_classes: "(rc, ks) \<in> set CEILING_CLASS_ACTION_TYPES \<Longrightarrow> rc \<in> set RISK_CLASSES"
proof -
  have "list_all (\<lambda>(rc, _). rc \<in> set RISK_CLASSES) CEILING_CLASS_ACTION_TYPES"
    by code_simp
  then show "(rc, ks) \<in> set CEILING_CLASS_ACTION_TYPES \<Longrightarrow> rc \<in> set RISK_CLASSES"
    by (auto simp: list_all_iff)
qed

lemma ceiling_class_in:
  assumes "validate_policy p = None" "(rc, ks) \<in> set CEILING_CLASS_ACTION_TYPES"
  shows "PStr rc \<in> set (elems (dget p ''hard_ceiling''))"
proof -
  have "rc \<in> set (map fst CEILING_CLASS_ACTION_TYPES)"
    using assms(2) by (rule in_set_fst)
  then show ?thesis
    unfolding validated_ceiling [OF assms(1)] by (rule imageI)
qed

text \<open>A ceiling row answers every state with its one wildcard cell.\<close>

lemma ceiling_lookup:
  assumes row: "check_verdict_row hc pt rc (dget t rc) = None" "PStr rc \<in> set hc"
    and t: "select_table v posture postures = t" "is_dict t"
  shows "resolve_verdict v rc state posture postures \<in> set (vals (dget t rc))"
proof -
  have ks: "set (keys (dget t rc)) = {''*''}"
    by (rule ceiling_row_keys [OF row])
  have k: "has_key (dget t rc) ''*''" "has_key (dget t rc) state \<Longrightarrow> state = ''*''"
    using ks by (simp_all add: has_key_iff)
  have "resolve_verdict v rc state posture postures = dget (dget t rc) ''*''"
    using k check_verdict_row_dict [OF row(1)] t(2)
    unfolding resolve_verdict_def t(1) Let_def by metis
  then show ?thesis
    using dget_in_vals [of "dget t rc" "''*''"] ks by (simp add: has_key_iff)
qed

lemma validated_table_dict: "validate_verdicts t hc pt = None \<Longrightarrow> is_dict t"
  by (simp add: validate_verdicts_def)

lemma select_root [simp]: "select_table v None postures = v"
  by (simp add: select_table_def)

lemma select_earn_up:
  assumes "validate_policy p = None"
  obtains "select_table (dget p ''verdicts'') (Some ''earn_up'') (dget p ''postures'') = dget p ''verdicts''"
  | t where "select_table (dget p ''verdicts'') (Some ''earn_up'') (dget p ''postures'') = t"
      "validate_verdicts t (elems (dget p ''hard_ceiling'')) True = None"
      "validate_earn_up_narrows t (dget p ''verdicts'') = None"
proof (cases "is_dict (dget (dget p ''postures'') ''earn_up'')")
  case False
  then have "select_table (dget p ''verdicts'') (Some ''earn_up'') (dget p ''postures'') = dget p ''verdicts''"
    by (simp add: select_table_def Let_def)
  then show thesis by (rule that(1))
next
  case True
  let ?e = "dget (dget p ''postures'') ''earn_up''"
  have e: "check_posture_entry (elems (dget p ''hard_ceiling'')) (dget p ''verdicts'') ''earn_up'' ?e = None"
    using validated_posture_entry [OF assms is_dict_has_key [OF True]] .
  then have ok: "validate_verdicts (dget ?e ''verdicts'') (elems (dget p ''hard_ceiling'')) True = None"
      "validate_earn_up_narrows (dget ?e ''verdicts'') (dget p ''verdicts'') = None"
    by (simp_all add: check_posture_entry_def Let_def)
  have "is_dict (dget ?e ''verdicts'')"
    using ok(1) by (simp add: validate_verdicts_def)
  moreover have "is_dict (dget p ''postures'')"
    using True is_dict_has_key by (auto simp: has_key_def dest: dget_opt_dict)
  ultimately have "select_table (dget p ''verdicts'') (Some ''earn_up'') (dget p ''postures'')
      = dget ?e ''verdicts''"
    using True by (simp add: select_table_def Let_def POSTURE_TABLES_def)
  then show thesis using ok by (rule that(2))
qed

lemma narrow_cell_rank:
  assumes "check_narrow_cell root_row state v = None"
  shows "v \<noteq> PStr ''standing_grant'' \<and>
     (\<exists>r r'. rank v = Some r \<and> rank (dget_or root_row state (dget root_row ''*'')) = Some r' \<and> r \<le> r')"
  using assms by (auto simp: check_narrow_cell_def Let_def)

lemma narrow_table_cell:
  assumes "validate_earn_up_narrows t rv = None" "(rc, row) \<in> set (items t)"
    "(state, v) \<in> set (items row)"
  shows "check_narrow_cell (dget rv rc) state v = None"
  using assms by (fastforce simp: validate_earn_up_narrows_def)

text \<open>
  C1: a hard-ceiling kind can never act on its own. In every matrix the validator accepts, each
  framework kind of a ceiling class (an external send, a production deploy, a payment, a secret,
  a network write, a credential grant) is classified on its own ceiling row, and looking that row
  up answers \<^verbatim>\<open>always_gated\<close> in the root table for every confidence state, and
  \<^verbatim>\<open>always_gated\<close> or \<^verbatim>\<open>standing_grant\<close> under any posture, so never an acting verdict.
\<close>

theorem ceiling_never_auto:
  assumes "validate_matrix data = None" "matrix_policy data = Inr p"
    and "(rc, kinds) \<in> set CEILING_CLASS_ACTION_TYPES" "kind \<in> set kinds"
  shows "risk_of kind (dget p ''risk_classes'') = Some rc
     \<and> verdict_of p rc state None = PStr ''always_gated''
     \<and> verdict_of p rc state posture \<in> {PStr ''always_gated'', PStr ''standing_grant''}"
proof -
  have p: "validate_policy p = None"
    using assms(1,2) by (auto elim: validate_matrix_policy)
  let ?hc = "elems (dget p ''hard_ceiling'')"
  have rc: "PStr rc \<in> set ?hc" "rc \<in> set RISK_CLASSES"
    using ceiling_class_in [OF p assms(3)] CEILING_rows_are_classes [OF assms(3)] .
  have root: "validate_verdicts (dget p ''verdicts'') ?hc False = None"
    by (rule validated_parts(3) [OF p])
  have lookup: "validate_verdicts t ?hc pt = None \<Longrightarrow>
      select_table (dget p ''verdicts'') po (dget p ''postures'') = t \<Longrightarrow>
      verdict_of p rc state po \<in> set (vals (dget t rc))" for t pt po
    by (rule ceiling_lookup [OF validate_verdicts_row [OF _ rc(2)] rc(1)])
      (simp_all add: validated_table_dict)
  have gated: "validate_verdicts t ?hc False = None \<Longrightarrow> v \<in> set (vals (dget t rc)) \<Longrightarrow>
      v = PStr ''always_gated''" for t v
    using ceiling_row_root [OF validate_verdicts_row [OF _ rc(2)] rc(1)] .
  have posture: "validate_verdicts t ?hc True = None \<Longrightarrow> v \<in> set (vals (dget t rc)) \<Longrightarrow>
      v = PStr ''always_gated'' \<or> v = PStr ''standing_grant''" for t v
    using ceiling_row_posture [OF validate_verdicts_row [OF _ rc(2)] rc(1)] .
  obtain pt where pt: "validate_verdicts (select_table (dget p ''verdicts'') posture
      (dget p ''postures'')) ?hc pt = None"
    using validated_tables [OF p] by blast
  have "verdict_of p rc state posture \<in> {PStr ''always_gated'', PStr ''standing_grant''}"
    using gated posture pt lookup [OF pt refl] by (cases pt) auto
  then show ?thesis
    using ceiling_kind_row [OF p assms(3,4)] gated [OF root lookup [OF root select_root]] by simp
qed

theorem ceiling_never_auto_witness:
  "risk_of ''external_email'' (dget shipped_policy ''risk_classes'') = Some ''external_comms''
   \<and> verdict_of shipped_policy ''external_comms'' ''graduated'' None = PStr ''always_gated''
   \<and> verdict_of shipped_policy ''external_comms'' ''graduated'' (Some ''sovereign'')
       \<in> {PStr ''always_gated'', PStr ''standing_grant''}"
  by (rule ceiling_never_auto [OF shipped_validates matrix_policy_shipped, of _ EXTERNAL_COMMS])
    (simp_all add: CEILING_CLASS_ACTION_TYPES_def EXTERNAL_COMMS_def)

text \<open>
  C18: the cautious posture only narrows. In every validated matrix and for every class and
  confidence state, the verdict under \<^verbatim>\<open>earn_up\<close> is never \<^verbatim>\<open>standing_grant\<close> and is at most
  as permissive as the verdict of the root table, both being ordered on the frozen ruler.
\<close>

theorem earn_up_only_narrows:
  assumes "validate_matrix data = None" "matrix_policy data = Inr p"
    and "rc \<in> set RISK_CLASSES" "state \<in> set CONFIDENCE_STATES"
  shows "\<exists>r r0. rank (verdict_of p rc state (Some ''earn_up'')) = Some r
     \<and> rank (verdict_of p rc state None) = Some r0 \<and> r \<le> r0"
proof -
  have p: "validate_policy p = None"
    using assms(1,2) by (auto elim: validate_matrix_policy)
  let ?hc = "elems (dget p ''hard_ceiling'')" and ?root = "dget p ''verdicts''"
  have root: "validate_verdicts ?root ?hc False = None"
    by (rule validated_parts(3) [OF p])
  note rv = resolve_in_table [OF select_root root assms(3,4)]
  have "list_all (\<lambda>v. v = ''standing_grant'' \<or> rank (PStr v) \<noteq> None) VERDICTS"
    by code_simp
  moreover have "table_cell ?root rc state \<noteq> PStr ''standing_grant''"
    using check_verdict_row_cell [OF validate_verdicts_row [OF root assms(3)]
        validated_cell(1) [OF root assms(3,4)]] by (simp add: check_cell_def)
  ultimately have ranked: "rank (table_cell ?root rc state) \<noteq> None"
    using validated_cell_member [OF root assms(3,4)] by (auto simp: is_member_iff list_all_iff)
  show ?thesis
  proof (rule select_earn_up [OF p])
    assume "select_table ?root (Some ''earn_up'') (dget p ''postures'') = ?root"
    then have "verdict_of p rc state (Some ''earn_up'') = verdict_of p rc state None"
      by (simp add: resolve_verdict_def)
    then show ?thesis using ranked rv by auto
  next
    fix t
    assume sel: "select_table ?root (Some ''earn_up'') (dget p ''postures'') = t"
      and t: "validate_verdicts t ?hc True = None" and n: "validate_earn_up_narrows t ?root = None"
    let ?k = "if has_key (dget t rc) state then state else ''*''"
    have key: "has_key (dget t rc) ?k" and c: "table_cell t rc state = dget (dget t rc) ?k"
      using validated_cell(2) [OF t assms(3,4)] by (auto simp: table_cell_def Let_def)
    have "(rc, dget t rc) \<in> set (items t)"
      using t assms(3) by (simp add: validate_verdicts_def key_in_items)
    from narrow_cell_rank [OF narrow_table_cell [OF n this has_key_dget [OF key]]]
    have "\<exists>r r'. rank (table_cell t rc state) = Some r
        \<and> rank (dget_or (dget ?root rc) ?k (dget (dget ?root rc) ''*'')) = Some r' \<and> r \<le> r'"
      by (simp add: c)
    moreover have "dget_or (dget ?root rc) ?k (dget (dget ?root rc) ''*'') = table_cell ?root rc state"
    proof (cases "PStr rc \<in> set ?hc")
      case True
      have ks: "set (keys (dget t rc)) = {''*''}" "set (keys (dget ?root rc)) = {''*''}"
        using ceiling_row_keys True validate_verdicts_row [OF t assms(3)]
          validate_verdicts_row [OF root assms(3)] by blast+
      then show ?thesis
        using assms(4)
        by (auto simp: has_key_iff table_cell_def Let_def CONFIDENCE_STATES_def dget_or_has_key)
    next
      case False
      have ks: "set (keys (dget t rc)) = set CONFIDENCE_STATES"
          "set (keys (dget ?root rc)) = set CONFIDENCE_STATES"
        using plain_row_keys False validate_verdicts_row [OF t assms(3)]
          validate_verdicts_row [OF root assms(3)] by blast+
      then show ?thesis
        using assms(4) by (simp add: has_key_iff table_cell_def Let_def dget_or_has_key)
    qed
    ultimately show ?thesis
      using rv resolve_in_table [OF sel t assms(3,4)] by simp
  qed
qed

theorem earn_up_only_narrows_witness:
  "\<exists>r r0. rank (verdict_of shipped_policy ''reversible'' ''graduated'' (Some ''earn_up'')) = Some r
     \<and> rank (verdict_of shipped_policy ''reversible'' ''graduated'' None) = Some r0 \<and> r \<le> r0"
  by (rule earn_up_only_narrows [OF shipped_validates matrix_policy_shipped])
    (simp_all add: RISK_CLASSES_def CONFIDENCE_STATES_def)

text \<open>The demote cell of a posture table is the root table's.\<close>

lemma posture_demote:
  assumes p: "validate_policy p = None" and rc: "rc \<in> set RISK_CLASSES"
    "PStr rc \<notin> set (elems (dget p ''hard_ceiling''))"
  shows "verdict_of p rc ''demote'' posture = verdict_of p rc ''demote'' None"
proof (cases "select_table (dget p ''verdicts'') posture (dget p ''postures'') = dget p ''verdicts''")
  case True
  then show ?thesis by (simp add: resolve_verdict_def)
next
  case False
  let ?hc = "elems (dget p ''hard_ceiling'')" and ?root = "dget p ''verdicts''"
  obtain name where sel: "select_table ?root posture (dget p ''postures'')
      = dget (dget (dget p ''postures'') name) ''verdicts''"
    and d: "is_dict (dget (dget p ''postures'') name)"
    using False by (auto simp: select_table_def Let_def split: option.splits if_splits)
  let ?t = "dget (dget (dget p ''postures'') name) ''verdicts''"
  have e: "check_posture_entry ?hc ?root name (dget (dget p ''postures'') name) = None"
    using validated_posture_entry [OF p is_dict_has_key [OF d]] .
  then have t: "validate_verdicts ?t ?hc True = None"
    and inv: "\<forall>(rc, states) \<in> set (items ?t). check_demote_invariance ?hc ?root rc states = None"
    by (simp_all add: check_posture_entry_def Let_def case_prod_beta)
  have "(rc, dget ?t rc) \<in> set (items ?t)"
    using t rc(1) by (simp add: validate_verdicts_def key_in_items)
  then have "check_demote_invariance ?hc ?root rc (dget ?t rc) = None"
    using inv by blast
  then have eq: "dget (dget ?t rc) ''demote'' = dget (dget ?root rc) ''demote''"
    using rc(2) by (simp add: check_demote_invariance_def)
  have dem: "''demote'' \<in> set CONFIDENCE_STATES"
    by (simp add: CONFIDENCE_STATES_def)
  have root: "validate_verdicts ?root ?hc False = None"
    by (rule validated_parts(3) [OF p])
  have "has_key (dget ?t rc) ''demote''" "has_key (dget ?root rc) ''demote''"
    using plain_row_keys [OF validate_verdicts_row [OF t rc(1)] rc(2)]
      plain_row_keys [OF validate_verdicts_row [OF root rc(1)] rc(2)] dem
    by (simp_all add: has_key_iff)
  then show ?thesis
    using resolve_in_table [OF sel t rc(1) dem] resolve_in_table [OF select_root root rc(1) dem] eq
    by (simp add: table_cell_def)
qed

lemma act_first_row:
  assumes p: "validate_policy p = None" and rc: "rc \<in> set RISK_CLASSES"
  shows "check_act_first_row (elems (dget p ''hard_ceiling'')) rc (dget (dget p ''verdicts'') rc) = None"
proof -
  have "(rc, dget (dget p ''verdicts'') rc) \<in> set (items (dget p ''verdicts''))"
    using validated_parts(3) [OF p] rc by (simp add: validate_verdicts_def key_in_items)
  then show ?thesis
    using validated_parts(4) [OF p] by (fastforce simp: validate_act_first_floor_def)
qed

lemma plain_root_cell:
  assumes p: "validate_policy p = None" and rc: "rc \<in> set RISK_CLASSES"
    "PStr rc \<notin> set (elems (dget p ''hard_ceiling''))" and st: "state \<in> set CONFIDENCE_STATES"
  shows "verdict_of p rc state None = dget (dget (dget p ''verdicts'') rc) state"
    and "dget (dget (dget p ''verdicts'') rc) state \<in> set (vals (dget (dget p ''verdicts'') rc))"
proof -
  let ?hc = "elems (dget p ''hard_ceiling'')" and ?root = "dget p ''verdicts''"
  have root: "validate_verdicts ?root ?hc False = None"
    by (rule validated_parts(3) [OF p])
  have k: "has_key (dget ?root rc) state"
    using plain_row_keys [OF validate_verdicts_row [OF root rc(1)] rc(2)] st
    by (simp add: has_key_iff)
  show "verdict_of p rc state None = dget (dget ?root rc) state"
    using resolve_in_table [OF select_root root rc(1) st] k by (simp add: table_cell_def)
  show "dget (dget ?root rc) state \<in> set (vals (dget ?root rc))"
    by (rule dget_in_vals [OF k])
qed

lemma trust_first_cells:
  assumes p: "validate_policy p = None"
    and "rc \<in> set RISK_CLASSES" "state \<in> set CONFIDENCE_STATES"
    and "verdict_of p rc state None = PStr ''act_with_undo''
         \<or> map_of TRUST_FIRST_UNMEASURED rc \<noteq> None"
  shows "verdict_of p rc ''unmeasured'' None
           = PStr (case map_of TRUST_FIRST_UNMEASURED rc of Some v \<Rightarrow> v | None \<Rightarrow> ''act_with_undo'')
     \<and> verdict_of p rc ''demote'' posture = PStr ''propose_only''
     \<and> PStr rc \<notin> set (elems (dget p ''hard_ceiling''))"
proof -
  let ?hc = "elems (dget p ''hard_ceiling'')" and ?row = "dget (dget p ''verdicts'') rc"
  note first = act_first_row [OF p assms(2)]
  have root: "validate_verdicts (dget p ''verdicts'') ?hc False = None"
    by (rule validated_parts(3) [OF p])
  note chk = validate_verdicts_row [OF root assms(2)]
  have nc: "PStr rc \<notin> set ?hc"
  proof
    assume c: "PStr rc \<in> set ?hc"
    have "verdict_of p rc state None \<in> set (vals ?row)"
      by (rule ceiling_lookup [OF chk c select_root validated_table_dict [OF root]])
    then have "verdict_of p rc state None = PStr ''always_gated''"
      by (rule ceiling_row_root [OF chk c])
    then have "map_of TRUST_FIRST_UNMEASURED rc \<noteq> None"
      using assms(4) by simp
    then have "rc \<in> set (map fst TRUST_FIRST_UNMEASURED)"
      by (metis map_of_eq_None_iff set_map)
    then show False
      using first c by (simp add: check_act_first_row_def)
  qed
  have st: "''unmeasured'' \<in> set CONFIDENCE_STATES" "''demote'' \<in> set CONFIDENCE_STATES"
    by (simp_all add: CONFIDENCE_STATES_def)
  note cells = plain_root_cell [OF p assms(2) nc]
  have row: "is_dict ?row"
    by (rule check_verdict_row_dict [OF chk])
  have "dget ?row ''unmeasured'' = PStr (case map_of TRUST_FIRST_UNMEASURED rc of
        Some v \<Rightarrow> v | None \<Rightarrow> ''act_with_undo'') \<and> dget ?row ''demote'' = PStr ''propose_only''"
    using first row nc assms(4) cells [OF assms(3)]
    by (auto simp: check_act_first_row_def split: option.splits if_splits)
  then show ?thesis
    using cells(1) [OF st(1)] cells(1) [OF st(2)] posture_demote [OF p assms(2) nc, of posture] nc
    by simp
qed

text \<open>
  Trust with undo is granted on day one and lost on evidence. In every validated matrix, a
  class whose root row grants \<^verbatim>\<open>act_with_undo\<close> in some confidence state grants it already
  when unmeasured; such a class falls to \<^verbatim>\<open>propose_only\<close> at \<^verbatim>\<open>demote\<close>, and does so
  under every posture; and the two pinned classes carry their pinned verdict at
  \<^verbatim>\<open>unmeasured\<close> and the same fall.
\<close>

theorem trust_first_floor:
  assumes "validate_matrix data = None" "matrix_policy data = Inr p"
    and "rc \<in> set RISK_CLASSES" "state \<in> set CONFIDENCE_STATES"
    and "verdict_of p rc state None = PStr ''act_with_undo''
         \<or> map_of TRUST_FIRST_UNMEASURED rc \<noteq> None"
  shows "verdict_of p rc ''unmeasured'' None
           = PStr (case map_of TRUST_FIRST_UNMEASURED rc of Some v \<Rightarrow> v | None \<Rightarrow> ''act_with_undo'')
     \<and> verdict_of p rc ''demote'' posture = PStr ''propose_only''"
proof -
  have "validate_policy p = None"
    using assms(1,2) by (auto elim: validate_matrix_policy)
  then show ?thesis
    using trust_first_cells [OF _ assms(3-5), of posture] by blast
qed

theorem trust_first_floor_witness:
  "verdict_of shipped_policy ''pm_write'' ''unmeasured'' None
     = PStr (case map_of TRUST_FIRST_UNMEASURED ''pm_write'' of Some v \<Rightarrow> v | None \<Rightarrow> ''act_with_undo'')
   \<and> verdict_of shipped_policy ''pm_write'' ''demote'' (Some ''sovereign'') = PStr ''propose_only''"
proof (rule trust_first_floor [OF shipped_validates matrix_policy_shipped, of _ "''graduated''"])
  show "verdict_of shipped_policy ''pm_write'' ''graduated'' None = PStr ''act_with_undo''
     \<or> map_of TRUST_FIRST_UNMEASURED ''pm_write'' \<noteq> None"
    by code_simp
qed (simp_all add: RISK_CLASSES_def CONFIDENCE_STATES_def)

text \<open>
  Joining the deployment's declared operations onto a validated floor can neither break the
  floor nor move a kind. Whatever rows the deployment declares, the joined policy still passes the
  full policy validation and every kind that had a risk class keeps it.
\<close>

theorem bind_declared_preserves:
  assumes "validate_policy p = None"
  shows "validate_policy (bind_declared_operations (declared_operations yml) p) = None
     \<and> (\<forall>kind rc. risk_of kind (dget p ''risk_classes'') = Some rc \<longrightarrow>
          risk_of kind (dget (bind_declared_operations (declared_operations yml) p) ''risk_classes'')
            = Some rc)"
  using bind_keeps [OF assms] by blast

definition sample_operations :: pyval where
  "sample_operations = PDict [(''operations'', PList
     [PDict [(''id'', PStr ''acme/wire-transfer''), (''risk_class'', PStr ''spend''),
             (''invoked_as'', PList [PStr ''wire''])],
      PDict [(''id'', PStr ''purchase''), (''risk_class'', PStr ''reversible''),
             (''invoked_as'', PList [PStr ''buy''])]])]"

theorem bind_declared_preserves_witness:
  "validate_policy (bind_declared_operations (declared_operations sample_operations) shipped_policy)
     = None
   \<and> risk_of ''purchase'' (dget (bind_declared_operations (declared_operations sample_operations)
       shipped_policy) ''risk_classes'') = Some ''spend''
   \<and> risk_of ''acme/wire-transfer'' (dget (bind_declared_operations
       (declared_operations sample_operations) shipped_policy) ''risk_classes'') = Some ''spend''"
proof -
  have "risk_of ''purchase'' (dget shipped_policy ''risk_classes'') = Some ''spend''"
    by code_simp
  moreover have "risk_of ''acme/wire-transfer'' (dget (bind_declared_operations
       (declared_operations sample_operations) shipped_policy) ''risk_classes'') = Some ''spend''"
    by code_simp
  ultimately show ?thesis
    using bind_declared_preserves [OF shipped_policy_valid, of sample_operations] by blast
qed

text \<open>
  The class of a kind is a function of the kind. In a validated matrix every framework kind
  except the ambiguous backstop has exactly one risk class, one of the thirteen, and the lookup
  returns it no matter on which row the kind is listed.
\<close>

theorem risk_of_functional:
  assumes "validate_matrix data = None" "matrix_policy data = Inr p"
    and "kind \<in> set MAPPABLE_ACTION_TYPES"
  shows "\<exists>rc \<in> set RISK_CLASSES. risk_of kind (dget p ''risk_classes'') = Some rc
     \<and> (\<forall>n row. (n, row) \<in> set (items (dget p ''risk_classes''))
           \<and> PStr kind \<in> set (elems (dget row ''action_types'')) \<longrightarrow> n = rc)"
proof -
  have p: "validate_policy p = None"
    using assms(1,2) by (auto elim: validate_matrix_policy)
  note rcs = validated_parts(1) [OF p]
  obtain rc where "rc \<in> set RISK_CLASSES" "risk_of kind (dget p ''risk_classes'') = Some rc"
    using risk_of_total [OF rcs assms(3)] by blast
  then show ?thesis
    using risk_of_unique [OF rcs] by fastforce
qed

theorem risk_of_functional_witness:
  "\<exists>rc. rc \<in> set RISK_CLASSES \<and> risk_of ''git_push_main'' (dget shipped_policy ''risk_classes'') = Some rc"
proof -
  have "''git_push_main'' \<in> set MAPPABLE_ACTION_TYPES"
    by (simp add: MAPPABLE_ACTION_TYPES_def ACTION_TYPES_def kind_sets)
  from risk_of_functional [OF shipped_validates matrix_policy_shipped this] show ?thesis
    by blast
qed

end
