(* ===== verification/Keyed_Log.thy ===== *)
theory Keyed_Log
  imports Cabinet_Base
begin

text \<open>
  Append-only logs read with last-write-wins, the storage discipline the consequence ledger and the
  needs log share: every entry carries an identity, the file is replayed into a dict keyed by it,
  and the last entry of an identity stands. The dict is an interface (\<^verbatim>\<open>keyed_store\<close>); the
  insertion-ordered dict of the model implements it.
\<close>

locale keyed_store =
  fixes empty :: 's
    and put :: "'k \<Rightarrow> 'v \<Rightarrow> 's \<Rightarrow> 's"
    and get :: "'s \<Rightarrow> 'k \<Rightarrow> 'v option"
  assumes get_empty: "get empty k = None"
    and get_put: "get (put k v s) k' = (if k' = k then Some v else get s k')"
begin

definition replay :: "('a \<Rightarrow> 'k) \<Rightarrow> ('a \<Rightarrow> 'v) \<Rightarrow> 'a list \<Rightarrow> 's \<Rightarrow> 's" where
  "replay key val xs s = foldl (\<lambda>d x. put (key x) (val x) d) s xs"

lemma replay_Nil [simp]: "replay key val [] s = s"
  by (simp add: replay_def)

lemma replay_Cons [simp]: "replay key val (x # xs) s = replay key val xs (put (key x) (val x) s)"
  by (simp add: replay_def)

lemma replay_append: "replay key val (xs @ ys) s = replay key val ys (replay key val xs s)"
  by (simp add: replay_def)

text \<open>The last entry of an identity stands.\<close>

lemma get_replay:
  "get (replay key val xs s) k =
     (case find (\<lambda>x. key x = k) (rev xs) of Some x \<Rightarrow> Some (val x) | None \<Rightarrow> get s k)"
proof (induction xs rule: rev_induct)
  case Nil
  show ?case by simp
next
  case (snoc x xs)
  then show ?case
    by (auto simp: replay_append get_put)
qed

lemma get_replay_empty:
  "get (replay key val xs empty) k = map_option val (find (\<lambda>x. key x = k) (rev xs))"
  by (simp add: get_replay get_empty split: option.splits)

lemma replay_last_stands: "get (replay key val (xs @ [x]) s) (key x) = Some (val x)"
  by (simp add: get_replay)

lemma replay_other: "key x \<noteq> k \<Longrightarrow> get (replay key val (xs @ [x]) s) k = get (replay key val xs s) k"
  by (simp add: replay_append get_put)

end

interpretation kv: keyed_store "[] :: ('k \<times> 'v) list" kv_put map_of
  by unfold_locales auto

section \<open>Collapsing a log to one entry per identity\<close>

definition collapse :: "('a \<Rightarrow> 'k) \<Rightarrow> 'a list \<Rightarrow> 'a list" where
  "collapse key xs = map snd (foldl (\<lambda>d x. kv_put (key x) x d) [] xs)"

lemma collapse_replay: "collapse key xs = map snd (kv.replay key (\<lambda>x. x) xs [])"
  by (simp add: collapse_def kv.replay_def)

lemma distinct_replay:
  "distinct (map fst d) \<Longrightarrow> distinct (map fst (kv.replay key val xs d))"
  by (induction xs arbitrary: d) simp_all

lemma keys_replay:
  "(k, x) \<in> set (kv.replay key (\<lambda>x. x) xs []) \<Longrightarrow> key x = k"
proof -
  have "\<forall>(k, x) \<in> set d. key x = k \<Longrightarrow> \<forall>(k, x) \<in> set (kv.replay key (\<lambda>x. x) xs d). key x = k" for d
  proof (induction xs arbitrary: d)
    case Nil
    then show ?case by simp
  next
    case (Cons x xs)
    have "\<forall>(k, y) \<in> set (kv_put (key x) x d). key y = k"
      using Cons.prems set_kv_put [of "key x" x d] by fastforce
    then show ?case using Cons.IH by simp
  qed
  from this [of "[]"] show "(k, x) \<in> set (kv.replay key (\<lambda>x. x) xs []) \<Longrightarrow> key x = k"
    by auto
qed

lemma map_key_collapse:
  "map key (collapse key xs) = map fst (kv.replay key (\<lambda>x. x) xs [])"
proof -
  have "map (\<lambda>p. key (snd p)) (kv.replay key (\<lambda>x. x) xs []) = map fst (kv.replay key (\<lambda>x. x) xs [])"
    by (intro map_cong refl) (auto intro: keys_replay)
  then show ?thesis
    by (simp add: collapse_replay comp_def)
qed

lemma distinct_collapse: "distinct (map key (collapse key xs))"
  unfolding map_key_collapse by (rule distinct_replay) simp

lemma collapse_iff:
  "x \<in> set (collapse key xs) \<longleftrightarrow> find (\<lambda>y. key y = key x) (rev xs) = Some x"
proof -
  let ?d = "kv.replay key (\<lambda>x. x) xs []"
  have dist: "distinct (map fst ?d)"
    by (rule distinct_replay) simp
  have "x \<in> set (collapse key xs) \<longleftrightarrow> (key x, x) \<in> set ?d"
    using keys_replay by (force simp: collapse_replay)
  also have "\<dots> \<longleftrightarrow> map_of ?d (key x) = Some x"
    using dist by (simp add: map_of_eq_Some_iff)
  finally show ?thesis
    by (simp add: kv.get_replay_empty)
qed

lemma collapse_covers: "x \<in> set xs \<Longrightarrow> \<exists>y \<in> set (collapse key xs). key y = key x"
proof -
  assume x: "x \<in> set xs"
  then obtain y where y: "find (\<lambda>y. key y = key x) (rev xs) = Some y"
    by (cases "find (\<lambda>y. key y = key x) (rev xs)") (auto simp: find_None_iff)
  then have "key y = key x"
    using find_SomeD by fastforce
  then show ?thesis
    using y by (intro bexI [of _ y]) (simp_all add: collapse_iff)
qed

lemma find_filter_hd: "find P xs = (case filter P xs of [] \<Rightarrow> None | x # _ \<Rightarrow> Some x)"
  by (induction xs) simp_all

text \<open>
  Reordering that keeps the relative order within each identity does not change which entry
  stands; a stable sort by a component of the identity is such a reordering.
\<close>

lemma find_rev_sort_key:
  assumes "\<And>x y. key x = key y \<Longrightarrow> f x = f y"
  shows "find (\<lambda>y. key y = key x) (rev (sort_key f xs)) = find (\<lambda>y. key y = key x) (rev xs)"
proof -
  have sub: "filter (\<lambda>y. key y = key x) ys
      = filter (\<lambda>y. key y = key x) (filter (\<lambda>y. f y = f x) ys)" for ys
    unfolding filter_filter by (rule filter_cong [OF refl]) (use assms in blast)
  have "filter (\<lambda>y. key y = key x) (sort_key f xs) = filter (\<lambda>y. key y = key x) xs"
    unfolding sub [of "sort_key f xs"] sub [of xs] by (simp only: sort_key_stable)
  then show ?thesis
    by (simp add: find_filter_hd rev_filter [symmetric])
qed

end
