(* ===== verification/Undo.thy ===== *)
theory Undo
  imports Authority_Vocab
begin

text \<open>
  The inverse registry the gate and the ratio computation consult:
  \<^verbatim>\<open>framework/frontdoor/action_undo.py\<close> (\<^verbatim>\<open>inverse_for\<close>,
  \<^verbatim>\<open>act_first_eligible\<close>), the proposer's kind map
  (\<^verbatim>\<open>framework/acting/action_lane.py\<close>) and the backend of a step kind
  (\<^verbatim>\<open>framework/frontdoor/action_exec.py\<close>). Values of a set-map are strings.
\<close>

definition ACT_FIRST_EXCLUDED_BACKENDS :: "string list" where
  "ACT_FIRST_EXCLUDED_BACKENDS = [''apple_reminders'']"

definition ACTION_TYPE_MAP :: "(string \<times> string) list" where
  "ACTION_TYPE_MAP = [(''monday_task_update'', ''board_status''), (''monday_task_create'', ''task_create''),
     (''reminder_create'', ''calendar_event_create''), (''delegate_work'', ''officer_dispatch''),
     (''investigation_run'', ''investigation_run'')]"

definition py_or :: "pyval \<Rightarrow> pyval \<Rightarrow> pyval" where
  "py_or a b = (if truthy a then a else b)"

definition restore_args :: "pyval \<Rightarrow> pyval \<Rightarrow> pyval \<Rightarrow> pyval" where
  "restore_args payload created prestate =
     (let setmap = dget payload ''set'';
          leg = (\<lambda>col. let col_id = str_of (py_or (dget setmap (col @ ''_column'')) (PStr col));
                           prior = dget prestate col_id in
                  (col_id, PDict [(''wrote'', dget setmap col), (''prior_text'', dget prior ''text''),
                     (''kind'', PStr (if col = ''due'' then ''date'' else ''label''))]));
          cols = filter (has_key setmap) [''status'', ''priority'', ''due'', ''label''] in
      PDict [(''board_id'', dget payload ''board_id''), (''item_id'', dget payload ''monday_id''),
        (''columns'', PDict (foldl (\<lambda>d c. kv_put (fst (leg c)) (snd (leg c)) d) [] cols)),
        (''update_id'', dget created ''note_update_id'')])"

definition file_restore_args :: "pyval \<Rightarrow> pyval \<Rightarrow> pyval \<Rightarrow> pyval" where
  "file_restore_args payload created prestate =
     PDict [(''path'', py_or (dget created ''path'') (dget payload ''path'')),
       (''existed'', dget prestate ''existed''), (''prior_content'', dget prestate ''prior_content''),
       (''wrote_sha256'', dget created ''wrote_sha256'')]"

definition op_none :: "string \<Rightarrow> string \<times> pyval" where
  "op_none reason = (''none'', PDict [(''reason'', PStr reason)])"

definition inverse_for :: "string \<Rightarrow> string \<Rightarrow> pyval \<Rightarrow> pyval \<Rightarrow> pyval \<Rightarrow> string \<times> pyval" where
  "inverse_for kind backend payload created prestate =
     (if kind = ''monday_task_create'' then
        (''monday_archive_item'', PDict [(''item_id'', dget created ''monday_id''),
           (''board_id'', py_or (dget created ''board_id'') (dget payload ''board_id'')),
           (''update_id'', dget created ''update_id'')])
      else if kind = ''monday_task_update'' then
        (''monday_compare_restore'', restore_args payload created prestate)
      else if kind \<in> {''task_status_move'', ''label''} then
        (''monday_compare_restore'', restore_args payload created prestate)
      else if kind \<in> {''tier2_note'', ''local_edit''} then
        (''file_compare_restore'', file_restore_args payload created prestate)
      else if kind = ''reminder_create'' then
        (if backend = ''apple_reminders''
         then op_none ''apple_reminders has no reliable inverse''
         else (''calendar_delete_by_uid'', PDict [(''uid'', dget created ''uid''),
                 (''calendar'', dget created ''calendar'')]))
      else if kind = ''delegate_work'' then op_none ''delegate_work is propose-first''
      else if kind = ''investigation_run'' then op_none ''investigation_run is read-only''
      else op_none (''unknown kind '' @ kind))"

definition act_first_eligible :: "string \<Rightarrow> string \<Rightarrow> bool" where
  "act_first_eligible kind backend \<longleftrightarrow> backend \<notin> set ACT_FIRST_EXCLUDED_BACKENDS
     \<and> fst (inverse_for kind backend (PDict []) (PDict []) (PDict [])) \<noteq> ''none''"

text \<open>\<^verbatim>\<open>action_exec._backend_for\<close>; the flag is the reminder-backend environment switch.\<close>

definition backend_for :: "bool \<Rightarrow> string \<Rightarrow> string" where
  "backend_for apple kind =
     (if kind \<in> {''monday_task_create'', ''monday_task_update''} then ''monday''
      else if kind = ''reminder_create'' then (if apple then ''apple_reminders'' else ''calendar'')
      else if kind = ''delegate_work'' then ''delegate''
      else if kind = ''investigation_run'' then ''investigation''
      else ''unknown'')"

text \<open>\<^verbatim>\<open>consequence._det_inverse_gate_fuel_types\<close>.\<close>

definition det_inverse_gate_fuel_types :: "string list" where
  "det_inverse_gate_fuel_types =
     filter (\<lambda>a. act_first_eligible a a) ACTION_TYPES
     @ map snd (filter (\<lambda>(kind, a). a \<in> set ACTION_TYPES \<and> act_first_eligible kind kind) ACTION_TYPE_MAP)"

lemma act_first_eligible_iff:
  "act_first_eligible kind backend \<longleftrightarrow> backend \<noteq> ''apple_reminders'' \<and>
     kind \<in> {''monday_task_create'', ''monday_task_update'', ''task_status_move'', ''label'',
             ''tier2_note'', ''local_edit'', ''reminder_create''}"
  by (simp add: act_first_eligible_def inverse_for_def op_none_def ACT_FIRST_EXCLUDED_BACKENDS_def)

lemma det_inverse_fuel:
  "set det_inverse_gate_fuel_types =
     {''task_status_move'', ''label'', ''tier2_note'', ''local_edit'',
      ''board_status'', ''task_create'', ''calendar_event_create''}"
  by code_simp

end
