(* ===== verification/Consequence.thy ===== *)
theory Consequence
  imports Keyed_Log Undo
begin

text \<open>
  The consequence ledger: \<^verbatim>\<open>framework/fidelity/consequence.py\<close>. An event is the JSON
  object a caller emits; the ledger directory is its list of daily files, each a list of lines
  (None: a blank line or one that does not decode). The path fence's outcome, the evidence mirror's
  reserved reference, the UTC date and the posture resolution at compute time are arguments. The
  readers are modelled on rows whose actor, action, subject and ts have the types the writer
  enforces (rows that other programs put there with other types make Python raise).
\<close>

section \<open>The validator\<close>

abbreviation CErr :: "string \<Rightarrow> py_exc" where "CErr \<equiv> ConsequenceValidationError"

definition DIRECT_DEMOTE_REF :: string where "DIRECT_DEMOTE_REF = ''demote:direct''"

definition EVENT_KEYS :: "string list" where
  "EVENT_KEYS = [''ts'', ''actor'', ''lane'', ''action'', ''subject'', ''action_type'', ''refs'',
     ''proposal'', ''outcome'', ''review'', ''decision_verdict'', ''intent_verdict'',
     ''intent_composite'', ''endorsement'', ''sim'']"

definition EVENT_REQUIRED :: "string list" where
  "EVENT_REQUIRED = [''ts'', ''actor'', ''lane'', ''action'', ''subject'']"

definition ACTOR_KINDS :: "string list" where "ACTOR_KINDS = [''pipe'', ''officer'', ''crew'']"

definition PROPOSAL_DECISIONS :: "pyval list" where
  "PROPOSAL_DECISIONS = PNone # map PStr [''approved'', ''edited'', ''rejected'', ''expired'']"

definition OUTCOME_STATUSES :: "pyval list" where
  "OUTCOME_STATUSES = map PStr [''ok'', ''failed'', ''unknown'']"

definition REVIEW_VERDICTS :: "pyval list" where
  "REVIEW_VERDICTS = map PStr [''confirmed'', ''wrong'', ''unknown'']"

definition REVIEW_SOURCES :: "pyval list" where
  "REVIEW_SOURCES = map PStr [''verdict_human'', ''verdict_judge'', ''system'', ''verdict_gate'']"

definition DECISION_VERDICTS :: "pyval list" where
  "DECISION_VERDICTS =
     PNone # map PStr [''match'', ''partial'', ''divergent'', ''error'', ''skipped'']"

definition INTENT_VERDICTS :: "pyval list" where
  "INTENT_VERDICTS = PNone # map PStr [''intent-aligned'', ''intent-partial'', ''intent-divergent'',
     ''error'', '''']"

definition c_extra :: "pyval \<Rightarrow> string list \<Rightarrow> py_exc option" where
  "c_extra d allowed = raise_if (\<not> set (keys d) \<subseteq> set allowed) (CErr ''additional properties not allowed'')"

definition c_hash :: "pyval \<Rightarrow> py_exc option" where
  "c_hash v = raise_if (\<not> hashable v) (TypeError ''unhashable type'')"

definition when_key :: "pyval \<Rightarrow> string \<Rightarrow> (pyval \<Rightarrow> py_exc option) \<Rightarrow> py_exc option" where
  "when_key d k f = (if has_key d k then f (dget d k) else None)"

definition str_or_null :: "pyval \<Rightarrow> bool" where
  "str_or_null v \<longleftrightarrow> v = PNone \<or> is_str v"

definition check_action_type :: "pyval \<Rightarrow> py_exc option" where
  "check_action_type v = run_checks
     [raise_if (\<not> str_or_null v) (CErr ''action_type must be a string or null''),
      raise_if (v \<noteq> PNone \<and> v \<notin> PStr ` set ACTION_TYPES \<and> \<not> is_declared_operation_id v)
        (CErr ''action_type must be one of'')]"

definition check_enum_or_null :: "pyval list \<Rightarrow> string \<Rightarrow> pyval \<Rightarrow> py_exc option" where
  "check_enum_or_null allowed msg v = run_checks
     [raise_if (\<not> str_or_null v) (CErr msg), raise_if (v \<notin> set allowed) (CErr msg)]"

definition check_composite :: "pyval \<Rightarrow> py_exc option" where
  "check_composite v = (if v = PNone then None else run_checks
     [raise_if (\<not> is_number v) (CErr ''intent_composite must be a number or null''),
      raise_if (\<not> (0 \<le> num_of v \<and> num_of v \<le> 1)) (CErr ''intent_composite must be within [0, 1]'')])"

definition check_actor :: "pyval \<Rightarrow> py_exc option" where
  "check_actor actor = run_checks
     [raise_if (\<not> is_dict actor) (CErr ''actor must be an object''),
      for_each (\<lambda>k. raise_if (\<not> has_key actor k) (CErr ''actor: missing required field''))
        [''kind'', ''id''],
      c_extra actor [''kind'', ''id''],
      c_hash (dget actor ''kind''),
      raise_if (dget actor ''kind'' \<notin> PStr ` set ACTOR_KINDS) (CErr ''actor.kind must be one of''),
      raise_if (\<not> is_str (dget actor ''id'') \<or> str_of (dget actor ''id'') = [])
        (CErr ''actor.id must be a non-empty string'')]"

definition check_refs :: "pyval \<Rightarrow> py_exc option" where
  "check_refs refs = raise_if (\<not> is_list refs \<or> \<not> list_all is_str (elems refs))
     (CErr ''refs must be an array of strings'')"

definition check_proposal :: "pyval \<Rightarrow> py_exc option" where
  "check_proposal prop = run_checks
     [raise_if (\<not> is_dict prop) (CErr ''proposal must be an object''),
      raise_if (\<not> has_key prop ''required'') (CErr ''proposal: missing required field: required''),
      c_extra prop [''required'', ''decision'', ''decided_at''],
      raise_if (\<not> is_bool (dget prop ''required'')) (CErr ''proposal.required must be a boolean''),
      c_hash (dget prop ''decision''),
      raise_if (dget prop ''decision'' \<notin> set PROPOSAL_DECISIONS)
        (CErr ''proposal.decision must be one of'')]"

definition check_outcome :: "pyval \<Rightarrow> py_exc option" where
  "check_outcome outc = run_checks
     [raise_if (\<not> is_dict outc) (CErr ''outcome must be an object''),
      raise_if (\<not> has_key outc ''status'') (CErr ''outcome: missing required field: status''),
      c_extra outc [''status'', ''evidence''],
      c_hash (dget outc ''status''),
      raise_if (dget outc ''status'' \<notin> set OUTCOME_STATUSES) (CErr ''outcome.status must be one of'')]"

definition check_review :: "pyval \<Rightarrow> py_exc option" where
  "check_review rvw = run_checks
     [raise_if (\<not> is_dict rvw) (CErr ''review must be an object''),
      raise_if (\<not> has_key rvw ''verdict'') (CErr ''review: missing required field: verdict''),
      c_extra rvw [''verdict'', ''reviewed_at'', ''lesson_ref'', ''source''],
      c_hash (dget rvw ''verdict''),
      raise_if (dget rvw ''verdict'' \<notin> set REVIEW_VERDICTS) (CErr ''review.verdict must be one of''),
      when_key rvw ''source'' c_hash,
      when_key rvw ''source'' (\<lambda>s. raise_if (s \<notin> set REVIEW_SOURCES)
        (CErr ''review.source must be one of''))]"

definition validate_invariants :: "pyval \<Rightarrow> py_exc option" where
  "validate_invariants event =
     (let prop = dget event ''proposal''; outc = dget event ''outcome''; rvw = dget event ''review'';
          status = dget outc ''status''; evidence = dget outc ''evidence'' in run_checks
      [raise_if (prop \<noteq> PNone \<and> dget prop ''required'' = PBool False \<and> dget prop ''decision'' \<noteq> PNone)
         (CErr ''proposal.decision must be null when proposal.required is false''),
       raise_if (outc \<noteq> PNone \<and> status = PStr ''unknown'' \<and> evidence \<noteq> PNone)
         (CErr ''outcome.evidence must be null when status is unknown''),
       raise_if (outc \<noteq> PNone \<and> status \<in> {PStr ''ok'', PStr ''failed''} \<and> \<not> truthy evidence)
         (CErr ''outcome.evidence must be present''),
       raise_if (rvw \<noteq> PNone \<and> dget rvw ''verdict'' \<noteq> PStr ''wrong'' \<and> dget rvw ''lesson_ref'' \<noteq> PNone)
         (CErr ''review.lesson_ref must be null unless verdict is wrong'')])"

definition validate_consequence :: "pyval \<Rightarrow> py_exc option" where
  "validate_consequence event = run_checks
     [raise_if (\<not> is_dict event) (CErr ''event must be an object''),
      for_each (\<lambda>k. raise_if (\<not> has_key event k) (CErr ''missing required field'')) EVENT_REQUIRED,
      c_extra event EVENT_KEYS,
      for_each (\<lambda>k. raise_if (\<not> is_str (dget event k) \<or> str_of (dget event k) = [])
        (CErr ''must be a non-empty string'')) [''ts'', ''action'', ''subject''],
      raise_if (\<not> str_or_null (dget event ''lane'')) (CErr ''lane must be a string or null''),
      when_key event ''action_type'' check_action_type,
      when_key event ''decision_verdict''
        (check_enum_or_null DECISION_VERDICTS ''decision_verdict must be one of''),
      when_key event ''intent_verdict''
        (check_enum_or_null INTENT_VERDICTS ''intent_verdict must be one of''),
      when_key event ''intent_composite'' check_composite,
      when_key event ''endorsement'' (\<lambda>en. raise_if (en \<noteq> PNone \<and> (\<not> is_str en \<or> str_of en = []))
        (CErr ''endorsement must be a non-empty string or null'')),
      when_key event ''sim'' (\<lambda>s. raise_if (s \<noteq> PBool True) (CErr ''sim must be the boolean true'')),
      check_actor (dget event ''actor''),
      when_key event ''refs'' check_refs,
      when_key event ''proposal'' check_proposal,
      when_key event ''outcome'' check_outcome,
      when_key event ''review'' check_review,
      validate_invariants event]"

section \<open>The ledger on disk\<close>

record ledger_file =
  lf_name :: string
  lf_inside :: bool                   \<comment> \<open>its real path is inside the resolved log dir\<close>
  lf_lines :: "pyval option list"

record ledger_dir =
  dir_name :: string                  \<comment> \<open>the base name of the resolved directory\<close>
  dir_files :: "ledger_file list"

datatype emit_error = Invalid py_exc | SimQuarantineError

definition is_sim_dir :: "ledger_dir \<Rightarrow> bool" where
  "is_sim_dir d \<longleftrightarrow> ends_with ''-sim'' (dir_name d)"

definition ledger_name :: "string \<Rightarrow> string" where
  "ledger_name date = ''consequence-events-'' @ date @ ''.jsonl''"

fun append_line :: "string \<Rightarrow> pyval \<Rightarrow> ledger_file list \<Rightarrow> ledger_file list" where
  "append_line name ev [] = [\<lparr>lf_name = name, lf_inside = True, lf_lines = [Some ev]\<rparr>]"
| "append_line name ev (f # fs) =
     (if lf_name f = name then f\<lparr>lf_lines := lf_lines f @ [Some ev]\<rparr> # fs
      else f # append_line name ev fs)"

definition write_to_log :: "string \<Rightarrow> pyval \<Rightarrow> ledger_dir \<Rightarrow> emit_error + ledger_dir" where
  "write_to_log date event d =
     (if truthy (dget event ''sim'') \<noteq> is_sim_dir d then Inl SimQuarantineError
      else Inr (d\<lparr>dir_files := append_line (ledger_name date) event (dir_files d)\<rparr>))"

text \<open>
  The arguments of \<^verbatim>\<open>emit_consequence\<close>. For the four objects None drops the key; for the
  scorer axes the unset sentinel drops it and any value, null included, is written.
\<close>

record emit_args =
  ea_ts :: pyval
  ea_actor :: pyval
  ea_lane :: pyval
  ea_action :: pyval
  ea_subject :: pyval
  ea_action_type :: pyval
  ea_refs :: "pyval list"
  ea_proposal :: pyval
  ea_outcome :: pyval
  ea_review :: pyval
  ea_decision_verdict :: "pyval option"
  ea_intent_verdict :: "pyval option"
  ea_intent_composite :: "pyval option"
  ea_endorsement :: "pyval option"

definition put_some :: "string \<Rightarrow> pyval option \<Rightarrow> pyval \<Rightarrow> pyval" where
  "put_some k v d = (case v of None \<Rightarrow> d | Some x \<Rightarrow> dput d k x)"

definition not_none :: "pyval \<Rightarrow> pyval option" where
  "not_none v = (if v = PNone then None else Some v)"

definition build_event :: "bool \<Rightarrow> emit_args \<Rightarrow> pyval" where
  "build_event sim_mode a =
     put_some ''sim'' (if sim_mode then Some (PBool True) else None)
     (put_some ''endorsement'' (ea_endorsement a)
     (put_some ''intent_composite'' (ea_intent_composite a)
     (put_some ''intent_verdict'' (ea_intent_verdict a)
     (put_some ''decision_verdict'' (ea_decision_verdict a)
     (put_some ''review'' (not_none (ea_review a))
     (put_some ''outcome'' (not_none (ea_outcome a))
     (put_some ''proposal'' (not_none (ea_proposal a))
     (put_some ''action_type'' (not_none (ea_action_type a))
       (PDict [(''ts'', ea_ts a), (''actor'', ea_actor a), (''lane'', ea_lane a),
               (''action'', ea_action a), (''subject'', ea_subject a),
               (''refs'', PList (ea_refs a))])))))))))"

text \<open>\<open>mirror\<close> is the evidence mirror's reservation: the reference it appends, if any.\<close>

definition with_mirror_ref :: "string option \<Rightarrow> pyval \<Rightarrow> pyval" where
  "with_mirror_ref slot event = (case slot of None \<Rightarrow> event
     | Some r \<Rightarrow> dput event ''refs'' (PList (elems (dget event ''refs'') @ [PStr r])))"

definition emit_consequence ::
  "bool \<Rightarrow> string \<Rightarrow> (pyval \<Rightarrow> string option) \<Rightarrow> emit_args \<Rightarrow> ledger_dir \<Rightarrow> emit_error + (pyval \<times> ledger_dir)"
  where
  "emit_consequence sim_mode date mirror a d =
     (let event0 = build_event sim_mode a; event = with_mirror_ref (mirror event0) event0 in
      case validate_consequence event of
        Some e \<Rightarrow> Inl (Invalid e)
      | None \<Rightarrow> (case write_to_log date event d of Inl e \<Rightarrow> Inl e | Inr d' \<Rightarrow> Inr (event, d')))"

section \<open>Reading it back\<close>

definition is_consequence_row :: "pyval \<Rightarrow> bool" where
  "is_consequence_row ev \<longleftrightarrow> is_dict ev \<and> is_dict (dget ev ''actor'') \<and> has_key ev ''action''
     \<and> has_key ev ''subject''"

definition actor_id :: "pyval \<Rightarrow> string" where
  "actor_id ev = str_of (dget (dget ev ''actor'') ''kind'') @ '':'' @ str_of (dget (dget ev ''actor'') ''id'')"

definition ev_ts :: "pyval \<Rightarrow> string" where
  "ev_ts ev = str_of (dget ev ''ts'')"

definition identity :: "pyval \<Rightarrow> string \<times> pyval \<times> pyval \<times> string" where
  "identity ev = (actor_id ev, dget_or ev ''action'' (PStr []), dget_or ev ''subject'' (PStr []), ev_ts ev)"

definition safe_ledger_files :: "ledger_dir \<Rightarrow> ledger_file list" where
  "safe_ledger_files d = filter lf_inside (sort_key lf_name
     (filter (\<lambda>f. starts_with ''consequence-events-'' (lf_name f) \<and> ends_with ''.jsonl'' (lf_name f))
       (dir_files d)))"

text \<open>The lines of a file that decode.\<close>

fun decoded :: "pyval option list \<Rightarrow> pyval list" where
  "decoded [] = []"
| "decoded (None # ls) = decoded ls"
| "decoded (Some ev # ls) = ev # decoded ls"

definition file_rows :: "ledger_file \<Rightarrow> pyval list" where
  "file_rows f = filter is_consequence_row (decoded (lf_lines f))"

text \<open>The rows a reader sees, in file and line order, before the collapse.\<close>

definition visible_rows :: "bool \<Rightarrow> ledger_dir \<Rightarrow> pyval list" where
  "visible_rows sim_mode d =
     (let rows = concat (map file_rows (safe_ledger_files d)) in
      if sim_mode then rows else filter (\<lambda>ev. \<not> truthy (dget ev ''sim'')) rows)"

definition read_ledger :: "bool \<Rightarrow> string option \<Rightarrow> ledger_dir \<Rightarrow> pyval list" where
  "read_ledger sim_mode since d =
     (let rows = sort_key ev_ts (visible_rows sim_mode d);
          events = collapse identity rows;
          kept = (case since of None \<Rightarrow> events | Some s \<Rightarrow> filter (\<lambda>e. s \<le> ev_ts e) events)
      in sort_key ev_ts kept)"

text \<open>\<^verbatim>\<open>iter_ledger_rows\<close>: raw rows with their file and 1-based line, simulation rows dropped.\<close>

fun iter_lines :: "string \<Rightarrow> string option \<Rightarrow> nat \<Rightarrow> pyval option list \<Rightarrow> (string \<times> nat \<times> pyval) list" where
  "iter_lines name since n [] = []"
| "iter_lines name since n (None # ls) = iter_lines name since (Suc n) ls"
| "iter_lines name since n (Some ev # ls) =
     (if \<not> is_consequence_row ev \<or> truthy (dget ev ''sim'')
         \<or> (case since of None \<Rightarrow> False | Some s \<Rightarrow> ev_ts ev < s)
      then iter_lines name since (Suc n) ls
      else (name, n, ev) # iter_lines name since (Suc n) ls)"

definition iter_file :: "string option \<Rightarrow> ledger_file \<Rightarrow> (string \<times> nat \<times> pyval) list" where
  "iter_file since f = iter_lines (lf_name f) since 1 (lf_lines f)"

definition iter_ledger_rows :: "string option \<Rightarrow> ledger_dir \<Rightarrow> (string \<times> nat \<times> pyval) list" where
  "iter_ledger_rows since d = concat (map (iter_file since) (safe_ledger_files d))"

section \<open>Graduation ratios\<close>

definition UNSTAMPED_ACTION_TYPE :: string where "UNSTAMPED_ACTION_TYPE = ''__unstamped__''"

record ratios =
  r_approved :: nat
  r_edited :: nat
  r_rejected :: nat
  r_ok :: nat
  r_failed :: nat
  r_confirmed :: nat
  r_wrong :: nat
  r_samples :: nat
  r_aligned :: nat
  r_divergent :: nat

definition no_ratios :: ratios where
  "no_ratios = \<lparr>r_approved = 0, r_edited = 0, r_rejected = 0, r_ok = 0, r_failed = 0,
     r_confirmed = 0, r_wrong = 0, r_samples = 0, r_aligned = 0, r_divergent = 0\<rparr>"

definition rate :: "nat \<Rightarrow> nat \<Rightarrow> rat option" where
  "rate n denom = (if denom = 0 then None else Some (of_nat n / of_nat denom))"

definition approval_unchanged_rate :: "ratios \<Rightarrow> rat option" where
  "approval_unchanged_rate r = rate (r_approved r) (r_approved r + r_edited r + r_rejected r)"

definition outcome_held_rate :: "ratios \<Rightarrow> rat option" where
  "outcome_held_rate r = rate (r_ok r) (r_ok r + r_failed r)"

definition review_confirmed_rate :: "ratios \<Rightarrow> rat option" where
  "review_confirmed_rate r = rate (r_confirmed r) (r_confirmed r + r_wrong r)"

definition intent_match_rate :: "ratios \<Rightarrow> rat option" where
  "intent_match_rate r = rate (r_aligned r) (r_aligned r + r_divergent r)"

type_synonym cell_key = "string \<times> pyval \<times> string"

definition cell_key :: "pyval \<Rightarrow> cell_key" where
  "cell_key ev = (actor_id ev, dget ev ''lane'',
     (if truthy (dget ev ''action_type'') then str_of (dget ev ''action_type'') else UNSTAMPED_ACTION_TYPE))"

definition label_floor_met :: "string \<Rightarrow> bool" where
  "label_floor_met ts = False"

definition decision_of :: "pyval \<Rightarrow> pyval" where
  "decision_of ev = dget (dget ev ''proposal'') ''decision''"

definition status_of :: "pyval \<Rightarrow> pyval" where
  "status_of ev = dget (dget ev ''outcome'') ''status''"

definition verdict_of_row :: "pyval \<Rightarrow> pyval" where
  "verdict_of_row ev = dget (dget ev ''review'') ''verdict''"

definition source_of :: "pyval \<Rightarrow> pyval" where
  "source_of ev = dget (dget ev ''review'') ''source''"

text \<open>
  Whether a confirming review fuels promotion; \<open>sovereign\<close> is what the posture resolves to
  when the ratios are computed.
\<close>

definition fuels :: "bool \<Rightarrow> pyval \<Rightarrow> bool" where
  "fuels sovereign ev \<longleftrightarrow> verdict_of_row ev = PStr ''confirmed'' \<and>
     (source_of ev = PStr ''verdict_human'' \<or>
      source_of ev = PStr ''verdict_gate'' \<and> sovereign
        \<and> snd (snd (cell_key ev)) \<in> set det_inverse_gate_fuel_types
        \<and> label_floor_met (ev_ts ev))"

definition tally :: "bool \<Rightarrow> pyval \<Rightarrow> ratios \<Rightarrow> ratios" where
  "tally sovereign ev r =
     (let d = decision_of ev; s = status_of ev; i = dget ev ''intent_verdict'';
          r1 = r\<lparr>r_samples := Suc (r_samples r)\<rparr>;
          r2 = (if d = PStr ''approved'' then r1\<lparr>r_approved := Suc (r_approved r1)\<rparr>
                else if d = PStr ''edited'' then r1\<lparr>r_edited := Suc (r_edited r1)\<rparr>
                else if d = PStr ''rejected'' then r1\<lparr>r_rejected := Suc (r_rejected r1)\<rparr> else r1);
          r3 = (if s = PStr ''ok'' then r2\<lparr>r_ok := Suc (r_ok r2)\<rparr>
                else if s = PStr ''failed'' then r2\<lparr>r_failed := Suc (r_failed r2)\<rparr> else r2);
          r4 = (if fuels sovereign ev then r3\<lparr>r_confirmed := Suc (r_confirmed r3)\<rparr>
                else if verdict_of_row ev = PStr ''wrong'' then r3\<lparr>r_wrong := Suc (r_wrong r3)\<rparr> else r3)
      in if i = PStr ''intent-aligned'' then r4\<lparr>r_aligned := Suc (r_aligned r4)\<rparr>
         else if i = PStr ''intent-divergent'' then r4\<lparr>r_divergent := Suc (r_divergent r4)\<rparr> else r4)"

definition ratio_step :: "bool \<Rightarrow> (cell_key \<times> ratios) list \<Rightarrow> pyval \<Rightarrow> (cell_key \<times> ratios) list" where
  "ratio_step sovereign cells ev =
     (let key = cell_key ev;
          cell = (case map_of cells key of None \<Rightarrow> no_ratios | Some r \<Rightarrow> r)
      in kv_put key (tally sovereign ev cell) cells)"

definition compute_ratios :: "bool \<Rightarrow> pyval list \<Rightarrow> (cell_key \<times> ratios) list" where
  "compute_ratios sovereign events = foldl (ratio_step sovereign) [] events"

end
