(* ===== verification/Consequence_Correct.thy ===== *)
theory Consequence_Correct
  imports Consequence
begin

text \<open>
  The properties of the consequence ledger: what an accepted event satisfies, what an emit does to
  the directory, that simulation and live rows never mix, what a read returns, and that the ratios
  are the counts they are documented to be.
\<close>

section \<open>Accepted events\<close>

lemma when_key_None [simp, checks]:
  "when_key d k f = None \<longleftrightarrow> (has_key d k \<longrightarrow> f (dget d k) = None)"
  by (simp add: when_key_def)

lemma c_extra_None [simp, checks]: "c_extra d ks = None \<longleftrightarrow> set (keys d) \<subseteq> set ks"
  by (simp add: c_extra_def)

lemma c_hash_None [simp, checks]: "c_hash v = None \<longleftrightarrow> hashable v"
  by (simp add: c_hash_def)

text \<open>The parts of an accepted event; each is unfolded only where it is used.\<close>

lemma accepted_parts:
  assumes "validate_consequence ev = None"
  shows "is_dict ev"
    and "\<forall>k \<in> set EVENT_REQUIRED. has_key ev k"
    and "set (keys ev) \<subseteq> set EVENT_KEYS"
    and "\<forall>k \<in> {''ts'', ''action'', ''subject''}. is_str (dget ev k) \<and> str_of (dget ev k) \<noteq> []"
    and "has_key ev ''action_type'' \<longrightarrow> check_action_type (dget ev ''action_type'') = None"
    and "has_key ev ''sim'' \<longrightarrow> dget ev ''sim'' = PBool True"
    and "check_actor (dget ev ''actor'') = None"
    and "has_key ev ''review'' \<longrightarrow> check_review (dget ev ''review'') = None"
    and "validate_invariants ev = None"
  using assms by (simp_all add: validate_consequence_def)

lemma str_or_null_cases: "str_or_null v \<longleftrightarrow> (v = PNone \<or> (\<exists>s. v = PStr s))"
  by (auto simp: str_or_null_def is_str_iff)

text \<open>
  An accepted consequence event can be trusted field by field. Its actor is one of the three
  kinds with a non-empty id, its timestamp is a non-empty string, its kind is a classifier kind, a
  declared operation or absent, a decision exists only behind an approval gate, an outcome that
  claims ok or failed carries evidence and one that is unknown carries none, a lesson is attached
  only to a wrong verdict, and the simulation marker is present only as true.
\<close>

theorem accepted_event_sound:
  assumes "validate_consequence ev = None"
  shows "(\<exists>kind \<in> set ACTOR_KINDS. dget (dget ev ''actor'') ''kind'' = PStr kind)
     \<and> ev_ts ev \<noteq> []
     \<and> (dget ev ''action_type'' = PNone \<or> (\<exists>k. dget ev ''action_type'' = PStr k
          \<and> (k \<in> set ACTION_TYPES \<or> is_declared_operation_id (PStr k))))
     \<and> (dget (dget ev ''proposal'') ''required'' = PBool False \<longrightarrow> decision_of ev = PNone)
     \<and> (status_of ev \<in> {PStr ''ok'', PStr ''failed''} \<longrightarrow> truthy (dget (dget ev ''outcome'') ''evidence''))
     \<and> (status_of ev = PStr ''unknown'' \<longrightarrow> dget (dget ev ''outcome'') ''evidence'' = PNone)
     \<and> (dget (dget ev ''review'') ''lesson_ref'' \<noteq> PNone \<longrightarrow> verdict_of_row ev = PStr ''wrong'')
     \<and> truthy (dget ev ''sim'') = has_key ev ''sim''"
proof -
  note parts = accepted_parts [OF assms]
  have kind: "\<exists>kind \<in> set ACTOR_KINDS. dget (dget ev ''actor'') ''kind'' = PStr kind"
    using parts(7) by (auto simp: check_actor_def)
  have ts: "ev_ts ev \<noteq> []"
    using parts(4) by (simp add: ev_ts_def)
  have k: "dget ev ''action_type'' = PNone \<or> (\<exists>k. dget ev ''action_type'' = PStr k
          \<and> (k \<in> set ACTION_TYPES \<or> is_declared_operation_id (PStr k)))"
  proof (cases "has_key ev ''action_type''")
    case True
    then show ?thesis
      using parts(5) by (auto simp: check_action_type_def str_or_null_cases)
  next
    case False
    then show ?thesis by (auto dest: dget_not_None_has_key)
  qed
  have none: "dget PNone x = PNone" for x
    by (simp add: dget_def dget_opt_def)
  have sim: "truthy (dget ev ''sim'') = has_key ev ''sim''"
  proof (cases "has_key ev ''sim''")
    case False
    then have "dget ev ''sim'' = PNone"
      using dget_not_None_has_key by blast
    then show ?thesis using False by simp
  qed (use parts(6) in simp)
  note inv = parts(9) [unfolded validate_invariants_def Let_def run_checks_Cons_None raise_if_None]
  have gate: "dget (dget ev ''proposal'') ''required'' = PBool False \<longrightarrow> decision_of ev = PNone"
    using inv none by (metis decision_of_def)
  have evid: "status_of ev \<in> {PStr ''ok'', PStr ''failed''} \<longrightarrow>
      truthy (dget (dget ev ''outcome'') ''evidence'')"
    using inv none [of "''status''"] by (metis insertE pyval.distinct(7) singletonD status_of_def)
  have unkn: "status_of ev = PStr ''unknown'' \<longrightarrow> dget (dget ev ''outcome'') ''evidence'' = PNone"
    using inv none by (metis status_of_def)
  have lesson: "dget (dget ev ''review'') ''lesson_ref'' \<noteq> PNone \<longrightarrow> verdict_of_row ev = PStr ''wrong''"
    using inv none by (metis verdict_of_row_def)
  show ?thesis
    using kind ts k sim gate evid unkn lesson by blast
qed

definition sample_row :: "string \<Rightarrow> string \<Rightarrow> pyval \<Rightarrow> pyval" where
  "sample_row who ts review = PDict
     [(''ts'', PStr ts), (''actor'', PDict [(''kind'', PStr ''officer''), (''id'', PStr who)]),
      (''lane'', PStr ''ops''), (''action'', PStr ''move card''), (''subject'', PStr ''board 7''),
      (''refs'', PList []), (''action_type'', PStr ''task_status_move''),
      (''outcome'', PDict [(''status'', PStr ''ok''), (''evidence'', PStr ''board row'')]),
      (''review'', review)]"

definition human_review :: "string \<Rightarrow> pyval" where
  "human_review v = PDict [(''verdict'', PStr v), (''source'', PStr ''verdict_human'')]"

theorem accepted_event_sound_witness:
  "validate_consequence (sample_row ''cos'' ''2026-07-04T10:00:00Z'' (human_review ''confirmed'')) = None
   \<and> ev_ts (sample_row ''cos'' ''2026-07-04T10:00:00Z'' (human_review ''confirmed'')) \<noteq> []"
proof -
  have ok: "validate_consequence (sample_row ''cos'' ''2026-07-04T10:00:00Z'' (human_review ''confirmed'')) = None"
    by code_simp
  show ?thesis
    using ok accepted_event_sound [OF ok] by blast
qed

section \<open>Emitting\<close>

lemma dget_put_some: "dget (put_some k v d) k' = (if k' = k \<and> v \<noteq> None then the v else dget d k')"
  by (auto simp: put_some_def split: option.splits)

lemma build_event_sim: "truthy (dget (build_event sim_mode a) ''sim'') = sim_mode"
  unfolding build_event_def dget_put_some by (simp add: dget_def)

lemma with_mirror_ref_get: "k \<noteq> ''refs'' \<Longrightarrow> dget (with_mirror_ref slot ev) k = dget ev k"
  by (simp add: with_mirror_ref_def split: option.splits)

lemma emit_Inr:
  "emit_consequence sim_mode date mirror a d = Inr (ev, d') \<longleftrightarrow>
     (let ev0 = build_event sim_mode a in ev = with_mirror_ref (mirror ev0) ev0)
     \<and> validate_consequence ev = None \<and> sim_mode = is_sim_dir d
     \<and> d' = d\<lparr>dir_files := append_line (ledger_name date) ev (dir_files d)\<rparr>"
  by (auto simp: emit_consequence_def Let_def write_to_log_def with_mirror_ref_get build_event_sim
      split: option.splits sum.splits)

definition all_rows :: "ledger_dir \<Rightarrow> pyval list" where
  "all_rows d = concat (map (\<lambda>f. decoded (lf_lines f)) (dir_files d))"

lemma decoded_append [simp]: "decoded (xs @ ys) = decoded xs @ decoded ys"
  by (induction xs rule: decoded.induct) simp_all

lemma append_line_rows:
  "set (concat (map (\<lambda>f. decoded (lf_lines f)) (append_line n ev fs))) =
     insert ev (set (concat (map (\<lambda>f. decoded (lf_lines f)) fs)))"
  by (induction n ev fs rule: append_line.induct) auto

lemma append_line_length:
  "length (concat (map lf_lines (append_line n ev fs))) = Suc (length (concat (map lf_lines fs)))"
  by (induction n ev fs rule: append_line.induct) auto

text \<open>
  An emit either writes exactly one valid row or changes nothing. It succeeds precisely when
  the event, with the mirror reference it may carry, passes validation and the process's simulation
  mode agrees with the directory; then the directory has one more line, the returned event, and no
  other line differs in number; otherwise the result is the validation error or the quarantine
  error, the first taking precedence.
\<close>

theorem emit_consequence_effect:
  defines "ev0 s a \<equiv> build_event s a"
  shows "case emit_consequence sim_mode date mirror a d of
      Inr (ev, d') \<Rightarrow> validate_consequence ev = None \<and> sim_mode = is_sim_dir d
        \<and> ev = with_mirror_ref (mirror (ev0 sim_mode a)) (ev0 sim_mode a)
        \<and> set (all_rows d') = insert ev (set (all_rows d))
        \<and> length (concat (map lf_lines (dir_files d'))) = Suc (length (concat (map lf_lines (dir_files d))))
        \<and> dir_name d' = dir_name d
    | Inl (Invalid e) \<Rightarrow>
        validate_consequence (with_mirror_ref (mirror (ev0 sim_mode a)) (ev0 sim_mode a)) = Some e
    | Inl SimQuarantineError \<Rightarrow>
        validate_consequence (with_mirror_ref (mirror (ev0 sim_mode a)) (ev0 sim_mode a)) = None
        \<and> sim_mode \<noteq> is_sim_dir d"
proof (cases "emit_consequence sim_mode date mirror a d")
  case (Inr r)
  obtain ev d' where r: "r = (ev, d')" by (cases r)
  have d': "d' = d\<lparr>dir_files := append_line (ledger_name date) ev (dir_files d)\<rparr>"
    and ev: "ev = with_mirror_ref (mirror (ev0 sim_mode a)) (ev0 sim_mode a)"
    and ok: "validate_consequence ev = None" "sim_mode = is_sim_dir d"
    using Inr emit_Inr [of sim_mode date mirror a d ev d'] unfolding r Let_def ev0_def by blast+
  have rows: "set (all_rows d') = insert ev (set (all_rows d))"
    using append_line_rows by (simp add: d' all_rows_def)
  have len: "length (concat (map lf_lines (dir_files d'))) = Suc (length (concat (map lf_lines (dir_files d))))"
    using append_line_length by (simp add: d')
  have "dir_name d' = dir_name d"
    by (simp add: d')
  then show ?thesis
    unfolding Inr r sum.case prod.case using ok ev rows len by blast
next
  case (Inl e)
  then show ?thesis
    by (auto simp: emit_consequence_def Let_def write_to_log_def with_mirror_ref_get
        build_event_sim ev0_def split: option.splits if_splits emit_error.splits)
qed

section \<open>Simulation and live rows never mix\<close>

inductive ledger_step :: "ledger_dir \<Rightarrow> ledger_dir \<Rightarrow> bool" where
  emit: "emit_consequence sim_mode date mirror a d = Inr (ev, d') \<Longrightarrow> ledger_step d d'"

inductive_cases ledger_stepE: "ledger_step d d'"

definition fenced :: "ledger_dir \<Rightarrow> bool" where
  "fenced d \<longleftrightarrow> (\<forall>ev \<in> set (all_rows d). truthy (dget ev ''sim'') = is_sim_dir d)"

lemma ledger_step_fenced:
  assumes "ledger_step d d'" "fenced d"
  shows "fenced d' \<and> is_sim_dir d' = is_sim_dir d"
proof -
  obtain sim_mode date mirror a ev where e: "emit_consequence sim_mode date mirror a d = Inr (ev, d')"
    using assms(1) by (rule ledger_stepE)
  let ?ev0 = "build_event sim_mode a"
  have ev: "ev = with_mirror_ref (mirror ?ev0) ?ev0" and sm: "sim_mode = is_sim_dir d"
    and d': "d' = d\<lparr>dir_files := append_line (ledger_name date) ev (dir_files d)\<rparr>"
    using e unfolding emit_Inr Let_def by blast+
  have "truthy (dget ev ''sim'') = is_sim_dir d"
    by (simp add: ev with_mirror_ref_get build_event_sim sm)
  moreover have "set (all_rows d') = insert ev (set (all_rows d))"
    using append_line_rows by (simp add: all_rows_def d')
  ultimately show ?thesis
    using assms(2) by (simp add: fenced_def is_sim_dir_def d')
qed

lemma rows_from_all: "set (visible_rows sim_mode d) \<subseteq> set (all_rows d)"
  by (auto simp: visible_rows_def Let_def safe_ledger_files_def file_rows_def all_rows_def)

lemma read_ledger_visible: "set (read_ledger sim_mode since d) \<subseteq> set (visible_rows sim_mode d)"
proof -
  have "set (collapse identity rows) \<subseteq> set rows" for rows
    using find_SomeD [of _ "rev rows"] by (fastforce simp: collapse_iff)
  then have "set (collapse identity (sort_key ev_ts (visible_rows sim_mode d))) \<subseteq> set (visible_rows sim_mode d)"
    by (metis set_sort)
  then show ?thesis
    by (auto simp: read_ledger_def Let_def split: option.splits)
qed

text \<open>
  C16: simulation can never contaminate the live ledger. Start from a directory whose rows agree
  with its name and let any sequence of processes, simulating or live, emit whatever arguments they
  like: every row still agrees with the directory, so no read of a live directory, in any mode,
  returns a simulation row, and every row of a simulation directory is marked.
\<close>

theorem sim_quarantine:
  assumes "fenced d" "ledger_step\<^sup>*\<^sup>* d d'"
  shows "fenced d' \<and> is_sim_dir d' = is_sim_dir d
     \<and> (\<forall>ev \<in> set (read_ledger sim_mode since d'). truthy (dget ev ''sim'') = is_sim_dir d)"
proof -
  have *: "fenced d' \<and> is_sim_dir d' = is_sim_dir d"
    using assms(2,1)
  proof (induction rule: rtranclp_induct)
    case base
    then show ?case by simp
  next
    case (step y z)
    then show ?case using ledger_step_fenced by blast
  qed
  then show ?thesis
    using read_ledger_visible rows_from_all unfolding fenced_def by blast
qed

definition sample_args :: "string \<Rightarrow> string \<Rightarrow> emit_args" where
  "sample_args who ts = \<lparr>ea_ts = PStr ts,
     ea_actor = PDict [(''kind'', PStr ''officer''), (''id'', PStr who)],
     ea_lane = PStr ''ops'', ea_action = PStr ''move card'', ea_subject = PStr ''board 7'',
     ea_action_type = PStr ''task_status_move'', ea_refs = [], ea_proposal = PNone,
     ea_outcome = PDict [(''status'', PStr ''ok''), (''evidence'', PStr ''board row'')],
     ea_review = human_review ''confirmed'', ea_decision_verdict = None, ea_intent_verdict = None,
     ea_intent_composite = None, ea_endorsement = None\<rparr>"

definition live_dir :: ledger_dir where
  "live_dir = \<lparr>dir_name = ''events'', dir_files = []\<rparr>"

definition live_dir1 :: ledger_dir where
  "live_dir1 = \<lparr>dir_name = ''events'', dir_files =
     [\<lparr>lf_name = ''consequence-events-2026-07-04.jsonl'', lf_inside = True,
       lf_lines = [Some (build_event False (sample_args ''cos'' ''2026-07-04T10:00:00Z''))]\<rparr>]\<rparr>"

lemma live_emit:
  "emit_consequence False ''2026-07-04'' (\<lambda>_. None) (sample_args ''cos'' ''2026-07-04T10:00:00Z'') live_dir
     = Inr (build_event False (sample_args ''cos'' ''2026-07-04T10:00:00Z''), live_dir1)"
  by code_simp

theorem sim_quarantine_witness:
  "fenced live_dir1 \<and> list_all (\<lambda>ev. truthy (dget ev ''sim'') = False) (read_ledger False None live_dir1)"
proof -
  have "fenced live_dir"
    by (simp add: fenced_def all_rows_def live_dir_def)
  moreover have "ledger_step\<^sup>*\<^sup>* live_dir live_dir1"
    using ledger_step.emit [OF live_emit] by blast
  moreover have "is_sim_dir live_dir = False"
    by code_simp
  ultimately show ?thesis
    using sim_quarantine [of live_dir live_dir1 False None] by (simp add: list_all_iff)
qed

section \<open>Reading\<close>

lemma identity_ts: "identity x = identity y \<Longrightarrow> ev_ts x = ev_ts y"
  by (simp add: identity_def)

text \<open>The standing row of an identity: the last one in the order the lines were written.\<close>

definition standing :: "pyval list \<Rightarrow> pyval \<Rightarrow> bool" where
  "standing rows ev \<longleftrightarrow> find (\<lambda>y. identity y = identity ev) (rev rows) = Some ev"

lemma standing_iff_split:
  "standing rows ev \<longleftrightarrow>
     (\<exists>before after. rows = before @ ev # after \<and> (\<forall>y \<in> set after. identity y \<noteq> identity ev))"
proof -
  have "find P (rev xs) = Some x \<longleftrightarrow> (\<exists>before after. xs = before @ x # after \<and> P x \<and> (\<forall>y \<in> set after. \<not> P y))"
    for P and x :: pyval and xs
  proof (induction xs rule: rev_induct)
    case Nil
    show ?case by simp
  next
    case (snoc z zs)
    show ?case
    proof (cases "P z")
      case True
      have "zs @ [z] = before @ x # after \<and> P x \<and> (\<forall>y \<in> set after. \<not> P y) \<longleftrightarrow>
          after = [] \<and> before = zs \<and> x = z" for before after
        using True by (cases after rule: rev_cases) auto
      then show ?thesis using True by auto
    next
      case False
      have "(\<exists>before after. zs @ [z] = before @ x # after \<and> P x \<and> (\<forall>y \<in> set after. \<not> P y)) \<longleftrightarrow>
          (\<exists>before after. zs = before @ x # after \<and> P x \<and> (\<forall>y \<in> set after. \<not> P y))"
      proof
        assume "\<exists>before after. zs @ [z] = before @ x # after \<and> P x \<and> (\<forall>y \<in> set after. \<not> P y)"
        then obtain before after where *: "zs @ [z] = before @ x # after" "P x" "\<forall>y \<in> set after. \<not> P y"
          by blast
        then obtain after' where "after = after' @ [z]"
          using False by (cases after rule: rev_cases) auto
        then show "\<exists>before after. zs = before @ x # after \<and> P x \<and> (\<forall>y \<in> set after. \<not> P y)"
          using * by auto
      next
        assume "\<exists>before after. zs = before @ x # after \<and> P x \<and> (\<forall>y \<in> set after. \<not> P y)"
        then obtain before after where "zs = before @ x # after" "P x" "\<forall>y \<in> set after. \<not> P y"
          by blast
        then show "\<exists>before after. zs @ [z] = before @ x # after \<and> P x \<and> (\<forall>y \<in> set after. \<not> P y)"
          using False by (intro exI [of _ before] exI [of _ "after @ [z]"]) auto
      qed
      then show ?thesis using snoc False by simp
    qed
  qed
  then show ?thesis by (auto simp: standing_def)
qed

lemma read_ledger_mem:
  "ev \<in> set (read_ledger sim_mode since d) \<longleftrightarrow>
     standing (visible_rows sim_mode d) ev \<and> (case since of None \<Rightarrow> True | Some s \<Rightarrow> s \<le> ev_ts ev)"
proof -
  let ?rows = "visible_rows sim_mode d"
  have "ev \<in> set (collapse identity (sort_key ev_ts ?rows)) \<longleftrightarrow> standing ?rows ev"
    unfolding collapse_iff standing_def by (subst find_rev_sort_key) (auto dest: identity_ts)
  then show ?thesis
    by (auto simp: read_ledger_def Let_def split: option.splits)
qed

lemma distinct_read_ledger: "distinct (map identity (read_ledger sim_mode since d))"
proof -
  have d: "distinct (map identity (collapse identity rows))" for rows
    by (rule distinct_collapse)
  have f: "distinct (map identity xs) \<Longrightarrow> distinct (map identity (filter P xs))" for P xs
    by (simp add: distinct_map_filter)
  have s: "distinct (map identity xs) \<Longrightarrow> distinct (map identity (sort_key ev_ts xs))" for xs
    by (simp add: distinct_map)
  show ?thesis
    unfolding read_ledger_def Let_def by (cases since) (auto intro!: s f d)
qed

text \<open>
  C17: a read returns the current state of the ledger. The rows come back in the order of their
  timestamps, no two of them share an identity, and a row is returned exactly when it is visible to
  the reader, no later line of the files carries the same identity (so an enrichment row supersedes
  the row it enriches), and it is not older than the requested start.
\<close>

theorem read_ledger_spec:
  "sorted (map ev_ts (read_ledger sim_mode since d))
   \<and> distinct (map identity (read_ledger sim_mode since d))
   \<and> (\<forall>ev. ev \<in> set (read_ledger sim_mode since d) =
        ((\<exists>before after. visible_rows sim_mode d = before @ ev # after
            \<and> list_all (\<lambda>later. identity later \<noteq> identity ev) after)
         \<and> (since = None \<or> the since \<le> ev_ts ev)))"
proof -
  have "sorted (map ev_ts (read_ledger sim_mode since d))"
    by (simp add: read_ledger_def Let_def)
  moreover have "(case since of None \<Rightarrow> True | Some s \<Rightarrow> s \<le> ev_ts ev) \<longleftrightarrow> since = None \<or> the since \<le> ev_ts ev" for ev
    by (simp split: option.splits)
  ultimately show ?thesis
    using distinct_read_ledger by (simp add: read_ledger_mem standing_iff_split list_all_iff)
qed

section \<open>An emitted row is read back\<close>

lemma insort_snoc:
  "f x \<le> f y \<Longrightarrow> insort_key f x (xs @ [y]) = insort_key f x xs @ [y]"
  by (induction xs) auto

lemma sort_key_snoc_max:
  "(\<And>x. x \<in> set xs \<Longrightarrow> f x \<le> f y) \<Longrightarrow> sort_key f (xs @ [y]) = sort_key f xs @ [y]"
  by (induction xs) (simp_all add: insort_snoc)

lemma sort_key_map_same:
  assumes "\<And>x. f (g x) = f x"
  shows "sort_key f (map g xs) = map g (sort_key f xs)"
proof -
  have "insort_key f (g x) (map g ys) = map g (insort_key f x ys)" for x ys
    by (induction ys) (simp_all add: assms)
  then show ?thesis
    by (induction xs) simp_all
qed

definition extend_file :: "string \<Rightarrow> pyval \<Rightarrow> ledger_file \<Rightarrow> ledger_file" where
  "extend_file n ev f = (if lf_name f = n then f\<lparr>lf_lines := lf_lines f @ [Some ev]\<rparr> else f)"

lemma append_line_fresh:
  "n \<notin> set (map lf_name fs) \<Longrightarrow>
     append_line n ev fs = fs @ [\<lparr>lf_name = n, lf_inside = True, lf_lines = [Some ev]\<rparr>]"
  by (induction n ev fs rule: append_line.induct) auto

lemma append_line_existing:
  "n \<in> set (map lf_name fs) \<Longrightarrow> distinct (map lf_name fs) \<Longrightarrow>
     append_line n ev fs = map (extend_file n ev) fs"
proof (induction n ev fs rule: append_line.induct)
  case (1 n ev)
  then show ?case by simp
next
  case (2 n ev f fs)
  have "lf_name f = n \<Longrightarrow> map (extend_file n ev) fs = fs"
  proof (rule map_idI)
    fix x
    assume n: "lf_name f = n" and x: "x \<in> set fs"
    have "lf_name x \<in> set (map lf_name fs)"
      using x by simp
    moreover have "n \<notin> set (map lf_name fs)"
      using "2.prems"(2) n by simp
    ultimately have "lf_name x \<noteq> n"
      by metis
    then show "extend_file n ev x = x"
      by (simp add: extend_file_def)
  qed
  moreover have "extend_file n ev f = (if lf_name f = n then f\<lparr>lf_lines := lf_lines f @ [Some ev]\<rparr> else f)"
    by (simp add: extend_file_def)
  ultimately show ?case
    using 2 by auto
qed

lemma sorted_last:
  assumes "distinct (map f xs)" "sorted (map f xs)" "x \<in> set xs" "\<And>y. y \<in> set xs \<Longrightarrow> f y \<le> f x"
  obtains ys where "xs = ys @ [x]"
proof (cases xs rule: rev_cases)
  case Nil
  then show thesis using assms(3) by simp
next
  case (snoc ys z)
  have "f x \<le> f z"
    using assms(2,3) by (auto simp: snoc sorted_append)
  then have "f z = f x"
    using assms(4) [of z] by (simp add: snoc)
  then have "z = x"
    using assms(1,3) by (auto simp: snoc)
  then show thesis using snoc that by blast
qed

definition current_log :: "string \<Rightarrow> ledger_dir \<Rightarrow> bool" where
  "current_log date d \<longleftrightarrow> distinct (map lf_name (dir_files d))
     \<and> (\<forall>f \<in> set (dir_files d). lf_name f \<le> ledger_name date \<and> (lf_name f = ledger_name date \<longrightarrow> lf_inside f))"

lemma ledger_name_ok:
  "starts_with ''consequence-events-'' (ledger_name date)" "ends_with ''.jsonl'' (ledger_name date)"
  by (simp_all add: ledger_name_def starts_with_def ends_with_def)

lemma emit_rows_last:
  assumes cur: "current_log date d" and row: "is_consequence_row ev"
  shows "concat (map file_rows (safe_ledger_files
           (d\<lparr>dir_files := append_line (ledger_name date) ev (dir_files d)\<rparr>)))
         = concat (map file_rows (safe_ledger_files d)) @ [ev]"
proof -
  let ?n = "ledger_name date" and ?fs = "dir_files d"
  define G where "G = (\<lambda>f :: ledger_file. starts_with ''consequence-events-'' (lf_name f) \<and> ends_with ''.jsonl'' (lf_name f))"
  have files: "safe_ledger_files x = filter lf_inside (sort_key lf_name (filter G (dir_files x)))" for x
    by (simp add: safe_ledger_files_def G_def)
  have Gn: "lf_name f = ?n \<Longrightarrow> G f" for f
    by (simp add: G_def ledger_name_ok)
  have rows1: "file_rows \<lparr>lf_name = ?n, lf_inside = True, lf_lines = [Some ev]\<rparr> = [ev]"
    using row by (simp add: file_rows_def)
  show ?thesis
  proof (cases "?n \<in> set (map lf_name ?fs)")
    case False
    let ?new = "\<lparr>lf_name = ?n, lf_inside = True, lf_lines = [Some ev]\<rparr>"
    have "sort_key lf_name (filter G ?fs @ [?new]) = sort_key lf_name (filter G ?fs) @ [?new]"
      using cur by (intro sort_key_snoc_max) (auto simp: current_log_def)
    moreover have "filter G (append_line ?n ev ?fs) = filter G ?fs @ [?new]"
      using Gn [of ?new] by (simp add: append_line_fresh [OF False])
    ultimately show ?thesis
      by (simp add: files rows1)
  next
    case True
    let ?g = "extend_file ?n ev"
    have name: "lf_name (?g f) = lf_name f" "lf_inside (?g f) = lf_inside f" "G (?g f) = G f" for f
      by (simp_all add: extend_file_def G_def)
    have dist: "distinct (map lf_name ?fs)"
      using cur by (simp add: current_log_def)
    obtain f0 where f0: "f0 \<in> set ?fs" "lf_name f0 = ?n"
      using True by auto
    let ?s = "sort_key lf_name (filter G ?fs)"
    have "distinct (map lf_name ?s)"
      using dist by (simp add: distinct_map inj_on_def)
    moreover have "f0 \<in> set ?s" "\<And>y. y \<in> set ?s \<Longrightarrow> lf_name y \<le> lf_name f0"
      using f0 Gn cur by (auto simp: current_log_def)
    ultimately obtain ys where ys: "?s = ys @ [f0]"
      using sorted_last [of lf_name ?s f0] by auto
    have "lf_inside f0"
      using f0 cur by (simp add: current_log_def)
    have old: "map ?g ys = ys"
    proof (rule map_idI)
      fix y
      assume y: "y \<in> set ys"
      have "distinct (map lf_name (ys @ [f0]))"
        using dist unfolding ys [symmetric] by (simp add: distinct_map inj_on_def)
      then have "lf_name y \<noteq> ?n"
        using y f0(2) by force
      then show "?g y = y"
        by (simp add: extend_file_def)
    qed
    have "filter G (map ?g ?fs) = map ?g (filter G ?fs)"
      by (simp add: filter_map comp_def name)
    then have "sort_key lf_name (filter G (append_line ?n ev ?fs)) = map ?g ?s"
      using append_line_existing [OF True dist] sort_key_map_same [of lf_name ?g] name by simp
    also have "\<dots> = ys @ [?g f0]"
      using old by (simp add: ys)
    finally show ?thesis
      using \<open>lf_inside f0\<close> f0(2) row
      by (simp add: files ys name extend_file_def file_rows_def)
  qed
qed

lemma accepted_is_row:
  assumes "validate_consequence ev = None"
  shows "is_consequence_row ev"
  using accepted_parts(1,2,7) [OF assms]
  by (simp add: is_consequence_row_def EVENT_REQUIRED_def check_actor_def)

text \<open>
  What is emitted is what is read. When an emit succeeds on a directory whose files are dated
  no later than today, the row just written is the standing row of its identity for every reader in
  the same mode, whatever the ledger held before, and every row of another identity reads as before.
\<close>

theorem emit_then_read:
  assumes "emit_consequence sim_mode date mirror a d = Inr (ev, d')" "current_log date d"
  shows "ev \<in> set (read_ledger sim_mode None d')
     \<and> (\<forall>other. identity other \<noteq> identity ev \<longrightarrow>
          (other \<in> set (read_ledger sim_mode None d')) = (other \<in> set (read_ledger sim_mode None d)))"
proof -
  let ?ev0 = "build_event sim_mode a"
  have ev: "ev = with_mirror_ref (mirror ?ev0) ?ev0" and ok: "validate_consequence ev = None"
    and d': "d' = d\<lparr>dir_files := append_line (ledger_name date) ev (dir_files d)\<rparr>"
    using assms(1) unfolding emit_Inr Let_def by blast+
  have "truthy (dget ev ''sim'') = sim_mode"
    by (simp add: ev with_mirror_ref_get build_event_sim)
  then have vis: "visible_rows sim_mode d' = visible_rows sim_mode d @ [ev]"
    using emit_rows_last [OF assms(2) accepted_is_row [OF ok]]
    by (simp add: visible_rows_def Let_def d')
  show ?thesis
    by (simp add: read_ledger_mem vis standing_def)
qed

theorem emit_then_read_witness:
  "build_event False (sample_args ''cos'' ''2026-07-04T10:00:00Z'')
     \<in> set (read_ledger False None live_dir1)"
proof -
  have "current_log ''2026-07-04'' live_dir"
    by (simp add: current_log_def live_dir_def)
  from emit_then_read [OF live_emit this] show ?thesis
    by blast
qed

section \<open>The ratios\<close>

definition count_rows :: "(pyval \<Rightarrow> bool) \<Rightarrow> pyval list \<Rightarrow> nat" where
  "count_rows P rows = length (filter P rows)"

text \<open>The ratios of a cell as counts over its rows; the posture does not occur.\<close>

definition ratios_spec :: "pyval list \<Rightarrow> ratios" where
  "ratios_spec rows =
     \<lparr>r_approved = count_rows (\<lambda>e. decision_of e = PStr ''approved'') rows,
      r_edited = count_rows (\<lambda>e. decision_of e = PStr ''edited'') rows,
      r_rejected = count_rows (\<lambda>e. decision_of e = PStr ''rejected'') rows,
      r_ok = count_rows (\<lambda>e. status_of e = PStr ''ok'') rows,
      r_failed = count_rows (\<lambda>e. status_of e = PStr ''failed'') rows,
      r_confirmed = count_rows (\<lambda>e. verdict_of_row e = PStr ''confirmed''
                      \<and> source_of e = PStr ''verdict_human'') rows,
      r_wrong = count_rows (\<lambda>e. verdict_of_row e = PStr ''wrong'') rows,
      r_samples = length rows,
      r_aligned = count_rows (\<lambda>e. dget e ''intent_verdict'' = PStr ''intent-aligned'') rows,
      r_divergent = count_rows (\<lambda>e. dget e ''intent_verdict'' = PStr ''intent-divergent'') rows\<rparr>"

lemma ratios_spec_Nil: "ratios_spec [] = no_ratios"
  by (simp add: ratios_spec_def no_ratios_def count_rows_def)

lemma fuels_human: "fuels sovereign ev \<longleftrightarrow>
    verdict_of_row ev = PStr ''confirmed'' \<and> source_of ev = PStr ''verdict_human''"
  by (auto simp: fuels_def label_floor_met_def)

lemma count_rows_snoc: "count_rows P (rows @ [e]) = (if P e then Suc (count_rows P rows) else count_rows P rows)"
  by (simp add: count_rows_def)

lemma tally_fields:
  "r_samples (tally sv ev r) = Suc (r_samples r)"
  "r_approved (tally sv ev r) = (if decision_of ev = PStr ''approved'' then Suc (r_approved r) else r_approved r)"
  "r_edited (tally sv ev r) = (if decision_of ev = PStr ''edited'' then Suc (r_edited r) else r_edited r)"
  "r_rejected (tally sv ev r) = (if decision_of ev = PStr ''rejected'' then Suc (r_rejected r) else r_rejected r)"
  "r_ok (tally sv ev r) = (if status_of ev = PStr ''ok'' then Suc (r_ok r) else r_ok r)"
  "r_failed (tally sv ev r) = (if status_of ev = PStr ''failed'' then Suc (r_failed r) else r_failed r)"
  "r_confirmed (tally sv ev r) = (if fuels sv ev then Suc (r_confirmed r) else r_confirmed r)"
  "r_aligned (tally sv ev r) = (if dget ev ''intent_verdict'' = PStr ''intent-aligned''
     then Suc (r_aligned r) else r_aligned r)"
  "r_divergent (tally sv ev r) = (if dget ev ''intent_verdict'' = PStr ''intent-divergent''
     then Suc (r_divergent r) else r_divergent r)"
  by (simp_all add: tally_def Let_def)

lemma tally_wrong:
  "r_wrong (tally sv ev r) = (if verdict_of_row ev = PStr ''wrong'' then Suc (r_wrong r) else r_wrong r)"
  by (auto simp: tally_def Let_def fuels_def)

lemma tally_spec: "tally sovereign ev (ratios_spec rows) = ratios_spec (rows @ [ev])"
  by (rule ratios.equality)
    (simp_all only: tally_fields tally_wrong, simp_all add: ratios_spec_def count_rows_snoc fuels_human)

lemma compute_ratios_snoc:
  "compute_ratios sovereign (evs @ [ev]) = ratio_step sovereign (compute_ratios sovereign evs) ev"
  by (simp add: compute_ratios_def)

text \<open>
  The ratios are plain counts, and only a human's word fuels promotion. A cell appears exactly
  when some event has its key; its entry counts the events of that cell, each class over the cell's
  own rows; the confirmations are exactly those a human gave, whatever the posture resolves to, while
  a wrong verdict counts from every source.
\<close>

theorem compute_ratios_counts:
  "map_of (compute_ratios sovereign evs) key =
     (let rows = filter (\<lambda>e. cell_key e = key) evs in
      if rows = [] then None else Some (ratios_spec rows))"
proof (induction evs rule: rev_induct)
  case Nil
  show ?case by (simp add: compute_ratios_def)
next
  case (snoc ev evs)
  show ?case
  proof (cases "cell_key ev = key")
    case True
    then have "map_of (compute_ratios sovereign (evs @ [ev])) key
        = Some (tally sovereign ev (ratios_spec (filter (\<lambda>e. cell_key e = key) evs)))"
      using snoc.IH by (simp add: compute_ratios_snoc ratio_step_def Let_def ratios_spec_Nil)
    then show ?thesis
      using True by (simp add: tally_spec)
  next
    case False
    then show ?thesis
      using snoc.IH by (simp add: compute_ratios_snoc ratio_step_def Let_def)
  qed
qed

end
