(* ===== verification/Iso_Time.thy ===== *)
theory Iso_Time
  imports Cabinet_Base
begin

text \<open>
  ISO timestamps as the components read them: \<^verbatim>\<open>datetime.fromisoformat\<close> of the Python the
  repository targets (3.9: \<^verbatim>\<open>YYYY-MM-DD\<close>, then any one separator character, then
  \<^verbatim>\<open>HH[:MM[:SS[.fff[fff]]]]\<close> and an optional \<^verbatim>\<open>+HH:MM[:SS[.ffffff]]\<close> offset).
  A moment is a number of microseconds since 1970-01-01; a parsed timestamp keeps its offset, None
  for a naive one.
\<close>

section \<open>Digits\<close>

definition is_digit :: "char \<Rightarrow> bool" where
  "is_digit c \<longleftrightarrow> (let n = of_char c :: nat in 48 \<le> n \<and> n \<le> 57)"

definition digit_val :: "char \<Rightarrow> int" where
  "digit_val c = int (of_char c) - 48"

definition digits :: "nat \<Rightarrow> string \<Rightarrow> int option" where
  "digits n s = (if length s = n \<and> list_all is_digit s
                 then Some (foldl (\<lambda>acc c. 10 * acc + digit_val c) 0 s) else None)"

section \<open>The calendar\<close>

definition leap :: "int \<Rightarrow> bool" where
  "leap y \<longleftrightarrow> y mod 4 = 0 \<and> (y mod 100 \<noteq> 0 \<or> y mod 400 = 0)"

definition days_in_month :: "int \<Rightarrow> int \<Rightarrow> int" where
  "days_in_month y m = (if m = 2 then (if leap y then 29 else 28)
                        else if m \<in> {4, 6, 9, 11} then 30 else 31)"

definition days_before_month :: "int \<Rightarrow> int \<Rightarrow> int" where
  "days_before_month y m = sum_list (map (days_in_month y) [1..m - 1])"

definition days_before_year :: "int \<Rightarrow> int" where
  "days_before_year y = (y - 1) * 365 + (y - 1) div 4 - (y - 1) div 100 + (y - 1) div 400"

text \<open>Days since 1970-01-01 (whose proleptic ordinal is 719163).\<close>

definition civil_days :: "int \<Rightarrow> int \<Rightarrow> int \<Rightarrow> int option" where
  "civil_days y m d =
     (if 1 \<le> y \<and> 1 \<le> m \<and> m \<le> 12 \<and> 1 \<le> d \<and> d \<le> days_in_month y m
      then Some (days_before_year y + days_before_month y m + d - 719163) else None)"

section \<open>Parsing\<close>

definition iso_date :: "string \<Rightarrow> int option" where
  "iso_date s =
     (case (digits 4 (take 4 s), digits 2 (take 2 (drop 5 s)), digits 2 (take 2 (drop 8 s))) of
        (Some y, Some m, Some d) \<Rightarrow>
          if take 1 (drop 4 s) = ''-'' \<and> take 1 (drop 7 s) = ''-'' then civil_days y m d else None
      | _ \<Rightarrow> None)"

text \<open>\<^verbatim>\<open>HH[:MM[:SS[.fff[fff]]]]\<close> as (hours, minutes, seconds, microseconds).\<close>

definition iso_frac :: "string \<Rightarrow> int option" where
  "iso_frac s = (if s = [] then Some 0
     else if hd s \<noteq> CHR ''.'' then None
     else if length s = 4 then map_option (\<lambda>n. n * 1000) (digits 3 (tl s))
     else digits 6 (tl s))"

definition iso_hms :: "string \<Rightarrow> (int \<times> int \<times> int \<times> int) option" where
  "iso_hms s = (case digits 2 (take 2 s) of None \<Rightarrow> None | Some h \<Rightarrow>
     if length s = 2 then Some (h, 0, 0, 0)
     else if take 1 (drop 2 s) \<noteq> '':'' then None
     else (case digits 2 (take 2 (drop 3 s)) of None \<Rightarrow> None | Some m \<Rightarrow>
       if length s = 5 then Some (h, m, 0, 0)
       else if take 1 (drop 5 s) \<noteq> '':'' then None
       else (case digits 2 (take 2 (drop 6 s)) of None \<Rightarrow> None | Some sec \<Rightarrow>
         map_option (\<lambda>f. (h, m, sec, f)) (iso_frac (drop 8 s)))))"

definition us_of_hms :: "int \<times> int \<times> int \<times> int \<Rightarrow> int" where
  "us_of_hms t = (case t of (h, m, s, f) \<Rightarrow> ((h * 60 + m) * 60 + s) * 1000000 + f)"

definition is_sign :: "char \<Rightarrow> bool" where
  "is_sign c \<longleftrightarrow> c = CHR ''+'' \<or> c = CHR ''-''"

definition day_us :: int where "day_us = 86400000000"

text \<open>The offset: its text has length 5, 8 or 15 and is below 24 hours.\<close>

definition iso_offset :: "string \<Rightarrow> int option option" where
  "iso_offset s = (if s = [] then Some None
     else if length (tl s) \<notin> {5, 8, 15} then None
     else (case iso_hms (tl s) of None \<Rightarrow> None | Some t \<Rightarrow>
       let us = us_of_hms t in
       if us < day_us then Some (Some (if hd s = CHR ''-'' then - us else us)) else None))"

definition iso_time :: "string \<Rightarrow> (int \<times> int option) option" where
  "iso_time s = (let clock = takeWhile (\<lambda>c. \<not> is_sign c) s; zone = dropWhile (\<lambda>c. \<not> is_sign c) s in
     case (iso_hms clock, iso_offset zone) of
       (Some (h, m, sec, f), Some off) \<Rightarrow>
         if h \<le> 23 \<and> m \<le> 59 \<and> sec \<le> 59 then Some (us_of_hms (h, m, sec, f), off) else None
     | _ \<Rightarrow> None)"

text \<open>\<^verbatim>\<open>fromisoformat\<close>: wall-clock microseconds and the offset; None is ValueError.\<close>

definition fromisoformat :: "string \<Rightarrow> (int \<times> int option) option" where
  "fromisoformat s = (case iso_date s of None \<Rightarrow> None | Some d \<Rightarrow>
     if length s = 10 then Some (d * day_us, None)
     else (case iso_time (drop 11 s) of None \<Rightarrow> None
           | Some (us, off) \<Rightarrow> Some (d * day_us + us, off)))"

text \<open>The instant a timestamp names; a naive one is read as UTC.\<close>

definition instant :: "int \<times> int option \<Rightarrow> int" where
  "instant t = fst t - (case snd t of None \<Rightarrow> 0 | Some off \<Rightarrow> off)"

text \<open>\<^verbatim>\<open>ts.replace("Z", "+00:00")\<close>.\<close>

definition replace_Z :: "string \<Rightarrow> string" where
  "replace_Z s = concat (map (\<lambda>c. if c = CHR ''Z'' then ''+00:00'' else [c]) s)"

definition parse_ts :: "pyval \<Rightarrow> int option" where
  "parse_ts ts = (case ts of
     PStr s \<Rightarrow> if s = [] then None else map_option instant (fromisoformat (replace_Z s))
   | _ \<Rightarrow> None)"

lemma parse_ts_epoch: "parse_ts (PStr ''1970-01-01T00:00:00Z'') = Some 0"
  by code_simp

lemma parse_ts_offset: "parse_ts (PStr ''2026-07-04T12:00:00+02:00'') = parse_ts (PStr ''2026-07-04T10:00:00Z'')"
  by code_simp

lemma parse_ts_invalid: "parse_ts (PStr ''yesterday'') = None"
  by code_simp

end
