(* ===== verification/Graduation.thy ===== *)
theory Graduation
  imports Consequence_Correct Iso_Time Matrix_Correct
begin

text \<open>
  The graduation engine: \<^verbatim>\<open>framework/fidelity/graduation.py\<close>. The matrix policy, the ledger
  rows (as \<^verbatim>\<open>read_ledger\<close> returns them), the posture flag and the current moment (in
  microseconds) are arguments. Rates and days are exact rationals where Python computes floats; a
  cell of fewer than 2^53 rows and a moment in the calendar's range stay far from the precision of
  a float except at exact ties.
\<close>

definition DEMOTE_DIVERGENT_IN_LAST10 :: nat where "DEMOTE_DIVERGENT_IN_LAST10 = 2"
definition LAST_N :: nat where "LAST_N = 10"
definition SEASONING_DAYS :: rat where "SEASONING_DAYS = 7"

datatype cell_state = Unmeasured | ProposeOnly | Eligible | Graduated | Demote

fun state_name :: "cell_state \<Rightarrow> string" where
  "state_name Unmeasured = ''unmeasured''"
| "state_name ProposeOnly = ''propose_only''"
| "state_name Eligible = ''eligible''"
| "state_name Graduated = ''graduated''"
| "state_name Demote = ''demote''"

section \<open>The bar\<close>

definition risk_class_of :: "pyval \<Rightarrow> string \<Rightarrow> string option" where
  "risk_class_of policy action_type =
     map_option fst (find (\<lambda>(rc, spec). PStr action_type \<in> set (elems (dget spec ''action_types'')))
       (items (dget policy ''risk_classes'')))"

definition bar_for_action_type :: "pyval \<Rightarrow> string \<Rightarrow> pyval" where
  "bar_for_action_type policy action_type =
     (let bars = dget policy ''bars'' in
      case risk_class_of policy action_type of
        Some rc \<Rightarrow> if has_key bars rc then dget bars rc else dget bars ''default''
      | None \<Rightarrow> dget bars ''default'')"

definition bar_num :: "pyval \<Rightarrow> string \<Rightarrow> rat" where
  "bar_num bar k = num_of (dget bar k)"

section \<open>The rows of a cell\<close>

definition in_cell :: "cell_key \<Rightarrow> pyval \<Rightarrow> bool" where
  "in_cell cell ev \<longleftrightarrow> (case cell of (aid, lane, action_type) \<Rightarrow>
     actor_id ev = aid \<and> dget ev ''lane'' = lane \<and> dget ev ''action_type'' = PStr action_type)"

definition cell_rows :: "cell_key \<Rightarrow> pyval list \<Rightarrow> pyval list" where
  "cell_rows cell ledger = sort_key ev_ts (filter (in_cell cell) ledger)"

definition is_scored :: "pyval \<Rightarrow> bool" where
  "is_scored ev \<longleftrightarrow> verdict_of_row ev \<in> {PStr ''confirmed'', PStr ''wrong''}"

definition is_wrong :: "pyval \<Rightarrow> bool" where
  "is_wrong ev \<longleftrightarrow> verdict_of_row ev = PStr ''wrong''"

definition last_n :: "nat \<Rightarrow> 'a list \<Rightarrow> 'a list" where
  "last_n n xs = drop (length xs - n) xs"

definition last_scored :: "pyval list \<Rightarrow> pyval list" where
  "last_scored rows = last_n LAST_N (filter is_scored rows)"

definition divergent_in_last10 :: "pyval list \<Rightarrow> nat" where
  "divergent_in_last10 rows = length (filter is_wrong (last_scored rows))"

definition carries_demote :: "pyval \<Rightarrow> bool" where
  "carries_demote ev \<longleftrightarrow> PStr DIRECT_DEMOTE_REF \<in> set (elems (dget ev ''refs''))"

definition fresh_direct_demote :: "pyval list \<Rightarrow> bool" where
  "fresh_direct_demote rows = list_ex carries_demote (last_scored rows)"

definition days_since :: "int \<Rightarrow> pyval \<Rightarrow> rat option" where
  "days_since now ev = map_option (\<lambda>t. of_int (now - t) / of_int day_us) (parse_ts (dget ev ''ts''))"

definition days_since_last_wrong :: "pyval list \<Rightarrow> int \<Rightarrow> rat option" where
  "days_since_last_wrong rows now =
     (let wrongs = filter is_wrong rows in if wrongs = [] then None else days_since now (last wrongs))"

definition days_since_last_sample :: "pyval list \<Rightarrow> int \<Rightarrow> rat option" where
  "days_since_last_sample rows now =
     (let scored = filter is_scored rows in if scored = [] then None else days_since now (last scored))"

definition cell_age_days :: "pyval list \<Rightarrow> int \<Rightarrow> rat option" where
  "cell_age_days rows now =
     (let scored = filter is_scored rows in if scored = [] then None else days_since now (hd scored))"

section \<open>evaluate\<close>

definition fitness_of :: "ratios \<Rightarrow> rat option" where
  "fitness_of r = (case (outcome_held_rate r, review_confirmed_rate r) of
     (Some held, Some confirmed) \<Rightarrow> Some (held * confirmed) | _ \<Rightarrow> None)"

record evidence =
  ev_samples :: nat
  ev_match_rate :: "rat option"
  ev_fitness :: "rat option"
  ev_approval_unchanged :: "rat option"
  ev_outcome_held :: "rat option"
  ev_divergent_last10 :: nat
  ev_fabrication :: bool
  ev_days_since_wrong :: "rat option"
  ev_days_since_sample :: "rat option"
  ev_cell_age :: "rat option"
  ev_bar :: pyval

definition gather :: "bool \<Rightarrow> pyval \<Rightarrow> cell_key \<Rightarrow> pyval list \<Rightarrow> int \<Rightarrow> evidence" where
  "gather sovereign policy cell ledger now =
     (let r = (case map_of (compute_ratios sovereign ledger) cell of None \<Rightarrow> no_ratios | Some r \<Rightarrow> r);
          rows = cell_rows cell ledger in
      \<lparr>ev_samples = r_samples r, ev_match_rate = review_confirmed_rate r, ev_fitness = fitness_of r,
       ev_approval_unchanged = approval_unchanged_rate r, ev_outcome_held = outcome_held_rate r,
       ev_divergent_last10 = divergent_in_last10 rows, ev_fabrication = fresh_direct_demote rows,
       ev_days_since_wrong = days_since_last_wrong rows now,
       ev_days_since_sample = days_since_last_sample rows now,
       ev_cell_age = cell_age_days rows now,
       ev_bar = bar_for_action_type policy (snd (snd cell))\<rparr>)"

definition decide :: "evidence \<Rightarrow> cell_state" where
  "decide e =
     (let bar = ev_bar e in
      case ev_match_rate e of
        None \<Rightarrow> Unmeasured
      | Some match_rate \<Rightarrow>
          if ev_samples e = 0 then Unmeasured
          else if ev_fabrication e \<or> DEMOTE_DIVERGENT_IN_LAST10 \<le> ev_divergent_last10 e then Demote
          else if of_nat (ev_samples e) < bar_num bar ''samples'' then ProposeOnly
          else if match_rate < bar_num bar ''match_rate'' then ProposeOnly
          else if (case ev_fitness e of None \<Rightarrow> True | Some f \<Rightarrow> f \<le> 0) then ProposeOnly
          else if bar_num bar ''max_divergent_last10'' < of_nat (ev_divergent_last10 e) then ProposeOnly
          else if (case ev_days_since_wrong e of None \<Rightarrow> False
                   | Some days \<Rightarrow> days < bar_num bar ''recency_clean_days'') then Eligible
          else if (case ev_cell_age e of None \<Rightarrow> True | Some age \<Rightarrow> age < SEASONING_DAYS) then Eligible
          else Graduated)"

definition evaluate :: "bool \<Rightarrow> pyval \<Rightarrow> cell_key \<Rightarrow> pyval list \<Rightarrow> int \<Rightarrow> cell_state \<times> evidence" where
  "evaluate sovereign policy cell ledger now =
     (let e = gather sovereign policy cell ledger now in (decide e, e))"

definition state_of :: "bool \<Rightarrow> pyval \<Rightarrow> cell_key \<Rightarrow> pyval list \<Rightarrow> int \<Rightarrow> cell_state" where
  "state_of sovereign policy cell ledger now = fst (evaluate sovereign policy cell ledger now)"

end
