(* ===== verification/Graduation_Correct.thy ===== *)
theory Graduation_Correct
  imports Graduation
begin

text \<open>
  The properties of graduation, stated on the ledger rows of the cell: what graduating requires,
  that divergence dominates, that time only helps a clean cell, and that other cells' rows are
  irrelevant.
\<close>

section \<open>A stamped cell's ratios come from its own rows\<close>

text \<open>A cell key the gate asks for: a kind that is a real stamp.\<close>

definition stamped :: "cell_key \<Rightarrow> bool" where
  "stamped cell \<longleftrightarrow> snd (snd cell) \<noteq> [] \<and> snd (snd cell) \<noteq> UNSTAMPED_ACTION_TYPE"

definition str_stamps :: "pyval list \<Rightarrow> bool" where
  "str_stamps ledger \<longleftrightarrow> (\<forall>ev \<in> set ledger. str_or_null (dget ev ''action_type''))"

lemma in_cell_key:
  assumes "stamped cell" "str_or_null (dget ev ''action_type'')"
  shows "cell_key ev = cell \<longleftrightarrow> in_cell cell ev"
  using assms
  by (cases cell) (auto simp: cell_key_def in_cell_def stamped_def str_or_null_cases)

lemma filter_cell:
  assumes "stamped cell" "str_stamps ledger"
  shows "filter (\<lambda>e. cell_key e = cell) ledger = filter (in_cell cell) ledger"
  using assms by (intro filter_cong refl) (simp add: in_cell_key str_stamps_def)

abbreviation own :: "cell_key \<Rightarrow> pyval list \<Rightarrow> pyval list" where
  "own cell ledger \<equiv> filter (in_cell cell) ledger"

definition spec_evidence :: "pyval \<Rightarrow> cell_key \<Rightarrow> pyval list \<Rightarrow> int \<Rightarrow> evidence" where
  "spec_evidence policy cell rows now =
     \<lparr>ev_samples = length rows, ev_match_rate = review_confirmed_rate (ratios_spec rows),
      ev_fitness = fitness_of (ratios_spec rows),
      ev_approval_unchanged = approval_unchanged_rate (ratios_spec rows),
      ev_outcome_held = outcome_held_rate (ratios_spec rows),
      ev_divergent_last10 = divergent_in_last10 (sort_key ev_ts rows),
      ev_fabrication = fresh_direct_demote (sort_key ev_ts rows),
      ev_days_since_wrong = days_since_last_wrong (sort_key ev_ts rows) now,
      ev_days_since_sample = days_since_last_sample (sort_key ev_ts rows) now,
      ev_cell_age = cell_age_days (sort_key ev_ts rows) now,
      ev_bar = bar_for_action_type policy (snd (snd cell))\<rparr>"

lemma gather_own:
  assumes "stamped cell" "str_stamps ledger"
  shows "gather sovereign policy cell ledger now = spec_evidence policy cell (own cell ledger) now"
proof -
  have "(case map_of (compute_ratios sovereign ledger) cell of None \<Rightarrow> no_ratios | Some r \<Rightarrow> r)
      = ratios_spec (own cell ledger)"
    by (simp add: compute_ratios_counts filter_cell [OF assms] ratios_spec_Nil Let_def)
  then show ?thesis
    by (simp add: gather_def spec_evidence_def cell_rows_def Let_def ratios_spec_def)
qed

lemma rate_Some: "rate n m = Some q \<longleftrightarrow> m \<noteq> 0 \<and> q = of_nat n / of_nat m"
  by (auto simp: rate_def)

lemma decide_graduated:
  "decide e = Graduated \<longleftrightarrow>
     (\<exists>m f age. ev_match_rate e = Some m \<and> ev_samples e \<noteq> 0 \<and> \<not> ev_fabrication e
        \<and> ev_divergent_last10 e < DEMOTE_DIVERGENT_IN_LAST10
        \<and> bar_num (ev_bar e) ''samples'' \<le> of_nat (ev_samples e)
        \<and> bar_num (ev_bar e) ''match_rate'' \<le> m
        \<and> ev_fitness e = Some f \<and> 0 < f
        \<and> of_nat (ev_divergent_last10 e) \<le> bar_num (ev_bar e) ''max_divergent_last10''
        \<and> (\<forall>days. ev_days_since_wrong e = Some days \<longrightarrow> bar_num (ev_bar e) ''recency_clean_days'' \<le> days)
        \<and> ev_cell_age e = Some age \<and> SEASONING_DAYS \<le> age)"
  by (auto simp: decide_def Let_def not_less not_le split: option.splits if_splits)

text \<open>
  C15: graduation is earned on the cell's own record and needs a human. Whatever the posture, a
  stamped cell that reads graduated has at least one confirmation given by a human and one held
  outcome, the share of human confirmations among confirmations and wrongs reaches the bar, it has
  the bar's number of rows, no fabrication directive and fewer than two wrongs among its last ten
  scored rows, and its first scored row is at least seven days old.
\<close>

theorem graduated_is_earned:
  assumes "state_of sovereign policy cell ledger now = Graduated"
    and "stamped cell" "str_stamps ledger"
  shows "let rows = filter (in_cell cell) ledger;
             c = count_rows (\<lambda>e. verdict_of_row e = PStr ''confirmed'' \<and> source_of e = PStr ''verdict_human'') rows;
             w = count_rows is_wrong rows;
             bar = bar_for_action_type policy (snd (snd cell)) in
      0 < c \<and> 0 < count_rows (\<lambda>e. status_of e = PStr ''ok'') rows
      \<and> bar_num bar ''match_rate'' * of_nat (c + w) \<le> of_nat c
      \<and> bar_num bar ''samples'' \<le> of_nat (length rows)
      \<and> \<not> list_ex carries_demote (last_scored (cell_rows cell ledger))
      \<and> divergent_in_last10 (cell_rows cell ledger) < 2
      \<and> (\<exists>first t. first \<in> set rows \<and> is_scored first \<and> parse_ts (dget first ''ts'') = Some t
           \<and> 7 * day_us \<le> now - t)"
proof -
  let ?rows = "own cell ledger"
  let ?r = "ratios_spec ?rows" and ?e = "spec_evidence policy cell (own cell ledger) now"
  let ?bar = "bar_for_action_type policy (snd (snd cell))"
  have "decide ?e = Graduated"
    using assms(1) by (simp add: state_of_def evaluate_def Let_def gather_own [OF assms(2,3)])
  then obtain m f age where m: "review_confirmed_rate ?r = Some m" "bar_num ?bar ''match_rate'' \<le> m"
    and f: "fitness_of ?r = Some f" "0 < f"
    and fab: "\<not> fresh_direct_demote (sort_key ev_ts ?rows)"
    and dv: "divergent_in_last10 (sort_key ev_ts ?rows) < 2"
    and n: "bar_num ?bar ''samples'' \<le> of_nat (length ?rows)"
    and age: "cell_age_days (sort_key ev_ts ?rows) now = Some age" "7 \<le> age"
    unfolding decide_graduated
    by (auto simp: spec_evidence_def DEMOTE_DIVERGENT_IN_LAST10_def SEASONING_DAYS_def)
  let ?c = "r_confirmed ?r" and ?w = "r_wrong ?r" and ?ok = "r_ok ?r"
  have cw: "?c + ?w \<noteq> 0" and mq: "m = of_nat ?c / of_nat (?c + ?w)"
    using m(1) unfolding review_confirmed_rate_def rate_Some by auto
  obtain held where held: "outcome_held_rate ?r = Some held" "f = held * m"
    using f(1) m(1) by (auto simp: fitness_of_def split: option.splits)
  have "held = of_nat ?ok / of_nat (?ok + r_failed ?r)"
    using held(1) unfolding outcome_held_rate_def rate_Some by auto
  then have pos: "0 < ?ok" "0 < ?c"
    using f(2) held(2) mq by (auto intro!: gr0I)
  have ratio: "bar_num ?bar ''match_rate'' * of_nat (?c + ?w) \<le> of_nat ?c"
    using m(2) cw unfolding mq by (simp add: pos_le_divide_eq)
  let ?sc = "filter is_scored (sort_key ev_ts ?rows)"
  have sc: "?sc \<noteq> []" and ds: "days_since now (hd ?sc) = Some age"
    using age(1) by (auto simp: cell_age_days_def Let_def split: if_splits)
  from ds obtain t where t: "parse_ts (dget (hd ?sc) ''ts'') = Some t"
      "age = of_int (now - t) / of_int day_us"
    by (auto simp: days_since_def)
  have "hd ?sc \<in> set ?sc"
    using sc by (rule list.set_sel(1))
  then have first: "hd ?sc \<in> set ?rows" "is_scored (hd ?sc)"
    by auto
  have "(7 :: rat) * of_int day_us \<le> of_int (now - t)"
    using age(2) t(2) by (simp add: day_us_def pos_le_divide_eq)
  then have "of_int (7 * day_us) \<le> (of_int (now - t) :: rat)"
    by simp
  then have "7 * day_us \<le> now - t"
    by (simp only: of_int_le_iff)
  then show ?thesis
    using pos ratio n fab dv first t(1)
    by (auto simp: Let_def ratios_spec_def is_wrong_def [abs_def] fresh_direct_demote_def cell_rows_def)
qed

definition cos_cell :: cell_key where
  "cos_cell = (''officer:cos'', PStr ''ops'', ''task_status_move'')"

definition clean_ledger :: "pyval list" where
  "clean_ledger = replicate 20 (sample_row ''cos'' ''2026-07-01T00:00:00Z'' (human_review ''confirmed''))"

definition eight_days_later :: int where
  "eight_days_later = 1782864000000000 + 8 * day_us"

lemma clean_ledger_graduates:
  "state_of False shipped_policy cos_cell clean_ledger eight_days_later = Graduated"
  by code_simp

lemma clean_ledger_ok: "stamped cos_cell" "str_stamps clean_ledger"
proof -
  show "stamped cos_cell"
    by code_simp
  show "str_stamps clean_ledger"
    by (simp add: str_stamps_def clean_ledger_def sample_row_def dget_def str_or_null_def)
qed

theorem graduated_is_earned_witness:
  "0 < count_rows (\<lambda>e. verdict_of_row e = PStr ''confirmed'' \<and> source_of e = PStr ''verdict_human'')
        (own cos_cell clean_ledger)
   \<and> divergent_in_last10 (cell_rows cos_cell clean_ledger) < 2"
  using graduated_is_earned [OF clean_ledger_graduates clean_ledger_ok]
  by (simp add: Let_def)

section \<open>Demotion dominates\<close>

lemma sorted_own_set: "set (filter P (sort_key ev_ts rows)) = set (filter P rows)"
  by auto

lemma last_n_subset: "set (last_n n xs) \<subseteq> set xs"
  by (simp add: last_n_def set_drop_subset)

text \<open>
  Demotion evidence dominates everything earned. Two wrongs among the last ten scored rows of
  a stamped cell put it in \<^verbatim>\<open>demote\<close>, whatever its counts, its bar, its age, the posture
  and the moment; and so does one fabrication directive there when some row of the cell is wrong.
\<close>

theorem divergence_demotes:
  assumes "stamped cell" "str_stamps ledger"
    and "2 \<le> divergent_in_last10 (cell_rows cell ledger)
         \<or> fresh_direct_demote (cell_rows cell ledger) \<and> (\<exists>ev \<in> set ledger. in_cell cell ev \<and> is_wrong ev)"
  shows "state_of sovereign policy cell ledger now = Demote"
proof -
  let ?rows = "own cell ledger" and ?e = "spec_evidence policy cell (own cell ledger) now"
  have wrongs: "\<exists>ev \<in> set ?rows. is_wrong ev"
  proof (cases "2 \<le> divergent_in_last10 (cell_rows cell ledger)")
    case True
    then have "filter is_wrong (last_scored (cell_rows cell ledger)) \<noteq> []"
      unfolding divergent_in_last10_def by force
    then obtain ev where "ev \<in> set (last_scored (cell_rows cell ledger))" "is_wrong ev"
      by (metis filter_False)
    then show ?thesis
      using last_n_subset by (force simp: last_scored_def cell_rows_def)
  qed (use assms(3) in auto)
  from wrongs have w: "r_wrong (ratios_spec ?rows) \<noteq> 0"
    by (auto simp: ratios_spec_def count_rows_def is_wrong_def filter_empty_conv)
  then obtain m where "review_confirmed_rate (ratios_spec ?rows) = Some m"
    by (simp add: review_confirmed_rate_def rate_def)
  moreover have "length ?rows \<noteq> 0"
    using wrongs by (metis empty_iff length_0_conv list.set(1))
  ultimately have "decide ?e = Demote"
    using assms(3)
    by (auto simp: decide_def Let_def spec_evidence_def DEMOTE_DIVERGENT_IN_LAST10_def cell_rows_def)
  then show ?thesis
    by (simp add: state_of_def evaluate_def Let_def gather_own [OF assms(1,2)])
qed

definition divergent_ledger :: "pyval list" where
  "divergent_ledger = clean_ledger @
     replicate 2 (sample_row ''cos'' ''2026-07-08T00:00:00Z'' (human_review ''wrong''))"

theorem divergence_demotes_witness:
  "state_of True shipped_policy cos_cell divergent_ledger eight_days_later = Demote"
proof -
  have "2 \<le> divergent_in_last10 (cell_rows cos_cell divergent_ledger)"
    by code_simp
  moreover have "str_stamps divergent_ledger"
    by (simp add: str_stamps_def divergent_ledger_def clean_ledger_def sample_row_def dget_def str_or_null_def)
  ultimately show ?thesis
    using divergence_demotes clean_ledger_ok(1) by blast
qed

section \<open>Time only helps\<close>

definition grown :: "rat option \<Rightarrow> rat option \<Rightarrow> bool" where
  "grown a b \<longleftrightarrow> (case (a, b) of (None, None) \<Rightarrow> True | (Some x, Some y) \<Rightarrow> x \<le> y | _ \<Rightarrow> False)"

lemma grown_None [simp]: "grown None None"
  by (simp add: grown_def)

text \<open>
  Waiting never costs a cell its standing and never cures a demotion. With the same ledger and
  the same matrix, a later moment gives the same state, except that a cell which was eligible may
  have become graduated.
\<close>

theorem time_only_seasons:
  assumes "now \<le> later"
  shows "state_of sovereign policy cell ledger later = state_of sovereign policy cell ledger now
     \<or> state_of sovereign policy cell ledger now = Eligible
       \<and> state_of sovereign policy cell ledger later = Graduated"
proof -
  define e where "e = gather sovereign policy cell ledger now"
  define e' where "e' = gather sovereign policy cell ledger later"
  have same: "ev_samples e' = ev_samples e" "ev_match_rate e' = ev_match_rate e"
    "ev_fitness e' = ev_fitness e" "ev_divergent_last10 e' = ev_divergent_last10 e"
    "ev_fabrication e' = ev_fabrication e" "ev_bar e' = ev_bar e"
    by (simp_all add: e_def e'_def gather_def Let_def)
  have "(of_int (now - t) :: rat) / of_int day_us \<le> of_int (later - t) / of_int day_us" for t
    using assms by (intro divide_right_mono) (simp_all add: day_us_def)
  then have grow: "grown (days_since now ev) (days_since later ev)" for ev
    by (simp add: days_since_def grown_def split: option.splits)
  have wrong: "grown (ev_days_since_wrong e) (ev_days_since_wrong e')"
    using grow by (simp add: e_def e'_def gather_def Let_def days_since_last_wrong_def)
  have age: "grown (ev_cell_age e) (ev_cell_age e')"
    using grow by (simp add: e_def e'_def gather_def Let_def cell_age_days_def)
  have "decide e' = decide e \<or> decide e = Eligible \<and> decide e' = Graduated"
    using wrong age unfolding decide_def Let_def same grown_def
    by (cases "ev_days_since_wrong e"; cases "ev_days_since_wrong e'"; cases "ev_cell_age e";
        cases "ev_cell_age e'") (auto split: option.splits)
  then show ?thesis
    by (simp add: state_of_def evaluate_def Let_def e_def e'_def)
qed

theorem time_only_seasons_witness:
  "state_of False shipped_policy cos_cell clean_ledger (eight_days_later + day_us) = Graduated"
proof -
  have "eight_days_later \<le> eight_days_later + day_us"
    by (simp add: day_us_def)
  from time_only_seasons [OF this, of False shipped_policy cos_cell clean_ledger] show ?thesis
    by (simp add: clean_ledger_graduates)
qed

section \<open>Cells do not influence each other\<close>

text \<open>
  A stamped cell is judged on its own rows only. Removing every row of another actor, lane or
  kind (an actor id that was prefixed twice is another actor) leaves its state unchanged, and so does
  the posture the deployment resolves to.
\<close>

theorem cell_isolation:
  assumes "stamped cell" "str_stamps ledger"
  shows "state_of sovereign policy cell ledger now
       = state_of sovereign' policy cell (filter (in_cell cell) ledger) now"
proof -
  have "str_stamps (filter (in_cell cell) ledger)"
    using assms(2) by (simp add: str_stamps_def)
  then show ?thesis
    by (simp add: state_of_def evaluate_def Let_def gather_own [OF assms]
        gather_own [OF assms(1) \<open>str_stamps (filter (in_cell cell) ledger)\<close>])
qed

definition severed_row :: pyval where
  "severed_row = sample_row ''officer:cos'' ''2026-07-08T00:00:00Z'' (human_review ''wrong'')"

theorem cell_isolation_witness:
  "state_of False shipped_policy cos_cell (clean_ledger @ [severed_row, severed_row]) eight_days_later
     = Graduated"
proof -
  have "str_stamps (clean_ledger @ [severed_row, severed_row])"
    using clean_ledger_ok(2)
    by (simp add: str_stamps_def severed_row_def sample_row_def dget_def str_or_null_def)
  moreover have "filter (in_cell cos_cell) (clean_ledger @ [severed_row, severed_row]) = clean_ledger"
    by code_simp
  ultimately show ?thesis
    using cell_isolation [OF clean_ledger_ok(1), of _ False shipped_policy eight_days_later False]
      clean_ledger_graduates by metis
qed

section \<open>Two places where evidence is lost\<close>

definition judge_review :: pyval where
  "judge_review = PDict [(''verdict'', PStr ''confirmed''), (''source'', PStr ''verdict_judge'')]"

definition aged_ledger :: "pyval list" where
  "aged_ledger = divergent_ledger @ replicate 10 (sample_row ''cos'' ''2026-07-08T06:00:00Z'' judge_review)"

definition undated_ledger :: "pyval list" where
  "undated_ledger = clean_ledger @ [sample_row ''cos'' ''yesterday'' (human_review ''wrong'')]"

text \<open>
  Confirmations a machine judge gives, inert for promotion, still push wrongs out of the
  ten-row window: the ledger of a demoted cell followed by ten judge confirmations is no longer
  demoted.
\<close>

theorem judge_confirms_lift_demotion:
  "state_of False shipped_policy cos_cell divergent_ledger eight_days_later = Demote
   \<and> state_of False shipped_policy cos_cell aged_ledger eight_days_later \<noteq> Demote"
  by code_simp

text \<open>
  A wrong verdict whose timestamp does not parse is accepted by the validator and then counts
  as never having happened for the recency clock: the cell graduates although its latest scored row
  is a wrong one.
\<close>

theorem undated_wrong_graduates:
  "list_all (\<lambda>ev. validate_consequence ev = None) undated_ledger
   \<and> is_wrong (last (cell_rows cos_cell undated_ledger))
   \<and> days_since_last_wrong (cell_rows cos_cell undated_ledger) eight_days_later = None
   \<and> state_of False shipped_policy cos_cell undated_ledger eight_days_later = Graduated"
  by code_simp

end
