(* ===== verification/Posture.thy ===== *)
theory Posture
  imports Matrix
begin

text \<open>
  The posture resolver: \<^verbatim>\<open>framework/authority/posture.py\<close>. What the file system answers
  about the ruling, its lock and the narrowing file is a record; the attestation backends are
  functions of the facts they probe. A ruling is the parsed YAML value.
\<close>

section \<open>Postures and their order\<close>

datatype posture = Earn_Up | Guardian | Sovereign

instantiation posture :: linorder
begin

fun POSTURE_PERMISSIVENESS :: "posture \<Rightarrow> nat" where
  "POSTURE_PERMISSIVENESS Earn_Up = 0"
| "POSTURE_PERMISSIVENESS Guardian = 1"
| "POSTURE_PERMISSIVENESS Sovereign = 2"

definition less_eq_posture :: "posture \<Rightarrow> posture \<Rightarrow> bool" where
  "less_eq_posture p q \<longleftrightarrow> POSTURE_PERMISSIVENESS p \<le> POSTURE_PERMISSIVENESS q"

definition less_posture :: "posture \<Rightarrow> posture \<Rightarrow> bool" where
  "less_posture p q \<longleftrightarrow> POSTURE_PERMISSIVENESS p < POSTURE_PERMISSIVENESS q"

instance
proof
  fix p q r :: posture
  show "p < q \<longleftrightarrow> p \<le> q \<and> \<not> q \<le> p"
    by (auto simp: less_eq_posture_def less_posture_def)
  show "p \<le> p"
    by (simp add: less_eq_posture_def)
  show "p \<le> q \<Longrightarrow> q \<le> r \<Longrightarrow> p \<le> r"
    by (simp add: less_eq_posture_def)
  show "p \<le> q \<Longrightarrow> q \<le> p \<Longrightarrow> p = q"
    by (cases p; cases q) (simp_all add: less_eq_posture_def)
  show "p \<le> q \<or> q \<le> p"
    by (auto simp: less_eq_posture_def)
qed

end

fun posture_name :: "posture \<Rightarrow> string" where
  "posture_name Earn_Up = ''earn_up''"
| "posture_name Guardian = ''guardian''"
| "posture_name Sovereign = ''sovereign''"

definition posture_of :: "pyval \<Rightarrow> posture option" where
  "posture_of v = (if v = PStr ''earn_up'' then Some Earn_Up
     else if v = PStr ''guardian'' then Some Guardian
     else if v = PStr ''sovereign'' then Some Sovereign else None)"

text \<open>\<^verbatim>\<open>_narrowest\<close>.\<close>

definition narrowest :: "posture \<Rightarrow> posture \<Rightarrow> posture" where
  "narrowest p q = (if POSTURE_PERMISSIVENESS q < POSTURE_PERMISSIVENESS p then q else p)"

lemma narrowest_min: "narrowest p q = min p q"
  by (cases p; cases q) (simp_all add: narrowest_def min_def less_eq_posture_def)

definition FLAVORS :: "string list" where "FLAVORS = [''org'', ''personal'']"

definition DEPLOYMENT_TARGETS :: "string list" where
  "DEPLOYMENT_TARGETS = [''macbook'', ''mac_mini'', ''docker'']"

definition DEFAULT_HARD_MULTIPLIER :: int where "DEFAULT_HARD_MULTIPLIER = 10"
definition GUARDIAN_MAX_AUTO_EXEC_STEPS :: int where "GUARDIAN_MAX_AUTO_EXEC_STEPS = 2"
definition DEFAULT_SOVEREIGN_MAX_AUTO_EXEC_STEPS :: int where
  "DEFAULT_SOVEREIGN_MAX_AUTO_EXEC_STEPS = 5"

definition POSTURE_REQUIRED :: "string list" where
  "POSTURE_REQUIRED = [''version'', ''status'', ''ruled_at'', ''basis'', ''deployment'', ''flavor'',
     ''posture'']"

definition POSTURE_KEYS :: "string list" where
  "POSTURE_KEYS = POSTURE_REQUIRED @ [''lanes'', ''caps'', ''max_auto_exec_steps'', ''never_grant'',
     ''deployment_target'']"

section \<open>Attestation\<close>

datatype probe = Opened_Writable | Refused string   \<comment> \<open>the errno name\<close>

record file_facts =
  ff_darwin :: bool                          \<comment> \<open>sys.platform is darwin\<close>
  ff_lstat :: "(bool \<times> bool) option"         \<comment> \<open>is a link, has the immutable flag; None: error\<close>
  ff_regular :: "bool option"                \<comment> \<open>the resolved path is a regular file; None: error\<close>
  ff_probe :: probe                          \<comment> \<open>the no-follow open-append probe\<close>
  ff_real :: string                          \<comment> \<open>the resolved path\<close>
  ff_mounts :: "string list option"          \<comment> \<open>the lines of /proc/mounts\<close>
  ff_yaml :: "pyval option"                  \<comment> \<open>the file parsed as YAML; None: unreadable\<close>
  ff_dockerenv :: bool

definition is_locked_schg :: "file_facts \<Rightarrow> bool" where
  "is_locked_schg f = (if \<not> ff_darwin f then False
     else (case ff_lstat f of None \<Rightarrow> False | Some (link, immutable) \<Rightarrow> if link then False else immutable))"

text \<open>\<^verbatim>\<open>line.split()\<close>.\<close>

fun split_ws_aux :: "string \<Rightarrow> string \<Rightarrow> string list" where
  "split_ws_aux acc [] = (if acc = [] then [] else [rev acc])"
| "split_ws_aux acc (c # cs) =
     (if is_space c then (if acc = [] then split_ws_aux [] cs else rev acc # split_ws_aux [] cs)
      else split_ws_aux (c # acc) cs)"

definition split_ws :: "string \<Rightarrow> string list" where
  "split_ws s = split_ws_aux [] s"

fun split_on_aux :: "char \<Rightarrow> string \<Rightarrow> string \<Rightarrow> string list" where
  "split_on_aux d acc [] = [rev acc]"
| "split_on_aux d acc (c # cs) =
     (if c = d then rev acc # split_on_aux d [] cs else split_on_aux d (c # acc) cs)"

definition split_on :: "char \<Rightarrow> string \<Rightarrow> string list" where
  "split_on d s = split_on_aux d [] s"

definition is_octal :: "char \<Rightarrow> bool" where
  "is_octal c \<longleftrightarrow> (let n = of_char c :: nat in 48 \<le> n \<and> n \<le> 55)"

definition octal_char :: "char \<Rightarrow> char \<Rightarrow> char \<Rightarrow> char" where
  "octal_char a b c = char_of ((of_char a - 48) * 64 + (of_char b - 48) * 8 + (of_char c - (48 :: nat)))"

fun unescape_mountpoint :: "string \<Rightarrow> string" where
  "unescape_mountpoint (x # a # b # c # cs) =
     (if of_char x = (92 :: nat) \<and> is_octal a \<and> is_octal b \<and> is_octal c
      then octal_char a b c # unescape_mountpoint cs
      else x # unescape_mountpoint (a # b # c # cs))"
| "unescape_mountpoint s = s"

definition rstrip_slash :: "string \<Rightarrow> string" where
  "rstrip_slash s = rev (dropWhile (\<lambda>c. c = CHR ''/'') (rev s))"

definition mount_contains :: "string \<Rightarrow> string \<Rightarrow> bool" where
  "mount_contains path mnt \<longleftrightarrow> path = mnt \<or> starts_with (rstrip_slash mnt @ ''/'') path"

fun best_mount :: "string \<Rightarrow> (string \<times> string) option \<Rightarrow> string list \<Rightarrow> (string \<times> string) option" where
  "best_mount path best [] = best"
| "best_mount path best (line # lines) =
     (let parts = split_ws line in
      if length parts < 4 then best_mount path best lines
      else let mnt = unescape_mountpoint (parts ! 1) in
        if mount_contains path mnt
           \<and> (case best of None \<Rightarrow> True | Some (m, _) \<Rightarrow> length m < length mnt)
        then best_mount path (Some (mnt, parts ! 3)) lines
        else best_mount path best lines)"

definition mount_is_ro :: "file_facts \<Rightarrow> bool" where
  "mount_is_ro f = (case ff_mounts f of None \<Rightarrow> False | Some lines \<Rightarrow>
     (case best_mount (ff_real f) None lines of None \<Rightarrow> False
      | Some (_, opts) \<Rightarrow> ''ro'' \<in> set (split_on (CHR '','') opts)))"

definition is_locked_ro_mount :: "file_facts \<Rightarrow> bool" where
  "is_locked_ro_mount f =
     (case ff_lstat f of None \<Rightarrow> False | Some (link, _) \<Rightarrow>
        if link then False
        else (case ff_regular f of None \<Rightarrow> False | Some reg \<Rightarrow>
          if \<not> reg then False
          else (case ff_probe f of
              Opened_Writable \<Rightarrow> False
            | Refused e \<Rightarrow> if e \<notin> {''EROFS'', ''EACCES''} then False else mount_is_ro f)))"

definition declared_target :: "file_facts \<Rightarrow> string option" where
  "declared_target f = (case ff_yaml f of None \<Rightarrow> None | Some d \<Rightarrow>
     if is_dict d \<and> is_member (dget d ''deployment_target'') DEPLOYMENT_TARGETS
     then Some (str_of (dget d ''deployment_target'')) else None)"

definition infer_deployment_target :: "file_facts \<Rightarrow> string" where
  "infer_deployment_target f = (if ff_dockerenv f then ''docker'' else ''macbook'')"

definition backend_of_target :: "string \<Rightarrow> string" where
  "backend_of_target target = (if target = ''docker'' then ''ro_mount'' else ''schg'')"

definition is_locked :: "file_facts \<Rightarrow> string option \<Rightarrow> bool" where
  "is_locked f target =
     (let t = (case target of Some t \<Rightarrow> t
               | None \<Rightarrow> (case declared_target f of Some t \<Rightarrow> t | None \<Rightarrow> infer_deployment_target f)) in
      if backend_of_target t = ''ro_mount'' then is_locked_ro_mount f else is_locked_schg f)"

section \<open>The ruling's schema\<close>

text \<open>A schema check returns the violation's text, or Python raises on an unhashable value.\<close>

datatype ruling_error = Violation string | Raises py_exc

definition p_hash :: "pyval \<Rightarrow> ruling_error option" where
  "p_hash v = raise_if (\<not> hashable v) (Raises (TypeError ''unhashable type''))"

definition bad :: "bool \<Rightarrow> string \<Rightarrow> ruling_error option" where
  "bad b msg = raise_if b (Violation msg)"

definition is_timestampish :: "pyval \<Rightarrow> bool" where
  "is_timestampish v = (case v of PDate _ \<Rightarrow> True | PDatetime _ _ \<Rightarrow> True
     | PStr s \<Rightarrow> strip s \<noteq> [] | _ \<Rightarrow> False)"

definition posint_or_null :: "pyval \<Rightarrow> bool" where
  "posint_or_null v \<longleftrightarrow> v = PNone \<or> is_int v \<and> 1 \<le> int_of v"

definition validation_error :: "pyval \<Rightarrow> ruling_error option" where
  "validation_error data =
     (let lanes = dget data ''lanes''; caps = dget data ''caps''; ng = dget data ''never_grant'';
          dt = dget data ''deployment_target'' in run_checks
      [bad (\<not> is_dict data) ''posture.yml is not a mapping'',
       bad (\<not> set (keys data) \<subseteq> set POSTURE_KEYS) ''unknown keys'',
       for_each (\<lambda>k. bad (\<not> has_key data k) ''missing required key'') POSTURE_REQUIRED,
       bad (\<not> py_eq (dget data ''version'') (PInt 1) \<or> is_bool (dget data ''version''))
         ''version must be the integer 1'',
       bad (dget data ''status'' \<noteq> PStr ''ruled'') ''status must be ruled'',
       bad (\<not> is_timestampish (dget data ''ruled_at'')) ''ruled_at must be an ISO-8601 timestamp'',
       for_each (\<lambda>k. bad (\<not> is_str (dget data k) \<or> strip (str_of (dget data k)) = [])
         ''must be a non-empty string'') [''basis'', ''deployment''],
       p_hash (dget data ''flavor''),
       bad (\<not> is_member (dget data ''flavor'') FLAVORS) ''flavor must be one of'',
       p_hash (dget data ''posture''),
       bad (posture_of (dget data ''posture'') = None) ''posture must be one of'',
       bad (lanes \<noteq> PNone \<and> \<not> is_dict lanes) ''lanes must be a mapping of lane -> posture'',
       for_each (\<lambda>(lname, lposture). run_checks
         [bad (strip lname = []) ''lanes keys must be non-empty lane slugs'',
          p_hash lposture,
          bad (posture_of lposture = None) ''lane posture must be one of'']) (items lanes),
       bad (caps \<noteq> PNone \<and> \<not> is_dict caps) ''caps must be a mapping'',
       bad (\<not> set (keys caps) \<subseteq> {''hard_multiplier''}) ''caps: unknown keys'',
       bad (\<not> posint_or_null (dget caps ''hard_multiplier''))
         ''caps.hard_multiplier must be a positive integer'',
       bad (\<not> posint_or_null (dget data ''max_auto_exec_steps''))
         ''max_auto_exec_steps must be a positive integer'',
       bad (ng \<noteq> PNone \<and> \<not> is_list ng) ''never_grant must be a list of risk classes'',
       for_each (\<lambda>c. bad (\<not> is_member c RISK_CLASSES) ''never_grant entries must be risk classes'')
         (elems ng),
       (if dt = PNone then None else p_hash dt),
       bad (dt \<noteq> PNone \<and> \<not> is_member dt DEPLOYMENT_TARGETS) ''deployment_target must be one of''])"

section \<open>Reading and resolving\<close>

datatype ruling_file =
    No_Ruling
  | Not_Real_Path "pyval option"   \<comment> \<open>a link or traversal; what its content parses to\<close>
  | Unparseable
  | Ruling pyval
datatype narrow_file = No_Narrow | Unreadable_Narrow | Narrow string

record posture_world =
  pw_ruling :: ruling_file
  pw_locked :: bool                   \<comment> \<open>what the attestation answers for the ruling's path\<close>
  pw_narrow :: narrow_file
  pw_env_cap :: "string option"       \<comment> \<open>CABINET_POSTURE\<close>
  pw_cabinet :: string                \<comment> \<open>CABINET_ID\<close>

text \<open>The ruling that was read, whether it is attested, and the configuration need it files.\<close>

type_synonym ruling_read = "pyval option \<times> bool \<times> string option"

definition need_if :: "bool \<Rightarrow> string \<Rightarrow> string option" where
  "need_if b why = (if b then Some why else None)"

definition named_postures :: "pyval \<Rightarrow> posture list" where
  "named_postures data = List.map_filter posture_of (dget data ''posture'' # vals (dget data ''lanes''))"

definition read_ruling :: "posture_world \<Rightarrow> bool \<Rightarrow> py_exc + ruling_read" where
  "read_ruling w file_needs = (case pw_ruling w of
     No_Ruling \<Rightarrow> Inr (None, False, None)
   | Not_Real_Path _ \<Rightarrow> Inr (None, False, need_if file_needs ''posture.yml is not attestable'')
   | Unparseable \<Rightarrow> Inr (None, False, need_if file_needs ''posture.yml is unparseable'')
   | Ruling data \<Rightarrow> (case validation_error data of
       Some (Raises e) \<Rightarrow> Inl e
     | Some (Violation v) \<Rightarrow> Inr (None, False, need_if file_needs ''posture.yml is corrupt'')
     | None \<Rightarrow>
         if str_of (dget data ''deployment'') \<noteq> pw_cabinet w then Inr (None, False, None)
         else if pw_locked w then Inr (Some data, True, None)
         else Inr (Some data, False,
                need_if (file_needs \<and> set (named_postures data) \<noteq> {Earn_Up})
                  ''posture.yml exists but is not locked'')))"

definition load_posture_config :: "posture_world \<Rightarrow> bool \<Rightarrow> py_exc + pyval option" where
  "load_posture_config w file_needs = (case read_ruling w file_needs of
     Inl e \<Rightarrow> Inl e | Inr (data, attested, _) \<Rightarrow> Inr (if attested then data else None))"

definition cap_of_word :: "string \<Rightarrow> posture option" where
  "cap_of_word s = (if s = ''guardian'' then Some Guardian else if s = ''earn_up'' then Some Earn_Up
     else None)"

definition narrow_cap :: "posture_world \<Rightarrow> posture option" where
  "narrow_cap w = (case pw_narrow w of
     No_Narrow \<Rightarrow> None
   | Unreadable_Narrow \<Rightarrow> Some Earn_Up
   | Narrow text \<Rightarrow> Some (case cap_of_word (strip text) of Some p \<Rightarrow> p | None \<Rightarrow> Earn_Up))"

definition env_cap :: "posture_world \<Rightarrow> posture option" where
  "env_cap w = (case pw_env_cap w of None \<Rightarrow> None | Some s \<Rightarrow> cap_of_word s)"

definition effective_posture :: "pyval \<Rightarrow> string option \<Rightarrow> posture" where
  "effective_posture cfg lane =
     (let lanes = dget cfg ''lanes'';
          v = (case lane of Some l \<Rightarrow> if has_key lanes l then dget lanes l else dget cfg ''posture''
               | None \<Rightarrow> dget cfg ''posture'')
      in the (posture_of v))"

definition capped :: "posture \<Rightarrow> posture option \<Rightarrow> posture" where
  "capped p cap = (case cap of None \<Rightarrow> p | Some c \<Rightarrow> narrowest p c)"

definition resolve_posture :: "posture_world \<Rightarrow> string option \<Rightarrow> bool \<Rightarrow> py_exc + (posture \<times> string option)" where
  "resolve_posture w lane file_needs =
     (let ecap = env_cap w in
      case read_ruling w (file_needs \<and> ecap \<noteq> Some Guardian) of
        Inl e \<Rightarrow> Inl e
      | Inr (cfg, attested, need) \<Rightarrow>
          let resolved = (case cfg of None \<Rightarrow> Guardian
                | Some data \<Rightarrow> let effective = effective_posture data lane in
                    if attested then effective else narrowest effective Guardian)
          in Inr (capped (capped resolved ecap) (narrow_cap w), need))"

section \<open>Other readers of the ruling\<close>

definition read_unattested :: "posture_world \<Rightarrow> py_exc + pyval option" where
  "read_unattested w = (case read_ruling (w\<lparr>pw_locked := True\<rparr>) False of
     Inl e \<Rightarrow> Inl e | Inr (data, _, _) \<Rightarrow> Inr data)"

definition never_grant_classes :: "posture_world \<Rightarrow> py_exc + string list" where
  "never_grant_classes w = (case read_unattested w of Inl e \<Rightarrow> Inl e
     | Inr None \<Rightarrow> Inr []
     | Inr (Some cfg) \<Rightarrow> Inr (map str_of (elems (dget cfg ''never_grant''))))"

definition deployment_target :: "posture_world \<Rightarrow> file_facts \<Rightarrow> py_exc + string" where
  "deployment_target w f = (case read_unattested w of Inl e \<Rightarrow> Inl e
     | Inr None \<Rightarrow> Inr (infer_deployment_target f)
     | Inr (Some cfg) \<Rightarrow> Inr (if is_member (dget cfg ''deployment_target'') DEPLOYMENT_TARGETS
         then str_of (dget cfg ''deployment_target'') else infer_deployment_target f))"

definition int_or :: "pyval \<Rightarrow> int \<Rightarrow> int" where
  "int_or v d = (if truthy v then int_of v else d)"

definition hard_multiplier :: "posture_world \<Rightarrow> py_exc + int" where
  "hard_multiplier w = (case load_posture_config w False of Inl e \<Rightarrow> Inl e
     | Inr None \<Rightarrow> Inr DEFAULT_HARD_MULTIPLIER
     | Inr (Some cfg) \<Rightarrow> Inr (int_or (dget (dget cfg ''caps'') ''hard_multiplier'') DEFAULT_HARD_MULTIPLIER))"

definition max_auto_steps :: "posture_world \<Rightarrow> string \<Rightarrow> py_exc + int" where
  "max_auto_steps w p = (if p \<noteq> ''sovereign'' then Inr GUARDIAN_MAX_AUTO_EXEC_STEPS
     else (case load_posture_config w False of Inl e \<Rightarrow> Inl e
       | Inr None \<Rightarrow> Inr GUARDIAN_MAX_AUTO_EXEC_STEPS
       | Inr (Some cfg) \<Rightarrow>
           Inr (int_or (dget cfg ''max_auto_exec_steps'') DEFAULT_SOVEREIGN_MAX_AUTO_EXEC_STEPS)))"

end
