(* ===== verification/Posture_Correct.thy ===== *)
theory Posture_Correct
  imports Posture
begin

text \<open>
  The properties of the posture resolver: the runtime surfaces only narrow, sovereign needs an
  attested ruling, and what an attestation has established about the file.
\<close>

lemma posture_le_Sovereign [simp]: "p \<le> Sovereign"
  by (cases p) (simp_all add: less_eq_posture_def)

lemma Earn_Up_le [simp]: "Earn_Up \<le> p"
  by (cases p) (simp_all add: less_eq_posture_def)

lemma min_Earn_Up [simp]: "min p Earn_Up = Earn_Up"
  by (cases p) (simp_all add: min_def less_eq_posture_def)

lemma min_Sovereign: "min p q = Sovereign \<longleftrightarrow> p = Sovereign \<and> q = Sovereign"
  by (cases p; cases q) (simp_all add: min_def less_eq_posture_def)

lemma capped_min: "capped p cap = (case cap of None \<Rightarrow> p | Some c \<Rightarrow> min p c)"
  by (simp add: capped_def narrowest_min split: option.split)

lemma capped_le: "capped p cap \<le> p" "cap = Some c \<Longrightarrow> capped p cap \<le> c"
  by (simp_all add: capped_min split: option.splits)

lemma caps_not_sovereign: "env_cap w \<noteq> Some Sovereign" "narrow_cap w \<noteq> Some Sovereign"
  by (auto simp: env_cap_def narrow_cap_def cap_of_word_def split: option.splits narrow_file.splits if_splits)

text \<open>The posture the ruling alone gives.\<close>

definition ruled_posture :: "pyval option \<Rightarrow> bool \<Rightarrow> string option \<Rightarrow> posture" where
  "ruled_posture cfg attested lane = (case cfg of None \<Rightarrow> Guardian
     | Some data \<Rightarrow> if attested then effective_posture data lane
                    else narrowest (effective_posture data lane) Guardian)"

lemma resolve_Inr:
  "resolve_posture w lane fn = Inr (p, need) \<longleftrightarrow>
     (\<exists>cfg attested. read_ruling w (fn \<and> env_cap w \<noteq> Some Guardian) = Inr (cfg, attested, need)
        \<and> p = capped (capped (ruled_posture cfg attested lane) (env_cap w)) (narrow_cap w))"
  unfolding resolve_posture_def ruled_posture_def Let_def
  by (cases "read_ruling w (fn \<and> env_cap w \<noteq> Some Guardian)") auto

lemma read_ruling_need: "read_ruling w fn = Inr (cfg, att, need) \<Longrightarrow>
    \<exists>need'. read_ruling w' fn' = Inr (cfg, att, need')"
  if "pw_ruling w' = pw_ruling w" "pw_locked w' = pw_locked w" "pw_cabinet w' = pw_cabinet w"
  using that by (auto simp: read_ruling_def split: ruling_file.splits option.splits
      ruling_error.splits if_splits)

lemma read_ruling_Some:
  assumes "read_ruling w fn = Inr (Some data, att, need)"
  shows "pw_ruling w = Ruling data" "validation_error data = None"
    "str_of (dget data ''deployment'') = pw_cabinet w" "att = pw_locked w"
  using assms by (auto simp: read_ruling_def split: ruling_file.splits option.splits
      ruling_error.splits if_splits)

text \<open>
  No runtime surface widens a posture. Whatever the environment variable and the narrowing file
  hold, the resolved posture is the one the same deployment resolves to without them, taken down to
  each cap that is present: it never exceeds the uncapped posture nor any cap, and a narrowing file
  that cannot be read or understood caps at the most restrictive posture.
\<close>

theorem caps_only_narrow:
  assumes "resolve_posture w lane fn = Inr (p, need)"
  shows "(\<exists>q need'. resolve_posture (w\<lparr>pw_env_cap := None, pw_narrow := No_Narrow\<rparr>) lane fn = Inr (q, need')
            \<and> p = capped (capped q (env_cap w)) (narrow_cap w) \<and> p \<le> q)
     \<and> (\<forall>c. env_cap w = Some c \<longrightarrow> p \<le> c) \<and> (\<forall>c. narrow_cap w = Some c \<longrightarrow> p \<le> c)
     \<and> (\<forall>text. pw_narrow w = Narrow text \<and> strip text \<notin> {''guardian'', ''earn_up''} \<longrightarrow> p = Earn_Up)
     \<and> (pw_narrow w = Unreadable_Narrow \<longrightarrow> p = Earn_Up)"
proof -
  let ?w = "w\<lparr>pw_env_cap := None, pw_narrow := No_Narrow\<rparr>"
  obtain cfg att where r: "read_ruling w (fn \<and> env_cap w \<noteq> Some Guardian) = Inr (cfg, att, need)"
    and p: "p = capped (capped (ruled_posture cfg att lane) (env_cap w)) (narrow_cap w)"
    using assms unfolding resolve_Inr by blast
  let ?q = "ruled_posture cfg att lane"
  obtain need' where "read_ruling ?w (fn \<and> env_cap ?w \<noteq> Some Guardian) = Inr (cfg, att, need')"
    using read_ruling_need [OF _ _ _ r, of ?w] by auto
  moreover have "env_cap ?w = None" "narrow_cap ?w = None"
    by (simp_all add: env_cap_def narrow_cap_def)
  ultimately have "resolve_posture ?w lane fn = Inr (?q, need')"
    unfolding resolve_Inr by (auto simp: capped_def)
  moreover have "p \<le> ?q"
    unfolding p by (rule order_trans [OF capped_le(1) capped_le(1)])
  moreover have "env_cap w = Some c \<Longrightarrow> p \<le> c" for c
    unfolding p by (rule order_trans [OF capped_le(1) capped_le(2)])
  moreover have cap: "narrow_cap w = Some c \<Longrightarrow> p \<le> c" for c
    unfolding p by (rule capped_le(2))
  moreover have "pw_narrow w = Narrow word \<Longrightarrow> strip word \<notin> {''guardian'', ''earn_up''} \<Longrightarrow> p = Earn_Up" for word
    using cap [of Earn_Up] by (simp add: narrow_cap_def cap_of_word_def antisym)
  moreover have "pw_narrow w = Unreadable_Narrow \<Longrightarrow> p = Earn_Up"
    using cap [of Earn_Up] by (simp add: narrow_cap_def antisym)
  ultimately show ?thesis
    using p by blast
qed

definition sample_ruling :: "string \<Rightarrow> pyval" where
  "sample_ruling p = PDict [(''version'', PInt 1), (''status'', PStr ''ruled''),
     (''ruled_at'', PStr ''2026-07-05T00:00:00Z''), (''basis'', PStr ''captain''),
     (''deployment'', PStr ''main''), (''flavor'', PStr ''org''), (''posture'', PStr p)]"

definition sample_world :: "string \<Rightarrow> bool \<Rightarrow> narrow_file \<Rightarrow> posture_world" where
  "sample_world p locked narrow = \<lparr>pw_ruling = Ruling (sample_ruling p), pw_locked = locked,
     pw_narrow = narrow, pw_env_cap = None, pw_cabinet = ''main''\<rparr>"

lemma sovereign_resolves:
  "resolve_posture (sample_world ''sovereign'' True No_Narrow) None True = Inr (Sovereign, None)"
  by code_simp

theorem caps_only_narrow_witness:
  "resolve_posture (sample_world ''sovereign'' True (Narrow ''sovereign'')) None True = Inr (Earn_Up, None)
   \<and> Earn_Up \<le> Guardian"
proof -
  have r: "resolve_posture (sample_world ''sovereign'' True (Narrow ''sovereign'')) None True
      = Inr (Earn_Up, None)"
    by code_simp
  have "narrow_cap (sample_world ''sovereign'' True (Narrow ''sovereign'')) = Some Earn_Up"
    by code_simp
  then have "Earn_Up \<le> Earn_Up"
    using caps_only_narrow [OF r] by blast
  then show ?thesis
    using r by simp
qed

lemma sovereign_facts:
  assumes "resolve_posture w lane fn = Inr (Sovereign, need)"
  shows "pw_locked w \<and> env_cap w = None \<and> pw_narrow w = No_Narrow
     \<and> (\<exists>data. pw_ruling w = Ruling data \<and> validation_error data = None
          \<and> str_of (dget data ''deployment'') = pw_cabinet w
          \<and> effective_posture data lane = Sovereign)"
proof -
  obtain cfg att where r: "read_ruling w (fn \<and> env_cap w \<noteq> Some Guardian) = Inr (cfg, att, need)"
    and p: "Sovereign = capped (capped (ruled_posture cfg att lane) (env_cap w)) (narrow_cap w)"
    using assms unfolding resolve_Inr by blast
  have caps: "env_cap w = None" "narrow_cap w = None" "ruled_posture cfg att lane = Sovereign"
    using p caps_not_sovereign [of w]
    by (auto simp: capped_min min_Sovereign eq_commute [of Sovereign] split: option.splits)
  then obtain data where cfg: "cfg = Some data" "att" "effective_posture data lane = Sovereign"
    by (auto simp: ruled_posture_def narrowest_min min_Sovereign split: option.splits if_splits)
  have "pw_narrow w = No_Narrow"
    using caps(2) by (cases "pw_narrow w") (simp_all add: narrow_cap_def)
  then show ?thesis
    using caps(1) cfg read_ruling_Some [OF r [unfolded cfg(1)]] by blast
qed

text \<open>
  C19: the sovereign posture requires the captain's lock. When a deployment or a lane resolves to
  sovereign, its ruling exists at the real path, satisfies the schema, names this deployment, says
  sovereign for this lane, is attested by the lock, and no cap is present in the environment or the
  narrowing file.
\<close>

theorem sovereign_is_attested:
  assumes "resolve_posture w lane fn = Inr (Sovereign, need)"
  shows "pw_locked w \<and> env_cap w = None \<and> pw_narrow w = No_Narrow
     \<and> (\<exists>data. pw_ruling w = Ruling data \<and> validation_error data = None
          \<and> str_of (dget data ''deployment'') = pw_cabinet w
          \<and> effective_posture data lane = Sovereign)"
  by (rule sovereign_facts [OF assms])

theorem sovereign_is_attested_witness:
  "pw_locked (sample_world ''sovereign'' True No_Narrow)"
  using sovereign_is_attested [OF sovereign_resolves] by blast

section \<open>What an attestation proves\<close>

definition mount_line :: "string \<Rightarrow> string \<Rightarrow> string \<Rightarrow> bool" where
  "mount_line line mnt opts \<longleftrightarrow> 4 \<le> length (split_ws line)
     \<and> mnt = unescape_mountpoint (split_ws line ! 1) \<and> opts = split_ws line ! 3"

definition longest_mount :: "string \<Rightarrow> string list \<Rightarrow> (string \<times> string) option \<Rightarrow> bool" where
  "longest_mount path lines best = (case best of
     None \<Rightarrow> \<forall>line \<in> set lines. \<forall>mnt opts. mount_line line mnt opts \<longrightarrow> \<not> mount_contains path mnt
   | Some (m, o') \<Rightarrow> (\<exists>line \<in> set lines. mount_line line m o') \<and> mount_contains path m
       \<and> (\<forall>line \<in> set lines. \<forall>mnt opts. mount_line line mnt opts \<and> mount_contains path mnt \<longrightarrow>
            length mnt \<le> length m))"

lemma best_mount_longest:
  assumes "longest_mount path seen best"
  shows "longest_mount path (seen @ lines) (best_mount path best lines)"
  using assms
proof (induction lines arbitrary: seen best)
  case Nil
  then show ?case by simp
next
  case (Cons line lines)
  let ?parts = "split_ws line"
  let ?mnt = "unescape_mountpoint (?parts ! 1)" and ?opts = "?parts ! 3"
  define next_best where "next_best =
    (if length ?parts < 4 then best
     else if mount_contains path ?mnt \<and> (case best of None \<Rightarrow> True | Some (m, _) \<Rightarrow> length m < length ?mnt)
     then Some (?mnt, ?opts) else best)"
  have step: "best_mount path best (line # lines) = best_mount path next_best lines"
    by (simp only: best_mount.simps next_best_def Let_def split: if_split) (auto simp del: One_nat_def)
  have "longest_mount path (seen @ [line]) next_best"
  proof (cases best)
    case None
    then show ?thesis
      using Cons.prems by (auto simp: longest_mount_def next_best_def mount_line_def)
  next
    case (Some mo)
    obtain m o' where mo: "mo = (m, o')" by (cases mo)
    show ?thesis
    proof (cases "4 \<le> length ?parts \<and> mount_contains path ?mnt \<and> length m < length ?mnt")
      case True
      then have nb: "next_best = Some (?mnt, ?opts)"
        by (simp add: next_best_def Some mo)
      show ?thesis
        using Cons.prems True
        by (fastforce simp: longest_mount_def nb Some mo mount_line_def)
    next
      case False
      then have nb: "next_best = Some (m, o')"
        by (auto simp: next_best_def Some mo)
      have "mount_line line x y \<and> mount_contains path x \<Longrightarrow> length x \<le> length m" for x y
        using False by (auto simp: mount_line_def)
      then show ?thesis
        using Cons.prems by (auto simp: longest_mount_def nb Some mo)
    qed
  qed
  from Cons.IH [OF this] show ?case
    by (simp only: step append_assoc append_Cons append_Nil)
qed

text \<open>
  A lock attestation is never borrowed or guessed. A file that is reported locked is not a
  symbolic link; on a schg target the platform is macOS and the immutable flag is set; on the docker
  target it is a regular file, the open-for-append probe was refused as read-only, and the longest
  mount containing its resolved path is mounted read-only. An unknown target uses the schg backend.
\<close>

theorem locked_means_locked:
  assumes "is_locked f target"
  shows "(\<exists>flag. ff_lstat f = Some (False, flag))
     \<and> (ff_darwin f \<and> ff_lstat f = Some (False, True)
        \<or> ff_regular f = Some True \<and> ff_probe f \<in> {Refused ''EROFS'', Refused ''EACCES''}
          \<and> (\<exists>lines line mnt opts. ff_mounts f = Some lines \<and> line \<in> set lines \<and> mount_line line mnt opts
               \<and> mount_contains (ff_real f) mnt \<and> ''ro'' \<in> set (split_on (CHR '','') opts)
               \<and> longest_mount (ff_real f) lines (Some (mnt, opts))))
     \<and> (\<forall>t. target = Some t \<and> t \<noteq> ''docker'' \<longrightarrow> ff_darwin f \<and> ff_lstat f = Some (False, True))"
proof -
  have schg: "ff_darwin f \<and> ff_lstat f = Some (False, True)" if "is_locked_schg f"
    using that by (auto simp: is_locked_schg_def split: if_splits option.splits)
  have ro: "(\<exists>flag. ff_lstat f = Some (False, flag)) \<and> ff_regular f = Some True
      \<and> ff_probe f \<in> {Refused ''EROFS'', Refused ''EACCES''} \<and> mount_is_ro f"
    if "is_locked_ro_mount f"
    using that by (auto simp: is_locked_ro_mount_def split: if_splits option.splits probe.splits)
  have mount: "\<exists>lines line mnt opts. ff_mounts f = Some lines \<and> line \<in> set lines \<and> mount_line line mnt opts
               \<and> mount_contains (ff_real f) mnt \<and> ''ro'' \<in> set (split_on (CHR '','') opts)
               \<and> longest_mount (ff_real f) lines (Some (mnt, opts))" if "mount_is_ro f"
  proof -
    obtain lines mnt opts where l: "ff_mounts f = Some lines"
      and b: "best_mount (ff_real f) None lines = Some (mnt, opts)"
      and r: "''ro'' \<in> set (split_on (CHR '','') opts)"
      using \<open>mount_is_ro f\<close> by (auto simp: mount_is_ro_def split: option.splits)
    have "longest_mount (ff_real f) [] None"
      by (simp add: longest_mount_def)
    from best_mount_longest [OF this, of lines] have lm: "longest_mount (ff_real f) lines (Some (mnt, opts))"
      by (simp add: b)
    then show ?thesis
      using l r by (auto simp: longest_mount_def)
  qed
  have cases: "is_locked_schg f \<or> is_locked_ro_mount f"
    using assms by (auto simp: is_locked_def Let_def split: if_splits)
  have named: "target = Some t \<Longrightarrow> t \<noteq> ''docker'' \<Longrightarrow> is_locked_schg f" for t
    using assms by (simp add: is_locked_def backend_of_target_def)
  show ?thesis
    using cases named schg ro mount by blast
qed

definition docker_facts :: file_facts where
  "docker_facts = \<lparr>ff_darwin = False, ff_lstat = Some (False, False), ff_regular = Some True,
     ff_probe = Refused ''EROFS'', ff_real = ''/opt/cabinet/instance/config/posture.yml'',
     ff_mounts = Some [''overlay / overlay rw,relatime 0 0'',
       ''/dev/sda1 /opt/cabinet/instance ext4 ro,relatime 0 0''],
     ff_yaml = None, ff_dockerenv = True\<rparr>"

theorem locked_means_locked_witness:
  "is_locked docker_facts None \<and> ff_probe docker_facts \<in> {Refused ''EROFS'', Refused ''EACCES''}"
proof -
  have l: "is_locked docker_facts None"
    by code_simp
  have "\<not> ff_darwin docker_facts"
    by (simp add: docker_facts_def)
  then show ?thesis
    using l locked_means_locked [OF l] by blast
qed

section \<open>Budgets\<close>

text \<open>
  Only an attested sovereign ruling raises the unattended step budget. For every other posture,
  and for a sovereign claim whose ruling is absent, corrupt, of another deployment or not locked, the
  budget is the forced two steps; with an attested ruling it is the ruled positive number or five.
\<close>

theorem step_budget:
  assumes "max_auto_steps w p = Inr n" "n \<noteq> GUARDIAN_MAX_AUTO_EXEC_STEPS"
  shows "p = ''sovereign'' \<and> pw_locked w \<and> 1 \<le> n
     \<and> (\<exists>data. pw_ruling w = Ruling data \<and> validation_error data = None
          \<and> str_of (dget data ''deployment'') = pw_cabinet w)"
proof -
  obtain data att need where r: "read_ruling w False = Inr (Some data, att, need)" "att"
    and n: "n = int_or (dget data ''max_auto_exec_steps'') DEFAULT_SOVEREIGN_MAX_AUTO_EXEC_STEPS"
    and p: "p = ''sovereign''"
    using assms by (auto simp: max_auto_steps_def load_posture_config_def
        split: if_splits sum.splits option.splits prod.splits)
  note data = read_ruling_Some [OF r(1)]
  have "posint_or_null (dget data ''max_auto_exec_steps'')"
    using data(2) by (simp add: validation_error_def Let_def bad_def)
  then have "1 \<le> n"
    by (cases "dget data ''max_auto_exec_steps''")
      (auto simp: n int_or_def posint_or_null_def DEFAULT_SOVEREIGN_MAX_AUTO_EXEC_STEPS_def)
  then show ?thesis
    using p r(2) data by blast
qed

theorem step_budget_witness:
  "max_auto_steps (sample_world ''sovereign'' True No_Narrow) ''sovereign'' = Inr 5 \<and> 1 \<le> (5 :: int)"
proof -
  have m: "max_auto_steps (sample_world ''sovereign'' True No_Narrow) ''sovereign'' = Inr 5"
    by code_simp
  have "(5 :: int) \<noteq> GUARDIAN_MAX_AUTO_EXEC_STEPS"
    by (simp add: GUARDIAN_MAX_AUTO_EXEC_STEPS_def)
  then show ?thesis
    using m step_budget [OF m] by blast
qed

text \<open>
  A ruling whose posture is a list is neither valid nor corrupt: the membership test raises,
  so the resolver raises instead of resolving to guardian.
\<close>

theorem unhashable_posture_raises:
  "resolve_posture (sample_world ''sovereign'' True No_Narrow
     \<lparr>pw_ruling := Ruling (dput (sample_ruling ''sovereign'') ''posture'' (PList [PStr ''sovereign'']))\<rparr>) None True
   = Inl (TypeError ''unhashable type'')"
  by code_simp

end
