(* ===== verification/Py_Text.thy ===== *)
theory Py_Text
  imports Iso_Time
begin

text \<open>
  Integers as Python reads and prints them: \<^verbatim>\<open>int(v)\<close>, decimal text and the
  \<^verbatim>\<open>03d\<close> format, with the law that what is printed is read back.
\<close>

section \<open>Reading\<close>

text \<open>
  \<^verbatim>\<open>int(v)\<close>; None where it raises. A text is an optional sign and ASCII digits, with
  single underscores between digits.
\<close>

definition int_digits :: "string \<Rightarrow> int option" where
  "int_digits t =
     (if t \<noteq> [] \<and> is_digit (hd t) \<and> is_digit (last t)
         \<and> list_all (\<lambda>c. is_digit c \<or> c = CHR ''_'') t
         \<and> list_all (\<lambda>(a, b). is_digit a \<or> is_digit b) (zip t (tl t))
      then Some (foldl (\<lambda>acc c. 10 * acc + digit_val c) 0 (filter is_digit t)) else None)"

definition int_text :: "string \<Rightarrow> int option" where
  "int_text s = (case strip s of [] \<Rightarrow> None
     | c # cs \<Rightarrow> if c = CHR ''-'' then map_option uminus (int_digits cs)
                 else if c = CHR ''+'' then int_digits cs else int_digits (c # cs))"

definition py_int :: "pyval \<Rightarrow> int option" where
  "py_int v = (case v of
     PInt i \<Rightarrow> Some i
   | PBool b \<Rightarrow> Some (if b then 1 else 0)
   | PFloat r \<Rightarrow> Some (if 0 \<le> r then \<lfloor>r\<rfloor> else - \<lfloor>- r\<rfloor>)
   | PStr s \<Rightarrow> int_text s
   | _ \<Rightarrow> None)"

section \<open>Printing\<close>

definition digit_char :: "nat \<Rightarrow> char" where
  "digit_char d = char_of (48 + d)"

fun dec :: "nat \<Rightarrow> string" where
  "dec n = (if n < 10 then [digit_char n] else dec (n div 10) @ [digit_char (n mod 10)])"

declare dec.simps [simp del]

definition fmt03 :: "int \<Rightarrow> string" where
  "fmt03 i = (let d = dec (nat \<bar>i\<bar>) in
     if i < 0 then ''-'' @ replicate (2 - length d) (CHR ''0'') @ d
     else replicate (3 - length d) (CHR ''0'') @ d)"

lemma digit_char_digit:
  assumes "d < 10"
  shows "is_digit (digit_char d)" "digit_val (digit_char d) = int d"
  using assms by (simp_all add: digit_char_def is_digit_def digit_val_def)

lemma dec_digits: "list_all is_digit (dec n)" "dec n \<noteq> []"
proof (induction n rule: dec.induct)
  case (1 n)
  show "list_all is_digit (dec n)" "dec n \<noteq> []"
    using 1 by (subst dec.simps; simp add: digit_char_digit(1))+
qed

lemma foldl_digits:
  "foldl (\<lambda>acc c. 10 * acc + digit_val c) 0 (dec n) = int n"
proof (induction n rule: dec.induct)
  case (1 n)
  have "10 * int (n div 10) + int (n mod 10) = int n"
    by (metis mult_div_mod_eq of_nat_add of_nat_mult of_nat_numeral)
  then show ?case
    using 1 by (subst dec.simps) (simp add: digit_char_digit(2))
qed

lemma foldl_zeros: "foldl (\<lambda>acc c. 10 * acc + digit_val c) 0 (replicate k (CHR ''0'')) = 0"
  by (induction k) (simp_all add: digit_val_def)

lemma int_digits_plain:
  assumes "list_all is_digit s" "s \<noteq> []"
  shows "int_digits s = Some (foldl (\<lambda>acc c. 10 * acc + digit_val c) 0 s)"
proof -
  have "filter is_digit s = s"
    using assms(1) by (simp add: list_all_iff)
  moreover have "is_digit (hd s)" "is_digit (last s)"
    using assms by (simp_all add: list_all_iff)
  moreover have "list_all (\<lambda>(a, b). is_digit a \<or> is_digit b) (zip s (tl s))"
    using assms(1) by (auto simp: list_all_iff dest!: set_zip_leftD)
  ultimately show ?thesis
    using assms by (simp add: int_digits_def list_all_iff)
qed

lemma digit_not_space: "is_digit c \<Longrightarrow> \<not> is_space c"
  by (auto simp: is_digit_def is_space_def Let_def)

lemma strip_digits:
  assumes "list_all is_digit s" "s \<noteq> []"
  shows "strip s = s"
proof -
  have "\<not> is_space (hd s)" "\<not> is_space (last s)"
    using assms digit_not_space by (simp_all add: list_all_iff)
  then have "dropWhile is_space s = s" "dropWhile is_space (rev s) = rev s"
    using assms(2) by (simp_all add: dropWhile_eq_self_iff hd_rev)
  then show ?thesis
    by (simp add: strip_def lstrip_def rstrip_def)
qed

lemma fmt03_digits: "0 \<le> i \<Longrightarrow> list_all is_digit (fmt03 i) \<and> fmt03 i \<noteq> []"
  using dec_digits [of "nat i"] by (auto simp: fmt03_def Let_def list_all_iff is_digit_def)

lemma int_text_fmt03:
  assumes "0 \<le> i"
  shows "int_text (fmt03 i) = Some i"
proof -
  have d: "list_all is_digit (fmt03 i)" "fmt03 i \<noteq> []"
    using fmt03_digits [OF assms] by blast+
  have "is_digit (hd (fmt03 i))"
    using d by (simp add: list_all_iff)
  then have h: "hd (fmt03 i) \<noteq> CHR ''-''" "hd (fmt03 i) \<noteq> CHR ''+''"
    by (auto simp: is_digit_def)
  have "int_text (fmt03 i) = int_digits (fmt03 i)"
    using h d(2) unfolding int_text_def strip_digits [OF d] by (cases "fmt03 i") simp_all
  also have "\<dots> = Some i"
    using assms by (simp add: int_digits_plain [OF d]) (simp add: fmt03_def Let_def foldl_zeros foldl_digits)
  finally show ?thesis .
qed

section \<open>Built-in renderings\<close>

text \<open>
  \<^verbatim>\<open>str(v)\<close>; the rendering of a float, a container or a date, and \<^verbatim>\<open>float\<close> of a
  text, are Python's own and arguments here.
\<close>

record builtins =
  bi_repr :: "pyval \<Rightarrow> string"
  bi_float :: "string \<Rightarrow> rat option"

fun py_str :: "builtins \<Rightarrow> pyval \<Rightarrow> string" where
  "py_str b (PStr s) = s"
| "py_str b PNone = ''None''"
| "py_str b (PBool v) = (if v then ''True'' else ''False'')"
| "py_str b (PInt i) = (if i < 0 then CHR ''-'' # dec (nat (- i)) else dec (nat i))"
| "py_str b v = bi_repr b v"

end
