(* ===== verification/Trust_Ladder.thy ===== *)
theory Trust_Ladder
  imports Matrix_Laws Posture Py_Text
begin

text \<open>
  The trust ladder: \<^verbatim>\<open>framework/learning/trust_ladder.py\<close>. The ladder file is its parse
  result, the attestation of the file a flag, the graduation engine and the posture resolver
  functions. Lanes, kinds and rung names are strings. Rendering of cards and the transports are not
  modelled; a proposal is the record that is enqueued and emitted.
\<close>

section \<open>Rungs\<close>

datatype rung = Would_Like_To | Intend_To | Ive_Done | Ive_Been_Doing

fun rung_index :: "rung \<Rightarrow> nat" where
  "rung_index Would_Like_To = 0"
| "rung_index Intend_To = 1"
| "rung_index Ive_Done = 2"
| "rung_index Ive_Been_Doing = 3"

instantiation rung :: linorder
begin

definition less_eq_rung :: "rung \<Rightarrow> rung \<Rightarrow> bool" where
  "less_eq_rung r s \<longleftrightarrow> rung_index r \<le> rung_index s"

definition less_rung :: "rung \<Rightarrow> rung \<Rightarrow> bool" where
  "less_rung r s \<longleftrightarrow> rung_index r < rung_index s"

instance
proof
  fix r s t :: rung
  show "r < s \<longleftrightarrow> r \<le> s \<and> \<not> s \<le> r"
    by (auto simp: less_eq_rung_def less_rung_def)
  show "r \<le> r"
    by (simp add: less_eq_rung_def)
  show "r \<le> s \<Longrightarrow> s \<le> t \<Longrightarrow> r \<le> t"
    by (simp add: less_eq_rung_def)
  show "r \<le> s \<Longrightarrow> s \<le> r \<Longrightarrow> r = s"
    by (cases r; cases s) (simp_all add: less_eq_rung_def)
  show "r \<le> s \<or> s \<le> r"
    by (auto simp: less_eq_rung_def)
qed

end

fun rung_name :: "rung \<Rightarrow> string" where
  "rung_name Would_Like_To = ''would-like-to''"
| "rung_name Intend_To = ''intend-to''"
| "rung_name Ive_Done = ''ive-done''"
| "rung_name Ive_Been_Doing = ''ive-been-doing''"

definition rung_of :: "pyval \<Rightarrow> rung option" where
  "rung_of v = find (\<lambda>r. v = PStr (rung_name r)) [Would_Like_To, Intend_To, Ive_Done, Ive_Been_Doing]"

fun RUNG_VERDICTS :: "rung \<Rightarrow> string" where
  "RUNG_VERDICTS Would_Like_To = ''propose_only''"
| "RUNG_VERDICTS Intend_To = ''auto_with_veto_window''"
| "RUNG_VERDICTS Ive_Done = ''notify_after''"
| "RUNG_VERDICTS Ive_Been_Doing = ''auto''"

type_synonym cell_grant = "string option \<times> string"

record ladder_rung =
  lr_name :: rung
  lr_lane :: "string option"
  lr_grants :: "cell_grant list"
  lr_min_samples :: "int option"
  lr_ceiling :: "string list"

definition base_rung :: ladder_rung where
  "base_rung = \<lparr>lr_name = Would_Like_To, lr_lane = None, lr_grants = [], lr_min_samples = None,
     lr_ceiling = []\<rparr>"

text \<open>The matrix policy the gate uses; None when it does not load.\<close>

definition ceiling_for_action_type :: "pyval option \<Rightarrow> string \<Rightarrow> string option" where
  "ceiling_for_action_type policy action_type = (case policy of None \<Rightarrow> None
     | Some p \<Rightarrow> (case find (\<lambda>(rc, spec). PStr action_type \<in> set (elems (dget spec ''action_types'')))
                          (items (dget p ''risk_classes'')) of
           None \<Rightarrow> None
         | Some (rc, _) \<Rightarrow> if PStr rc \<in> set (elems (dget p ''hard_ceiling'')) then Some rc else None))"

definition grants_touch_ceiling :: "pyval option \<Rightarrow> cell_grant list \<Rightarrow> string list" where
  "grants_touch_ceiling policy grants =
     sort (remdups (List.map_filter (\<lambda>(_, a). ceiling_for_action_type policy a) grants))"

section \<open>The ladder file\<close>

datatype ladder_file = No_Ladder | Bad_Ladder | Ladder pyval

record ladder_world =
  lw_file :: ladder_file
  lw_locked :: bool
  lw_policy :: "pyval option"

definition opt_str :: "pyval \<Rightarrow> string option" where
  "opt_str v = (if truthy v then Some (str_of v) else None)"

definition parse_grant :: "string option \<Rightarrow> pyval \<Rightarrow> cell_grant option" where
  "parse_grant lane g =
     (if is_dict g \<and> truthy (dget g ''action_type'') then
        Some ((if has_key g ''lane'' then opt_str (dget g ''lane'') else lane), str_of (dget g ''action_type''))
      else (case g of
          PList [l, a] \<Rightarrow> if truthy a then Some (opt_str l, str_of a) else None
        | _ \<Rightarrow> None))"

definition parse_rung :: "pyval option \<Rightarrow> pyval \<Rightarrow> ladder_rung option" where
  "parse_rung policy entry =
     (if \<not> is_dict entry then None
      else (case rung_of (dget entry ''name'') of None \<Rightarrow> None
        | Some r \<Rightarrow> let lane = opt_str (dget entry ''lane'');
                       grants = List.map_filter (parse_grant lane) (elems (dget entry ''grants'')) in
            Some \<lparr>lr_name = r, lr_lane = lane, lr_grants = grants,
                  lr_min_samples = py_int (dget entry ''min_samples''),
                  lr_ceiling = grants_touch_ceiling policy grants\<rparr>))"

definition rung_key :: "ladder_rung \<Rightarrow> nat \<times> string" where
  "rung_key r = (rung_index (lr_name r), (case lr_lane r of None \<Rightarrow> [] | Some l \<Rightarrow> l))"

text \<open>
  A parsed file that is truthy and not a mapping has no \<^verbatim>\<open>get\<close>, and the grants of a
  rung must be iterable: the loader raises.
\<close>

definition not_iterable :: "pyval \<Rightarrow> bool" where
  "not_iterable v \<longleftrightarrow> truthy v \<and> \<not> is_list v \<and> \<not> is_str v \<and> \<not> is_dict v"

definition bad_grants :: "pyval \<Rightarrow> bool" where
  "bad_grants entry \<longleftrightarrow> is_dict entry \<and> rung_of (dget entry ''name'') \<noteq> None
     \<and> not_iterable (dget entry ''grants'')"

definition load_ladder :: "ladder_world \<Rightarrow> py_exc + ladder_rung list" where
  "load_ladder w = (case lw_file w of
     No_Ladder \<Rightarrow> Inr [base_rung]
   | Bad_Ladder \<Rightarrow> Inr [base_rung]
   | Ladder data \<Rightarrow>
       if truthy data \<and> \<not> is_dict data then Inl (AttributeError ''get'')
       else (let raw = dget data ''rungs'';
                 rungs = List.map_filter (parse_rung (lw_policy w)) (elems raw);
                 ordered = sort_key rung_key rungs in
         if list_ex bad_grants (elems raw) then Inl (TypeError ''not iterable'')
         else if rungs = [] then Inr [base_rung]
         else if list_ex (\<lambda>r. lr_name r = Would_Like_To \<and> lr_lane r = None) rungs then Inr ordered
         else Inr (base_rung # ordered)))"

definition GRANTED_KEYS :: "string list" where
  "GRANTED_KEYS = [''rung'', ''lane'', ''granted_at'', ''note'']"

definition parse_granted :: "pyval \<Rightarrow> (rung \<times> string option) option" where
  "parse_granted entry =
     (if \<not> is_dict entry \<or> \<not> set (keys entry) \<subseteq> set GRANTED_KEYS then None
      else map_option (\<lambda>r. (r, opt_str (dget entry ''lane''))) (rung_of (dget entry ''rung'')))"

definition granted_rungs :: "ladder_world \<Rightarrow> (rung \<times> string option) list" where
  "granted_rungs w = (case lw_file w of
     Ladder data \<Rightarrow> if lw_locked w then List.map_filter parse_granted (elems (dget data ''granted'')) else []
   | _ \<Rightarrow> [])"

definition lane_applies :: "string option \<Rightarrow> string option \<Rightarrow> bool" where
  "lane_applies row lane \<longleftrightarrow> row = None \<or> row = lane"

definition highest :: "rung list \<Rightarrow> rung" where
  "highest rs = foldl (\<lambda>best r. if best < r then r else best) Would_Like_To rs"

definition current_rung :: "ladder_world \<Rightarrow> string option \<Rightarrow> rung" where
  "current_rung w lane = highest (map fst (filter (\<lambda>(_, l). lane_applies l lane) (granted_rungs w)))"

definition ladder_rung_cap :: "ladder_world \<Rightarrow> string option \<Rightarrow> py_exc + rung" where
  "ladder_rung_cap w lane = (case load_ladder w of Inl e \<Rightarrow> Inl e
     | Inr rungs \<Rightarrow> Inr (highest (map lr_name (filter (\<lambda>r. lane_applies (lr_lane r) lane) rungs))))"

definition rung_verdict_lift :: "ladder_world \<Rightarrow> string option \<Rightarrow> string \<Rightarrow> string option" where
  "rung_verdict_lift w lane posture =
     (if posture \<noteq> ''earn_up'' then None
      else (case ladder_rung_cap w lane of Inl _ \<Rightarrow> None
        | Inr cap \<Rightarrow> let effective = min (current_rung w lane) cap in
            if effective = Would_Like_To then None else Some (RUNG_VERDICTS effective)))"

section \<open>Earning and proposing\<close>

text \<open>The graduation read of a cell: its state and sample count; None when the read raises.\<close>

type_synonym cell_reader = "string \<Rightarrow> string option \<Rightarrow> string \<Rightarrow> (string \<times> int) option"

definition cell_proof :: "cell_reader \<Rightarrow> string \<Rightarrow> cell_grant \<Rightarrow> string \<times> int option" where
  "cell_proof ev actor cell = (case ev actor (fst cell) (snd cell) of
     None \<Rightarrow> (''unmeasured'', None) | Some (s, n) \<Rightarrow> (s, Some n))"

definition cell_earned :: "int option \<Rightarrow> string \<times> int option \<Rightarrow> bool" where
  "cell_earned min_samples res \<longleftrightarrow> fst res = ''graduated'' \<and>
     (case min_samples of None \<Rightarrow> True
      | Some m \<Rightarrow> m \<le> (case snd res of None \<Rightarrow> 0 | Some n \<Rightarrow> n))"

definition rung_earned :: "cell_reader \<Rightarrow> string \<Rightarrow> ladder_rung \<Rightarrow> bool" where
  "rung_earned ev actor r \<longleftrightarrow> lr_grants r \<noteq> [] \<and>
     list_all (\<lambda>g. cell_earned (lr_min_samples r) (cell_proof ev actor g)) (lr_grants r)"

record ladder_report =
  rep_current :: rung
  rep_earned :: "ladder_rung list"
  rep_pending :: "ladder_rung list"
  rep_blocked :: "ladder_rung list"

definition candidates :: "ladder_world \<Rightarrow> string option \<Rightarrow> ladder_rung list \<Rightarrow> ladder_rung list" where
  "candidates w lane rungs =
     filter (\<lambda>r. lane_applies (lr_lane r) lane \<and> current_rung w lane < lr_name r) rungs"

definition evaluate_ladder ::
  "ladder_world \<Rightarrow> cell_reader \<Rightarrow> string \<Rightarrow> string option \<Rightarrow> py_exc + ladder_report" where
  "evaluate_ladder w ev actor lane = (case load_ladder w of Inl e \<Rightarrow> Inl e
     | Inr rungs \<Rightarrow> let cs = candidates w lane rungs in
         Inr \<lparr>rep_current = current_rung w lane,
              rep_earned = filter (\<lambda>r. lr_ceiling r = [] \<and> rung_earned ev actor r) cs,
              rep_pending = filter (\<lambda>r. lr_ceiling r = [] \<and> \<not> rung_earned ev actor r) cs,
              rep_blocked = filter (\<lambda>r. lr_ceiling r \<noteq> []) cs\<rparr>)"

record rung_proposal =
  rp_actor :: string
  rp_lane :: "string option"
  rp_rung :: rung
  rp_ceiling :: bool
  rp_urgency :: string

definition lowest_rung :: "ladder_rung list \<Rightarrow> ladder_rung option" where
  "lowest_rung rs = (case rs of [] \<Rightarrow> None
     | r # rest \<Rightarrow> Some (foldl (\<lambda>b x. if lr_name x < lr_name b then x else b) r rest))"

definition propose_next_rung ::
  "ladder_world \<Rightarrow> cell_reader \<Rightarrow> string \<Rightarrow> string \<Rightarrow> string option \<Rightarrow> string \<Rightarrow> py_exc + rung_proposal option" where
  "propose_next_rung w ev posture actor lane urgency =
     (if posture \<noteq> ''earn_up'' then Inr None
      else (case evaluate_ladder w ev actor lane of Inl e \<Rightarrow> Inl e
        | Inr rep \<Rightarrow>
            let tier = (if urgency \<in> {''ping-now'', ''batch'', ''fyi''} then urgency else ''batch'');
                ready = filter (rung_earned ev actor) (rep_blocked rep);
                pick = (if rep_earned rep \<noteq> [] then map_option (\<lambda>r. (r, False)) (lowest_rung (rep_earned rep))
                        else map_option (\<lambda>r. (r, True)) (lowest_rung ready))
            in Inr (map_option (\<lambda>(r, c). \<lparr>rp_actor = actor, rp_lane = lane, rp_rung = lr_name r,
                                   rp_ceiling = c, rp_urgency = tier\<rparr>) pick)))"

text \<open>\<^verbatim>\<open>grant_rung\<close> only appends an audit event; the ladder file is not touched.\<close>

definition grant_rung :: "string \<Rightarrow> string option \<Rightarrow> string \<Rightarrow> py_exc + (string \<times> string \<times> string option \<times> string)"
  where
  "grant_rung r lane note = (case rung_of (PStr r) of
     None \<Rightarrow> Inl (ValueError ''grant_rung: unknown rung'')
   | Some _ \<Rightarrow> Inr (''trust_rung_granted'', r, lane, note))"

section \<open>Laws\<close>

lemma highest_ge: "r \<in> set rs \<Longrightarrow> r \<le> highest rs"
proof -
  have mono: "b \<le> foldl (\<lambda>best r. if best < r then r else best) b xs" for b :: rung and xs
    by (induction xs arbitrary: b) (auto intro: order_trans less_imp_le)
  have "r \<in> set xs \<Longrightarrow> r \<le> foldl (\<lambda>best r. if best < r then r else best) b xs" for b xs
  proof (induction xs arbitrary: b)
    case (Cons x xs)
    show ?case
    proof (cases "r = x")
      case True
      have "r \<le> (if b < x then x else b)"
        using True by auto
      also have "\<dots> \<le> foldl (\<lambda>best r. if best < r then r else best) (if b < x then x else b) xs"
        by (rule mono)
      finally show ?thesis by simp
    qed (use Cons in auto)
  qed simp
  then show "r \<in> set rs \<Longrightarrow> r \<le> highest rs"
    by (simp add: highest_def)
qed

lemma highest_mem: "highest rs = Would_Like_To \<or> highest rs \<in> set rs"
proof -
  have "foldl (\<lambda>best r. if best < r then r else best) b xs = b
      \<or> foldl (\<lambda>best r. if best < r then r else best) b xs \<in> set xs" for b :: rung and xs
  proof (induction xs arbitrary: b)
    case (Cons x xs)
    show ?case
      using Cons.IH [of "if b < x then x else b"] by auto
  qed simp
  then show ?thesis
    by (simp add: highest_def)
qed

lemma rung_of_name [simp]: "rung_of (PStr (rung_name r)) = Some r"
  by (cases r) (simp_all add: rung_of_def)

lemma rung_of_Some: "rung_of v = Some r \<longleftrightarrow> v = PStr (rung_name r)"
  by (cases r) (auto simp: rung_of_def split: if_splits)

end
