(* ===== verification/Trust_Ladder_Correct.thy ===== *)
theory Trust_Ladder_Correct
  imports Trust_Ladder Shipped_Floor
begin

text \<open>
  The properties of the trust ladder: a lift needs the captain's attested grant and the file's own
  rung, and a proposal surfaces the lowest rung that is really earned.
\<close>

lemma base_le [simp]: "Would_Like_To \<le> r"
  by (simp add: less_eq_rung_def)

lemma min_base [simp]: "min Would_Like_To r = Would_Like_To" "min r Would_Like_To = Would_Like_To"
  by (simp_all add: min_absorb1 min_absorb2)

text \<open>
  A rung lifts a verdict only by the captain's hand. When the overlay answers a verdict for a
  lane, the posture is earn_up, the ladder file is attested, one of its granted rows applies to the
  lane and reaches the effective rung, the same file still defines a rung at least that high for the
  lane, and the verdict is the frozen one of the effective rung, which is above the base.
\<close>

theorem lift_needs_captain:
  assumes "rung_verdict_lift w lane posture = Some v"
  shows "posture = ''earn_up'' \<and> lw_locked w
     \<and> (\<exists>e r l data. v = RUNG_VERDICTS e \<and> e \<noteq> Would_Like_To \<and> lw_file w = Ladder data
          \<and> e \<le> r \<and> (r, l) \<in> set (granted_rungs w) \<and> lane_applies l lane
          \<and> (\<exists>rungs x. load_ladder w = Inr rungs \<and> x \<in> set rungs \<and> lane_applies (lr_lane x) lane
               \<and> e \<le> lr_name x))"
proof -
  obtain cap where p: "posture = ''earn_up''" and cap: "ladder_rung_cap w lane = Inr cap"
    and e: "min (current_rung w lane) cap \<noteq> Would_Like_To" "v = RUNG_VERDICTS (min (current_rung w lane) cap)"
    using assms by (auto simp: rung_verdict_lift_def Let_def split: if_splits sum.splits)
  obtain rungs where rungs: "load_ladder w = Inr rungs"
    and c: "cap = highest (map lr_name (filter (\<lambda>r. lane_applies (lr_lane r) lane) rungs))"
    using cap by (auto simp: ladder_rung_cap_def split: sum.splits)
  have "current_rung w lane \<noteq> Would_Like_To" "cap \<noteq> Would_Like_To"
    using e(1) by auto
  then have g: "current_rung w lane \<in> set (map fst (filter (\<lambda>(_, l). lane_applies l lane) (granted_rungs w)))"
    and f: "cap \<in> set (map lr_name (filter (\<lambda>r. lane_applies (lr_lane r) lane) rungs))"
    using highest_mem unfolding current_rung_def c by blast+
  from g obtain l where l: "(current_rung w lane, l) \<in> set (granted_rungs w)" "lane_applies l lane"
    by auto
  from f obtain x where x: "x \<in> set rungs" "lane_applies (lr_lane x) lane" "lr_name x = cap"
    by auto
  have locked: "lw_locked w" and parsed: "\<exists>data. lw_file w = Ladder data"
    using l(1) by (cases "lw_file w"; simp add: granted_rungs_def split: if_splits)+
  have "min (current_rung w lane) cap \<le> current_rung w lane" "min (current_rung w lane) cap \<le> lr_name x"
    using x(3) by simp_all
  then show ?thesis
    using p e locked parsed l rungs x(1,2) by blast
qed

definition sample_ladder :: ladder_world where
  "sample_ladder = \<lparr>lw_file = Ladder (PDict
      [(''rungs'', PList [PDict [(''name'', PStr ''ive-done''), (''lane'', PStr ''ops''),
          (''grants'', PList [PDict [(''action_type'', PStr ''task_create'')]])]]),
       (''granted'', PList [PDict [(''rung'', PStr ''intend-to''), (''lane'', PStr ''ops'')]])]),
     lw_locked = True, lw_policy = Some shipped_policy\<rparr>"

theorem lift_needs_captain_witness:
  "rung_verdict_lift sample_ladder (Some ''ops'') ''earn_up'' = Some ''auto_with_veto_window''
   \<and> lw_locked sample_ladder"
proof -
  have l: "rung_verdict_lift sample_ladder (Some ''ops'') ''earn_up'' = Some ''auto_with_veto_window''"
    by code_simp
  show ?thesis
    using l lift_needs_captain [OF l] by blast
qed

lemma lowest_rung_spec:
  assumes "lowest_rung rs = Some r"
  shows "r \<in> set rs \<and> (\<forall>x \<in> set rs. lr_name r \<le> lr_name x)"
proof -
  have "foldl (\<lambda>b x. if lr_name x < lr_name b then x else b) b xs \<in> insert b (set xs)
      \<and> (\<forall>x \<in> insert b (set xs). lr_name (foldl (\<lambda>b x. if lr_name x < lr_name b then x else b) b xs) \<le> lr_name x)"
    for b and xs :: "ladder_rung list"
  proof (induction xs arbitrary: b)
    case Nil
    show ?case by simp
  next
    case (Cons x xs)
    show ?case
      using Cons.IH [of "if lr_name x < lr_name b then x else b"]
      by (auto split: if_splits intro: order_trans less_imp_le)
  qed
  then show ?thesis
    using assms by (cases rs) (fastforce simp: lowest_rung_def)+
qed

text \<open>
  A rung is proposed only when it is earned, and the lowest one first. Under any posture but
  earn_up nothing is proposed. A proposal names a rung of the ladder file strictly above the one
  granted for the lane, every cell it grants is graduated and meets its sample override, it is
  flagged exactly when the rung touches a hard ceiling, and no earned rung of the same kind is lower.
\<close>

theorem proposal_is_earned:
  assumes "propose_next_rung w ev posture actor lane urgency = Inr (Some prop)"
  shows "posture = ''earn_up''
     \<and> (\<exists>rungs r. load_ladder w = Inr rungs \<and> r \<in> set rungs \<and> lane_applies (lr_lane r) lane
          \<and> rp_rung prop = lr_name r \<and> current_rung w lane < lr_name r
          \<and> rung_earned ev actor r \<and> rp_ceiling prop = (lr_ceiling r \<noteq> [])
          \<and> (\<forall>x \<in> set (candidates w lane rungs).
               rung_earned ev actor x \<and> (lr_ceiling x \<noteq> []) = rp_ceiling prop \<longrightarrow> lr_name r \<le> lr_name x))"
proof -
  obtain rep where p: "posture = ''earn_up''" and rep: "evaluate_ladder w ev actor lane = Inr rep"
    using assms by (auto simp: propose_next_rung_def split: if_splits sum.splits)
  obtain rungs where rungs: "load_ladder w = Inr rungs"
    and earned: "rep_earned rep = filter (\<lambda>r. lr_ceiling r = [] \<and> rung_earned ev actor r) (candidates w lane rungs)"
    and blocked: "rep_blocked rep = filter (\<lambda>r. lr_ceiling r \<noteq> []) (candidates w lane rungs)"
    using rep by (auto simp: evaluate_ladder_def Let_def split: sum.splits)
  define pool where "pool = (if rep_earned rep \<noteq> [] then rep_earned rep else filter (rung_earned ev actor) (rep_blocked rep))"
  obtain r where r: "lowest_rung pool = Some r" "rp_rung prop = lr_name r" "rp_ceiling prop = (rep_earned rep = [])"
    using assms p rep by (auto simp: propose_next_rung_def Let_def pool_def split: if_splits)
  note low = lowest_rung_spec [OF r(1)]
  have pool: "x \<in> set pool \<longleftrightarrow> x \<in> set (candidates w lane rungs) \<and> rung_earned ev actor x
      \<and> (lr_ceiling x \<noteq> []) = rp_ceiling prop" for x
    by (cases "rep_earned rep = []") (auto simp: pool_def r(3) earned blocked)
  have "r \<in> set (candidates w lane rungs)" "rung_earned ev actor r" "rp_ceiling prop = (lr_ceiling r \<noteq> [])"
    using low pool [of r] by blast+
  moreover have "r \<in> set rungs" "lane_applies (lr_lane r) lane" "current_rung w lane < lr_name r"
    using \<open>r \<in> set (candidates w lane rungs)\<close> by (auto simp: candidates_def)
  ultimately show ?thesis
    using p rungs r(2) low pool by blast
qed

definition all_graduated :: cell_reader where
  "all_graduated actor lane kind = Some (''graduated'', 20)"

theorem proposal_is_earned_witness:
  "propose_next_rung sample_ladder all_graduated ''earn_up'' ''officer:cos'' (Some ''ops'') ''batch''
     = Inr (Some \<lparr>rp_actor = ''officer:cos'', rp_lane = Some ''ops'', rp_rung = Ive_Done,
         rp_ceiling = False, rp_urgency = ''batch''\<rparr>)
   \<and> current_rung sample_ladder (Some ''ops'') < Ive_Done"
proof -
  have p: "propose_next_rung sample_ladder all_graduated ''earn_up'' ''officer:cos'' (Some ''ops'') ''batch''
     = Inr (Some \<lparr>rp_actor = ''officer:cos'', rp_lane = Some ''ops'', rp_rung = Ive_Done,
         rp_ceiling = False, rp_urgency = ''batch''\<rparr>)"
    by code_simp
  show ?thesis
    using p proposal_is_earned [OF p] by auto
qed

text \<open>
  A ladder file that parses to something other than a mapping is not treated as broken: the
  loader raises instead of falling back to the base rung.
\<close>

theorem non_mapping_ladder_raises:
  "load_ladder \<lparr>lw_file = Ladder (PList [PStr ''rungs'']), lw_locked = True, lw_policy = None\<rparr>
     = Inl (AttributeError ''get'')
   \<and> load_ladder \<lparr>lw_file = Bad_Ladder, lw_locked = True, lw_policy = None\<rparr> = Inr [base_rung]"
  by code_simp

end
