(* ===== verification/Grants.thy ===== *)
theory Grants
  imports Posture Iso_Time
begin

text \<open>
  Standing grants: \<^verbatim>\<open>framework/authority/grants.py\<close>. The grants file and its attestation are
  a record; Redis is a store of tombstones and day counters whose commands may fail; the veto
  registry's answer, the posture file and the moment are arguments. Counter keys are the pair of
  grant id and day (the source formats them into one string). Reasons are cut to their fixed part.
\<close>

section \<open>Shell patterns\<close>

text \<open>
  \<^verbatim>\<open>fnmatch.fnmatchcase\<close>: star, question mark and bracket classes; a bracket without its
  closing one is a literal. Ranges inside a class are ascending.
\<close>

fun in_class :: "string \<Rightarrow> char \<Rightarrow> bool" where
  "in_class (a # d # b # rest) c =
     (if d = CHR ''-'' then (a \<le> c \<and> c \<le> b) \<or> in_class rest c
      else c = a \<or> in_class (d # b # rest) c)"
| "in_class (a # rest) c = (c = a \<or> in_class rest c)"
| "in_class [] c = False"

text \<open>The class body and the rest of the pattern; the first character of the body may be the closing bracket.\<close>

definition class_prefix :: "string \<Rightarrow> nat" where
  "class_prefix p = (let a = (if p \<noteq> [] \<and> hd p = CHR ''!'' then 1 else 0) in
     if drop a p \<noteq> [] \<and> hd (drop a p) = CHR '']'' then a + 1 else a)"

definition split_class :: "string \<Rightarrow> (string \<times> string) option" where
  "split_class p =
     (let n = class_prefix p; body = takeWhile (\<lambda>c. c \<noteq> CHR '']'') (drop n p);
          rest = dropWhile (\<lambda>c. c \<noteq> CHR '']'') (drop n p)
      in if rest = [] then None else Some (take n p @ body, tl rest))"

definition class_matches :: "string \<Rightarrow> char \<Rightarrow> bool" where
  "class_matches body c = (if body \<noteq> [] \<and> hd body = CHR ''!'' then \<not> in_class (tl body) c else in_class body c)"

lemma split_class_shorter:
  assumes "split_class p = Some (b, r)"
  shows "length r < length p"
proof -
  let ?rest = "dropWhile (\<lambda>c. c \<noteq> CHR '']'') (drop (class_prefix p) p)"
  have r: "?rest \<noteq> []" "r = tl ?rest"
    using assms by (auto simp: split_class_def Let_def split: if_splits)
  have "length r < length ?rest"
    using r by simp
  also have "\<dots> \<le> length (drop (class_prefix p) p)"
    by (rule length_dropWhile_le)
  also have "\<dots> \<le> length p"
    by simp
  finally show ?thesis .
qed

function glob :: "string \<Rightarrow> string \<Rightarrow> bool" where
  "glob [] s = (s = [])"
| "glob (c # p) s =
     (if c = CHR ''*'' then (if s = [] then glob p s else glob p s \<or> glob (c # p) (tl s))
      else if s = [] then False
      else if c = CHR ''?'' then glob p (tl s)
      else if c = CHR ''['' then
        (case split_class p of
           None \<Rightarrow> hd s = c \<and> glob p (tl s)
         | Some (body, rest) \<Rightarrow> class_matches body (hd s) \<and> glob rest (tl s))
      else hd s = c \<and> glob p (tl s))"
  by pat_completeness auto
termination
  by (relation "measure (\<lambda>(p, s). length p + length s)") (auto dest: split_class_shorter)

section \<open>Grant rows\<close>

definition CEILING_RISK_CLASSES :: "string list" where
  "CEILING_RISK_CLASSES = map fst CEILING_CLASS_ACTION_TYPES"

definition MAX_EXPIRY_HORIZON_DAYS :: int where "MAX_EXPIRY_HORIZON_DAYS = 90"

definition GRANT_KEYS :: "string list" where
  "GRANT_KEYS = [''id'', ''deployment'', ''risk_class'', ''action_types'', ''lanes'', ''scope'', ''rate'',
     ''expires'', ''granted_by'', ''granted_at'', ''basis'', ''revoked'']"

definition SCOPE_KEYS :: "string list" where
  "SCOPE_KEYS = [''recipient_allowlist'', ''max_amount_per_day'', ''max_eur_per_day'', ''vendor_allowlist'']"

definition scope_amount_cap :: "pyval \<Rightarrow> pyval" where
  "scope_amount_cap scope = (let v = dget scope ''max_amount_per_day'' in
     if v = PNone then dget scope ''max_eur_per_day'' else v)"

definition context_amount :: "pyval \<Rightarrow> pyval" where
  "context_amount ctx = (let v = dget ctx ''amount'' in if v = PNone then dget ctx ''amount_eur'' else v)"

definition to_dt :: "pyval \<Rightarrow> int option" where
  "to_dt v = (case v of
     PDatetime us off \<Rightarrow> Some (instant (us, off))
   | PDate d \<Rightarrow> Some (d * day_us)
   | PStr s \<Rightarrow> map_option instant (fromisoformat (replace_Z (strip s)))
   | _ \<Rightarrow> None)"

definition is_str_list :: "pyval \<Rightarrow> bool" where
  "is_str_list v \<longleftrightarrow> is_list v \<and> elems v \<noteq> [] \<and> list_all (\<lambda>x. is_str x \<and> strip (str_of x) \<noteq> []) (elems v)"

definition allowlist_ok :: "pyval \<Rightarrow> bool" where
  "allowlist_ok v \<longleftrightarrow> v = PNone \<or> is_list v \<and> list_all is_str (elems v)"

definition row_error :: "pyval \<Rightarrow> ruling_error option" where
  "row_error g =
     (let gid = dget g ''id''; rc = dget g ''risk_class''; scope = dget g ''scope'';
          cap = scope_amount_cap scope; rate = dget g ''rate'';
          granted_at = to_dt (dget g ''granted_at''); expires = to_dt (dget g ''expires'') in run_checks
      [bad (\<not> is_dict g) ''grant row is not a mapping'',
       bad (\<not> set (keys g) \<subseteq> set GRANT_KEYS) ''unknown keys'',
       bad (\<not> set GRANT_KEYS \<subseteq> set (keys g)) ''missing keys'',
       bad (\<not> is_str gid \<or> \<not> starts_with ''GRANT-'' (str_of gid) \<or> length (str_of gid) \<le> 6)
         ''id must be a non-empty GRANT- string'',
       for_each (\<lambda>k. bad (\<not> is_str (dget g k) \<or> strip (str_of (dget g k)) = [])
         ''must be a non-empty string'') [''deployment'', ''granted_by'', ''basis''],
       p_hash rc,
       bad (\<not> is_member rc CEILING_RISK_CLASSES) ''risk_class is not a hard-ceiling class'',
       bad (\<not> is_str_list (dget g ''action_types'')) ''action_types must be a non-empty list of strings'',
       bad (\<not> set (elems (dget g ''action_types''))
              \<subseteq> PStr ` set (case map_of CEILING_CLASS_ACTION_TYPES (str_of rc) of None \<Rightarrow> [] | Some l \<Rightarrow> l))
         ''action_types are not members of risk_class'',
       bad (\<not> is_str_list (dget g ''lanes'') \<or> PStr ''*'' \<in> set (elems (dget g ''lanes'')))
         ''lanes must be a non-empty list of named lanes'',
       bad (\<not> is_dict scope \<or> \<not> set (keys scope) \<subseteq> set SCOPE_KEYS) ''scope must be a mapping'',
       for_each (\<lambda>lk. bad (\<not> allowlist_ok (dget scope lk)) ''scope list must be a list of strings'')
         [''recipient_allowlist'', ''vendor_allowlist''],
       bad (has_key scope ''max_amount_per_day'' \<and> has_key scope ''max_eur_per_day'')
         ''scope carries both amount caps'',
       bad (cap \<noteq> PNone \<and> (\<not> is_number cap \<or> num_of cap < 0)) ''amount cap must be a non-negative number'',
       bad (\<not> is_dict rate \<or> set (keys rate) \<noteq> {''max_per_day''} \<or> \<not> is_int (dget rate ''max_per_day'')
              \<or> int_of (dget rate ''max_per_day'') < 1) ''rate must be {max_per_day: <positive int>}'',
       bad (granted_at = None) ''granted_at must be a timestamp'',
       bad (expires = None) ''expires must be a date/timestamp'',
       bad (the expires \<le> the granted_at) ''expires must be after granted_at'',
       bad (MAX_EXPIRY_HORIZON_DAYS * day_us < the expires - the granted_at) ''expiry horizon exceeds 90d'',
       bad (\<not> is_bool (dget g ''revoked'')) ''revoked must be a boolean''])"

section \<open>Loading\<close>

datatype grants_file = No_Grants | Probe_Fails | Bad_Grants | Grants_Yaml pyval

record grants_world =
  gw_file :: grants_file
  gw_locked :: bool
  gw_posture :: posture_world

definition parse_never_grant :: "pyval \<Rightarrow> string list option" where
  "parse_never_grant raw =
     (if raw = PNone then Some []
      else if is_list raw \<and> list_all (\<lambda>x. is_str x \<and> strip (str_of x) \<noteq> []) (elems raw)
      then Some (map (strip \<circ> str_of) (elems raw)) else None)"

definition or_all_ceilings :: "string list option \<Rightarrow> string list" where
  "or_all_ceilings p = (case p of None \<Rightarrow> CEILING_RISK_CLASSES | Some l \<Rightarrow> l)"

text \<open>\<^verbatim>\<open>_never_grant_classes\<close>: the attested ruling, else the raw parse of the file.\<close>

definition raw_never_grant :: "ruling_file \<Rightarrow> string list" where
  "raw_never_grant f =
     (let of_data = (\<lambda>d. if is_dict d then or_all_ceilings (parse_never_grant (dget d ''never_grant''))
                         else CEILING_RISK_CLASSES) in
      case f of No_Ruling \<Rightarrow> []
        | Not_Real_Path None \<Rightarrow> CEILING_RISK_CLASSES
        | Not_Real_Path (Some d) \<Rightarrow> of_data d
        | Unparseable \<Rightarrow> CEILING_RISK_CLASSES
        | Ruling d \<Rightarrow> of_data d)"

definition never_grant_of :: "posture_world \<Rightarrow> py_exc + string list" where
  "never_grant_of w = (case load_posture_config w False of Inl e \<Rightarrow> Inl e
     | Inr (Some cfg) \<Rightarrow> Inr (or_all_ceilings (parse_never_grant (dget cfg ''never_grant'')))
     | Inr None \<Rightarrow> Inr (raw_never_grant (pw_ruling w)))"

type_synonym grant_need = "string \<times> string option"   \<comment> \<open>the reason and the risk class it names\<close>

fun keep_rows :: "string list \<Rightarrow> string set \<Rightarrow> pyval list \<Rightarrow> py_exc + (pyval list \<times> grant_need list)" where
  "keep_rows never needed [] = Inr ([], [])"
| "keep_rows never needed (g # gs) = (case row_error g of
     Some (Raises e) \<Rightarrow> Inl e
   | Some (Violation v) \<Rightarrow> (case keep_rows never needed gs of Inl e \<Rightarrow> Inl e
       | Inr (rows, needs) \<Rightarrow> Inr (rows, (''standing grant line-dropped: '' @ v, None) # needs))
   | None \<Rightarrow> let rc = str_of (dget g ''risk_class'') in
       if rc \<in> set never
       then (case keep_rows never (insert rc needed) gs of Inl e \<Rightarrow> Inl e
         | Inr (rows, needs) \<Rightarrow> Inr (rows,
             (if rc \<in> needed then needs else (''standing grant(s) dropped: never_grant'', Some rc) # needs)))
       else (case keep_rows never needed gs of Inl e \<Rightarrow> Inl e
         | Inr (rows, needs) \<Rightarrow> Inr (g # rows, needs)))"

definition load_grants :: "grants_world \<Rightarrow> bool \<Rightarrow> py_exc + (pyval list \<times> grant_need list)" where
  "load_grants w file_needs =
     (let need = (\<lambda>why. Inr ([], if file_needs then [(why, None)] else [])) in
      case gw_file w of
        No_Grants \<Rightarrow> need ''standing-grants.yml is absent''
      | Probe_Fails \<Rightarrow> Inr ([], [])
      | f \<Rightarrow>
          if \<not> gw_locked w then need ''standing-grants.yml exists but is not locked''
          else (case f of
              Grants_Yaml data \<Rightarrow>
                if \<not> is_dict data \<or> \<not> py_eq (dget data ''version'') (PInt 1) \<or> is_bool (dget data ''version'')
                   \<or> \<not> is_list (dget data ''grants'') \<or> \<not> set (keys data) \<subseteq> {''version'', ''grants''}
                then need ''standing-grants.yml is corrupt''
                else (case never_grant_of (gw_posture w) of Inl e \<Rightarrow> Inl e
                  | Inr never \<Rightarrow> (case keep_rows never {} (elems (dget data ''grants'')) of Inl e \<Rightarrow> Inl e
                      | Inr (rows, needs) \<Rightarrow> Inr (rows, if file_needs then needs else [])))
            | _ \<Rightarrow> need ''standing-grants.yml is unparseable''))"

section \<open>Redis\<close>

datatype rkey = Tomb string | DayCount string int
datatype rval = RInt int | RText string

record redis =
  rd_kv :: "(rkey \<times> rval) list"
  rd_get_ok :: "rkey \<Rightarrow> bool"
  rd_incr_ok :: "rkey \<Rightarrow> bool"

text \<open>None: the command raises. A get answers the value, the empty text when there is none.\<close>

definition redis_get :: "redis \<Rightarrow> rkey \<Rightarrow> rval option" where
  "redis_get r k = (if \<not> rd_get_ok r k then None
     else Some (case map_of (rd_kv r) k of None \<Rightarrow> RText [] | Some v \<Rightarrow> v))"

fun rval_truthy :: "rval \<Rightarrow> bool" where
  "rval_truthy (RInt _) = True"
| "rval_truthy (RText s) = (s \<noteq> [])"

definition day_count :: "redis \<Rightarrow> rkey \<Rightarrow> int" where
  "day_count r k = (case map_of (rd_kv r) k of Some (RInt n) \<Rightarrow> n | _ \<Rightarrow> 0)"

definition redis_incr :: "redis \<Rightarrow> rkey \<Rightarrow> (redis \<times> int) option" where
  "redis_incr r k = (if \<not> rd_incr_ok r k then None
     else (case map_of (rd_kv r) k of
         Some (RText _) \<Rightarrow> None
       | _ \<Rightarrow> Some (r\<lparr>rd_kv := kv_put k (RInt (day_count r k + 1)) (rd_kv r)\<rparr>, day_count r k + 1)))"

section \<open>The allow decision\<close>

definition hard_scope_error :: "string \<Rightarrow> pyval \<Rightarrow> pyval \<Rightarrow> string option" where
  "hard_scope_error risk_class scope ctx =
     (if risk_class = ''external_comms'' then
        (let recipient = dget ctx ''recipient'' in
         if \<not> is_str recipient \<or> strip (str_of recipient) = [] then Some ''hard-scope: no recipient in context''
         else if list_ex (\<lambda>p. glob (lower (str_of p)) (lower (strip (str_of recipient))))
                   (elems (dget scope ''recipient_allowlist''))
         then None else Some ''hard-scope: recipient not in allowlist'')
      else if risk_class = ''spend'' then
        (let amt = context_amount ctx; cap = scope_amount_cap scope in
         if \<not> is_number amt \<or> num_of amt < 0 then Some ''hard-scope: no amount in context''
         else if is_number cap \<and> num_of amt \<le> num_of cap then None
         else Some ''hard-scope: amount exceeds cap'')
      else
        (let vendor = dget ctx ''vendor'' in
         if \<not> is_str vendor \<or> strip (str_of vendor) = [] then Some ''hard-scope: no vendor in context''
         else if lower (strip (str_of vendor))
                   \<in> set (map (\<lambda>v. lower (strip (str_of v))) (elems (dget scope ''vendor_allowlist'')))
         then None else Some ''hard-scope: vendor not in allowlist''))"

record grant_request =
  gr_class :: string
  gr_action :: string
  gr_lane :: "string option"
  gr_context :: pyval
  gr_now :: int

datatype grant_mode = Act | Probe | Coverage

datatype grant_answer = Granted string | Not_Granted "string list"

definition today :: "grant_request \<Rightarrow> int" where
  "today q = gr_now q div day_us"

definition max_per_day :: "pyval \<Rightarrow> int" where
  "max_per_day g = (let v = dget (dget g ''rate'') ''max_per_day'' in if truthy v then int_of v else 0)"

text \<open>The rows that are skipped without a reason.\<close>

definition row_addressed :: "string \<Rightarrow> grant_request \<Rightarrow> pyval \<Rightarrow> bool" where
  "row_addressed cid q g \<longleftrightarrow> dget g ''deployment'' = PStr cid \<and> dget g ''risk_class'' = PStr (gr_class q)
     \<and> PStr (gr_action q) \<in> set (elems (dget g ''action_types''))"

text \<open>The first refusal before the rate condition.\<close>

definition row_refusal :: "grant_mode \<Rightarrow> grant_request \<Rightarrow> redis \<Rightarrow> pyval \<Rightarrow> string option" where
  "row_refusal mode q r g =
     (let gid = str_of (dget g ''id''); expires = to_dt (dget g ''expires'');
          tomb = redis_get r (Tomb gid) in
      if (case gr_lane q of None \<Rightarrow> True | Some l \<Rightarrow> PStr l \<notin> set (elems (dget g ''lanes'')))
      then Some ''lane not granted''
      else if truthy (dget g ''revoked'') then Some ''revoked (file flag)''
      else if (case expires of None \<Rightarrow> True | Some t \<Rightarrow> t \<le> gr_now q) then Some ''expired''
      else (case tomb of None \<Rightarrow> Some ''revocation tombstone unreadable'' | Some v \<Rightarrow>
        if rval_truthy v then Some ''revoked (tombstone)''
        else if mode = Coverage then None
        else hard_scope_error (gr_class q) (dget g ''scope'') (gr_context q)))"

text \<open>The rate condition: act reserves a slot of the day, probe only reads the counter.\<close>

definition rate_step :: "grant_mode \<Rightarrow> grant_request \<Rightarrow> redis \<Rightarrow> pyval \<Rightarrow> string option \<times> redis" where
  "rate_step mode q r g =
     (let k = DayCount (str_of (dget g ''id'')) (today q); m = max_per_day g in
      case mode of
        Coverage \<Rightarrow> (None, r)
      | Act \<Rightarrow> if m \<le> 0 then (Some ''daily rate exhausted'', r)
          else (case redis_incr r k of None \<Rightarrow> (Some ''rate counter unreadable'', r)
            | Some (r', used) \<Rightarrow> if m < used then (Some ''daily rate exhausted'', r') else (None, r'))
      | Probe \<Rightarrow> (case redis_get r k of None \<Rightarrow> (Some ''rate counter unreadable'', r)
            | Some v \<Rightarrow> (case v of
                RInt used \<Rightarrow> if m \<le> used then (Some ''daily rate exhausted'', r) else (None, r)
              | RText s \<Rightarrow> if s \<noteq> [] then (Some ''rate counter unreadable'', r)
                           else if m \<le> 0 then (Some ''daily rate exhausted'', r) else (None, r))))"

fun match_rows :: "grant_mode \<Rightarrow> string \<Rightarrow> grant_request \<Rightarrow> redis \<Rightarrow> pyval list \<Rightarrow> grant_answer \<times> redis" where
  "match_rows mode cid q r [] = (Not_Granted [], r)"
| "match_rows mode cid q r (g # gs) =
     (let go_on = (\<lambda>why r'. case match_rows mode cid q r' gs of
            (Not_Granted ws, r'') \<Rightarrow> (Not_Granted (why # ws), r'') | ok \<Rightarrow> ok) in
      if \<not> row_addressed cid q g then match_rows mode cid q r gs
      else (case row_refusal mode q r g of Some why \<Rightarrow> go_on why r
        | None \<Rightarrow> (case rate_step mode q r g of
            (Some why, r') \<Rightarrow> go_on why r'
          | (None, r') \<Rightarrow> (Granted (str_of (dget g ''id'')), r'))))"

text \<open>\<open>vetoed\<close>: the veto registry's answer for the kind, None when it cannot be read.\<close>

definition match_grants ::
  "grant_mode \<Rightarrow> string \<Rightarrow> bool option \<Rightarrow> grant_request \<Rightarrow> redis \<Rightarrow> pyval list \<Rightarrow> grant_answer \<times> redis" where
  "match_grants mode cid vetoed q r rows =
     (if gr_class q \<notin> set CEILING_RISK_CLASSES then (Not_Granted [''standing grants are ceilings-only''], r)
      else if vetoed \<noteq> Some False then (Not_Granted [''action_type is under an active veto''], r)
      else match_rows mode cid q r rows)"

text \<open>\<^verbatim>\<open>check\<close> on the act path or as a probe, and \<^verbatim>\<open>covers\<close>.\<close>

definition check ::
  "bool \<Rightarrow> string \<Rightarrow> bool option \<Rightarrow> grant_request \<Rightarrow> redis \<Rightarrow> pyval list \<Rightarrow> grant_answer \<times> redis" where
  "check act cid vetoed q r rows = match_grants (if act then Act else Probe) cid vetoed q r rows"

definition covers :: "string \<Rightarrow> bool option \<Rightarrow> grant_request \<Rightarrow> redis \<Rightarrow> pyval list \<Rightarrow> grant_answer" where
  "covers cid vetoed q r rows = fst (match_grants Coverage cid vetoed q r rows)"

end
