(* ===== verification/Grants_Correct.thy ===== *)
theory Grants_Correct
  imports Grants
begin

text \<open>
  The properties of standing grants: what a grant decision has established, that the daily rate
  holds over any sequence of decisions, that failures only refuse, and what the loader lets through.
\<close>

section \<open>The counter interface\<close>

locale day_counter =
  fixes incr :: "'s \<Rightarrow> 'k \<Rightarrow> ('s \<times> int) option"
    and count :: "'s \<Rightarrow> 'k \<Rightarrow> int"
  assumes incr_count: "incr s k = Some (s', n) \<Longrightarrow> n = count s k + 1 \<and> count s' k = n"
    and incr_other: "incr s k = Some (s', n) \<Longrightarrow> k' \<noteq> k \<Longrightarrow> count s' k' = count s k'"
begin

lemma incr_mono: "incr s k = Some (s', n) \<Longrightarrow> count s k' \<le> count s' k'"
  by (cases "k' = k") (auto dest: incr_count incr_other [of s k s' n k'])

text \<open>A call respects the slots of a key: it never takes the counter back, and a success took one slot.\<close>

definition slot_call :: "'k \<Rightarrow> int \<Rightarrow> ('s \<Rightarrow> bool \<times> 's) \<Rightarrow> bool" where
  "slot_call k m f \<longleftrightarrow> (\<forall>s. count s k \<le> count (snd (f s)) k \<and>
     (fst (f s) \<longrightarrow> count (snd (f s)) k \<le> m \<and> count s k + 1 \<le> count (snd (f s)) k))"

fun successes :: "('s \<Rightarrow> bool \<times> 's) list \<Rightarrow> 's \<Rightarrow> nat" where
  "successes [] s = 0"
| "successes (f # fs) s = (if fst (f s) then 1 else 0) + successes fs (snd (f s))"

lemma successes_bounded:
  assumes "\<forall>f \<in> set fs. slot_call k m f"
  shows "int (successes fs s) \<le> max 0 (m - count s k)"
  using assms
proof (induction fs arbitrary: s)
  case Nil
  show ?case by simp
next
  case (Cons f fs)
  have r: "count s k \<le> count (snd (f s)) k"
    "fst (f s) \<longrightarrow> count (snd (f s)) k \<le> m \<and> count s k + 1 \<le> count (snd (f s)) k"
    using Cons.prems by (simp_all add: slot_call_def)
  have "int (successes fs (snd (f s))) \<le> max 0 (m - count (snd (f s)) k)"
    using Cons by simp
  then show ?case
    using r by (auto simp: max_def split: if_splits)
qed

end

interpretation rc: day_counter redis_incr day_count
proof
  fix s k s' n k'
  assume i: "redis_incr s k = Some (s', n)"
  then have s': "s' = s\<lparr>rd_kv := kv_put k (RInt (day_count s k + 1)) (rd_kv s)\<rparr>" "n = day_count s k + 1"
    by (auto simp: redis_incr_def split: if_splits option.splits rval.splits)
  then show "n = day_count s k + 1 \<and> day_count s' k = n"
    by (simp add: day_count_def)
  show "k' \<noteq> k \<Longrightarrow> day_count s' k' = day_count s k'"
    by (simp add: s' day_count_def)
qed

section \<open>One decision\<close>

lemma rate_step_mono: "day_count r k \<le> day_count (snd (rate_step mode q r g)) k"
  by (auto simp: rate_step_def Let_def dest: rc.incr_mono
      split: grant_mode.splits option.splits rval.splits)

text \<open>What the row that was granted satisfies.\<close>

definition row_granted :: "grant_mode \<Rightarrow> string \<Rightarrow> grant_request \<Rightarrow> redis \<Rightarrow> pyval \<Rightarrow> bool" where
  "row_granted mode cid q r g \<longleftrightarrow> row_addressed cid q g \<and> row_refusal mode q r g = None
     \<and> fst (rate_step mode q r g) = None"

text \<open>The store after a row that did not grant.\<close>

definition after_row :: "grant_mode \<Rightarrow> string \<Rightarrow> grant_request \<Rightarrow> redis \<Rightarrow> pyval \<Rightarrow> redis" where
  "after_row mode cid q r g =
     (if row_addressed cid q g \<and> row_refusal mode q r g = None then snd (rate_step mode q r g) else r)"

lemma match_rows_hit:
  "row_granted mode cid q r g \<Longrightarrow>
     match_rows mode cid q r (g # gs) = (Granted (str_of (dget g ''id'')), snd (rate_step mode q r g))"
  by (cases "rate_step mode q r g") (simp add: row_granted_def Let_def)

lemma match_rows_miss:
  assumes "\<not> row_granted mode cid q r g"
  shows "snd (match_rows mode cid q r (g # gs)) = snd (match_rows mode cid q (after_row mode cid q r g) gs)"
    and "fst (match_rows mode cid q r (g # gs)) = Granted gid \<longleftrightarrow>
           fst (match_rows mode cid q (after_row mode cid q r g) gs) = Granted gid"
proof -
  let ?rest = "match_rows mode cid q (after_row mode cid q r g) gs"
  have "match_rows mode cid q r (g # gs) = ?rest \<or>
      (\<exists>why ws r'. ?rest = (Not_Granted ws, r') \<and> match_rows mode cid q r (g # gs) = (Not_Granted (why # ws), r'))"
  proof (cases "row_addressed cid q g")
    case False
    then show ?thesis by (simp add: after_row_def)
  next
    case adr: True
    have go_on: "(case match_rows mode cid q r' gs of (Not_Granted ws, r'') \<Rightarrow> (Not_Granted (why # ws), r'') | ok \<Rightarrow> ok)
        = match_rows mode cid q r' gs \<or> (\<exists>ws r''. match_rows mode cid q r' gs = (Not_Granted ws, r'')
        \<and> (case match_rows mode cid q r' gs of (Not_Granted ws, r'') \<Rightarrow> (Not_Granted (why # ws), r'') | ok \<Rightarrow> ok)
            = (Not_Granted (why # ws), r''))" for why r'
      by (cases "match_rows mode cid q r' gs"; cases "fst (match_rows mode cid q r' gs)") auto
    show ?thesis
    proof (cases "row_refusal mode q r g")
      case (Some why)
      then show ?thesis
        using adr go_on [of why r] by (auto simp: after_row_def Let_def)
    next
      case None
      then obtain why r' where "rate_step mode q r g = (Some why, r')"
        using assms adr by (cases "rate_step mode q r g") (auto simp: row_granted_def)
      then show ?thesis
        using None adr go_on [of why r'] by (auto simp: after_row_def Let_def)
    qed
  qed
  then show "snd (match_rows mode cid q r (g # gs)) = snd ?rest"
    and "fst (match_rows mode cid q r (g # gs)) = Granted gid \<longleftrightarrow> fst ?rest = Granted gid"
    by auto
qed

lemma after_row_mono: "day_count r k \<le> day_count (after_row mode cid q r g) k"
  using rate_step_mono by (simp add: after_row_def)

lemma match_rows_mono: "day_count r k \<le> day_count (snd (match_rows mode cid q r rows)) k"
proof (induction rows arbitrary: r)
  case Nil
  show ?case by simp
next
  case (Cons g gs)
  show ?case
  proof (cases "row_granted mode cid q r g")
    case True
    then show ?thesis using rate_step_mono by (simp add: match_rows_hit del: match_rows.simps)
  next
    case False
    show ?thesis
      unfolding match_rows_miss(1) [OF False] by (rule order_trans [OF after_row_mono Cons.IH])
  qed
qed

lemma match_rows_Granted:
  assumes "match_rows mode cid q r rows = (Granted gid, r')"
  shows "\<exists>g \<in> set rows. \<exists>r1. row_granted mode cid q r1 g \<and> gid = str_of (dget g ''id'')
     \<and> r' = snd (rate_step mode q r1 g) \<and> rd_get_ok r1 = rd_get_ok r \<and> rd_incr_ok r1 = rd_incr_ok r
     \<and> (\<forall>t. map_of (rd_kv r1) (Tomb t) = map_of (rd_kv r) (Tomb t))
     \<and> (\<forall>k. day_count r k \<le> day_count r1 k)"
  using assms
proof (induction rows arbitrary: r)
  case Nil
  then show ?case by simp
next
  case (Cons g gs)
  show ?case
  proof (cases "row_granted mode cid q r g")
    case True
    then have "gid = str_of (dget g ''id'') \<and> r' = snd (rate_step mode q r g)"
      using Cons.prems by (simp add: match_rows_hit del: match_rows.simps)
    then show ?thesis
      using True by (intro bexI [of _ g] exI [of _ r]) simp_all
  next
    case False
    let ?r = "after_row mode cid q r g"
    have "match_rows mode cid q ?r gs = (Granted gid, r')"
      using Cons.prems match_rows_miss(1) [OF False, of gs] match_rows_miss(2) [OF False, of gs gid]
      by (cases "match_rows mode cid q ?r gs") (simp del: match_rows.simps)
    from Cons.IH [OF this] obtain g1 r1 where ih: "g1 \<in> set gs" "row_granted mode cid q r1 g1"
        "gid = str_of (dget g1 ''id'')" "r' = snd (rate_step mode q r1 g1)"
        "rd_get_ok r1 = rd_get_ok ?r" "rd_incr_ok r1 = rd_incr_ok ?r"
        "\<forall>t. map_of (rd_kv r1) (Tomb t) = map_of (rd_kv ?r) (Tomb t)"
        "\<forall>k. day_count ?r k \<le> day_count r1 k"
      by blast
    have keep: "rd_get_ok ?r = rd_get_ok r \<and> rd_incr_ok ?r = rd_incr_ok r
        \<and> (\<forall>t. map_of (rd_kv ?r) (Tomb t) = map_of (rd_kv r) (Tomb t))"
      by (auto simp: after_row_def rate_step_def Let_def redis_incr_def
          split: grant_mode.splits option.splits rval.splits)
    have "day_count r k \<le> day_count r1 k" for k
      using ih(8) after_row_mono order_trans by blast
    then show ?thesis
      using ih keep by (intro bexI [of _ g1] exI [of _ r1]) simp_all
  qed
qed

lemma row_refusal_None:
  assumes "row_refusal mode q r g = None"
  shows "\<exists>l t. gr_lane q = Some l \<and> PStr l \<in> set (elems (dget g ''lanes''))
     \<and> \<not> truthy (dget g ''revoked'') \<and> to_dt (dget g ''expires'') = Some t \<and> gr_now q < t
     \<and> redis_get r (Tomb (str_of (dget g ''id''))) \<in> Some ` {v. \<not> rval_truthy v}
     \<and> (mode \<noteq> Coverage \<longrightarrow> hard_scope_error (gr_class q) (dget g ''scope'') (gr_context q) = None)"
  using assms by (auto simp: row_refusal_def Let_def split: if_splits option.splits)

lemma check_granted:
  assumes "check act cid vetoed q r rows = (Granted gid, r')"
  shows "gr_class q \<in> set CEILING_RISK_CLASSES \<and> vetoed = Some False
     \<and> (\<exists>g \<in> set rows. gid = str_of (dget g ''id'') \<and> row_addressed cid q g
          \<and> (\<exists>l. gr_lane q = Some l \<and> PStr l \<in> set (elems (dget g ''lanes'')))
          \<and> \<not> truthy (dget g ''revoked'')
          \<and> (\<exists>t. to_dt (dget g ''expires'') = Some t \<and> gr_now q < t)
          \<and> rd_get_ok r (Tomb gid) \<and> map_of (rd_kv r) (Tomb gid) \<in> {None, Some (RText [])}
          \<and> hard_scope_error (gr_class q) (dget g ''scope'') (gr_context q) = None)"
proof -
  let ?mode = "if act then Act else Probe"
  have m: "match_rows ?mode cid q r rows = (Granted gid, r')"
    and pre: "gr_class q \<in> set CEILING_RISK_CLASSES" "vetoed = Some False"
    using assms by (auto simp: check_def match_grants_def split: if_splits)
  obtain g r1 where g: "g \<in> set rows" "row_granted ?mode cid q r1 g" "gid = str_of (dget g ''id'')"
      "rd_get_ok r1 = rd_get_ok r" "\<forall>t. map_of (rd_kv r1) (Tomb t) = map_of (rd_kv r) (Tomb t)"
    using match_rows_Granted [OF m] by blast
  have ref: "row_refusal ?mode q r1 g = None" and adr: "row_addressed cid q g"
    using g(2) by (simp_all add: row_granted_def)
  have notcov: "?mode \<noteq> Coverage"
    by simp
  obtain l t where lt: "gr_lane q = Some l" "PStr l \<in> set (elems (dget g ''lanes''))"
      "\<not> truthy (dget g ''revoked'')" "to_dt (dget g ''expires'') = Some t" "gr_now q < t"
      "redis_get r1 (Tomb (str_of (dget g ''id''))) \<in> Some ` {v. \<not> rval_truthy v}"
      "hard_scope_error (gr_class q) (dget g ''scope'') (gr_context q) = None"
    using row_refusal_None [OF ref] notcov by blast
  have nt: "\<not> rval_truthy v \<longleftrightarrow> v = RText []" for v
    by (cases v) simp_all
  have "rd_get_ok r (Tomb gid) \<and> map_of (rd_kv r) (Tomb gid) \<in> {None, Some (RText [])}"
    using lt(6) g(3,4,5) by (auto simp: redis_get_def nt split: if_splits option.splits)
  then show ?thesis
    using pre g(1,3) adr lt by blast
qed

text \<open>
  C20: a grant is never given on part of its conditions. When a check answers granted, some row
  carries that id and is addressed to this deployment, class and kind; the class is a hard ceiling
  and no veto is active or unknown; the lane is named in the row; the row is neither revoked in the
  file nor by a tombstone, and the tombstone could be read; it has not expired; and the hard-scope
  predicate of the class holds for the caller's context.
\<close>

theorem grant_sound:
  assumes "check act cid vetoed q r rows = (Granted gid, r')"
  shows "gr_class q \<in> set CEILING_RISK_CLASSES \<and> vetoed = Some False
     \<and> (\<exists>g \<in> set rows. gid = str_of (dget g ''id'') \<and> row_addressed cid q g
          \<and> (\<exists>l. gr_lane q = Some l \<and> PStr l \<in> set (elems (dget g ''lanes'')))
          \<and> \<not> truthy (dget g ''revoked'')
          \<and> (\<exists>t. to_dt (dget g ''expires'') = Some t \<and> gr_now q < t)
          \<and> rd_get_ok r (Tomb gid) \<and> map_of (rd_kv r) (Tomb gid) \<in> {None, Some (RText [])}
          \<and> hard_scope_error (gr_class q) (dget g ''scope'') (gr_context q) = None)"
  by (rule check_granted [OF assms])

definition sample_grant :: pyval where
  "sample_grant = PDict [(''id'', PStr ''GRANT-mail''), (''deployment'', PStr ''main''),
     (''risk_class'', PStr ''external_comms''), (''action_types'', PList [PStr ''external_email'']),
     (''lanes'', PList [PStr ''ops'']),
     (''scope'', PDict [(''recipient_allowlist'', PList [PStr ''*@example.com''])]),
     (''rate'', PDict [(''max_per_day'', PInt 2)]), (''expires'', PStr ''2026-08-01''),
     (''granted_by'', PStr ''captain''), (''granted_at'', PStr ''2026-07-01''),
     (''basis'', PStr ''ruling''), (''revoked'', PBool False)]"

definition sample_request :: grant_request where
  "sample_request = \<lparr>gr_class = ''external_comms'', gr_action = ''external_email'', gr_lane = Some ''ops'',
     gr_context = PDict [(''recipient'', PStr ''Ann@Example.com'')], gr_now = 1783000000000000\<rparr>"

definition empty_redis :: redis where
  "empty_redis = \<lparr>rd_kv = [], rd_get_ok = (\<lambda>_. True), rd_incr_ok = (\<lambda>_. True)\<rparr>"

lemma sample_grant_valid: "row_error sample_grant = None"
  by code_simp

lemma sample_granted:
  "fst (check True ''main'' (Some False) sample_request empty_redis [sample_grant]) = Granted ''GRANT-mail''"
  by code_simp

theorem grant_sound_witness:
  "''external_comms'' \<in> set CEILING_RISK_CLASSES
   \<and> hard_scope_error ''external_comms'' (dget sample_grant ''scope'') (gr_context sample_request) = None"
proof -
  obtain r' where "check True ''main'' (Some False) sample_request empty_redis [sample_grant]
      = (Granted ''GRANT-mail'', r')"
    using sample_granted by (metis prod.collapse)
  from grant_sound [OF this] show ?thesis
    by (auto simp: sample_request_def)
qed

section \<open>The daily rate\<close>

record grant_call =
  gc_cid :: string
  gc_vetoed :: "bool option"
  gc_request :: grant_request
  gc_rows :: "pyval list"
  gc_get_ok :: "rkey \<Rightarrow> bool"
  gc_incr_ok :: "rkey \<Rightarrow> bool"

text \<open>One act-path decision; which Redis commands fail may differ from call to call.\<close>

definition act_call :: "grant_call \<Rightarrow> redis \<Rightarrow> grant_answer \<times> redis" where
  "act_call c r = check True (gc_cid c) (gc_vetoed c) (gc_request c)
     (r\<lparr>rd_get_ok := gc_get_ok c, rd_incr_ok := gc_incr_ok c\<rparr>) (gc_rows c)"

definition granted_today :: "string \<Rightarrow> int \<Rightarrow> grant_call \<Rightarrow> redis \<Rightarrow> bool \<times> redis" where
  "granted_today gid day c r =
     (fst (act_call c r) = Granted gid \<and> today (gc_request c) = day, snd (act_call c r))"

lemma day_count_flags [simp]: "day_count (r\<lparr>rd_get_ok := a, rd_incr_ok := b\<rparr>) k = day_count r k"
  by (simp add: day_count_def)

lemma granted_today_slots:
  assumes "\<forall>g \<in> set (gc_rows c). str_of (dget g ''id'') = gid \<longrightarrow> max_per_day g \<le> m"
  shows "rc.slot_call (DayCount gid day) m (granted_today gid day c)"
  unfolding rc.slot_call_def
proof (intro allI conjI impI)
  fix r :: redis
  let ?k = "DayCount gid day" and ?q = "gc_request c"
  let ?r = "r\<lparr>rd_get_ok := gc_get_ok c, rd_incr_ok := gc_incr_ok c\<rparr>"
  have "day_count ?r ?k \<le> day_count (snd (check True (gc_cid c) (gc_vetoed c) ?q ?r (gc_rows c))) ?k"
    unfolding check_def match_grants_def by (auto simp del: day_count_flags intro: match_rows_mono)
  then show "day_count r ?k \<le> day_count (snd (granted_today gid day c r)) ?k"
    by (simp add: granted_today_def act_call_def)
  assume g: "fst (granted_today gid day c r)"
  then have ans: "fst (act_call c r) = Granted gid" "today ?q = day"
    by (simp_all add: granted_today_def)
  obtain r' where call: "match_rows Act (gc_cid c) ?q ?r (gc_rows c) = (Granted gid, r')"
    and r': "snd (granted_today gid day c r) = r'"
    using ans by (cases "act_call c r")
      (auto simp: granted_today_def act_call_def check_def match_grants_def split: if_splits)
  obtain g1 r1 where g1: "g1 \<in> set (gc_rows c)" "row_granted Act (gc_cid c) ?q r1 g1"
      "gid = str_of (dget g1 ''id'')" "r' = snd (rate_step Act ?q r1 g1)"
      "\<forall>k. day_count ?r k \<le> day_count r1 k"
    using match_rows_Granted [OF call] by blast
  have "fst (rate_step Act ?q r1 g1) = None"
    using g1(2) by (simp add: row_granted_def)
  then obtain used where inc: "redis_incr r1 ?k = Some (r', used)" and used: "used \<le> max_per_day g1"
    using g1(3,4) ans(2)
    by (auto simp: rate_step_def Let_def split: if_splits option.splits prod.splits)
  have "used = day_count r1 ?k + 1 \<and> day_count r' ?k = used"
    by (rule rc.incr_count [OF inc])
  moreover have "max_per_day g1 \<le> m"
    using assms g1(1,3) by simp
  moreover have "day_count r ?k \<le> day_count r1 ?k"
    using g1(5) by simp
  ultimately show "day_count (snd (granted_today gid day c r)) ?k \<le> m"
    and "day_count r ?k + 1 \<le> day_count (snd (granted_today gid day c r)) ?k"
    using used r' by simp_all
qed

text \<open>
  C21: the daily rate cannot be exceeded. Let any sequence of callers decide on the act path, with
  any requests, rows, vetoes and Redis failures in between: the number of times a grant answers
  granted on a day is at most its daily maximum, and at most what was left of it at the start.
\<close>

theorem daily_rate_holds:
  assumes "\<forall>c \<in> set calls. \<forall>g \<in> set (gc_rows c). str_of (dget g ''id'') = gid \<longrightarrow> max_per_day g \<le> m"
  shows "int (rc.successes (map (granted_today gid day) calls) r)
     \<le> max 0 (m - day_count r (DayCount gid day))"
  using assms granted_today_slots by (intro rc.successes_bounded) auto

definition sample_call :: grant_call where
  "sample_call = \<lparr>gc_cid = ''main'', gc_vetoed = Some False, gc_request = sample_request,
     gc_rows = [sample_grant], gc_get_ok = (\<lambda>_. True), gc_incr_ok = (\<lambda>_. True)\<rparr>"

theorem daily_rate_holds_witness:
  "int (rc.successes (map (granted_today ''GRANT-mail'' (today sample_request)) (replicate 5 sample_call))
      empty_redis) \<le> 2"
proof -
  have m: "max_per_day sample_grant = 2"
    by code_simp
  have "day_count empty_redis k = 0" for k
    by (simp add: day_count_def empty_redis_def)
  moreover have "\<forall>c \<in> set (replicate 5 sample_call). \<forall>g \<in> set (gc_rows c).
      str_of (dget g ''id'') = ''GRANT-mail'' \<longrightarrow> max_per_day g \<le> 2"
    by (simp add: sample_call_def m)
  ultimately show ?thesis
    using daily_rate_holds [of "replicate 5 sample_call" "''GRANT-mail''" 2 "today sample_request" empty_redis]
    by simp
qed

section \<open>Failures refuse\<close>

text \<open>
  An unreachable Redis never grants. If the revocation tombstones cannot be read, or on the act
  path the counters cannot be incremented, or the veto registry cannot be read, the check refuses,
  whatever the rows are; and what was refused took no slot when the tombstones were unreadable.
\<close>

theorem redis_failure_refuses:
  assumes "(\<forall>t. \<not> rd_get_ok r (Tomb t)) \<or> act \<and> (\<forall>k. \<not> rd_incr_ok r k) \<or> vetoed = None"
  shows "(\<exists>why. fst (check act cid vetoed q r rows) = Not_Granted why)"
proof (rule ccontr)
  assume "\<not> (\<exists>why. fst (check act cid vetoed q r rows) = Not_Granted why)"
  then obtain gid r' where c: "check act cid vetoed q r rows = (Granted gid, r')"
    by (metis grant_answer.exhaust prod.collapse)
  have v: "vetoed = Some False" and ok: "rd_get_ok r (Tomb gid)"
    using check_granted [OF c] by blast+
  then have a: act and i: "\<forall>k. \<not> rd_incr_ok r k"
    using assms by auto
  have m: "match_rows Act cid q r rows = (Granted gid, r')"
    using c a by (auto simp: check_def match_grants_def split: if_splits)
  obtain g r1 where g: "row_granted Act cid q r1 g" "rd_incr_ok r1 = rd_incr_ok r"
    using match_rows_Granted [OF m] by blast
  then show False
    using i by (auto simp: row_granted_def rate_step_def Let_def redis_incr_def split: if_splits)
qed

theorem redis_failure_refuses_witness:
  "\<exists>why. fst (check True ''main'' (Some False) sample_request
      (empty_redis\<lparr>rd_incr_ok := (\<lambda>_. False)\<rparr>) [sample_grant]) = Not_Granted why"
  by (rule redis_failure_refuses) simp

section \<open>Coverage\<close>

text \<open>
  Coverage is implied by a grant. Whatever a check grants, on the act path or as a probe, the
  structural coverage used to close needs also grants for the same request, without touching Redis.
\<close>

theorem covers_of_grant:
  assumes "fst (check act cid vetoed q r rows) = Granted gid"
  shows "\<exists>gid'. covers cid vetoed q r rows = Granted gid'"
proof -
  obtain r' where c: "check act cid vetoed q r rows = (Granted gid, r')"
    using assms by (metis prod.collapse)
  let ?mode = "if act then Act else Probe"
  have m: "match_rows ?mode cid q r rows = (Granted gid, r')"
    and pre: "gr_class q \<in> set CEILING_RISK_CLASSES" "vetoed = Some False"
    using c by (auto simp: check_def match_grants_def split: if_splits)
  obtain g r1 where g: "g \<in> set rows" "row_granted ?mode cid q r1 g"
      "rd_get_ok r1 = rd_get_ok r" "\<forall>t. map_of (rd_kv r1) (Tomb t) = map_of (rd_kv r) (Tomb t)"
    using match_rows_Granted [OF m] by blast
  have "redis_get r (Tomb t) = redis_get r1 (Tomb t)" for t
    using g(3,4) by (simp add: redis_get_def)
  then have "row_refusal Coverage q r g = None" "row_addressed cid q g"
    using g(2) by (auto simp: row_granted_def row_refusal_def Let_def split: option.splits if_splits)
  then have cov: "row_granted Coverage cid q r g"
    by (simp add: row_granted_def rate_step_def)
  have "\<exists>gid'. match_rows Coverage cid q r gs = (Granted gid', r)" if "g \<in> set gs" for gs
    using that
  proof (induction gs)
    case Nil
    then show ?case by simp
  next
    case (Cons x gs)
    show ?case
    proof (cases "row_granted Coverage cid q r x")
      case True
      then show ?thesis
        by (simp add: match_rows_hit rate_step_def del: match_rows.simps)
    next
      case False
      have r: "after_row Coverage cid q r x = r"
        by (simp add: after_row_def rate_step_def)
      have "g \<in> set gs"
        using False Cons.prems cov by auto
      then obtain gid' where "match_rows Coverage cid q r gs = (Granted gid', r)"
        using Cons.IH by blast
      then show ?thesis
        using match_rows_miss(1) [OF False, of gs] match_rows_miss(2) [OF False, of gs gid'] unfolding r
        by (cases "match_rows Coverage cid q r (x # gs)") (simp del: match_rows.simps)
    qed
  qed
  then show ?thesis
    using g(1) pre by (fastforce simp: covers_def match_grants_def)
qed

theorem covers_of_grant_witness:
  "\<exists>gid'. covers ''main'' (Some False) sample_request empty_redis [sample_grant] = Granted gid'"
  by (rule covers_of_grant [OF sample_granted])

section \<open>The loader\<close>

lemma keep_rows_sound:
  "keep_rows never needed gs = Inr (rows, needs) \<Longrightarrow>
     set rows = {g \<in> set gs. row_error g = None \<and> str_of (dget g ''risk_class'') \<notin> set never}"
  by (induction gs arbitrary: needed rows needs)
    (auto simp: Let_def split: option.splits ruling_error.splits if_splits sum.splits prod.splits)

text \<open>
  The loader lets through exactly the rows that are valid and permitted. It returns no row
  unless the grants file is attested and well-formed; then a row of the file is loaded if and only
  if it satisfies the closed row schema (so it names a hard-ceiling class, only kinds of that class,
  named lanes and an expiry within ninety days of the grant) and the captain's ruling does not
  exclude its class.
\<close>

theorem loaded_grants_valid:
  assumes "load_grants w fn = Inr (rows, needs)" "rows \<noteq> []"
  shows "gw_locked w \<and> (\<exists>data never. gw_file w = Grants_Yaml data \<and> never_grant_of (gw_posture w) = Inr never
     \<and> set rows = {g \<in> set (elems (dget data ''grants'')). row_error g = None
                     \<and> str_of (dget g ''risk_class'') \<notin> set never})
     \<and> (\<forall>g \<in> set rows. \<exists>rc kinds. dget g ''risk_class'' = PStr rc
          \<and> (rc, kinds) \<in> set CEILING_CLASS_ACTION_TYPES
          \<and> set (elems (dget g ''action_types'')) \<subseteq> PStr ` set kinds
          \<and> (\<exists>t0 t1. to_dt (dget g ''granted_at'') = Some t0 \<and> to_dt (dget g ''expires'') = Some t1
               \<and> t0 < t1 \<and> t1 - t0 \<le> 90 * day_us))"
proof -
  obtain data never needs' where l: "gw_locked w" "gw_file w = Grants_Yaml data"
      "never_grant_of (gw_posture w) = Inr never"
      and k: "keep_rows never {} (elems (dget data ''grants'')) = Inr (rows, needs')"
    using assms by (auto simp: load_grants_def Let_def split: grants_file.splits if_splits sum.splits prod.splits)
  have rows: "set rows = {g \<in> set (elems (dget data ''grants'')). row_error g = None
                     \<and> str_of (dget g ''risk_class'') \<notin> set never}"
    by (rule keep_rows_sound [OF k])
  have "\<exists>rc kinds. dget g ''risk_class'' = PStr rc \<and> (rc, kinds) \<in> set CEILING_CLASS_ACTION_TYPES
          \<and> set (elems (dget g ''action_types'')) \<subseteq> PStr ` set kinds
          \<and> (\<exists>t0 t1. to_dt (dget g ''granted_at'') = Some t0 \<and> to_dt (dget g ''expires'') = Some t1
               \<and> t0 < t1 \<and> t1 - t0 \<le> 90 * day_us)" if "g \<in> set rows" for g
  proof -
    have e: "row_error g = None"
      using that rows by simp
    have "is_member (dget g ''risk_class'') CEILING_RISK_CLASSES"
      using e by (simp add: row_error_def Let_def bad_def)
    then obtain rc where rc: "dget g ''risk_class'' = PStr rc" "rc \<in> set (map fst CEILING_CLASS_ACTION_TYPES)"
      by (cases "dget g ''risk_class''") (auto simp: is_member_def CEILING_RISK_CLASSES_def)
    then obtain kinds where kinds: "map_of CEILING_CLASS_ACTION_TYPES rc = Some kinds"
      by (metis map_of_eq_None_iff not_None_eq set_map)
    have acts: "set (elems (dget g ''action_types'')) \<subseteq> PStr ` set kinds"
      using e rc kinds by (simp add: row_error_def Let_def bad_def)
    obtain t0 t1 where "to_dt (dget g ''granted_at'') = Some t0" "to_dt (dget g ''expires'') = Some t1"
        "t0 < t1" "t1 - t0 \<le> 90 * day_us"
      using e by (auto simp: row_error_def Let_def bad_def MAX_EXPIRY_HORIZON_DAYS_def not_le not_less)
    then show ?thesis
      using rc(1) acts map_of_SomeD [OF kinds] by blast
  qed
  then show ?thesis
    using l rows by blast
qed

definition sample_grants_world :: grants_world where
  "sample_grants_world = \<lparr>gw_file = Grants_Yaml (PDict [(''version'', PInt 1),
       (''grants'', PList [sample_grant, PDict []])]), gw_locked = True,
     gw_posture = \<lparr>pw_ruling = No_Ruling, pw_locked = False, pw_narrow = No_Narrow, pw_env_cap = None,
       pw_cabinet = ''main''\<rparr>\<rparr>"

theorem loaded_grants_valid_witness:
  "gw_locked sample_grants_world \<and> fst (projr (load_grants sample_grants_world True)) = [sample_grant]"
proof -
  have l: "load_grants sample_grants_world True =
      Inr ([sample_grant], [(''standing grant line-dropped: missing keys'', None)])"
    by code_simp
  show ?thesis
    using loaded_grants_valid [OF l] l by simp
qed

end
