(* ===== verification/Needs.thy ===== *)
theory Needs
  imports Grants Keyed_Log "HOL-Library.Word"
begin

text \<open>
  The needs ledger: \<^verbatim>\<open>framework/authority/needs.py\<close>. The ledger file is the list of the
  rows this module wrote (a torn line is skipped by the reader and is not part of it); a timestamp is
  a number of microseconds, cut to the second as \<^verbatim>\<open>_iso\<close> does. The proposed grant line is
  the row its text denotes. The digest that names a need is a parameter (its first 32 bits).
\<close>

section \<open>Rows\<close>

datatype need_status = Open | Approved_Pending_Apply | Need_Granted | Denied | Snoozed | Expired | Superseded

fun status_of :: "string \<Rightarrow> need_status option" where
  "status_of s = map_of [(''open'', Open), (''approved_pending_apply'', Approved_Pending_Apply),
     (''granted'', Need_Granted), (''denied'', Denied), (''snoozed'', Snoozed), (''expired'', Expired),
     (''superseded'', Superseded)] s"

definition KINDS :: "string list" where
  "KINDS = [''access'', ''credential'', ''decision'', ''standing_grant'', ''resource'', ''hardware'',
     ''capability'', ''unfreeze'']"

definition OPEN_EXPIRY_DAYS :: int where "OPEN_EXPIRY_DAYS = 30"
definition DENY_SUPPRESS_DAYS :: int where "DENY_SUPPRESS_DAYS = 90"
definition SNOOZE_DAYS :: int where "SNOOZE_DAYS = 7"

fun STATUS_EVENTS :: "need_status \<Rightarrow> string option" where
  "STATUS_EVENTS Approved_Pending_Apply = Some ''need_approved''"
| "STATUS_EVENTS Need_Granted = Some ''need_granted''"
| "STATUS_EVENTS Denied = Some ''need_denied''"
| "STATUS_EVENTS Snoozed = Some ''need_snoozed''"
| "STATUS_EVENTS Expired = Some ''need_expired''"
| "STATUS_EVENTS _ = None"

record need =
  nd_id :: string
  nd_kind :: string
  nd_risk :: "string option"
  nd_action :: "string option"
  nd_lane :: "string option"
  nd_deployment :: string
  nd_status :: need_status
  nd_why :: string
  nd_unblocks :: string
  nd_line :: "pyval option"
  nd_cost :: string
  nd_cost_note :: "string option"
  nd_filed_by :: string
  nd_cid :: "string option"
  nd_count :: int
  nd_first_seen :: int
  nd_last_seen :: int
  nd_marked_by :: "string option"
  nd_marked_at :: "int option"
  nd_reason :: "string option"
  nd_suppressed_until :: "int option"
  nd_snoozed_until :: "int option"

text \<open>The middle dot U+00B7 marks approvals in messages, so it is stripped from every text.\<close>

definition no_marker :: "string \<Rightarrow> string" where
  "no_marker s = filter (\<lambda>c. c \<noteq> CHR 0xB7) s"

fun clean :: "pyval \<Rightarrow> pyval" where
  "clean (PStr s) = PStr (no_marker s)"
| "clean (PDict kvs) = PDict (map (\<lambda>kv. (fst kv, clean (snd kv))) kvs)"
| "clean (PList xs) = PList (map clean xs)"
| "clean v = v"

definition clean_need :: "need \<Rightarrow> need" where
  "clean_need r = r\<lparr>nd_id := no_marker (nd_id r), nd_kind := no_marker (nd_kind r),
     nd_risk := map_option no_marker (nd_risk r), nd_action := map_option no_marker (nd_action r),
     nd_lane := map_option no_marker (nd_lane r), nd_deployment := no_marker (nd_deployment r),
     nd_why := no_marker (nd_why r), nd_unblocks := no_marker (nd_unblocks r),
     nd_line := map_option clean (nd_line r), nd_cost := no_marker (nd_cost r),
     nd_cost_note := map_option no_marker (nd_cost_note r), nd_filed_by := no_marker (nd_filed_by r),
     nd_cid := map_option no_marker (nd_cid r), nd_marked_by := map_option no_marker (nd_marked_by r),
     nd_reason := map_option no_marker (nd_reason r)\<rparr>"

section \<open>The ledger and its world\<close>

record needs_world =
  nw_wired :: bool                          \<comment> \<open>CABINET_NEEDS_WIRED=1\<close>
  nw_enforcing :: bool                      \<comment> \<open>CABINET_AUTHORITY_ENFORCING=1\<close>
  nw_flag_file :: bool                      \<comment> \<open>instance/config/needs-wired\<close>
  nw_posture :: "posture_world option"      \<comment> \<open>None: the kernel cannot be imported\<close>
  nw_cabinet :: string
  nw_digest :: "string \<Rightarrow> 32 word"
  nw_append_ok :: bool

record needs_log =
  nl_rows :: "need list"
  nl_events :: "(string \<times> need) list"
  nl_pings :: "need list"

definition iso :: "int \<Rightarrow> int" where
  "iso t = t div 1000000 * 1000000"

definition hex_digit :: "nat \<Rightarrow> char" where
  "hex_digit n = ''0123456789abcdef'' ! (n mod 16)"

definition hex8 :: "32 word \<Rightarrow> string" where
  "hex8 w = map (\<lambda>i. hex_digit (unat (drop_bit (28 - 4 * i) w))) [0..<8]"

definition py_opt :: "string option \<Rightarrow> string" where
  "py_opt o' = (case o' of None \<Rightarrow> ''None'' | Some s \<Rightarrow> s)"

definition need_id :: "needs_world \<Rightarrow> string \<Rightarrow> string option \<Rightarrow> string option \<Rightarrow> string option \<Rightarrow> string" where
  "need_id w kind risk_class action_type lane =
     ''NEED-'' @ hex8 (nw_digest w (join ''|'' [kind, py_opt risk_class, py_opt action_type, py_opt lane,
       nw_cabinet w]))"

definition needs_enabled :: "needs_world \<Rightarrow> bool" where
  "needs_enabled w \<longleftrightarrow> nw_wired w \<or> nw_enforcing w \<or> nw_flag_file w \<or>
     (case nw_posture w of None \<Rightarrow> False
      | Some p \<Rightarrow> (case resolve_posture p None False of Inl _ \<Rightarrow> False | Inr (q, _) \<Rightarrow> q = Sovereign))"

text \<open>The compacted view: the last written row of each id, in the order of the first one.\<close>

definition merged :: "need list \<Rightarrow> (string \<times> need) list" where
  "merged rows = kv.replay nd_id (\<lambda>r. r) rows []"

definition standing :: "needs_log \<Rightarrow> string \<Rightarrow> need option" where
  "standing l nid = map_of (merged (nl_rows l)) nid"

definition append_need :: "need \<Rightarrow> string option \<Rightarrow> needs_log \<Rightarrow> needs_log" where
  "append_need r ev l = l\<lparr>nl_rows := nl_rows l @ [r],
     nl_events := nl_events l @ (case ev of None \<Rightarrow> [] | Some e \<Rightarrow> [(e, r)])\<rparr>"

section \<open>Filing\<close>

record need_request =
  nr_kind :: string
  nr_risk :: "string option"
  nr_action :: "string option"
  nr_lane :: "string option"
  nr_why :: string
  nr_unblocks :: string
  nr_line :: "pyval option"
  nr_cost :: string
  nr_cost_note :: "string option"
  nr_filed_by :: string
  nr_cid :: "string option"
  nr_hint :: pyval

definition truthy_opt :: "string option \<Rightarrow> string" where
  "truthy_opt o' = (case o' of None \<Rightarrow> [] | Some s \<Rightarrow> s)"

definition hint_text :: "pyval \<Rightarrow> string \<Rightarrow> pyval list" where
  "hint_text hint k = (let s = strip (if truthy (dget hint k) then str_of (dget hint k) else [])
     in if s = [] then [] else [PStr s])"

definition line_scope :: "string \<Rightarrow> pyval \<Rightarrow> pyval" where
  "line_scope risk_class hint =
     (let amt = context_amount hint in
      PDict [(''recipient_allowlist'',
                PList (if risk_class = ''external_comms'' then hint_text hint ''recipient'' else [])),
             (''max_amount_per_day'',
                if risk_class = ''spend'' \<and> is_number amt then amt else PInt 0),
             (''vendor_allowlist'',
                PList (if risk_class \<in> {''external_comms'', ''spend''} then [] else hint_text hint ''vendor''))])"

definition compose_grant_line ::
  "needs_world \<Rightarrow> string \<Rightarrow> string option \<Rightarrow> string option \<Rightarrow> string option \<Rightarrow> pyval \<Rightarrow> int \<Rightarrow> pyval option" where
  "compose_grant_line w nid risk_class action_type lane hint now =
     (if truthy_opt risk_class = [] \<or> truthy_opt action_type = [] then None
      else Some (PDict
       [(''id'', PStr (''GRANT-'' @ drop (length ''NEED-'') nid)), (''deployment'', PStr (nw_cabinet w)),
        (''risk_class'', PStr (truthy_opt risk_class)),
        (''action_types'', PList [PStr (truthy_opt action_type)]),
        (''lanes'', PList (if truthy_opt lane = [] then [] else [PStr (truthy_opt lane)])),
        (''scope'', line_scope (truthy_opt risk_class) hint),
        (''rate'', PDict [(''max_per_day'', PInt 1)]),
        (''expires'', PDate ((now + 90 * day_us) div day_us)),
        (''granted_by'', PStr ''Captain''), (''granted_at'', PDatetime (iso now) None),
        (''basis'', PStr nid), (''revoked'', PBool False)]))"

text \<open>What the row takes over from the standing row of the same id.\<close>

definition carry :: "int \<Rightarrow> need \<Rightarrow> need \<Rightarrow> need" where
  "carry now prev row =
     (let row1 = row\<lparr>nd_count := nd_count prev + 1, nd_first_seen := nd_first_seen prev,
            nd_line := (case nd_line row of Some x \<Rightarrow> Some x | None \<Rightarrow> nd_line prev)\<rparr> in
      if nd_status prev = Approved_Pending_Apply then
        row1\<lparr>nd_status := Approved_Pending_Apply, nd_marked_by := nd_marked_by prev,
             nd_marked_at := nd_marked_at prev, nd_reason := nd_reason prev\<rparr>
      else if nd_status prev = Snoozed \<and> (case nd_snoozed_until prev of None \<Rightarrow> False | Some u \<Rightarrow> now < u) then
        row1\<lparr>nd_status := Snoozed, nd_snoozed_until := nd_snoozed_until prev\<rparr>
      else row1)"

definition suppressed :: "int \<Rightarrow> need \<Rightarrow> bool" where
  "suppressed now prev \<longleftrightarrow> nd_status prev = Denied
     \<and> (case nd_suppressed_until prev of None \<Rightarrow> False | Some u \<Rightarrow> now < u)"

definition fresh_need :: "needs_world \<Rightarrow> need_request \<Rightarrow> string \<Rightarrow> int \<Rightarrow> need" where
  "fresh_need w q nid now =
     \<lparr>nd_id = nid, nd_kind = nr_kind q, nd_risk = nr_risk q, nd_action = nr_action q, nd_lane = nr_lane q,
      nd_deployment = nw_cabinet w, nd_status = Open, nd_why = nr_why q, nd_unblocks = nr_unblocks q,
      nd_line = (if nr_kind q = ''standing_grant'' \<and> nr_line q = None
                 then compose_grant_line w nid (nr_risk q) (nr_action q) (nr_lane q) (nr_hint q) now
                 else nr_line q),
      nd_cost = nr_cost q, nd_cost_note = nr_cost_note q, nd_filed_by = nr_filed_by q, nd_cid = nr_cid q,
      nd_count = 1, nd_first_seen = iso now, nd_last_seen = iso now, nd_marked_by = None,
      nd_marked_at = None, nd_reason = None, nd_suppressed_until = None, nd_snoozed_until = None\<rparr>"

definition file_need :: "needs_world \<Rightarrow> need_request \<Rightarrow> int \<Rightarrow> needs_log \<Rightarrow> string option \<times> needs_log" where
  "file_need w q now l =
     (let nid = need_id w (nr_kind q) (nr_risk q) (nr_action q) (nr_lane q); prev = standing l nid;
          new = fresh_need w q nid now;
          row = clean_need (case prev of None \<Rightarrow> new | Some p \<Rightarrow> carry now p new);
          l1 = append_need row (Some ''need_filed'') l in
      if nr_kind q \<notin> set KINDS \<or> \<not> needs_enabled w then (None, l)
      else if (case prev of None \<Rightarrow> False | Some p \<Rightarrow> suppressed now p) then (None, l)
      else if \<not> nw_append_ok w then (None, l)
      else (Some nid,
        if nr_cost q = ''blocking'' then l1\<lparr>nl_pings := nl_pings l1 @ [row],
          nl_events := nl_events l1 @ [(''need_escalated'', row)]\<rparr> else l1))"

section \<open>Reading and marking\<close>

definition current :: "int \<Rightarrow> need \<Rightarrow> need option" where
  "current now r =
     (if nd_status r = Snoozed then
        (case nd_snoozed_until r of
           Some u \<Rightarrow> if now < u then None else Some (r\<lparr>nd_status := Open\<rparr>)
         | None \<Rightarrow> Some (r\<lparr>nd_status := Open\<rparr>))
      else if nd_status r \<in> {Open, Approved_Pending_Apply} then Some r else None)"

definition stale :: "int \<Rightarrow> need \<Rightarrow> bool" where
  "stale now r \<longleftrightarrow> nd_status r = Open \<and> OPEN_EXPIRY_DAYS * day_us < now - nd_last_seen r"

definition expire :: "int \<Rightarrow> need \<Rightarrow> need" where
  "expire now r = clean_need (r\<lparr>nd_status := Expired, nd_marked_by := Some ''sweep'',
     nd_marked_at := Some (iso now)\<rparr>)"

definition list_open :: "needs_world \<Rightarrow> int \<Rightarrow> needs_log \<Rightarrow> need list \<times> needs_log" where
  "list_open w now l =
     (let rows = List.map_filter (current now) (map snd (merged (nl_rows l)));
          old = filter (stale now) rows in
      if old \<noteq> [] \<and> \<not> nw_append_ok w then ([], l)
      else (sort_key (\<lambda>r. - nd_last_seen r) (map clean_need (filter (\<lambda>r. \<not> stale now r) rows)),
            fold (\<lambda>r. append_need (expire now r) (Some ''need_expired'')) old l))"

definition mark ::
  "needs_world \<Rightarrow> string \<Rightarrow> string \<Rightarrow> string \<Rightarrow> string option \<Rightarrow> int \<Rightarrow> needs_log \<Rightarrow> need option \<times> needs_log" where
  "mark w nid status by' reason now l =
     (case (status_of status, standing l nid) of
        (Some s, Some prev) \<Rightarrow>
          let row = clean_need (prev\<lparr>nd_status := s, nd_marked_by := Some by', nd_marked_at := Some (iso now),
                nd_reason := (case reason of None \<Rightarrow> nd_reason prev | Some x \<Rightarrow> Some x),
                nd_suppressed_until := (if s = Denied then Some (iso (now + DENY_SUPPRESS_DAYS * day_us))
                                        else nd_suppressed_until prev),
                nd_snoozed_until := (if s = Snoozed then Some (iso (now + SNOOZE_DAYS * day_us))
                                     else nd_snoozed_until prev)\<rparr>) in
          if nw_append_ok w then (Some row, append_need row (STATUS_EVENTS s) l) else (None, l)
      | _ \<Rightarrow> (None, l))"

text \<open>\<^verbatim>\<open>check_fn\<close>'s answer: the grant that covers the need; None when it refuses or raises.\<close>

fun close_covered ::
  "needs_world \<Rightarrow> (need \<Rightarrow> string option) \<Rightarrow> int \<Rightarrow> need list \<Rightarrow> needs_log \<Rightarrow> string list \<times> needs_log" where
  "close_covered w cov now [] l = ([], l)"
| "close_covered w cov now (r # rs) l =
     (if nd_kind r \<noteq> ''standing_grant'' \<or> nd_status r \<noteq> Open then close_covered w cov now rs l
      else (case cov r of
          None \<Rightarrow> close_covered w cov now rs l
        | Some gid \<Rightarrow>
            (case close_covered w cov now rs
               (snd (mark w (nd_id r) ''granted'' (''cross_check:'' @ gid)
                  (Some ''covered by standing grant'') now l))
             of (ids, l') \<Rightarrow> (nd_id r # ids, l'))))"

definition cross_check_grants ::
  "needs_world \<Rightarrow> (need \<Rightarrow> string option) \<Rightarrow> int \<Rightarrow> needs_log \<Rightarrow> string list \<times> needs_log" where
  "cross_check_grants w cov now l = (case list_open w now l of (rows, l1) \<Rightarrow> close_covered w cov now rows l1)"

end
