(* ===== verification/Needs_Correct.thy ===== *)
theory Needs_Correct
  imports Needs
begin

text \<open>
  The properties of the needs ledger: what the captain answered holds against every unattended
  operation, the read sweeps exactly the stale rows and is stable, a composed grant line is one the
  grants loader accepts, and coverage closes what it covers.
\<close>

section \<open>Identities and cleaning\<close>

lemma no_marker_idem [simp]: "no_marker (no_marker s) = no_marker s"
  by (simp add: no_marker_def)

lemma hex_digit_plain: "hex_digit n \<noteq> CHR 0xB7"
proof -
  have "\<forall>i < 16. ''0123456789abcdef'' ! i \<noteq> CHR 0xB7"
    by (simp add: All_less_Suc numeral_eq_Suc)
  then show ?thesis
    by (simp add: hex_digit_def)
qed

lemma no_marker_need_id [simp]: "no_marker (need_id w k r a l) = need_id w k r a l"
  using hex_digit_plain by (auto simp: need_id_def no_marker_def hex8_def filter_id_conv)

lemma clean_idem [simp]: "clean (clean v) = clean v"
  by (induction v rule: clean.induct) (auto simp: no_marker_def)

lemma clean_need_idem [simp]: "clean_need (clean_need r) = clean_need r"
proof -
  have "map_option no_marker (map_option no_marker x) = map_option no_marker x" for x
    by (simp add: option.map_comp comp_def)
  moreover have "map_option clean (map_option clean x) = map_option clean x" for x
    by (simp add: option.map_comp comp_def)
  ultimately show ?thesis
    by (simp add: clean_need_def)
qed

lemma clean_need_simps [simp]:
  "nd_id (clean_need r) = no_marker (nd_id r)" "nd_status (clean_need r) = nd_status r"
  "nd_count (clean_need r) = nd_count r" "nd_first_seen (clean_need r) = nd_first_seen r"
  "nd_last_seen (clean_need r) = nd_last_seen r" "nd_suppressed_until (clean_need r) = nd_suppressed_until r"
  "nd_snoozed_until (clean_need r) = nd_snoozed_until r"
  "nd_marked_by (clean_need r) = map_option no_marker (nd_marked_by r)"
  "nd_marked_at (clean_need r) = nd_marked_at r"
  "nd_kind (clean_need r) = no_marker (nd_kind r)"
  by (simp_all add: clean_need_def)

section \<open>The standing row\<close>

lemma standing_append [simp]:
  "standing (append_need r ev l) k = (if k = nd_id r then Some r else standing l k)"
  by (simp add: standing_def append_need_def merged_def kv.replay_append)

lemma standing_extend:
  "nl_rows l' = nl_rows l @ [r] \<Longrightarrow> standing l' k = (if k = nd_id r then Some r else standing l k)"
  by (simp add: standing_def merged_def kv.replay_append)

lemma standing_in: "standing l k = Some r \<Longrightarrow> r \<in> set (nl_rows l) \<and> nd_id r = k"
proof -
  assume "standing l k = Some r"
  then have "find (\<lambda>x. nd_id x = k) (rev (nl_rows l)) = Some r"
    by (simp add: standing_def merged_def kv.get_replay_empty option.map_ident)
  from find_SomeD [OF this] show ?thesis
    by simp
qed

lemma in_merged: "(k, r) \<in> set (merged (nl_rows l)) \<longleftrightarrow> standing l k = Some r"
  unfolding standing_def merged_def
  by (rule map_of_eq_Some_iff [symmetric]) (rule distinct_replay, simp)

lemma in_merged_rows: "r \<in> set (map snd (merged (nl_rows l))) \<longleftrightarrow> standing l (nd_id r) = Some r"
proof
  assume "r \<in> set (map snd (merged (nl_rows l)))"
  then obtain k where k: "(k, r) \<in> set (merged (nl_rows l))"
    by auto
  then have "nd_id r = k"
    unfolding merged_def by (rule keys_replay)
  then show "standing l (nd_id r) = Some r"
    using k by (simp add: in_merged)
next
  assume "standing l (nd_id r) = Some r"
  then have "(nd_id r, r) \<in> set (merged (nl_rows l))"
    by (simp only: in_merged)
  then show "r \<in> set (map snd (merged (nl_rows l)))"
    by (metis image_eqI list.set_map snd_conv)
qed

lemma distinct_merged_ids: "distinct (map nd_id (map snd (merged (nl_rows l))))"
  using distinct_collapse [of nd_id "nl_rows l"] by (simp add: collapse_replay merged_def)

text \<open>Every row of the ledger is free of markers; every operation keeps it so.\<close>

definition ledger_clean :: "needs_log \<Rightarrow> bool" where
  "ledger_clean l \<longleftrightarrow> (\<forall>r \<in> set (nl_rows l). clean_need r = r)"

lemma ledger_clean_append [simp]:
  "ledger_clean (append_need r ev l) \<longleftrightarrow> clean_need r = r \<and> ledger_clean l"
  by (auto simp: ledger_clean_def append_need_def)

lemma standing_clean:
  assumes "ledger_clean l" "standing l k = Some r"
  shows "clean_need r = r" "no_marker k = k"
proof -
  have r: "r \<in> set (nl_rows l)" "nd_id r = k"
    using standing_in [OF assms(2)] by auto
  then show c: "clean_need r = r"
    using assms(1) by (simp add: ledger_clean_def)
  have "nd_id (clean_need r) = nd_id r"
    by (simp only: c)
  then show "no_marker k = k"
    using r(2) by simp
qed

section \<open>What each operation does to a standing row\<close>

lemma file_need_cases:
  assumes "file_need w q now l = (res, l')"
  obtains (no_op) "res = None" "l' = l"
  | (filed) nid prev where "nid = need_id w (nr_kind q) (nr_risk q) (nr_action q) (nr_lane q)"
      "res = Some nid" "prev = standing l nid" "\<forall>p. prev = Some p \<longrightarrow> \<not> suppressed now p"
      "nl_rows l' = nl_rows l @ [clean_need (case prev of None \<Rightarrow> fresh_need w q nid now
         | Some p \<Rightarrow> carry now p (fresh_need w q nid now))]"
proof -
  let ?nid = "need_id w (nr_kind q) (nr_risk q) (nr_action q) (nr_lane q)"
  show thesis
  proof (cases "res = None")
    case True
    then show thesis
      using assms no_op by (auto simp: file_need_def Let_def split: if_splits)
  next
    case False
    then show thesis
      using assms filed [of ?nid "standing l ?nid"]
      by (auto simp: file_need_def Let_def append_need_def split: if_splits option.splits)
  qed
qed

lemma carry_id [simp]: "nd_id (carry now p r) = nd_id r"
  by (simp add: carry_def Let_def)

lemma fresh_need_id [simp]: "nd_id (fresh_need w q nid now) = nid"
  by (simp add: fresh_need_def)

lemma carry_status:
  "nd_status (carry now p (fresh_need w q nid t)) =
     (if nd_status p = Approved_Pending_Apply then Approved_Pending_Apply
      else if nd_status p = Snoozed \<and> (case nd_snoozed_until p of None \<Rightarrow> False | Some u \<Rightarrow> now < u)
      then Snoozed else Open)"
  by (simp add: carry_def fresh_need_def Let_def)

text \<open>The rows a read expires.\<close>

definition stale_rows :: "int \<Rightarrow> needs_log \<Rightarrow> need list" where
  "stale_rows now l = filter (stale now) (List.map_filter (current now) (map snd (merged (nl_rows l))))"

lemma current_keys:
  "current now s = Some r \<Longrightarrow> nd_id r = nd_id s \<and> nd_last_seen r = nd_last_seen s
     \<and> (nd_status r = Open \<and> nd_status s \<in> {Open, Snoozed}
        \<or> nd_status r = Approved_Pending_Apply \<and> nd_status s = Approved_Pending_Apply)"
  by (auto simp: current_def split: if_splits option.splits)

lemma in_map_filter: "y \<in> set (List.map_filter f xs) \<longleftrightarrow> (\<exists>x \<in> set xs. f x = Some y)"
  by (auto simp: List.map_filter_def image_def)

lemma in_current:
  "r \<in> set (List.map_filter (current now) (map snd (merged (nl_rows l)))) \<longleftrightarrow>
     (\<exists>s. standing l (nd_id r) = Some s \<and> current now s = Some r)"
proof
  assume "r \<in> set (List.map_filter (current now) (map snd (merged (nl_rows l))))"
  then obtain s where "s \<in> set (map snd (merged (nl_rows l)))" "current now s = Some r"
    unfolding in_map_filter by blast
  then show "\<exists>s. standing l (nd_id r) = Some s \<and> current now s = Some r"
    using in_merged_rows current_keys by metis
next
  assume "\<exists>s. standing l (nd_id r) = Some s \<and> current now s = Some r"
  then obtain s where "standing l (nd_id r) = Some s" "current now s = Some r"
    by blast
  then have "s \<in> set (map snd (merged (nl_rows l)))"
    using in_merged_rows [of s l] current_keys by metis
  then show "r \<in> set (List.map_filter (current now) (map snd (merged (nl_rows l))))"
    unfolding in_map_filter using \<open>current now s = Some r\<close> by blast
qed

lemma standing_fold:
  "standing (fold (\<lambda>r. append_need (f r) e) xs l) k =
     (case find (\<lambda>r. nd_id (f r) = k) (rev xs) of Some r \<Rightarrow> Some (f r) | None \<Rightarrow> standing l k)"
proof (induction xs arbitrary: l rule: rev_induct)
  case Nil
  show ?case by simp
next
  case (snoc x xs)
  then show ?case by auto
qed

lemma ledger_clean_fold:
  "(\<And>r. clean_need (f r) = f r) \<Longrightarrow> ledger_clean l \<Longrightarrow> ledger_clean (fold (\<lambda>r. append_need (f r) e) xs l)"
  by (induction xs arbitrary: l) simp_all

lemma expire_clean [simp]: "clean_need (expire now r) = expire now r"
  by (simp add: expire_def)

lemma expire_simps [simp]:
  "nd_id (expire now r) = no_marker (nd_id r)" "nd_status (expire now r) = Expired"
  by (simp_all add: expire_def)

definition sweep_one :: "int \<Rightarrow> need \<Rightarrow> need" where
  "sweep_one now s = (case current now s of None \<Rightarrow> s
     | Some r \<Rightarrow> if stale now r then expire now r else s)"

lemma list_open_log:
  "snd (list_open w now l) = (if stale_rows now l \<noteq> [] \<and> \<not> nw_append_ok w then l
     else fold (\<lambda>r. append_need (expire now r) (Some ''need_expired'')) (stale_rows now l) l)"
  by (simp add: list_open_def stale_rows_def Let_def)

lemma stale_rows_iff:
  "r \<in> set (stale_rows now l) \<longleftrightarrow> (\<exists>s. standing l (nd_id r) = Some s \<and> current now s = Some r) \<and> stale now r"
  unfolding stale_rows_def set_filter by (simp only: mem_Collect_eq in_current conj_commute)

lemma stale_row_id:
  assumes "ledger_clean l" "r \<in> set (stale_rows now l)"
  shows "no_marker (nd_id r) = nd_id r"
  using assms standing_clean(2) unfolding stale_rows_iff by blast

lemma standing_sweep:
  assumes "ledger_clean l"
  shows "standing (fold (\<lambda>r. append_need (expire now r) (Some ''need_expired'')) (stale_rows now l) l) k
    = map_option (sweep_one now) (standing l k)"
proof (cases "find (\<lambda>r. nd_id (expire now r) = k) (rev (stale_rows now l))")
  case None
  have "sweep_one now s = s" if s: "standing l k = Some s" for s
  proof (cases "current now s")
    case (Some r)
    then have "nd_id r = k"
      using current_keys standing_in [OF s] by auto
    then have "r \<notin> set (stale_rows now l)"
      using None stale_row_id [OF assms, of r now] by (auto simp: find_None_iff)
    then show ?thesis
      using Some s \<open>nd_id r = k\<close> unfolding stale_rows_iff by (auto simp: sweep_one_def)
  qed (simp add: sweep_one_def)
  then show ?thesis
    using None by (cases "standing l k") (simp_all add: standing_fold)
next
  case (Some r)
  then have r: "r \<in> set (stale_rows now l)" "nd_id r = k"
    using find_SomeD [OF Some] stale_row_id [OF assms, of r now] by auto
  then obtain s where "standing l k = Some s" "current now s = Some r" "stale now r"
    unfolding stale_rows_iff by blast
  then show ?thesis
    using Some by (simp add: standing_fold sweep_one_def)
qed

lemma list_open_standing:
  assumes "ledger_clean l"
  shows "standing (snd (list_open w now l)) k = standing l k
     \<or> standing (snd (list_open w now l)) k = map_option (sweep_one now) (standing l k)"
  using standing_sweep [OF assms] by (simp add: list_open_log)

lemma ledger_clean_list_open: "ledger_clean l \<Longrightarrow> ledger_clean (snd (list_open w now l))"
  by (simp add: list_open_log ledger_clean_fold)

lemma ledger_clean_file_need:
  assumes "file_need w q now l = (res, l')" "ledger_clean l"
  shows "ledger_clean l'"
  using assms(1)
proof (cases rule: file_need_cases)
  case no_op
  then show ?thesis using assms(2) by simp
next
  case (filed nid prev)
  then show ?thesis using assms(2) by (auto simp: ledger_clean_def)
qed

lemma mark_log:
  assumes "ledger_clean l"
  shows "ledger_clean (snd (mark w nid st b re now l))"
    and "k \<noteq> nid \<Longrightarrow> standing (snd (mark w nid st b re now l)) k = standing l k"
    and "standing l k \<noteq> None \<Longrightarrow> standing (snd (mark w nid st b re now l)) k \<noteq> None"
proof -
  have id: "no_marker (nd_id p) = nid" if "standing l nid = Some p" for p
    using standing_clean(2) [OF assms that] standing_in [OF that] by simp
  show "ledger_clean (snd (mark w nid st b re now l))"
    using assms by (simp add: mark_def Let_def split: option.splits)
  show "k \<noteq> nid \<Longrightarrow> standing (snd (mark w nid st b re now l)) k = standing l k"
    using id by (simp add: mark_def Let_def split: option.splits)
  show "standing l k \<noteq> None \<Longrightarrow> standing (snd (mark w nid st b re now l)) k \<noteq> None"
    by (auto simp: mark_def Let_def split: option.splits)
qed

lemma close_covered_log:
  assumes "ledger_clean l"
  shows "ledger_clean (snd (close_covered w cov now rows l))
     \<and> (\<forall>k. k \<notin> {nd_id r | r. r \<in> set rows \<and> nd_status r = Open}
            \<longrightarrow> standing (snd (close_covered w cov now rows l)) k = standing l k)
     \<and> (\<forall>k. standing l k \<noteq> None \<longrightarrow> standing (snd (close_covered w cov now rows l)) k \<noteq> None)"
  using assms
proof (induction rows arbitrary: l)
  case Nil
  then show ?case by simp
next
  case (Cons r rs)
  show ?case
  proof (cases "nd_kind r \<noteq> ''standing_grant'' \<or> nd_status r \<noteq> Open \<or> cov r = None")
    case True
    then have "close_covered w cov now (r # rs) l = close_covered w cov now rs l"
      by (auto split: option.splits)
    then show ?thesis
      using Cons.IH [OF Cons.prems] by auto
  next
    case False
    then obtain gid where gid: "cov r = Some gid" "nd_kind r = ''standing_grant''" "nd_status r = Open"
      by auto
    define l1 where "l1 = snd (mark w (nd_id r) ''granted'' (''cross_check:'' @ gid)
        (Some ''covered by standing grant'') now l)"
    have step: "snd (close_covered w cov now (r # rs) l) = snd (close_covered w cov now rs l1)"
      using gid by (simp add: l1_def split: prod.splits)
    have m: "ledger_clean l1" "k \<noteq> nd_id r \<Longrightarrow> standing l1 k = standing l k"
        "standing l k \<noteq> None \<Longrightarrow> standing l1 k \<noteq> None" for k
      unfolding l1_def by (rule mark_log [OF Cons.prems]; assumption)+
    let ?l' = "snd (close_covered w cov now rs l1)"
    have ih: "ledger_clean ?l'"
      "k \<notin> {nd_id x | x. x \<in> set rs \<and> nd_status x = Open} \<Longrightarrow> standing ?l' k = standing l1 k"
      "standing l1 k \<noteq> None \<Longrightarrow> standing ?l' k \<noteq> None" for k
      using Cons.IH [OF m(1)] by blast+
    show ?thesis
      unfolding step
    proof (intro conjI allI impI)
      show "ledger_clean ?l'" by (rule ih(1))
    next
      fix k
      assume "k \<notin> {nd_id x | x. x \<in> set (r # rs) \<and> nd_status x = Open}"
      then have "k \<noteq> nd_id r" "k \<notin> {nd_id x | x. x \<in> set rs \<and> nd_status x = Open}"
        using gid(3) by auto
      then show "standing ?l' k = standing l k"
        by (simp add: ih(2) m(2))
    next
      fix k
      assume "standing l k \<noteq> None"
      then show "standing ?l' k \<noteq> None"
        by (rule ih(3) [OF m(3)])
    qed
  qed
qed

lemmas close_covered_clean = close_covered_log [THEN conjunct1]
  and close_covered_other = close_covered_log [THEN conjunct2, THEN conjunct1, THEN spec, THEN mp]

section \<open>The captain's answers hold\<close>

text \<open>What the operations that run without the captain can do to the ledger before a moment.\<close>

inductive unattended :: "int \<Rightarrow> needs_log \<Rightarrow> needs_log \<Rightarrow> bool" for t l where
  start: "unattended t l l"
| filing: "unattended t l l1 \<Longrightarrow> now < t \<Longrightarrow> file_need w q now l1 = (res, l2) \<Longrightarrow> unattended t l l2"
| reading: "unattended t l l1 \<Longrightarrow> now < t \<Longrightarrow> list_open w now l1 = (rows, l2) \<Longrightarrow> unattended t l l2"
| crossing: "unattended t l l1 \<Longrightarrow> now < t \<Longrightarrow> cross_check_grants w cov now l1 = (ids, l2) \<Longrightarrow>
     unattended t l l2"

text \<open>A row whose answer is in force until the moment, and what keeping it means.\<close>

definition answered :: "int \<Rightarrow> need \<Rightarrow> bool" where
  "answered t r \<longleftrightarrow> nd_status r = Approved_Pending_Apply
     \<or> nd_status r = Denied \<and> (case nd_suppressed_until r of None \<Rightarrow> False | Some u \<Rightarrow> t \<le> u)
     \<or> nd_status r = Snoozed \<and> (case nd_snoozed_until r of None \<Rightarrow> False | Some u \<Rightarrow> t \<le> u)"

definition keeps_answer :: "need \<Rightarrow> need \<Rightarrow> bool" where
  "keeps_answer r r' \<longleftrightarrow> nd_status r' = nd_status r
     \<and> (nd_status r = Denied \<longrightarrow> r' = r)
     \<and> (nd_status r = Snoozed \<longrightarrow> nd_snoozed_until r' = nd_snoozed_until r)
     \<and> (nd_status r = Approved_Pending_Apply \<longrightarrow> nd_marked_by r' = nd_marked_by r
          \<and> nd_marked_at r' = nd_marked_at r \<and> nd_reason r' = nd_reason r)"

lemma keeps_refl [simp]: "keeps_answer r r"
  by (simp add: keeps_answer_def)

lemma keeps_trans: "keeps_answer r s \<Longrightarrow> keeps_answer s u \<Longrightarrow> keeps_answer r u"
  by (auto simp: keeps_answer_def)

lemma keeps_answered: "answered t r \<Longrightarrow> keeps_answer r s \<Longrightarrow> answered t s"
  by (auto simp: answered_def keeps_answer_def)

lemma current_answered:
  assumes "answered t r" "now < t" "current now r = Some x"
  shows "x = r \<and> nd_status r = Approved_Pending_Apply"
  using assms by (auto simp: answered_def current_def split: if_splits option.splits)

lemma sweep_answered: "answered t r \<Longrightarrow> now < t \<Longrightarrow> sweep_one now r = r"
  by (auto simp: sweep_one_def stale_def dest: current_answered split: option.splits)

lemma clean_fields:
  assumes "clean_need r = r"
  shows "map_option no_marker (nd_marked_by r) = nd_marked_by r"
    and "map_option no_marker (nd_reason r) = nd_reason r"
proof -
  have "nd_marked_by (clean_need r) = nd_marked_by r" "nd_reason (clean_need r) = nd_reason r"
    by (simp_all only: assms)
  then show "map_option no_marker (nd_marked_by r) = nd_marked_by r"
    and "map_option no_marker (nd_reason r) = nd_reason r"
    by (simp_all add: clean_need_def)
qed

lemma carry_keeps:
  assumes "answered t r" "now < t" "clean_need r = r" "\<not> suppressed now r"
  shows "keeps_answer r (clean_need (carry now r (fresh_need w q nid now)))"
  using assms(1,2,4) clean_fields [OF assms(3)]
  by (auto simp: answered_def keeps_answer_def suppressed_def carry_def fresh_need_def clean_need_def
      split: option.splits)

lemma filing_keeps:
  assumes "file_need w q now l = (res, l')" "now < t" "ledger_clean l"
    and "standing l k = Some r" "answered t r"
  shows "\<exists>r'. standing l' k = Some r' \<and> keeps_answer r r'"
  using assms(1)
proof (cases rule: file_need_cases)
  case no_op
  then show ?thesis using assms(4) by simp
next
  case (filed nid prev)
  show ?thesis
  proof (cases "nid = k")
    case True
    then have "prev = Some r"
      using filed(3) assms(4) by simp
    then show ?thesis
      using filed(1,4,5) True carry_keeps [OF assms(5,2) standing_clean(1) [OF assms(3,4)]]
      by (simp add: standing_extend)
  next
    case False
    then show ?thesis
      using filed(1,5) assms(4) by (simp add: standing_extend split: option.splits)
  qed
qed

lemma reading_keeps:
  assumes "list_open w now l = (rows, l')" "now < t" "ledger_clean l"
    and "standing l k = Some r" "answered t r"
  shows "standing l' k = Some r"
proof -
  have "l' = snd (list_open w now l)"
    using assms(1) by simp
  then show ?thesis
    using list_open_standing [OF assms(3), of w now k] sweep_answered [OF assms(5,2)] assms(4) by auto
qed

lemma list_open_rows:
  assumes "r \<in> set (fst (list_open w now l))"
  shows "\<exists>s x. standing l (nd_id x) = Some s \<and> current now s = Some x \<and> \<not> stale now x \<and> r = clean_need x"
proof -
  have "\<exists>x \<in> set (List.map_filter (current now) (map snd (merged (nl_rows l)))). \<not> stale now x \<and> r = clean_need x"
    using assms by (auto simp: list_open_def Let_def split: if_splits)
  then show ?thesis
    unfolding Bex_def in_current by blast
qed

lemma crossing_keeps:
  assumes "cross_check_grants w cov now l = (ids, l')" "now < t" "ledger_clean l"
    and "standing l k = Some r" "answered t r"
  shows "standing l' k = Some r"
proof -
  obtain rows l1 where read: "list_open w now l = (rows, l1)"
    by (cases "list_open w now l")
  then have l': "l' = snd (close_covered w cov now rows l1)"
    using assms(1) by (simp add: cross_check_grants_def)
  have l1: "standing l1 k = Some r" "ledger_clean l1"
    using reading_keeps [OF read assms(2-5)] ledger_clean_list_open [OF assms(3), of w now] read by auto
  have "k \<notin> {nd_id x | x. x \<in> set rows \<and> nd_status x = Open}"
  proof
    assume "k \<in> {nd_id x | x. x \<in> set rows \<and> nd_status x = Open}"
    then obtain x where "x \<in> set (fst (list_open w now l))" "nd_id x = k" "nd_status x = Open"
      using read by auto
    then obtain s y where y: "standing l (nd_id y) = Some s" "current now s = Some y" "x = clean_need y"
      "nd_status y = Open" "no_marker (nd_id y) = k"
      using list_open_rows by fastforce
    then have "s = r"
      using standing_clean(2) [OF assms(3) y(1)] assms(4) by simp
    then show False
      using current_answered [OF assms(5,2)] y(2,4) by auto
  qed
  then show ?thesis
    using l1(1) close_covered_other [OF l1(2)] unfolding l' by simp
qed

lemma unattended_invariant:
  assumes "unattended t l l'" "ledger_clean l" "standing l k = Some r" "answered t r"
  shows "ledger_clean l' \<and> (\<exists>r'. standing l' k = Some r' \<and> keeps_answer r r')"
  using assms(1)
proof induction
  case start
  show ?case using assms(2,3) by simp
next
  case (filing l1 now w q res l2)
  then obtain r1 where "ledger_clean l1" "standing l1 k = Some r1" "keeps_answer r r1"
    by blast
  then show ?case
    using filing_keeps [OF filing.hyps(3,2)] ledger_clean_file_need [OF filing.hyps(3)]
      keeps_answered [OF assms(4)] keeps_trans by blast
next
  case (reading l1 now w rows l2)
  then obtain r1 where r1: "ledger_clean l1" "standing l1 k = Some r1" "keeps_answer r r1"
    by blast
  have "ledger_clean l2"
    using ledger_clean_list_open [OF r1(1), of w now] reading.hyps(3) by simp
  moreover have "standing l2 k = Some r1"
    by (rule reading_keeps [OF reading.hyps(3,2) r1(1,2) keeps_answered [OF assms(4) r1(3)]])
  ultimately show ?case
    using r1(3) by blast
next
  case (crossing l1 now w cov ids l2)
  then obtain r1 where r1: "ledger_clean l1" "standing l1 k = Some r1" "keeps_answer r r1"
    by blast
  have "ledger_clean l2"
    using close_covered_clean [OF ledger_clean_list_open [OF r1(1), of w now]] crossing.hyps(3)
    by (auto simp: cross_check_grants_def split: prod.splits) (metis snd_conv)
  moreover have "standing l2 k = Some r1"
    by (rule crossing_keeps [OF crossing.hyps(3,2) r1(1,2) keeps_answered [OF assms(4) r1(3)]])
  ultimately show ?case
    using r1(3) by blast
qed

text \<open>
  C22: what the captain answered holds against everything that runs without the captain. Let any
  sequence of filings, reads with their expiry sweep and coverage checks happen before a moment: a
  need denied with its suppression reaching that moment keeps exactly its row, a need snoozed beyond
  it stays snoozed until the same time, and an approval stays pending with the same signer, time and
  reason.
\<close>

theorem captains_answer_holds:
  assumes "unattended t l l'" "ledger_clean l" "standing l k = Some r" "answered t r"
  shows "\<exists>r'. standing l' k = Some r' \<and> nd_status r' = nd_status r
     \<and> (nd_status r = Denied \<longrightarrow> r' = r)
     \<and> (nd_status r = Snoozed \<longrightarrow> nd_snoozed_until r' = nd_snoozed_until r)
     \<and> (nd_status r = Approved_Pending_Apply \<longrightarrow> nd_marked_by r' = nd_marked_by r
          \<and> nd_marked_at r' = nd_marked_at r \<and> nd_reason r' = nd_reason r)"
  using unattended_invariant [OF assms] by (simp only: keeps_answer_def)

definition sample_needs :: needs_world where
  "sample_needs = \<lparr>nw_wired = True, nw_enforcing = False, nw_flag_file = False, nw_posture = None,
     nw_cabinet = ''main'', nw_digest = (\<lambda>s. word_of_int (int (length s) * 2654435761)), nw_append_ok = True\<rparr>"

definition sample_filing :: need_request where
  "sample_filing = \<lparr>nr_kind = ''standing_grant'', nr_risk = Some ''external_comms'',
     nr_action = Some ''external_email'', nr_lane = Some ''ops'', nr_why = ''blocked'', nr_unblocks = [],
     nr_line = None, nr_cost = ''medium'', nr_cost_note = None, nr_filed_by = ''gate'', nr_cid = None,
     nr_hint = PDict [(''recipient'', PStr ''ann@example.com'')]\<rparr>"

definition sample_id :: string where
  "sample_id = need_id sample_needs ''standing_grant'' (Some ''external_comms'') (Some ''external_email'') (Some ''ops'')"

definition no_needs :: needs_log where
  "no_needs = \<lparr>nl_rows = [], nl_events = [], nl_pings = []\<rparr>"

definition sample_open :: needs_log where
  "sample_open = snd (file_need sample_needs sample_filing 0 no_needs)"

definition sample_denied :: needs_log where
  "sample_denied = snd (mark sample_needs sample_id ''denied'' ''captain'' (Some ''no'') 1000000 sample_open)"

lemma no_needs_simps [simp]: "standing no_needs k = None" "ledger_clean no_needs"
  by (simp_all add: no_needs_def standing_def merged_def ledger_clean_def)

lemma sample_open_clean: "ledger_clean sample_open"
  unfolding sample_open_def by (metis ledger_clean_file_need prod.collapse no_needs_simps(2))

lemma sample_open_row:
  "standing sample_open sample_id = Some (clean_need (fresh_need sample_needs sample_filing sample_id 0))"
proof -
  have "no_marker sample_id = sample_id"
    by (simp add: sample_id_def)
  moreover have "nr_kind sample_filing \<in> set KINDS" "needs_enabled sample_needs" "nw_append_ok sample_needs"
      "nr_cost sample_filing \<noteq> ''blocking''"
      "need_id sample_needs (nr_kind sample_filing) (nr_risk sample_filing) (nr_action sample_filing)
         (nr_lane sample_filing) = sample_id"
    by (simp_all add: sample_filing_def KINDS_def needs_enabled_def sample_needs_def sample_id_def)
  ultimately show ?thesis
    by (simp add: sample_open_def file_need_def Let_def)
qed

theorem captains_answer_holds_witness:
  "\<exists>r'. standing (snd (file_need sample_needs sample_filing 2000000 sample_denied)) sample_id = Some r'
     \<and> nd_status r' = Denied"
proof -
  let ?t = "3000000 :: int"
  obtain res l2 where f: "file_need sample_needs sample_filing 2000000 sample_denied = (res, l2)"
    by (cases "file_need sample_needs sample_filing 2000000 sample_denied")
  have u: "unattended ?t sample_denied l2"
    by (rule unattended.filing [OF unattended.start _ f]) simp
  have "standing sample_denied sample_id \<noteq> None"
    unfolding sample_denied_def by (rule mark_log(3) [OF sample_open_clean]) (simp add: sample_open_row)
  then obtain r where r: "standing sample_denied sample_id = Some r"
    by blast
  have nw: "nw_append_ok sample_needs" "no_marker sample_id = sample_id"
    by (simp_all add: sample_needs_def sample_id_def)
  have d: "nd_status r = Denied" "nd_suppressed_until r = Some (iso (1000000 + DENY_SUPPRESS_DAYS * day_us))"
    using r nw by (auto simp: sample_denied_def mark_def sample_open_row Let_def)
  have c: "ledger_clean sample_denied"
    unfolding sample_denied_def by (rule mark_log(1) [OF sample_open_clean])
  have "answered ?t r"
    using d by (simp add: answered_def day_us_def iso_def DENY_SUPPRESS_DAYS_def)
  from captains_answer_holds [OF u c r this] show ?thesis
    using f d by auto
qed

section \<open>Reading\<close>

lemma clean_status: "clean_need (s\<lparr>nd_status := x\<rparr>) = (clean_need s)\<lparr>nd_status := x\<rparr>"
  by (cases s) (simp add: clean_need_def)

lemma current_clean: "clean_need s = s \<Longrightarrow> current now s = Some r \<Longrightarrow> clean_need r = r"
  by (auto simp: current_def clean_status split: if_splits option.splits)

lemma map_filter_current_ids:
  "map nd_id (List.map_filter (current now) xs) = map nd_id (filter (\<lambda>s. current now s \<noteq> None) xs)"
  by (induction xs) (auto simp: List.map_filter_simps dest: current_keys split: option.splits)

lemma distinct_map_filter_ids: "distinct (map nd_id xs) \<Longrightarrow> distinct (map nd_id (filter P xs))"
  by (induction xs) auto

lemma list_open_out:
  assumes "ledger_clean l" "stale_rows now l = [] \<or> nw_append_ok w"
  shows "fst (list_open w now l) = sort_key (\<lambda>r. - nd_last_seen r)
     (filter (\<lambda>r. \<not> stale now r) (List.map_filter (current now) (map snd (merged (nl_rows l)))))"
proof -
  let ?cur = "List.map_filter (current now) (map snd (merged (nl_rows l)))"
  have "clean_need r = r" if "r \<in> set ?cur" for r
    using that standing_clean(1) [OF assms(1)] current_clean unfolding in_current by blast
  then have "map clean_need (filter (\<lambda>r. \<not> stale now r) ?cur) = filter (\<lambda>r. \<not> stale now r) ?cur"
    by (intro map_idI) simp
  then show ?thesis
    using assms(2) by (auto simp: list_open_def stale_rows_def Let_def)
qed

lemma list_open_set:
  assumes "ledger_clean l" "stale_rows now l = [] \<or> nw_append_ok w"
  shows "r \<in> set (fst (list_open w now l)) \<longleftrightarrow>
     (\<exists>s. standing l (nd_id r) = Some s \<and> current now s = Some r \<and> \<not> stale now r)"
  unfolding list_open_out [OF assms] set_sort set_filter mem_Collect_eq in_current by blast

lemma sweep_current:
  "current now (sweep_one now s) = Some r \<longleftrightarrow> current now s = Some r \<and> \<not> stale now r"
proof -
  have "current now (expire now x) = None" for x
    by (simp add: current_def)
  then show ?thesis
    by (auto simp: sweep_one_def split: option.splits)
qed

lemma swept_once:
  assumes "\<forall>k. standing l' k = map_option (sweep_one now) (standing l k)"
  shows "stale_rows now l' = []"
proof -
  have "r \<notin> set (stale_rows now l')" for r
    unfolding stale_rows_iff using assms sweep_current by auto
  then show ?thesis
    by (cases "stale_rows now l'") force+
qed

text \<open>
  Reading shows exactly what is open, newest first, and writes exactly the expiries. The read
  returns one row per need, ordered by last filing; a row is returned if and only if it is the
  standing row of its need, pending approval or open (or snoozed past its time), and an open one was
  filed within thirty days; after the read every other need's standing row is what it was and the
  stale ones stand expired; and reading again at the same moment writes nothing and shows the same
  needs.
\<close>

theorem list_open_spec:
  assumes "ledger_clean l" "nw_append_ok w" "list_open w now l = (rows, l')"
  shows "sorted (map (\<lambda>r. - nd_last_seen r) rows) \<and> distinct (map nd_id rows)
     \<and> (\<forall>r. r \<in> set rows \<longleftrightarrow> (\<exists>s. standing l (nd_id r) = Some s \<and> current now s = Some r \<and> \<not> stale now r))
     \<and> (\<forall>k. standing l' k = map_option (\<lambda>s. case current now s of
            Some r \<Rightarrow> if stale now r then expire now r else s | None \<Rightarrow> s) (standing l k))
     \<and> (\<exists>rows'. list_open w now l' = (rows', l') \<and> set rows' = set rows)"
proof -
  let ?cur = "List.map_filter (current now) (map snd (merged (nl_rows l)))"
  have ok: "stale_rows now l = [] \<or> nw_append_ok w"
    using assms(2) by simp
  have rows: "rows = fst (list_open w now l)" and l': "l' = snd (list_open w now l)"
    using assms(3) by simp_all
  note out = rows [unfolded list_open_out [OF assms(1) ok]]
  have "distinct (map nd_id (filter (\<lambda>r. \<not> stale now r) ?cur))"
    by (intro distinct_map_filter_ids) (simp only: map_filter_current_ids distinct_map_filter_ids distinct_merged_ids)
  then have dist: "distinct (map nd_id rows)"
    by (simp add: out distinct_map)
  have st: "\<forall>k. standing l' k = map_option (sweep_one now) (standing l k)"
    using standing_sweep [OF assms(1)] assms(2) by (simp add: l' list_open_log)
  have again: "stale_rows now l' = []"
    by (rule swept_once [OF st])
  have log: "snd (list_open w now l') = l'"
    by (simp add: list_open_log again)
  have clean': "ledger_clean l'"
    unfolding l' by (rule ledger_clean_list_open [OF assms(1)])
  have "r \<in> set (fst (list_open w now l')) \<longleftrightarrow> r \<in> set rows" for r
    unfolding rows list_open_set [OF assms(1) ok] list_open_set [OF clean' disjI1 [OF again]]
    using st sweep_current by auto
  then have same: "set (fst (list_open w now l')) = set rows"
    by blast
  have sorted: "sorted (map (\<lambda>r. - nd_last_seen r) rows)"
    by (simp add: out)
  have member: "\<forall>r. r \<in> set rows \<longleftrightarrow>
      (\<exists>s. standing l (nd_id r) = Some s \<and> current now s = Some r \<and> \<not> stale now r)"
    using list_open_set [OF assms(1) ok] unfolding rows by blast
  show ?thesis
    using sorted dist member st log same
    by (intro conjI exI [of _ "fst (list_open w now l')"]) (simp_all add: sweep_one_def [abs_def] prod_eq_iff)
qed

theorem list_open_spec_witness:
  "map_option nd_status (standing (snd (list_open sample_needs (31 * day_us) sample_open)) sample_id)
     = Some Expired"
proof -
  let ?now = "31 * day_us"
  obtain rows l' where l: "list_open sample_needs ?now sample_open = (rows, l')"
    by (cases "list_open sample_needs ?now sample_open")
  have "nw_append_ok sample_needs"
    by (simp add: sample_needs_def)
  then have st: "\<forall>k. standing l' k = map_option (\<lambda>s. case current ?now s of
            Some r \<Rightarrow> if stale ?now r then expire ?now r else s | None \<Rightarrow> s) (standing sample_open k)"
    using list_open_spec [OF sample_open_clean _ l] by blast
  have "nd_status (fresh_need sample_needs sample_filing sample_id 0) = Open"
      "nd_last_seen (fresh_need sample_needs sample_filing sample_id 0) = 0"
    by (simp_all add: fresh_need_def iso_def)
  then show ?thesis
    using st l by (simp add: sample_open_row current_def stale_def OPEN_EXPIRY_DAYS_def day_us_def)
qed

section \<open>The proposed grant line\<close>

lemma window_bounds:
  fixes now :: int
  shows "iso now < (now + 90 * day_us) div day_us * day_us"
    and "(now + 90 * day_us) div day_us * day_us - iso now \<le> 90 * day_us"
proof -
  define q where "q = (now + 90 * day_us) div day_us"
  have e: "q * day_us \<le> now + 90 * day_us" "now + 90 * day_us < q * day_us + day_us"
    using mult_div_mod_eq [of day_us "now + 90 * day_us"] pos_mod_bound [of day_us "now + 90 * day_us"]
      pos_mod_sign [of day_us "now + 90 * day_us"]
    by (simp_all add: q_def mult.commute day_us_def)
  have i: "iso now \<le> now" "now < iso now + 1000000"
    using mult_div_mod_eq [of 1000000 now] pos_mod_bound [of 1000000 now] pos_mod_sign [of 1000000 now]
    by (simp_all add: iso_def)
  show "iso now < (now + 90 * day_us) div day_us * day_us"
    using e(2) i(1) unfolding q_def [symmetric] by (simp add: day_us_def)
  define t where "t = now div 1000000"
  have t: "iso now = t * 1000000"
    by (simp add: iso_def t_def)
  have "q * 86400 \<le> t + 90 * 86400"
    using e(1) i(2) unfolding t day_us_def by simp
  then show "(now + 90 * day_us) div day_us * day_us - iso now \<le> 90 * day_us"
    unfolding q_def [symmetric] t by (simp add: day_us_def)
qed

lemma ceiling_kind_nonblank:
  "(rc, kinds) \<in> set CEILING_CLASS_ACTION_TYPES \<Longrightarrow> kind \<in> set kinds \<Longrightarrow> strip kind \<noteq> [] \<and> rc \<noteq> []"
proof -
  have "list_all (\<lambda>(rc, kinds). rc \<noteq> [] \<and> list_all (\<lambda>k. strip k \<noteq> []) kinds) CEILING_CLASS_ACTION_TYPES"
    by code_simp
  then show "(rc, kinds) \<in> set CEILING_CLASS_ACTION_TYPES \<Longrightarrow> kind \<in> set kinds \<Longrightarrow> ?thesis"
    by (force simp: list_all_iff)
qed

lemma ceiling_lookup_kinds:
  assumes "(rc, kinds) \<in> set CEILING_CLASS_ACTION_TYPES"
  shows "map_of CEILING_CLASS_ACTION_TYPES rc = Some kinds"
proof (rule map_of_is_SomeI [OF _ assms])
  show "distinct (map fst CEILING_CLASS_ACTION_TYPES)"
    by code_simp
qed

lemma hint_text_strings: "list_all is_str (hint_text hint k)"
  by (simp add: hint_text_def Let_def)

text \<open>
  The line a need proposes is one the captain can append as it is. For a kind of a ceiling
  class, a named lane, a named deployment and an amount that is not negative, the composed row
  satisfies the grants loader's closed schema; it names exactly the blocked kind and lane, allows
  one use a day, and its expiry is within the ninety days the loader allows.
\<close>

theorem proposed_line_loads:
  assumes "(rc, kinds) \<in> set CEILING_CLASS_ACTION_TYPES" "kind \<in> set kinds"
    and "strip lane \<noteq> []" "lane \<noteq> ''*''" "strip (nw_cabinet w) \<noteq> []"
    and "is_number (context_amount hint) \<longrightarrow> 0 \<le> num_of (context_amount hint)"
    and "nid = need_id w ''standing_grant'' (Some rc) (Some kind) (Some lane)"
  shows "\<exists>line. compose_grant_line w nid (Some rc) (Some kind) (Some lane) hint now = Some line
     \<and> row_error line = None \<and> dget line ''deployment'' = PStr (nw_cabinet w)
     \<and> elems (dget line ''action_types'') = [PStr kind] \<and> elems (dget line ''lanes'') = [PStr lane]
     \<and> max_per_day line = 1"
proof -
  have ne: "rc \<noteq> []" "kind \<noteq> []" "lane \<noteq> []" "strip kind \<noteq> []" "strip nid \<noteq> []"
    using assms(3) ceiling_kind_nonblank [OF assms(1,2)]
    by (auto simp: assms(7) need_id_def strip_eq_Nil is_space_def)
  have rc: "is_member (PStr rc) CEILING_RISK_CLASSES"
    using assms(1) by (force simp: is_member_def CEILING_RISK_CLASSES_def)
  have kinds: "map_of CEILING_CLASS_ACTION_TYPES rc = Some kinds"
    by (rule ceiling_lookup_kinds [OF assms(1)])
  obtain h where h: "drop (length ''NEED-'') nid = h" "length h = 8"
    by (simp add: assms(7) need_id_def hex8_def)
  have scope: "is_dict (line_scope rc hint)" "set (keys (line_scope rc hint)) \<subseteq> set SCOPE_KEYS"
      "allowlist_ok (dget (line_scope rc hint) ''recipient_allowlist'')"
      "allowlist_ok (dget (line_scope rc hint) ''vendor_allowlist'')"
      "\<not> has_key (line_scope rc hint) ''max_eur_per_day''"
      "is_number (scope_amount_cap (line_scope rc hint))" "0 \<le> num_of (scope_amount_cap (line_scope rc hint))"
    using hint_text_strings assms(6)
    by (auto simp: line_scope_def Let_def SCOPE_KEYS_def allowlist_ok_def dget_def has_key_def
        scope_amount_cap_def)
  obtain line where line: "compose_grant_line w nid (Some rc) (Some kind) (Some lane) hint now = Some line"
    and f: "is_dict line" "keys line = GRANT_KEYS" "dget line ''id'' = PStr (''GRANT-'' @ h)"
      "dget line ''deployment'' = PStr (nw_cabinet w)" "dget line ''risk_class'' = PStr rc"
      "dget line ''action_types'' = PList [PStr kind]" "dget line ''lanes'' = PList [PStr lane]"
      "dget line ''scope'' = line_scope rc hint" "dget line ''rate'' = PDict [(''max_per_day'', PInt 1)]"
      "dget line ''expires'' = PDate ((now + 90 * day_us) div day_us)"
      "dget line ''granted_by'' = PStr ''Captain''" "dget line ''granted_at'' = PDatetime (iso now) None"
      "dget line ''basis'' = PStr nid" "dget line ''revoked'' = PBool False"
    using ne h by (simp add: compose_grant_line_def truthy_opt_def GRANT_KEYS_def dget_def)
  define e where "e = (now + 90 * day_us) div day_us * day_us"
  have e: "to_dt (PDate ((now + 90 * day_us) div day_us)) = Some e"
      "iso now < e" "e - iso now \<le> 90 * day_us"
    using window_bounds [of now] by (simp_all only: to_dt_def e_def pyval.case)
  have at: "to_dt (PDatetime (iso now) None) = Some (iso now)"
    by (simp add: to_dt_def instant_def)
  have rate: "dget (PDict [(''max_per_day'', PInt 1)]) ''max_per_day'' = PInt 1"
    by (simp add: dget_def)
  have "strip ''Captain'' \<noteq> []"
    by (simp add: strip_eq_Nil is_space_def)
  then have "row_error line = None"
    unfolding row_error_def Let_def f e(1) at rate
    using ne rc kinds scope assms(2-5) e(2,3) h
    by (simp add: bad_def p_hash_def is_str_list_def MAX_EXPIRY_HORIZON_DAYS_def f starts_with_def)
  then show ?thesis
    using line f rate by (intro exI [of _ line]) (simp add: max_per_day_def Let_def)
qed

theorem proposed_line_loads_witness:
  "\<exists>line. compose_grant_line sample_needs sample_id (Some ''external_comms'') (Some ''external_email'')
      (Some ''ops'') (PDict [(''recipient'', PStr ''ann@example.com'')]) 0 = Some line \<and> row_error line = None"
proof -
  obtain kinds where k: "(''external_comms'', kinds) \<in> set CEILING_CLASS_ACTION_TYPES" "''external_email'' \<in> set kinds"
    by (simp add: CEILING_CLASS_ACTION_TYPES_def EXTERNAL_COMMS_def)
  have s: "strip ''ops'' \<noteq> []" "strip (nw_cabinet sample_needs) \<noteq> []" "''ops'' \<noteq> ''*''"
    by (simp_all add: strip_eq_Nil is_space_def sample_needs_def)
  have n: "is_number (context_amount (PDict [(''recipient'', PStr ''ann@example.com'')])) \<longrightarrow>
      0 \<le> num_of (context_amount (PDict [(''recipient'', PStr ''ann@example.com'')]))"
    by (simp add: context_amount_def dget_def)
  from proposed_line_loads [OF k s(1,3,2) n sample_id_def] show ?thesis
    by blast
qed

end
