(* ===== verification/Gate.thy ===== *)
theory Gate
  imports Matrix_Laws Undo Graduation Trust_Ladder Needs
begin

text \<open>
  The authority gate: the matrix evaluation of \<^verbatim>\<open>framework/authority/policy_engine.py\<close> with
  the components it calls, and the policy layers it is loaded from. The classifier's answer and the
  lane are arguments of the world; a component that cannot be imported is None. The state is Redis,
  the needs ledger, the refile markers and the events the gate emits. A message is its text up to
  the policy's own message.
\<close>

section \<open>World and state\<close>

record journal_dir =
  jd_absolute :: bool
  jd_chain :: "(bool \<times> bool) option list"   \<comment> \<open>the directory and its ancestors: is it a directory, is it writable\<close>

record grants_kernel =
  gk_files :: grants_world
  gk_cabinet :: string
  gk_vetoed :: "string \<Rightarrow> bool option"       \<comment> \<open>None: the registry cannot be read\<close>

record evidence_plane =
  ep_sovereign :: bool                       \<comment> \<open>what the ratio computation resolves for gate confirms\<close>
  ep_policy :: pyval
  ep_ledger :: "pyval list"

record gate_world =
  gt_classify :: "(string \<Rightarrow> pyval \<Rightarrow> string) option"
  gt_lane :: "string option"
  gt_posture :: "posture_world option"
  gt_grants :: "grants_kernel option"
  gt_needs :: "needs_world option"
  gt_ladder :: "ladder_world option"
  gt_evidence :: "evidence_plane option"     \<comment> \<open>None: import or read of the ledger raises\<close>
  gt_undo :: "bool option"                   \<comment> \<open>the reminder backend switch; None: registry unavailable\<close>
  gt_undo_dir :: "journal_dir option"        \<comment> \<open>None: the probe raises\<close>
  gt_marker_path :: bool
  gt_marker_write :: bool
  gt_now :: int

record gate_event =
  ge_kind :: string
  ge_class :: string
  ge_action :: string
  ge_grant :: "string option"

record gate_state =
  gs_redis :: redis
  gs_needs :: needs_log
  gs_markers :: "(string \<times> int) list"
  gs_events :: "gate_event list"

datatype decision_kind = Propose | Gated | Unclassified

datatype gate_answer = Allow | Block decision_kind string "string option"

section \<open>Needs behind a refusal\<close>

definition PROPOSE_REFILE_SECONDS :: int where "PROPOSE_REFILE_SECONDS = 3600"

definition plain_need :: "string \<Rightarrow> string option \<Rightarrow> string \<Rightarrow> string option \<Rightarrow> string \<Rightarrow> string \<Rightarrow> need_request" where
  "plain_need kind rc action lane why by' = \<lparr>nr_kind = kind, nr_risk = rc, nr_action = Some action, nr_lane = lane,
     nr_why = why, nr_unblocks = [], nr_line = None, nr_cost = ''medium'', nr_cost_note = None,
     nr_filed_by = by', nr_cid = None, nr_hint = PNone\<rparr>"

definition file_in :: "gate_world \<Rightarrow> need_request \<Rightarrow> gate_state \<Rightarrow> string option \<times> gate_state" where
  "file_in w q st = (case gt_needs w of None \<Rightarrow> (None, st)
     | Some nw \<Rightarrow> (case file_need nw q (gt_now w) (gs_needs st) of (r, l1) \<Rightarrow> (r, st\<lparr>gs_needs := l1\<rparr>)))"

definition file_propose_need ::
  "gate_world \<Rightarrow> string \<Rightarrow> string \<Rightarrow> string \<Rightarrow> string \<Rightarrow> gate_state \<Rightarrow> string option \<times> gate_state" where
  "file_propose_need w rc action officer why st = (case gt_needs w of None \<Rightarrow> (None, st)
     | Some nw \<Rightarrow>
         let nid = need_id nw ''capability'' (Some rc) (Some action) (gt_lane w) in
         if gt_marker_path w \<and> (case map_of (gs_markers st) nid of None \<Rightarrow> False
              | Some m \<Rightarrow> \<bar>gt_now w - m\<bar> < PROPOSE_REFILE_SECONDS * 1000000)
         then (Some nid, st)
         else (case file_in w (plain_need ''capability'' (Some rc) action (gt_lane w) why
                                 (''policy_engine:'' @ officer)) st of
             (None, st1) \<Rightarrow> (Some nid, st1)
           | (Some f, st1) \<Rightarrow> (Some f, if gt_marker_path w \<and> gt_marker_write w
               then st1\<lparr>gs_markers := kv_put nid (gt_now w) (gs_markers st1)\<rparr> else st1)))"

definition propose :: "gate_world \<Rightarrow> string \<Rightarrow> string \<Rightarrow> string \<Rightarrow> string \<Rightarrow> string \<Rightarrow> gate_state \<Rightarrow>
    gate_answer \<times> gate_state" where
  "propose w msg rc action officer why st =
     (case file_propose_need w rc action officer why st of (nid, st1) \<Rightarrow> (Block Propose msg nid, st1))"

section \<open>What the gate reads\<close>

definition read_cell_state :: "gate_world \<Rightarrow> string \<Rightarrow> string \<Rightarrow> string" where
  "read_cell_state w officer action = (case gt_evidence w of None \<Rightarrow> ''demote''
     | Some ep \<Rightarrow> state_name (fst (evaluate (ep_sovereign ep) (ep_policy ep)
         (''officer:'' @ officer, (case gt_lane w of None \<Rightarrow> PNone | Some l \<Rightarrow> PStr l), action)
         (ep_ledger ep) (gt_now w))))"

fun nearest :: "(bool \<times> bool) option list \<Rightarrow> (bool \<times> bool) option" where
  "nearest [] = None"
| "nearest [p] = p"
| "nearest (None # ps) = nearest ps"
| "nearest (Some p # ps) = Some p"

definition inverse_gap :: "gate_world \<Rightarrow> string \<Rightarrow> string option" where
  "inverse_gap w action = (case gt_undo w of None \<Rightarrow> Some ''undo registry unavailable''
     | Some apple \<Rightarrow>
         let kinds = map fst (filter (\<lambda>(k, a). a = action) ACTION_TYPE_MAP);
             ok = (if kinds \<noteq> [] then list_all (\<lambda>k. act_first_eligible k (backend_for apple k)) kinds
                   else act_first_eligible action (backend_for apple action)) in
         if ok then None else Some ''no registered deterministic inverse'')"

definition journal_gap :: "gate_world \<Rightarrow> string option" where
  "journal_gap w = (case gt_undo_dir w of None \<Rightarrow> Some ''undo-journal probe failed''
     | Some d \<Rightarrow> if \<not> jd_absolute d then Some ''undo journal dir not absolute''
         else if nearest (jd_chain d) \<noteq> Some (True, True) then Some ''undo journal dir unreachable''
         else None)"

definition act_with_undo_gap :: "gate_world \<Rightarrow> string \<Rightarrow> string option" where
  "act_with_undo_gap w action = (case inverse_gap w action of Some g \<Rightarrow> Some g | None \<Rightarrow> journal_gap w)"

definition posture_need :: "string option \<Rightarrow> gate_world \<Rightarrow> gate_state \<Rightarrow> gate_state" where
  "posture_need need w st = (case need of None \<Rightarrow> st
     | Some why \<Rightarrow> snd (file_in w (plain_need ''decision'' None ''posture_config'' None why ''posture.loader'') st))"

definition resolve_gate_posture :: "gate_world \<Rightarrow> gate_state \<Rightarrow> string \<times> gate_state" where
  "resolve_gate_posture w st = (case gt_posture w of None \<Rightarrow> (''guardian'', st)
     | Some pw \<Rightarrow> (case resolve_posture pw (gt_lane w) True of
           Inl _ \<Rightarrow> (''guardian'', st)
         | Inr (p, need) \<Rightarrow> (if posture_name p \<in> set POSTURE_TABLES then posture_name p else ''guardian'',
                             posture_need need w st)))"

definition RUNG_LIFT_VERDICTS :: "string list" where
  "RUNG_LIFT_VERDICTS = [''auto_with_veto_window'', ''notify_after'', ''auto'']"

definition earn_up_rung_lift :: "gate_world \<Rightarrow> string option" where
  "earn_up_rung_lift w = (case gt_ladder w of None \<Rightarrow> None
     | Some lw \<Rightarrow> (case rung_verdict_lift lw (gt_lane w) ''earn_up'' of
           None \<Rightarrow> None | Some v \<Rightarrow> if v \<in> set RUNG_LIFT_VERDICTS then Some v else None))"

definition nonblank :: "pyval \<Rightarrow> bool" where
  "nonblank v \<longleftrightarrow> is_str v \<and> strip (str_of v) \<noteq> []"

definition grant_context :: "pyval \<Rightarrow> pyval" where
  "grant_context tool_input =
     (let recipient = py_or (dget tool_input ''recipient'') (dget tool_input ''to'');
          amount = context_amount tool_input; vendor = dget tool_input ''vendor'' in
      PDict ((if nonblank recipient then [(''recipient'', recipient)] else [])
           @ (if is_number amount then [(''amount'', amount)] else [])
           @ (if nonblank vendor then [(''vendor'', vendor)] else [])))"

section \<open>Standing grants at the gate\<close>

datatype grant_resolution = Unavailable | Grant_Allows string | Grant_Refuses string "string option"

text \<open>\<^verbatim>\<open>grants._file_need\<close> for what the loader reports.\<close>

definition loader_need :: "grant_need \<Rightarrow> need_request" where
  "loader_need n = plain_need ''decision'' (snd n)
     (case snd n of Some _ \<Rightarrow> ''never_grant_refusal''
      | None \<Rightarrow> if starts_with ''standing grant line-dropped'' (fst n) then ''standing_grants_row''
                else ''standing_grants_config'') None (fst n) ''grants.loader''"

definition file_all :: "gate_world \<Rightarrow> need_request list \<Rightarrow> gate_state \<Rightarrow> gate_state" where
  "file_all w qs st = fold (\<lambda>q s. snd (file_in w q s)) qs st"

text \<open>\<^verbatim>\<open>grants.check\<close> with its own load of the rows; None when the load raises.\<close>

definition gate_check ::
  "gate_world \<Rightarrow> grants_kernel \<Rightarrow> bool \<Rightarrow> grant_request \<Rightarrow> gate_state \<Rightarrow> (grant_answer \<times> gate_state) option" where
  "gate_check w gk act q st =
     (if gr_class q \<notin> set CEILING_RISK_CLASSES then
        Some (Not_Granted [''standing grants are ceilings-only''],
          if act then snd (file_in w (plain_need ''decision'' (Some (gr_class q)) (gr_action q) None
                        ''grants.check called for non-ceiling risk_class'' ''grants.check'') st) else st)
      else if gk_vetoed gk (gr_action q) \<noteq> Some False then
        Some (Not_Granted [''action_type is under an active veto''], st)
      else (case load_grants (gk_files gk) act of Inl _ \<Rightarrow> None
        | Inr (rows, needs) \<Rightarrow>
            let st1 = file_all w (map loader_need needs) st in
            (case check act (gk_cabinet gk) (gk_vetoed gk (gr_action q)) q (gs_redis st1) rows of
               (a, r) \<Rightarrow> Some (a, st1\<lparr>gs_redis := r\<rparr>))))"

definition grant_request_of :: "gate_world \<Rightarrow> string \<Rightarrow> string \<Rightarrow> pyval \<Rightarrow> grant_request" where
  "grant_request_of w rc action ctx = \<lparr>gr_class = rc, gr_action = action, gr_lane = gt_lane w,
     gr_context = ctx, gr_now = gt_now w\<rparr>"

definition standing_grant_resolution ::
  "gate_world \<Rightarrow> string \<Rightarrow> string \<Rightarrow> pyval \<Rightarrow> string \<Rightarrow> bool \<Rightarrow> gate_state \<Rightarrow> grant_resolution \<times> gate_state" where
  "standing_grant_resolution w rc action ctx officer act st = (case gt_grants w of None \<Rightarrow> (Unavailable, st)
     | Some gk \<Rightarrow> (case gate_check w gk act (grant_request_of w rc action ctx) st of
           None \<Rightarrow> (Unavailable, st)
         | Some (Granted gid, st1) \<Rightarrow> (Grant_Allows gid, st1)
         | Some (Not_Granted ws, st1) \<Rightarrow>
             let reason = (if ws = [] then ''no matching standing grant'' else join ''; '' ws);
                 q = (plain_need ''standing_grant'' (Some rc) action (gt_lane w) reason
                        (''policy_engine:'' @ officer))\<lparr>nr_hint := ctx\<rparr> in
             if act then (case file_in w q st1 of (nid, st2) \<Rightarrow> (Grant_Refuses reason nid, st2))
             else (Grant_Refuses reason (map_option (\<lambda>nw. need_id nw ''standing_grant'' (Some rc) (Some action)
                     (gt_lane w)) (gt_needs w)), st1)))"

section \<open>The matrix evaluation\<close>

definition emit_tell :: "gate_event \<Rightarrow> gate_state \<Rightarrow> gate_state" where
  "emit_tell e st = st\<lparr>gs_events := gs_events st @ [e]\<rparr>"

definition in_list :: "pyval \<Rightarrow> string \<Rightarrow> bool" where
  "in_list v s \<longleftrightarrow> is_list v \<and> PStr s \<in> set (elems v)"

definition gated :: "string \<Rightarrow> gate_answer" where
  "gated rc = Block Gated (''GATED (hard ceiling: '' @ rc @ '')'') None"

text \<open>The hard-ceiling short circuit, after the class was found in the floor's own list.\<close>

definition ceiling_branch ::
  "gate_world \<Rightarrow> pyval \<Rightarrow> string \<Rightarrow> string \<Rightarrow> string \<Rightarrow> pyval \<Rightarrow> string \<Rightarrow> gate_state \<Rightarrow> gate_answer \<times> gate_state" where
  "ceiling_branch w policy posture rc action tool_input officer st =
     (if posture \<in> set POSTURE_TABLES \<and>
         resolve_verdict (dget policy ''verdicts'') rc ''*'' (Some posture) (dget policy ''postures'')
           = PStr ''standing_grant''
      then (case standing_grant_resolution w rc action (grant_context tool_input) officer True st of
          (Grant_Allows gid, st1) \<Rightarrow>
            (Allow, emit_tell \<lparr>ge_kind = ''standing_grant_allow'', ge_class = rc, ge_action = action,
                      ge_grant = Some gid\<rparr> st1)
        | (Grant_Refuses why nid, st1) \<Rightarrow>
            (Block Gated (''GATED (standing_grant: '' @ rc @ '')'') nid, st1)
        | (Unavailable, st1) \<Rightarrow> (gated rc, st1))
      else (gated rc, st))"

text \<open>The verdict of a cell outside the ceiling, with the trust-ladder overlay.\<close>

definition cell_verdict :: "gate_world \<Rightarrow> pyval \<Rightarrow> string \<Rightarrow> string \<Rightarrow> string \<Rightarrow> pyval" where
  "cell_verdict w policy posture rc state =
     (let v = resolve_verdict (dget policy ''verdicts'') rc state (Some posture) (dget policy ''postures'') in
      if posture = ''earn_up'' \<and> state = ''graduated'' \<and> is_list (dget policy ''hard_ceiling'')
         \<and> \<not> in_list (dget policy ''hard_ceiling'') rc
      then (case earn_up_rung_lift w of None \<Rightarrow> v | Some lifted \<Rightarrow> PStr lifted) else v)"

definition cell_branch ::
  "gate_world \<Rightarrow> pyval \<Rightarrow> string \<Rightarrow> string \<Rightarrow> string \<Rightarrow> string \<Rightarrow> gate_state \<Rightarrow> gate_answer \<times> gate_state" where
  "cell_branch w policy posture rc action officer st =
     (let state = read_cell_state w officer action; v = cell_verdict w policy posture rc state;
          cell = rc @ '', confidence='' @ state in
      if v = PStr ''act_with_undo'' then (case act_with_undo_gap w action of
          None \<Rightarrow> (Allow, st)
        | Some gap \<Rightarrow> propose w (''PROPOSE-ONLY ('' @ cell @ ''; act_with_undo verdict but '' @ gap @ '')'')
                        rc action officer (''undo plane unusable for '' @ action) st)
      else if v = PStr ''auto_with_veto_window'' then (Allow, st)
      else if v = PStr ''notify_after'' then
        (Allow, emit_tell \<lparr>ge_kind = ''notify_after'', ge_class = rc, ge_action = action, ge_grant = None\<rparr> st)
      else if v = PStr ''standing_grant'' then
        (Block Gated (''PROPOSE-ONLY (misplaced standing_grant verdict on '' @ rc @ '')'') None, st)
      else if v \<noteq> PStr ''auto'' then
        propose w (''PROPOSE-ONLY ('' @ cell @ '')'') rc action officer ''above the autonomy bar for this cell'' st
      else (Allow, st))"

definition eval_authority_matrix ::
  "gate_world \<Rightarrow> pyval \<Rightarrow> string \<Rightarrow> pyval \<Rightarrow> string \<Rightarrow> gate_state \<Rightarrow> gate_answer \<times> gate_state" where
  "eval_authority_matrix w policy tool_name tool_input officer st =
     (if truthy (dget policy ''_validation_failed'') then
        (Block Gated ''PROPOSE-ONLY (authority matrix failed validation)'' None, st)
      else (case gt_classify w of
          None \<Rightarrow> (Block Gated ''PROPOSE-ONLY (classifier unavailable)'' None, st)
        | Some classify \<Rightarrow>
            let action = classify tool_name tool_input in
            (case risk_of action (dget policy ''risk_classes'') of
               None \<Rightarrow> (case file_propose_need w ''unclassified'' action officer ''above the autonomy bar'' st of
                   (nid, st1) \<Rightarrow> (Block Unclassified (''PROPOSE-ONLY (unclassified action '' @ action @ '')'') nid, st1))
             | Some rc \<Rightarrow>
                 (case resolve_gate_posture w st of (posture, st1) \<Rightarrow>
                    if rc \<in> set CEILING_RISK_CLASSES \<and> \<not> in_list (dget policy ''hard_ceiling'') rc
                    then (gated rc, st1)
                    else if in_list (dget policy ''hard_ceiling'') rc
                    then ceiling_branch w policy posture rc action tool_input officer st1
                    else cell_branch w policy posture rc action officer st1))))"

text \<open>\<^verbatim>\<open>evaluate_policy\<close> on an authority matrix.\<close>

definition evaluate_matrix_policy ::
  "gate_world \<Rightarrow> pyval \<Rightarrow> string \<Rightarrow> pyval \<Rightarrow> string \<Rightarrow> gate_state \<Rightarrow> gate_answer \<times> gate_state" where
  "evaluate_matrix_policy w policy tool_name tool_input officer st =
     (if PStr officer \<in> set (elems (dget policy ''exempt_officers'')) then (Allow, st)
      else eval_authority_matrix w policy tool_name tool_input officer st)"

end
