(* ===== verification/Gate_Correct.thy ===== *)
theory Gate_Correct
  imports Gate Posture_Correct Grants_Correct Needs_Correct
begin

text \<open>
  The properties of the authority gate over the components it composes: what an allow has
  established, for ceiling kinds, for undoable acts and when the evidence cannot be read; and that
  the shadow path changes nothing.
\<close>

section \<open>Ceilings\<close>

lemma in_list_iff: "in_list v s \<longleftrightarrow> PStr s \<in> set (elems v)"
  by (cases v) (simp_all add: in_list_def)

lemma ceiling_class_member: "(rc, kinds) \<in> set CEILING_CLASS_ACTION_TYPES \<Longrightarrow> rc \<in> set CEILING_RISK_CLASSES"
  by (force simp: CEILING_RISK_CLASSES_def)

lemma earn_up_ceiling_gated:
  assumes p: "validate_policy p = None" and c: "(rc, kinds) \<in> set CEILING_CLASS_ACTION_TYPES"
  shows "verdict_of p rc state (Some ''earn_up'') \<noteq> PStr ''standing_grant''"
proof -
  let ?hc = "elems (dget p ''hard_ceiling'')" and ?root = "dget p ''verdicts''"
  have rc: "PStr rc \<in> set ?hc" "rc \<in> set RISK_CLASSES"
    using ceiling_class_in [OF p c] CEILING_rows_are_classes [OF c] .
  have root: "validate_verdicts ?root ?hc False = None"
    by (rule validated_parts(3) [OF p])
  show ?thesis
  proof (rule select_earn_up [OF p])
    assume sel: "select_table ?root (Some ''earn_up'') (dget p ''postures'') = ?root"
    note chk = validate_verdicts_row [OF root rc(2)]
    have "verdict_of p rc state (Some ''earn_up'') \<in> set (vals (dget ?root rc))"
      by (rule ceiling_lookup [OF chk rc(1) sel validated_table_dict [OF root]])
    then have "verdict_of p rc state (Some ''earn_up'') = PStr ''always_gated''"
      by (rule ceiling_row_root [OF chk rc(1)])
    then show ?thesis
      by simp
  next
    fix t
    assume sel: "select_table ?root (Some ''earn_up'') (dget p ''postures'') = t"
      and t: "validate_verdicts t ?hc True = None" and nar: "validate_earn_up_narrows t ?root = None"
    have "verdict_of p rc state (Some ''earn_up'') \<in> set (vals (dget t rc))"
      by (rule ceiling_lookup [OF validate_verdicts_row [OF t rc(2)] rc(1) sel validated_table_dict [OF t]])
    then obtain s where s: "(s, verdict_of p rc state (Some ''earn_up'')) \<in> set (items (dget t rc))"
      by (auto simp: vals_def)
    have "(rc, dget t rc) \<in> set (items t)"
      using t rc(2) by (simp add: validate_verdicts_def key_in_items)
    from narrow_cell_rank [OF narrow_table_cell [OF nar this s]] show ?thesis
      by simp
  qed
qed

lemma gate_posture_sovereign:
  assumes "resolve_gate_posture w st = (''sovereign'', st1)"
  shows "\<exists>pw need. gt_posture w = Some pw \<and> resolve_posture pw (gt_lane w) True = Inr (Sovereign, need)"
proof -
  have "posture_name p = ''sovereign'' \<longleftrightarrow> p = Sovereign" for p
    by (cases p) simp_all
  then show ?thesis
    using assms by (auto simp: resolve_gate_posture_def split: option.splits sum.splits prod.splits if_splits)
qed

lemma resolution_allows:
  assumes "standing_grant_resolution w rc action ctx officer act st = (Grant_Allows gid, st1)"
  shows "\<exists>gk rows needs r r'. gt_grants w = Some gk \<and> gk_vetoed gk action = Some False
     \<and> load_grants (gk_files gk) act = Inr (rows, needs)
     \<and> check act (gk_cabinet gk) (Some False) (grant_request_of w rc action ctx) r rows = (Granted gid, r')"
proof -
  obtain gk st2 where gk: "gt_grants w = Some gk"
    and chk: "gate_check w gk act (grant_request_of w rc action ctx) st = Some (Granted gid, st2)"
    using assms by (auto simp: standing_grant_resolution_def Let_def
        split: option.splits prod.splits grant_answer.splits if_splits)
  have v: "gk_vetoed gk action = Some False"
    using chk by (auto simp: gate_check_def grant_request_of_def split: if_splits)
  obtain rows needs where l: "load_grants (gk_files gk) act = Inr (rows, needs)"
    using chk by (auto simp: gate_check_def split: if_splits sum.splits)
  have "\<exists>r r'. check act (gk_cabinet gk) (Some False) (grant_request_of w rc action ctx) r rows = (Granted gid, r')"
    using chk v l by (auto simp: gate_check_def Let_def grant_request_of_def split: if_splits prod.splits)
  then show ?thesis
    using gk v l by blast
qed

lemma eval_ceiling:
  assumes "gt_classify w = Some classify" "risk_of (classify tool input) (dget p ''risk_classes'') = Some rc"
    and "in_list (dget p ''hard_ceiling'') rc" "\<not> truthy (dget p ''_validation_failed'')"
    and "resolve_gate_posture w st = (posture, st1)"
  shows "eval_authority_matrix w p tool input officer st
     = ceiling_branch w p posture rc (classify tool input) input officer st1"
  using assms by (simp add: eval_authority_matrix_def Let_def)

lemma eval_cell:
  assumes "gt_classify w = Some classify" "risk_of (classify tool input) (dget p ''risk_classes'') = Some rc"
    and "\<not> in_list (dget p ''hard_ceiling'') rc" "rc \<notin> set CEILING_RISK_CLASSES"
    and "\<not> truthy (dget p ''_validation_failed'')" "resolve_gate_posture w st = (posture, st1)"
  shows "eval_authority_matrix w p tool input officer st
     = cell_branch w p posture rc (classify tool input) officer st1"
  using assms by (simp add: eval_authority_matrix_def Let_def)

text \<open>What an allowed act of a ceiling class has to show for itself.\<close>

definition captain_grant :: "gate_world \<Rightarrow> string \<Rightarrow> string \<Rightarrow> pyval \<Rightarrow> bool" where
  "captain_grant w rc action input \<longleftrightarrow>
     (\<exists>pw data. gt_posture w = Some pw \<and> pw_locked pw \<and> pw_narrow pw = No_Narrow
         \<and> pw_ruling pw = Ruling data \<and> validation_error data = None
         \<and> effective_posture data (gt_lane w) = Sovereign)
       \<and> (\<exists>gk rows needs. gt_grants w = Some gk \<and> gk_vetoed gk action = Some False
         \<and> gw_locked (gk_files gk) \<and> load_grants (gk_files gk) True = Inr (rows, needs)
         \<and> (\<exists>g \<in> set rows. row_addressed (gk_cabinet gk) (grant_request_of w rc action (grant_context input)) g
              \<and> (\<exists>l. gt_lane w = Some l \<and> PStr l \<in> set (elems (dget g ''lanes'')))
              \<and> \<not> truthy (dget g ''revoked'')
              \<and> (\<exists>t. to_dt (dget g ''expires'') = Some t \<and> gt_now w < t)
              \<and> hard_scope_error rc (dget g ''scope'') (grant_context input) = None))"

lemma ceiling_allow_facts:
  assumes "validate_policy p = None" "(rc, kinds) \<in> set CEILING_CLASS_ACTION_TYPES"
    and "gt_classify w = Some classify" "classify tool input \<in> set kinds"
    and "eval_authority_matrix w p tool input officer st = (Allow, st')"
  shows "captain_grant w rc (classify tool input) input"
proof -
  let ?action = "classify tool input" and ?ctx = "grant_context input"
  have risk: "risk_of ?action (dget p ''risk_classes'') = Some rc"
    by (rule ceiling_kind_row [OF assms(1,2,4)])
  have hc: "in_list (dget p ''hard_ceiling'') rc"
    using ceiling_class_in [OF assms(1,2)] by (simp add: in_list_iff)
  have nf: "\<not> truthy (dget p ''_validation_failed'')"
    using assms(5) by (auto simp: eval_authority_matrix_def)
  obtain posture st1 where po: "resolve_gate_posture w st = (posture, st1)"
    by (cases "resolve_gate_posture w st")
  have br: "ceiling_branch w p posture rc ?action input officer st1 = (Allow, st')"
    using assms(5) eval_ceiling [OF assms(3) risk hc nf po] by simp
  then have tab: "posture \<in> set POSTURE_TABLES"
    and sg: "verdict_of p rc ''*'' (Some posture) = PStr ''standing_grant''"
    by (auto simp: ceiling_branch_def gated_def split: if_splits)
  obtain gid st2 where res: "standing_grant_resolution w rc ?action ?ctx officer True st1 = (Grant_Allows gid, st2)"
    using br tab sg by (auto simp: ceiling_branch_def gated_def split: prod.splits grant_resolution.splits)
  have "posture = ''sovereign''"
    using tab sg earn_up_ceiling_gated [OF assms(1,2)] by (auto simp: POSTURE_TABLES_def)
  then obtain pw need where pw: "gt_posture w = Some pw" "resolve_posture pw (gt_lane w) True = Inr (Sovereign, need)"
    using gate_posture_sovereign po by blast
  obtain gk rows needs r r' where gk: "gt_grants w = Some gk" "gk_vetoed gk ?action = Some False"
      and load: "load_grants (gk_files gk) True = Inr (rows, needs)"
      and chk: "check True (gk_cabinet gk) (Some False) (grant_request_of w rc ?action ?ctx) r rows = (Granted gid, r')"
    using resolution_allows [OF res] by blast
  obtain g where g: "g \<in> set rows" "row_addressed (gk_cabinet gk) (grant_request_of w rc ?action ?ctx) g"
      "\<exists>l. gt_lane w = Some l \<and> PStr l \<in> set (elems (dget g ''lanes''))" "\<not> truthy (dget g ''revoked'')"
      "\<exists>t. to_dt (dget g ''expires'') = Some t \<and> gt_now w < t"
      "hard_scope_error rc (dget g ''scope'') ?ctx = None"
    using check_granted [OF chk] by (auto simp: grant_request_of_def)
  have "gw_locked (gk_files gk)"
    using load g(1) by (auto simp: load_grants_def Let_def split: grants_file.splits if_splits)
  then show ?thesis
    unfolding captain_grant_def using sovereign_facts [OF pw(2)] pw(1) gk load g by blast
qed

text \<open>
  C2: nothing outside the captain's signature passes the hard ceiling. Under a floor the validator
  accepts, let the gate allow a tool call whose kind belongs to a ceiling class, whatever the
  officer, evidence, ladder or needs are. Then the deployment runs under a ruling that is locked,
  valid, not narrowed and sovereign for this lane; the kind is not vetoed; the grants file is
  locked, and one of its loaded rows is addressed to this deployment, class and kind, names the
  lane, is not revoked, has not expired, and its hard scope holds for the context of this very call.
\<close>

theorem ceiling_needs_captain:
  assumes "validate_policy p = None" "(rc, kinds) \<in> set CEILING_CLASS_ACTION_TYPES"
    and "gt_classify w = Some classify" "classify tool input \<in> set kinds"
    and "eval_authority_matrix w p tool input officer st = (Allow, st')"
  shows "(\<exists>pw data. gt_posture w = Some pw \<and> pw_locked pw \<and> pw_narrow pw = No_Narrow
       \<and> pw_ruling pw = Ruling data \<and> validation_error data = None
       \<and> effective_posture data (gt_lane w) = Sovereign)
     \<and> (\<exists>gk rows needs. gt_grants w = Some gk \<and> gk_vetoed gk (classify tool input) = Some False
       \<and> gw_locked (gk_files gk) \<and> load_grants (gk_files gk) True = Inr (rows, needs)
       \<and> (\<exists>g \<in> set rows. row_addressed (gk_cabinet gk) (grant_request_of w rc (classify tool input) (grant_context input)) g
            \<and> (\<exists>l. gt_lane w = Some l \<and> PStr l \<in> set (elems (dget g ''lanes'')))
            \<and> \<not> truthy (dget g ''revoked'')
            \<and> (\<exists>t. to_dt (dget g ''expires'') = Some t \<and> gt_now w < t)
            \<and> hard_scope_error rc (dget g ''scope'') (grant_context input) = None))"
  using ceiling_allow_facts [OF assms] unfolding captain_grant_def .

definition sample_gate :: gate_world where
  "sample_gate = \<lparr>gt_classify = Some (\<lambda>_ _. ''external_email''), gt_lane = Some ''ops'',
     gt_posture = Some (sample_world ''sovereign'' True No_Narrow),
     gt_grants = Some \<lparr>gk_files = sample_grants_world, gk_cabinet = ''main'', gk_vetoed = (\<lambda>_. Some False)\<rparr>,
     gt_needs = None, gt_ladder = None, gt_evidence = None, gt_undo = Some False,
     gt_undo_dir = Some \<lparr>jd_absolute = True, jd_chain = [None, Some (True, True)]\<rparr>,
     gt_marker_path = False, gt_marker_write = False, gt_now = 1783000000000000\<rparr>"

definition sample_state :: gate_state where
  "sample_state = \<lparr>gs_redis = empty_redis, gs_needs = no_needs, gs_markers = [], gs_events = []\<rparr>"

definition sample_send :: pyval where
  "sample_send = PDict [(''to'', PStr ''ann@example.com'')]"

lemma sample_send_allowed:
  "fst (eval_authority_matrix sample_gate shipped_policy ''send'' sample_send ''cos'' sample_state) = Allow"
  by code_simp

theorem ceiling_needs_captain_witness:
  "(\<exists>gk rows needs. gt_grants sample_gate = Some gk \<and> load_grants (gk_files gk) True = Inr (rows, needs)
      \<and> rows \<noteq> [])
   \<and> (\<exists>pw. gt_posture sample_gate = Some pw \<and> pw_locked pw)"
proof -
  obtain st' where e: "eval_authority_matrix sample_gate shipped_policy ''send'' sample_send ''cos'' sample_state = (Allow, st')"
    using sample_send_allowed by (metis prod.collapse)
  have c: "(''external_comms'', EXTERNAL_COMMS) \<in> set CEILING_CLASS_ACTION_TYPES"
      "gt_classify sample_gate = Some (\<lambda>_ _. ''external_email'')" "''external_email'' \<in> set EXTERNAL_COMMS"
    by (simp_all add: CEILING_CLASS_ACTION_TYPES_def sample_gate_def EXTERNAL_COMMS_def)
  from ceiling_needs_captain [OF shipped_policy_valid c e] show ?thesis
    by fastforce
qed

section \<open>Evidence\<close>

lemma validated_not_quarantined:
  assumes "validate_policy p = None"
  shows "\<not> truthy (dget p ''_validation_failed'')"
proof -
  have "set (keys p) \<subseteq> set POLICY_KEYS"
    using assms by (simp add: validate_policy_def Let_def)
  then have "\<not> has_key p ''_validation_failed''"
    by (auto simp: has_key_iff POLICY_KEYS_def POLICY_REQUIRED_def)
  then have "dget p ''_validation_failed'' = PNone"
    using dget_not_None_has_key by blast
  then show ?thesis
    by simp
qed

lemma lift_not_demote: "cell_verdict w p posture rc ''demote'' = verdict_of p rc ''demote'' (Some posture)"
  by (simp add: cell_verdict_def Let_def)

text \<open>
  C3: a broken evidence plane blocks. Under a validated floor, let the kind's class be one that is
  trusted from the first day (its root row grants act_with_undo in some state, or it is pinned). When
  the ledger cannot be read, or the officer's cell reads demote, the gate withholds the act as a
  proposal, under every posture and whatever grants, rungs or undo handles exist.
\<close>

theorem broken_evidence_blocks:
  assumes "validate_policy p = None" "gt_classify w = Some classify"
    and "risk_of (classify tool input) (dget p ''risk_classes'') = Some rc"
    and "state \<in> set CONFIDENCE_STATES"
    and "verdict_of p rc state None = PStr ''act_with_undo'' \<or> map_of TRUST_FIRST_UNMEASURED rc \<noteq> None"
    and "gt_evidence w = None \<or> read_cell_state w officer (classify tool input) = ''demote''"
  shows "\<exists>msg nid. fst (eval_authority_matrix w p tool input officer st) = Block Propose msg nid"
proof -
  obtain row where "(rc, row) \<in> set (items (dget p ''risk_classes''))"
    using assms(3) by (auto simp: risk_of_def dest!: find_SomeD)
  then have "rc \<in> set (keys (dget p ''risk_classes''))"
    unfolding keys_def by (rule in_set_fst)
  then have rc: "rc \<in> set RISK_CLASSES"
    using validated_parts(1) [OF assms(1)] by (simp add: validate_risk_classes_def)
  have cells: "verdict_of p rc ''demote'' posture = PStr ''propose_only''"
      "PStr rc \<notin> set (elems (dget p ''hard_ceiling''))" for posture
    using trust_first_cells [OF assms(1) rc assms(4,5), of posture] by blast+
  have nc: "\<not> in_list (dget p ''hard_ceiling'') rc" "rc \<notin> set CEILING_RISK_CLASSES"
    using cells(2) validated_ceiling [OF assms(1)] by (auto simp: in_list_iff CEILING_RISK_CLASSES_def)
  have state: "read_cell_state w officer (classify tool input) = ''demote''"
    using assms(6) by (auto simp: read_cell_state_def)
  obtain posture st1 where po: "resolve_gate_posture w st = (posture, st1)"
    by (cases "resolve_gate_posture w st")
  show ?thesis
    unfolding eval_cell [OF assms(2,3) nc validated_not_quarantined [OF assms(1)] po] cell_branch_def state
    by (simp add: Let_def lift_not_demote cells(1) propose_def split: prod.splits)
qed

theorem broken_evidence_blocks_witness:
  "\<exists>msg nid. fst (eval_authority_matrix (sample_gate\<lparr>gt_classify := Some (\<lambda>_ _. ''board_status'')\<rparr>)
      shipped_policy ''update'' (PDict []) ''cos'' sample_state) = Block Propose msg nid"
proof (rule broken_evidence_blocks [OF shipped_policy_valid, of _ "\<lambda>_ _. ''board_status''" _ _ "''pm_write''" "''unmeasured''"])
  show "risk_of ''board_status'' (dget shipped_policy ''risk_classes'') = Some ''pm_write''"
    by code_simp
  show "verdict_of shipped_policy ''pm_write'' ''unmeasured'' None = PStr ''act_with_undo''
      \<or> map_of TRUST_FIRST_UNMEASURED ''pm_write'' \<noteq> None"
    by code_simp
qed (simp_all add: sample_gate_def CONFIDENCE_STATES_def)

section \<open>Undo\<close>

text \<open>
  C6: an act is only undoable if it can be undone. When the gate allows a call because its cell
  says act_with_undo, every execution kind of the call's kind has a registered inverse on a backend
  that is not excluded (a kind that no lane executes is itself registered), and the nearest existing
  ancestor of the absolute journal directory is a writable directory.
\<close>

theorem undo_allow_reversible:
  assumes "gt_classify w = Some classify" "risk_of (classify tool input) (dget p ''risk_classes'') = Some rc"
    and "\<not> in_list (dget p ''hard_ceiling'') rc" "resolve_gate_posture w st = (posture, st1)"
    and "cell_verdict w p posture rc (read_cell_state w officer (classify tool input)) = PStr ''act_with_undo''"
    and "eval_authority_matrix w p tool input officer st = (Allow, st')"
  shows "\<exists>apple d. gt_undo w = Some apple \<and> gt_undo_dir w = Some d \<and> jd_absolute d
     \<and> nearest (jd_chain d) = Some (True, True)
     \<and> (\<forall>k. (k, classify tool input) \<in> set ACTION_TYPE_MAP \<longrightarrow> act_first_eligible k (backend_for apple k))
     \<and> ((\<forall>k. (k, classify tool input) \<notin> set ACTION_TYPE_MAP) \<longrightarrow>
          act_first_eligible (classify tool input) (backend_for apple (classify tool input)))"
proof -
  let ?action = "classify tool input"
  have "\<not> truthy (dget p ''_validation_failed'')" "rc \<notin> set CEILING_RISK_CLASSES"
    using assms(1-3,6) by (auto simp: eval_authority_matrix_def gated_def Let_def split: if_splits prod.splits)
  then have br: "cell_branch w p posture rc ?action officer st1 = (Allow, st')"
    using eval_cell [OF assms(1-3) _ _ assms(4)] assms(6) by simp
  then have gap: "act_with_undo_gap w ?action = None"
    unfolding cell_branch_def Let_def assms(5)
    by (auto simp: propose_def split: option.splits prod.splits)
  then obtain apple where apple: "gt_undo w = Some apple"
    by (auto simp: act_with_undo_gap_def inverse_gap_def split: option.splits)
  have inv: "inverse_gap w ?action = None" and "journal_gap w = None"
    using gap by (auto simp: act_with_undo_gap_def split: option.splits)
  then obtain d where d: "gt_undo_dir w = Some d" "jd_absolute d" "nearest (jd_chain d) = Some (True, True)"
    by (auto simp: journal_gap_def split: option.splits if_splits)
  define kinds where "kinds = map fst (filter (\<lambda>(k, a). a = ?action) ACTION_TYPE_MAP)"
  have kinds: "k \<in> set kinds \<longleftrightarrow> (k, ?action) \<in> set ACTION_TYPE_MAP" for k
    by (force simp: kinds_def)
  have ok: "if kinds \<noteq> [] then list_all (\<lambda>k. act_first_eligible k (backend_for apple k)) kinds
      else act_first_eligible ?action (backend_for apple ?action)"
    using inv apple by (auto simp: inverse_gap_def kinds_def Let_def split: if_splits)
  show ?thesis
  proof (intro exI conjI allI impI)
    show "gt_undo w = Some apple" "gt_undo_dir w = Some d" "jd_absolute d" "nearest (jd_chain d) = Some (True, True)"
      by (rule apple d)+
    show "act_first_eligible k (backend_for apple k)" if "(k, ?action) \<in> set ACTION_TYPE_MAP" for k
      using ok that kinds [of k] by (auto simp: list_all_iff split: if_splits)
    show "act_first_eligible ?action (backend_for apple ?action)"
      if "\<forall>k. (k, ?action) \<notin> set ACTION_TYPE_MAP"
    proof -
      have "kinds = []"
        using that kinds by (cases kinds) auto
      then show ?thesis
        using ok by simp
    qed
  qed
qed

theorem undo_allow_reversible_witness:
  "\<exists>d. gt_undo_dir sample_gate = Some d \<and> nearest (jd_chain d) = Some (True, True)
     \<and> act_first_eligible ''monday_task_update'' (backend_for False ''monday_task_update'')"
proof -
  let ?w = "sample_gate\<lparr>gt_classify := Some (\<lambda>_ _. ''board_status''),
      gt_evidence := Some \<lparr>ep_sovereign = False, ep_policy = shipped_policy, ep_ledger = []\<rparr>\<rparr>"
  obtain posture st1 where po: "resolve_gate_posture ?w sample_state = (posture, st1)"
    by (cases "resolve_gate_posture ?w sample_state")
  have "fst (resolve_gate_posture ?w sample_state) = ''sovereign''"
    by code_simp
  then have posture: "posture = ''sovereign''"
    using po by simp
  have v: "cell_verdict ?w shipped_policy ''sovereign'' ''pm_write'' (read_cell_state ?w ''cos'' ''board_status'')
      = PStr ''act_with_undo''"
    by code_simp
  have r: "risk_of ''board_status'' (dget shipped_policy ''risk_classes'') = Some ''pm_write''"
    by code_simp
  have h: "\<not> in_list (dget shipped_policy ''hard_ceiling'') ''pm_write''"
    by code_simp
  have "fst (eval_authority_matrix ?w shipped_policy ''update'' (PDict []) ''cos'' sample_state) = Allow"
    by code_simp
  then obtain st' where e: "eval_authority_matrix ?w shipped_policy ''update'' (PDict []) ''cos'' sample_state = (Allow, st')"
    by (metis prod.collapse)
  have "(''monday_task_update'', ''board_status'') \<in> set ACTION_TYPE_MAP"
    by (simp add: ACTION_TYPE_MAP_def)
  moreover have "gt_undo ?w = Some False" "gt_undo_dir ?w = gt_undo_dir sample_gate"
    by (simp_all add: sample_gate_def)
  moreover have c: "gt_classify ?w = Some (\<lambda>_ _. ''board_status'')"
    by simp
  ultimately show ?thesis
    using undo_allow_reversible [OF c r h po v [folded posture] e] by auto
qed

section \<open>The shadow path\<close>

lemma probe_redis: "snd (match_rows Probe cid q r rows) = r"
proof (induction rows arbitrary: r)
  case Nil
  show ?case by simp
next
  case (Cons g gs)
  have "snd (rate_step Probe q r g) = r"
    by (simp add: rate_step_def Let_def split: option.split rval.split)
  then have "after_row Probe cid q r g = r"
    by (simp add: after_row_def)
  then show ?case
    using Cons.IH match_rows_hit [of Probe cid q r g gs] match_rows_miss(1) [of Probe cid q r g gs]
      \<open>snd (rate_step Probe q r g) = r\<close> by (cases "row_granted Probe cid q r g") simp_all
qed

text \<open>
  The shadow path is a pure probe. Resolving a standing grant without acting files no need,
  consumes no slot and emits nothing: the state is unchanged whatever the answer is.
\<close>

theorem shadow_probe_pure:
  "snd (standing_grant_resolution w rc action ctx officer False st) = st"
proof -
  have load: "needs = []" if "load_grants gw False = Inr (rows, needs)" for gw rows needs
    using that by (auto simp: load_grants_def Let_def split: grants_file.splits if_splits sum.splits)
  have chk: "r' = r" if "check False cid v q r rows = (a, r')" for cid v q r rows a r'
    using that probe_redis [of cid q r rows] by (auto simp: check_def match_grants_def split: if_splits)
  have "st1 = st" if g: "gate_check w gk False q st = Some (a, st1)" for gk q a st1
  proof (cases "gr_class q \<notin> set CEILING_RISK_CLASSES \<or> gk_vetoed gk (gr_action q) \<noteq> Some False")
    case True
    then show ?thesis
      using g by (auto simp: gate_check_def split: if_splits)
  next
    case False
    then obtain rows needs where l: "load_grants (gk_files gk) False = Inr (rows, needs)"
      using g by (auto simp: gate_check_def split: sum.splits)
    obtain b r where c: "check False (gk_cabinet gk) (gk_vetoed gk (gr_action q)) q (gs_redis st) rows = (b, r)"
      by (cases "check False (gk_cabinet gk) (gk_vetoed gk (gr_action q)) q (gs_redis st) rows")
    show ?thesis
      using g False l load [OF l] c chk [OF c] by (simp add: gate_check_def file_all_def)
  qed
  then show ?thesis
    by (auto simp: standing_grant_resolution_def Let_def split: option.split prod.split grant_answer.split)
qed

end
