(* ===== verification/Policy_Layers.thy ===== *)
theory Policy_Layers
  imports Matrix_Correct
begin

text \<open>
  How the policy set is assembled: \<^verbatim>\<open>load_policies\<close> and \<^verbatim>\<open>_validate_authority_floor\<close> of
  \<^verbatim>\<open>framework/authority/policy_engine.py\<close>. The framework, preset and instance layers are
  lists of files in name order, the deployment's operations file is a value, and the merged set is
  an insertion-ordered dict keyed by policy name. With the property that no writable layer can
  supply or displace the floor unnoticed.
\<close>

section \<open>Merging\<close>

datatype policy_file = Unreadable_File | Policy_File pyval

definition is_authority_matrix_policy :: "pyval \<Rightarrow> pyval \<Rightarrow> bool" where
  "is_authority_matrix_policy policy name \<longleftrightarrow> is_dict policy \<and>
     (dget policy ''type'' = PStr ''authority_matrix'' \<or> name = PStr ''authority-matrix'')"

text \<open>One file's policies; an entry that raises ends the file, what it added before stays.\<close>

fun add_policies :: "nat \<Rightarrow> (pyval \<times> pyval) list \<Rightarrow> pyval list \<Rightarrow> (pyval \<times> pyval) list" where
  "add_policies layer d [] = d"
| "add_policies layer d (p # ps) =
     (if \<not> is_dict p then d
      else let name = dget p ''name'' in
        if \<not> truthy name then add_policies layer d ps
        else if 0 < layer \<and> is_authority_matrix_policy p name then add_policies layer d ps
        else if \<not> hashable name then d
        else add_policies layer (kv_put (py_norm name) p d) ps)"

definition file_policies :: "policy_file \<Rightarrow> pyval list" where
  "file_policies f = (case f of Unreadable_File \<Rightarrow> []
     | Policy_File data \<Rightarrow> elems (dget data ''policies''))"

definition merge_layers :: "policy_file list list \<Rightarrow> (pyval \<times> pyval) list" where
  "merge_layers layers =
     foldl (\<lambda>d (layer, files). foldl (\<lambda>d f. add_policies layer d (file_policies f)) d files)
       [] (zip [0..<length layers] layers)"

section \<open>The floor\<close>

definition is_matrix :: "pyval \<Rightarrow> bool" where
  "is_matrix p \<longleftrightarrow> is_dict p \<and> dget p ''type'' = PStr ''authority_matrix''"

definition bind_floor :: "pyval \<Rightarrow> pyval \<Rightarrow> pyval" where
  "bind_floor yml p = (if is_matrix p then bind_declared_operations (declared_operations yml) p else p)"

definition quarantine :: "pyval \<Rightarrow> pyval \<Rightarrow> string \<Rightarrow> pyval" where
  "quarantine name message why = PDict [(''name'', name), (''type'', PStr ''authority_matrix''),
     (''message'', if truthy message then PStr (str_of message) else PStr ''below the autonomy bar''),
     (''_validation_failed'', PStr why)]"

definition floor_fails :: "pyval \<Rightarrow> bool" where
  "floor_fails p \<longleftrightarrow> validate_postures p \<noteq> None \<or> \<not> no_ceiling_or_prod_auto p"

definition check_floor :: "pyval \<times> pyval \<Rightarrow> pyval \<times> pyval" where
  "check_floor kp = (case kp of (k, p) \<Rightarrow>
     if is_matrix p \<and> floor_fails p
     then (k, quarantine k (dget p ''message'') ''authority matrix failed validation'') else (k, p))"

definition validate_authority_floor :: "(pyval \<times> pyval) list \<Rightarrow> (pyval \<times> pyval) list" where
  "validate_authority_floor d =
     (let d1 = map check_floor d in
      if list_ex (\<lambda>(k, p). is_matrix p) d1 then d1
      else kv_put (PStr ''authority-matrix'')
             (quarantine (PStr ''authority-matrix'') PNone ''floor missing/unparseable'') d1)"

definition load_policies :: "policy_file list list \<Rightarrow> pyval \<Rightarrow> pyval list" where
  "load_policies layers yml =
     map snd (validate_authority_floor (map (\<lambda>(k, p). (k, bind_floor yml p)) (merge_layers layers)))"

section \<open>Only the framework layer supplies a floor\<close>

definition matrices :: "(pyval \<times> pyval) list \<Rightarrow> pyval set" where
  "matrices d = {p \<in> snd ` set d. is_matrix p}"

lemma matrices_put: "matrices (kv_put k p d) \<subseteq> matrices d \<union> {x. x = p \<and> is_matrix p}"
  using set_kv_put [of k p d] by (auto simp: matrices_def)

lemma add_policies_matrices:
  "matrices (add_policies layer d ps) \<subseteq> matrices d \<union> (if layer = 0 then set ps else {})"
proof (induction ps arbitrary: d)
  case Nil
  show ?case by simp
next
  case (Cons x ps)
  let ?name = "dget x ''name''"
  consider (stop) "add_policies layer d (x # ps) = d"
    | (skip) "add_policies layer d (x # ps) = add_policies layer d ps"
    | (put) "add_policies layer d (x # ps) = add_policies layer (kv_put (py_norm ?name) x d) ps"
        "\<not> (0 < layer \<and> is_authority_matrix_policy x ?name)"
    by (cases "is_dict x"; cases "truthy ?name"; cases "0 < layer \<and> is_authority_matrix_policy x ?name";
        cases "hashable ?name") (simp_all add: Let_def)
  then show ?case
  proof cases
    case stop
    show ?thesis unfolding stop by simp
  next
    case skip
    show ?thesis unfolding skip using Cons.IH [of d] by auto
  next
    case put
    have "is_matrix x \<longrightarrow> layer = 0"
      using put(2) by (auto simp: is_authority_matrix_policy_def is_matrix_def)
    then show ?thesis
      unfolding put(1) using Cons.IH [of "kv_put (py_norm ?name) x d"] matrices_put [of "py_norm ?name" x d]
      by auto
  qed
qed

lemma add_files_matrices:
  "matrices (foldl (\<lambda>d f. add_policies layer d (file_policies f)) d files)
     \<subseteq> matrices d \<union> (if layer = 0 then \<Union> (set ` file_policies ` set files) else {})"
proof (induction files arbitrary: d)
  case Nil
  show ?case by simp
next
  case (Cons f files)
  show ?case
    using Cons.IH [of "add_policies layer d (file_policies f)"] add_policies_matrices [of layer d "file_policies f"]
    by (auto split: if_splits)
qed

definition framework_policies :: "policy_file list list \<Rightarrow> pyval set" where
  "framework_policies layers = (case layers of [] \<Rightarrow> {} | files # _ \<Rightarrow> \<Union> (set ` file_policies ` set files))"

lemma merge_layers_matrices: "matrices (merge_layers layers) \<subseteq> framework_policies layers"
proof -
  let ?step = "\<lambda>d (layer, files). foldl (\<lambda>d f. add_policies layer d (file_policies f)) d files"
  have later: "matrices (foldl ?step d lfs) \<subseteq> matrices d" if "0 \<notin> fst ` set lfs" for lfs d
    using that
  proof (induction lfs arbitrary: d)
    case Nil
    show ?case by simp
  next
    case (Cons nf lfs)
    obtain n fs where nf: "nf = (n, fs)" "n \<noteq> 0"
      using Cons.prems by (cases nf) auto
    have "matrices (foldl ?step (?step d nf) lfs) \<subseteq> matrices (?step d nf)"
      using Cons by simp
    also have "\<dots> \<subseteq> matrices d"
      using add_files_matrices [of n d fs] nf by auto
    finally show ?case
      by simp
  qed
  show ?thesis
  proof (cases layers)
    case Nil
    then show ?thesis by (simp add: merge_layers_def matrices_def)
  next
    case (Cons fs rest)
    have "0 \<notin> fst ` set (zip [1..<length layers] rest)"
      by (auto simp: set_zip)
    then have "matrices (merge_layers layers) \<subseteq> matrices (?step [] (0, fs))"
      unfolding merge_layers_def by (simp add: Cons upt_conv_Cons later del: upt_Suc)
    also have "\<dots> \<subseteq> framework_policies layers"
      using add_files_matrices [of 0 "[]" fs] by (simp add: matrices_def framework_policies_def Cons)
    finally show ?thesis .
  qed
qed

lemma matrices_map:
  "matrices (map (\<lambda>(k, p). (k, f p)) d) = {p \<in> f ` snd ` set d. is_matrix p}"
  by (force simp: matrices_def)

lemma bind_floor_matrix: "is_matrix (bind_floor yml p) \<Longrightarrow> is_matrix p"
  by (auto simp: bind_floor_def split: if_splits)

lemma quarantine_simps [simp]:
  "is_matrix (quarantine k m why)" "why \<noteq> [] \<Longrightarrow> truthy (dget (quarantine k m why) ''_validation_failed'')"
  by (simp_all add: is_matrix_def quarantine_def dget_def)

text \<open>
  C7: no writable layer supplies or removes the floor. Whatever the preset and instance layers
  hold, the loaded set contains an authority matrix, and each one in it either is quarantined (the
  gate then withholds everything) or is a policy of the framework's own files with the declared
  operations joined, and passes the posture and ceiling checks.
\<close>

theorem floor_is_framework:
  "list_ex is_matrix (load_policies layers yml)
   \<and> (\<forall>p \<in> set (load_policies layers yml). is_matrix p \<longrightarrow>
        truthy (dget p ''_validation_failed'')
        \<or> \<not> floor_fails p \<and> (\<exists>p0 \<in> framework_policies layers. is_matrix p0 \<and> p = bind_floor yml p0))"
proof -
  define d where "d = map (\<lambda>(k, p). (k, bind_floor yml p)) (merge_layers layers)"
  define d1 where "d1 = map check_floor d"
  have d: "\<exists>p0 \<in> framework_policies layers. is_matrix p0 \<and> p = bind_floor yml p0"
    if kp: "(k, p) \<in> set d" "is_matrix p" for k p
  proof -
    obtain p0 where p0: "(k, p0) \<in> set (merge_layers layers)" "p = bind_floor yml p0"
      using kp(1) by (auto simp: d_def)
    have "is_matrix p0"
      using kp(2) bind_floor_matrix p0(2) by blast
    then have "p0 \<in> matrices (merge_layers layers)"
      using p0(1) by (force simp: matrices_def)
    then show ?thesis
      using merge_layers_matrices p0(2) \<open>is_matrix p0\<close> by blast
  qed
  have d1: "truthy (dget p ''_validation_failed'')
      \<or> \<not> floor_fails p \<and> (\<exists>p0 \<in> framework_policies layers. is_matrix p0 \<and> p = bind_floor yml p0)"
    if "(k, p) \<in> set d1" "is_matrix p" for k p
    using that d by (auto simp: d1_def check_floor_def split: if_splits)
  show ?thesis
  proof (cases "list_ex (\<lambda>(k, p). is_matrix p) d1")
    case True
    then have l: "load_policies layers yml = map snd d1"
      by (simp add: load_policies_def validate_authority_floor_def d_def d1_def Let_def)
    have "list_ex is_matrix (map snd d1)"
      using True by (force simp: list_ex_iff)
    moreover have "truthy (dget p ''_validation_failed'')
        \<or> \<not> floor_fails p \<and> (\<exists>p0 \<in> framework_policies layers. is_matrix p0 \<and> p = bind_floor yml p0)"
      if pm: "p \<in> set (map snd d1)" "is_matrix p" for p
    proof -
      obtain k where "(k, p) \<in> set d1"
        using pm(1) by auto
      then show ?thesis
        by (rule d1 [OF _ pm(2)])
    qed
    ultimately show ?thesis
      unfolding l by blast
  next
    case False
    define stub where "stub = quarantine (PStr ''authority-matrix'') PNone ''floor missing/unparseable''"
    have l: "load_policies layers yml = map snd (kv_put (PStr ''authority-matrix'') stub d1)"
      using False by (simp add: load_policies_def validate_authority_floor_def d_def d1_def Let_def stub_def)
    have s: "is_matrix stub" "truthy (dget stub ''_validation_failed'')"
      by (simp_all add: stub_def)
    have "map_of (kv_put (PStr ''authority-matrix'') stub d1) (PStr ''authority-matrix'') = Some stub"
      by simp
    then have "stub \<in> set (load_policies layers yml)"
      unfolding l set_map by (rule image_eqI [OF _ map_of_SomeD, rotated]) simp
    then have ex: "list_ex is_matrix (load_policies layers yml)"
      using s(1) by (auto simp: list_ex_iff)
    have "p = stub" if "p \<in> set (load_policies layers yml)" "is_matrix p" for p
      using that False set_kv_put [of "PStr ''authority-matrix''" stub d1] unfolding l
      by (fastforce simp: list_ex_iff)
    then show ?thesis
      using ex s(2) by blast
  qed
qed

definition sample_layers :: "policy_file list list" where
  "sample_layers = [[Policy_File shipped_floor], [Unreadable_File],
     [Policy_File (PDict [(''policies'', PList [PDict [(''name'', PStr ''authority-matrix''), (''type'', PStr ''off'')]])])]]"

theorem floor_is_framework_witness:
  "list_ex (\<lambda>p. is_matrix p \<and> \<not> truthy (dget p ''_validation_failed'')) (load_policies sample_layers (PDict []))
   \<and> (\<exists>p0. p0 \<in> framework_policies sample_layers \<and> is_matrix p0)"
proof -
  have e: "list_ex (\<lambda>p. is_matrix p \<and> \<not> truthy (dget p ''_validation_failed'')) (load_policies sample_layers (PDict []))"
    by code_simp
  then obtain p where "p \<in> set (load_policies sample_layers (PDict []))" "is_matrix p"
      "\<not> truthy (dget p ''_validation_failed'')"
    by (auto simp: list_ex_iff)
  then have "\<exists>p0. p0 \<in> framework_policies sample_layers \<and> is_matrix p0"
    using floor_is_framework [of sample_layers "PDict []"] by blast
  then show ?thesis
    using e by blast
qed

end
