(* ===== verification/Veto_Registry.thy ===== *)
theory Veto_Registry
  imports Py_Text Keyed_Log
begin

text \<open>
  The captain's veto registry: \<^verbatim>\<open>framework/frontdoor/veto_registry.py\<close>. The registry file
  is what its YAML text denotes; a write stores a mapping that reads back as written. Python's
  \<^verbatim>\<open>str\<close> of a value that is not a text is a parameter. The audit events go to the
  consequence ledger, best-effort; here they are a list of what is emitted, without the free-text
  evidence. Header comments and the prompt block are text and are not modelled.
\<close>

section \<open>Scopes\<close>

definition SCOPE_FIELDS :: "string list" where
  "SCOPE_FIELDS = [''action_type'', ''board'', ''content_family'', ''lane'']"

definition ENFORCEABLE_FIELDS :: "string list" where
  "ENFORCEABLE_FIELDS = [''action_type'', ''board'', ''content_family'']"

type_synonym scope = "(string \<times> string) list"

definition py_text :: "(pyval \<Rightarrow> string) \<Rightarrow> pyval \<Rightarrow> string" where
  "py_text str v = (case v of PStr s \<Rightarrow> s | _ \<Rightarrow> str v)"

definition clean_field :: "(pyval \<Rightarrow> string) \<Rightarrow> pyval \<Rightarrow> string option" where
  "clean_field str v = (let w = (case v of PStr s \<Rightarrow> PStr (strip s) | _ \<Rightarrow> v) in
     if w \<in> {PNone, PStr [], PDict [], PList []} then None else Some (py_text str w))"

definition clean_scope :: "(pyval \<Rightarrow> string) \<Rightarrow> pyval \<Rightarrow> scope" where
  "clean_scope str scope = (if \<not> is_dict scope then []
     else List.map_filter (\<lambda>k. map_option (Pair k) (clean_field str (dget scope k))) SCOPE_FIELDS)"

definition scope_get :: "scope \<Rightarrow> string \<Rightarrow> string" where
  "scope_get sc k = (case map_of sc k of None \<Rightarrow> [] | Some v \<Rightarrow> v)"

definition is_enforceable :: "scope \<Rightarrow> bool" where
  "is_enforceable sc \<longleftrightarrow> list_ex (\<lambda>k. scope_get sc k \<noteq> []) ENFORCEABLE_FIELDS"

section \<open>The file\<close>

datatype registry_file = No_Registry | Broken_Registry | Registry pyval

datatype registry_error = Malformed_Registry | Refused_Scope | Bad_Next_Id

record registry_doc =
  rd_version :: pyval
  rd_next_id :: pyval
  rd_vetoes :: "pyval list"

definition empty_doc :: registry_doc where
  "empty_doc = \<lparr>rd_version = PInt 1, rd_next_id = PInt 1, rd_vetoes = []\<rparr>"

definition after_dash :: "string \<Rightarrow> string" where
  "after_dash s = rev (takeWhile (\<lambda>c. c \<noteq> CHR ''-'') (rev s))"

definition veto_num :: "(pyval \<Rightarrow> string) \<Rightarrow> pyval \<Rightarrow> int" where
  "veto_num str vid = (case int_text (after_dash (py_text str vid)) of None \<Rightarrow> 0 | Some n \<Rightarrow> n)"

definition next_from :: "(pyval \<Rightarrow> string) \<Rightarrow> pyval list \<Rightarrow> int" where
  "next_from str vs = fold (\<lambda>v mx. if is_dict v then max mx (veto_num str (dget_or v ''id'' (PStr []))) else mx) vs 0 + 1"

definition load_doc :: "(pyval \<Rightarrow> string) \<Rightarrow> registry_file \<Rightarrow> registry_error + registry_doc" where
  "load_doc str f = (case f of
     No_Registry \<Rightarrow> Inr empty_doc
   | Broken_Registry \<Rightarrow> Inl Malformed_Registry
   | Registry data \<Rightarrow>
       if data = PNone then Inr empty_doc
       else if is_list data then
         Inr \<lparr>rd_version = PInt 1, rd_next_id = PInt (next_from str (elems data)), rd_vetoes = elems data\<rparr>
       else if \<not> is_dict data then Inl Malformed_Registry
       else let vs = (if truthy (dget data ''vetoes'') then dget data ''vetoes'' else PList []) in
         if \<not> is_list vs then Inl Malformed_Registry
         else Inr \<lparr>rd_version = dget_or data ''version'' (PInt 1),
           rd_next_id = (if truthy (dget data ''next_id'') then dget data ''next_id'' else PInt (next_from str (elems vs))),
           rd_vetoes = elems vs\<rparr>)"

definition save_doc :: "registry_doc \<Rightarrow> registry_file" where
  "save_doc d = Registry (PDict [(''version'', rd_version d), (''next_id'', rd_next_id d), (''vetoes'', PList (rd_vetoes d))])"

section \<open>Reading\<close>

definition load_vetoes :: "(pyval \<Rightarrow> string) \<Rightarrow> registry_file \<Rightarrow> registry_error + pyval list" where
  "load_vetoes str f = (case load_doc str f of Inl e \<Rightarrow> Inl e | Inr d \<Rightarrow> Inr (filter is_dict (rd_vetoes d)))"

definition is_lifted :: "(pyval \<Rightarrow> string) \<Rightarrow> pyval \<Rightarrow> bool" where
  "is_lifted str v \<longleftrightarrow> truthy (dget v ''lifted_at'')
     \<or> (let s = dget v ''status'' in lower (strip (if truthy s then py_text str s else [])) = ''lifted'')"

definition binding :: "(pyval \<Rightarrow> string) \<Rightarrow> pyval \<Rightarrow> bool" where
  "binding str v \<longleftrightarrow> is_dict v \<and> \<not> is_lifted str v \<and> is_enforceable (clean_scope str (dget v ''scope''))"

definition active_vetoes :: "(pyval \<Rightarrow> string) \<Rightarrow> registry_file \<Rightarrow> registry_error + pyval list" where
  "active_vetoes str f = (case load_vetoes str f of Inl e \<Rightarrow> Inl e | Inr vs \<Rightarrow> Inr (filter (binding str) vs))"

definition field_allows :: "scope \<Rightarrow> string \<Rightarrow> string option \<Rightarrow> bool" where
  "field_allows sc k arg \<longleftrightarrow> scope_get sc k = [] \<or> scope_get sc k = (case arg of None \<Rightarrow> [] | Some a \<Rightarrow> a)"

definition scope_covers :: "(pyval \<Rightarrow> string) \<Rightarrow> string option \<Rightarrow> string option \<Rightarrow> string option \<Rightarrow> pyval \<Rightarrow> bool" where
  "scope_covers str action board family v \<longleftrightarrow> (let sc = clean_scope str (dget v ''scope'') in
     field_allows sc ''action_type'' action \<and> field_allows sc ''board'' board \<and> field_allows sc ''content_family'' family)"

definition is_vetoed :: "(pyval \<Rightarrow> string) \<Rightarrow> registry_file \<Rightarrow> string option \<Rightarrow> string option \<Rightarrow> string option \<Rightarrow>
    registry_error + bool" where
  "is_vetoed str f action board family = (case active_vetoes str f of Inl e \<Rightarrow> Inl e
     | Inr vs \<Rightarrow> Inr (list_ex (scope_covers str action board family) vs))"

definition matching_vetoes :: "(pyval \<Rightarrow> string) \<Rightarrow> registry_file \<Rightarrow> string option \<Rightarrow> string option \<Rightarrow> string option \<Rightarrow>
    registry_error + pyval list" where
  "matching_vetoes str f action board family = (case active_vetoes str f of Inl e \<Rightarrow> Inl e
     | Inr vs \<Rightarrow> Inr (filter (scope_covers str action board family) vs))"

section \<open>Cell demotion\<close>

record directive =
  dv_actor :: "string option"
  dv_lane :: "string option"
  dv_action :: "string option"

definition demote_cell_for_veto :: "(pyval \<Rightarrow> string) \<Rightarrow> pyval \<Rightarrow> directive" where
  "demote_cell_for_veto str scope = (let sc = clean_scope str scope in
     \<lparr>dv_actor = None, dv_lane = map_of sc ''lane'', dv_action = map_of sc ''action_type''\<rparr>)"

definition set_text :: "string option \<Rightarrow> bool" where
  "set_text s \<longleftrightarrow> s \<noteq> None \<and> s \<noteq> Some []"

definition cell_matches :: "string option \<times> string option \<times> string option \<Rightarrow> directive \<Rightarrow> bool" where
  "cell_matches cell d = (case cell of (actor, lane, action) \<Rightarrow>
     if \<not> set_text (dv_action d) then False
     else if dv_action d \<noteq> action then False
     else if set_text (dv_lane d) \<and> dv_lane d \<noteq> lane then False
     else \<not> (set_text (dv_actor d) \<and> dv_actor d \<noteq> actor))"

section \<open>Writing\<close>

record veto_audit =
  va_action :: string
  va_subject :: string
  va_ts :: string
  va_refs :: "string list"

definition audit :: "string \<Rightarrow> string \<Rightarrow> scope \<Rightarrow> string \<Rightarrow> veto_audit" where
  "audit action vid sc ts = \<lparr>va_action = action, va_subject = ''veto:'' @ vid, va_ts = ts,
     va_refs = (''veto:'' @ vid) # List.map_filter (\<lambda>k. let v = scope_get sc k in
        if v = [] then None else Some (''veto-scope:'' @ k @ ''='' @ take 64 v)) [''action_type'', ''lane'']\<rparr>"

definition veto_id :: "int \<Rightarrow> string" where
  "veto_id n = ''veto-'' @ fmt03 n"

definition veto_row :: "string \<Rightarrow> scope \<Rightarrow> string \<Rightarrow> string \<Rightarrow> pyval" where
  "veto_row vid sc verbatim ts = PDict [(''id'', PStr vid),
     (''scope'', PDict (map (\<lambda>(k, v). (k, PStr v)) sc)), (''verbatim'', PStr (take 1000 (strip verbatim))),
     (''recorded_at'', PStr ts), (''lifted_at'', PNone), (''ts'', PStr ts), (''status'', PStr ''active''),
     (''source'', PStr ''captain'')]"

definition record_veto :: "(pyval \<Rightarrow> string) \<Rightarrow> pyval \<Rightarrow> string \<Rightarrow> string \<Rightarrow> registry_file \<Rightarrow>
    registry_error + (pyval \<times> registry_file \<times> veto_audit)" where
  "record_veto str scope verbatim ts f =
     (let sc = clean_scope str scope in
      if \<not> is_enforceable sc then Inl Refused_Scope
      else case load_doc str f of Inl e \<Rightarrow> Inl e
        | Inr d \<Rightarrow> (case py_int (if truthy (rd_next_id d) then rd_next_id d else PInt (next_from str (rd_vetoes d))) of
              None \<Rightarrow> Inl Bad_Next_Id
            | Some n \<Rightarrow> let vid = veto_id n; row = veto_row vid sc verbatim ts in
                Inr (row, save_doc (d\<lparr>rd_vetoes := rd_vetoes d @ [row], rd_next_id := PInt (veto_num str (PStr vid) + 1)\<rparr>),
                     audit ''captain-veto'' vid sc ts)))"

fun update_first :: "('a \<Rightarrow> bool) \<Rightarrow> ('a \<Rightarrow> 'a) \<Rightarrow> 'a list \<Rightarrow> 'a list" where
  "update_first P g [] = []"
| "update_first P g (x # xs) = (if P x then g x # xs else x # update_first P g xs)"

definition has_id :: "string \<Rightarrow> pyval \<Rightarrow> bool" where
  "has_id vid v \<longleftrightarrow> is_dict v \<and> dget v ''id'' = PStr vid"

definition lift_row :: "string \<Rightarrow> pyval \<Rightarrow> pyval" where
  "lift_row ts v = dput (dput v ''lifted_at'' (PStr ts)) ''status'' (PStr ''lifted'')"

text \<open>The row found, the file after, and the audit of a change.\<close>

definition lift_veto :: "(pyval \<Rightarrow> string) \<Rightarrow> string \<Rightarrow> string \<Rightarrow> registry_file \<Rightarrow>
    registry_error + (pyval option \<times> registry_file \<times> veto_audit option)" where
  "lift_veto str vid ts f = (case load_doc str f of Inl e \<Rightarrow> Inl e
     | Inr d \<Rightarrow> (case find (has_id vid) (rd_vetoes d) of
           None \<Rightarrow> Inr (None, f, None)
         | Some v \<Rightarrow> if truthy (dget v ''lifted_at'') then Inr (Some v, f, None)
             else Inr (Some (lift_row ts v), save_doc (d\<lparr>rd_vetoes := update_first (has_id vid) (lift_row ts) (rd_vetoes d)\<rparr>),
                    Some (audit ''captain-veto-lift'' vid (clean_scope str (dget v ''scope'')) ts))))"

section \<open>The cache\<close>

text \<open>
  What running \<^verbatim>\<open>redis-cli\<close> does: it works, it prints an error and nothing on its output
  (the server cannot be reached; the exit code is not looked at), or it cannot be run or times out.
\<close>

datatype cli = Cli_Works | Cli_Silent | Cli_Raises

definition CACHE_PREFIX :: string where "CACHE_PREFIX = ''cabinet:vetoes:''"
definition CACHE_SENTINEL :: string where "CACHE_SENTINEL = ''cabinet:vetoes:__cache__''"

type_synonym cache = "(string \<times> pyval) list"

definition redis_set :: "cli \<Rightarrow> string \<Rightarrow> pyval \<Rightarrow> cache \<Rightarrow> cache option" where
  "redis_set m k v c = (case m of Cli_Works \<Rightarrow> Some (kv_put k v c) | Cli_Silent \<Rightarrow> Some c | Cli_Raises \<Rightarrow> None)"

definition clear_cache :: "cli \<Rightarrow> cache \<Rightarrow> cache option" where
  "clear_cache m c = (case m of Cli_Raises \<Rightarrow> None | Cli_Silent \<Rightarrow> Some c
     | Cli_Works \<Rightarrow> Some (filter (\<lambda>(k, v). \<not> (starts_with CACHE_PREFIX k \<and> k \<noteq> CACHE_SENTINEL)) c))"

fun put_rows :: "(pyval \<Rightarrow> string) \<Rightarrow> cli \<Rightarrow> pyval list \<Rightarrow> cache \<Rightarrow> cache \<times> bool" where
  "put_rows str m [] c = (c, True)"
| "put_rows str m (v # vs) c =
     (if \<not> has_key v ''id'' then (c, False)
      else case redis_set m (CACHE_PREFIX @ py_text str (dget v ''id'')) v c of
          None \<Rightarrow> (c, False) | Some c' \<Rightarrow> put_rows str m vs c')"

definition rebuild_rows :: "(pyval \<Rightarrow> string) \<Rightarrow> cli \<Rightarrow> pyval list \<Rightarrow> cache \<Rightarrow> cache \<times> bool" where
  "rebuild_rows str m active c = (case clear_cache m c of None \<Rightarrow> (c, False)
     | Some c1 \<Rightarrow> (case put_rows str m active c1 of (c2, ok) \<Rightarrow>
         if \<not> ok then (c2, False)
         else case redis_set m CACHE_SENTINEL (PStr ''ok'') c2 of None \<Rightarrow> (c2, False) | Some c3 \<Rightarrow> (c3, True)))"

text \<open>The answer is the count of cached vetoes, None for \<^verbatim>\<open>ok=False\<close>.\<close>

definition rebuild_cache :: "(pyval \<Rightarrow> string) \<Rightarrow> cli \<Rightarrow> registry_file \<Rightarrow> cache \<Rightarrow> nat option \<times> cache" where
  "rebuild_cache str m f c =
     (let fail = (\<lambda>c. case redis_set m CACHE_SENTINEL (PStr ''fail'') c of None \<Rightarrow> c | Some c' \<Rightarrow> c') in
      case active_vetoes str f of Inl e \<Rightarrow> (None, fail c)
      | Inr active \<Rightarrow> (case rebuild_rows str m active c of (c1, ok) \<Rightarrow>
          if ok then (Some (length active), c1) else (None, fail c1)))"

definition veto_cache_ready :: "cli \<Rightarrow> cache \<Rightarrow> bool" where
  "veto_cache_ready m c \<longleftrightarrow> m = Cli_Works \<and> map_of c CACHE_SENTINEL = Some (PStr ''ok'')"

end
