(* ===== verification/Veto_Registry_Correct.thy ===== *)
theory Veto_Registry_Correct
  imports Veto_Registry
begin

text \<open>
  The properties of the veto registry: a veto stands through every sequence of recordings and lifts
  that does not lift it; identifiers never repeat and rows are never lost; recording and lifting
  cancel out.
\<close>

section \<open>Operations on the file\<close>

datatype veto_op = Record pyval string string | Lift string string

fun apply_op :: "(pyval \<Rightarrow> string) \<Rightarrow> veto_op \<Rightarrow> registry_file \<Rightarrow> registry_file" where
  "apply_op str (Record scope verbatim ts) f = (case record_veto str scope verbatim ts f of
     Inl _ \<Rightarrow> f | Inr (_, f', _) \<Rightarrow> f')"
| "apply_op str (Lift vid ts) f = (case lift_veto str vid ts f of Inl _ \<Rightarrow> f | Inr (_, f', _) \<Rightarrow> f')"

definition run_ops :: "(pyval \<Rightarrow> string) \<Rightarrow> veto_op list \<Rightarrow> registry_file \<Rightarrow> registry_file" where
  "run_ops str ops f = fold (apply_op str) ops f"

lemma load_save:
  "load_doc str (save_doc d) = Inr (d\<lparr>rd_next_id :=
     if truthy (rd_next_id d) then rd_next_id d else PInt (next_from str (rd_vetoes d))\<rparr>)"
  by (cases d) (auto simp: load_doc_def save_doc_def py_access Let_def)

lemma update_first_append: "x \<in> set xs \<Longrightarrow> P x \<Longrightarrow> update_first P g (xs @ ys) = update_first P g xs @ ys"
  by (induction xs) auto

lemma update_first_none: "\<forall>x \<in> set xs. \<not> P x \<Longrightarrow> update_first P g (xs @ ys) = xs @ update_first P g ys"
  by (induction xs) auto

lemma update_first_all2: "(\<And>x. P x \<Longrightarrow> R x (g x)) \<Longrightarrow> (\<And>x. R x x) \<Longrightarrow> list_all2 R xs (update_first P g xs)"
  by (induction xs) (simp_all add: list_all2_same)

lemma in_update_first: "x \<in> set xs \<Longrightarrow> \<not> P x \<Longrightarrow> x \<in> set (update_first P g xs)"
  by (induction xs) auto

text \<open>What an operation does to a file that loads.\<close>

lemma record_effect:
  assumes "record_veto str scope verbatim ts f = Inr (row, f', au)"
  obtains d n where "load_doc str f = Inr d"
    "py_int (if truthy (rd_next_id d) then rd_next_id d else PInt (next_from str (rd_vetoes d))) = Some n"
    "row = veto_row (veto_id n) (clean_scope str scope) verbatim ts"
    "f' = save_doc (d\<lparr>rd_vetoes := rd_vetoes d @ [row], rd_next_id := PInt (veto_num str (PStr (veto_id n)) + 1)\<rparr>)"
    "is_enforceable (clean_scope str scope)"
proof -
  have enf: "is_enforceable (clean_scope str scope)"
    using assms by (auto simp: record_veto_def Let_def split: if_splits)
  obtain d where d: "load_doc str f = Inr d"
    using assms enf by (cases "load_doc str f") (simp_all add: record_veto_def)
  obtain n where n: "py_int (if truthy (rd_next_id d) then rd_next_id d else PInt (next_from str (rd_vetoes d))) = Some n"
    using assms enf d
    by (cases "py_int (if truthy (rd_next_id d) then rd_next_id d else PInt (next_from str (rd_vetoes d)))")
      (simp_all add: record_veto_def Let_def)
  show ?thesis
    by (rule that [OF d n _ _ enf]) (use assms enf d n in \<open>auto simp: record_veto_def Let_def\<close>)
qed

lemma apply_op_cases:
  assumes "load_doc str f = Inr d"
  obtains (same) "apply_op str op f = f"
  | (appended) scope verbatim ts row n d' where "op = Record scope verbatim ts"
      "py_int (if truthy (rd_next_id d) then rd_next_id d else PInt (next_from str (rd_vetoes d))) = Some n"
      "row = veto_row (veto_id n) (clean_scope str scope) verbatim ts"
      "load_doc str (apply_op str op f) = Inr d'" "rd_vetoes d' = rd_vetoes d @ [row]"
      "rd_next_id d' = (let m = veto_num str (PStr (veto_id n)) + 1 in
         if m \<noteq> 0 then PInt m else PInt (next_from str (rd_vetoes d @ [row])))"
  | (lifted) vid ts v d' where "op = Lift vid ts" "find (has_id vid) (rd_vetoes d) = Some v"
      "\<not> truthy (dget v ''lifted_at'')" "load_doc str (apply_op str op f) = Inr d'"
      "rd_vetoes d' = update_first (has_id vid) (lift_row ts) (rd_vetoes d)"
      "truthy (rd_next_id d) \<Longrightarrow> rd_next_id d' = rd_next_id d"
proof (cases op)
  case (Record scope verbatim ts)
  show ?thesis
  proof (cases "record_veto str scope verbatim ts f")
    case (Inl e)
    then show ?thesis
      using same Record by simp
  next
    case (Inr r)
    obtain row f' au where r: "r = (row, f', au)"
      by (cases r)
    obtain d1 n where e: "load_doc str f = Inr d1"
        "py_int (if truthy (rd_next_id d1) then rd_next_id d1 else PInt (next_from str (rd_vetoes d1))) = Some n"
        "row = veto_row (veto_id n) (clean_scope str scope) verbatim ts"
        "f' = save_doc (d1\<lparr>rd_vetoes := rd_vetoes d1 @ [row], rd_next_id := PInt (veto_num str (PStr (veto_id n)) + 1)\<rparr>)"
      using record_effect [OF Inr [unfolded r]] by metis
    have "apply_op str op f = f'" "d1 = d"
      using Record Inr r e(1) assms by simp_all
    then show ?thesis
      using Record e(2-4) by (intro appended [of scope verbatim ts n row]) (auto simp: load_save Let_def)
  qed
next
  case (Lift vid ts)
  show ?thesis
  proof (cases "find (has_id vid) (rd_vetoes d)")
    case None
    then show ?thesis
      using same Lift assms by (simp add: lift_veto_def)
  next
    case (Some v)
    show ?thesis
    proof (cases "truthy (dget v ''lifted_at'')")
      case True
      then show ?thesis
        using same Lift assms Some by (simp add: lift_veto_def)
    next
      case False
      let ?d = "d\<lparr>rd_vetoes := update_first (has_id vid) (lift_row ts) (rd_vetoes d)\<rparr>"
      have "apply_op str op f = save_doc ?d"
        using Lift assms Some False by (simp add: lift_veto_def)
      then show ?thesis
        by (intro lifted [OF Lift Some False load_save [of str ?d, folded \<open>apply_op str op f = save_doc ?d\<close>]]) simp_all
    qed
  qed
qed

section \<open>Vetoes stand\<close>

lemma binding_rows:
  "active_vetoes str f = Inr vs \<longleftrightarrow> (\<exists>d. load_doc str f = Inr d \<and> vs = filter (binding str) (rd_vetoes d))"
proof -
  have "filter (binding str) (filter is_dict xs) = filter (binding str) xs" for xs
    by (induction xs) (auto simp: binding_def)
  then show ?thesis
    by (auto simp: active_vetoes_def load_vetoes_def split: sum.splits)
qed

lemma is_vetoed_rows:
  "load_doc str f = Inr d \<Longrightarrow>
     is_vetoed str f a b c = Inr (\<exists>v \<in> set (rd_vetoes d). binding str v \<and> scope_covers str a b c v)"
  using binding_rows [of str f] by (auto simp: is_vetoed_def list_ex_iff)

lemma op_keeps_row:
  assumes "load_doc str f = Inr d" "v \<in> set (rd_vetoes d)"
    and "\<And>vid ts. op = Lift vid ts \<Longrightarrow> dget v ''id'' \<noteq> PStr vid"
  shows "\<exists>d'. load_doc str (apply_op str op f) = Inr d' \<and> v \<in> set (rd_vetoes d')"
  using assms(1)
proof (cases rule: apply_op_cases [where op = op])
  case same
  then show ?thesis
    using assms by simp
next
  case (appended scope verbatim ts row n d')
  then show ?thesis
    using assms(2) by simp
next
  case (lifted vid ts x d')
  have "\<not> has_id vid v"
    using assms(3) [OF lifted(1)] by (simp add: has_id_def)
  then show ?thesis
    using lifted(4,5) assms(2) in_update_first by auto
qed

lemma ops_keep_row:
  assumes "load_doc str f = Inr d" "v \<in> set (rd_vetoes d)"
    and "\<And>vid ts. Lift vid ts \<in> set ops \<Longrightarrow> dget v ''id'' \<noteq> PStr vid"
  shows "\<exists>d'. load_doc str (run_ops str ops f) = Inr d' \<and> v \<in> set (rd_vetoes d')"
  using assms
proof (induction ops arbitrary: f d)
  case Nil
  then show ?case by (simp add: run_ops_def)
next
  case (Cons op ops)
  obtain d1 where "load_doc str (apply_op str op f) = Inr d1" "v \<in> set (rd_vetoes d1)"
    using op_keeps_row [OF Cons.prems(1,2), of op] Cons.prems(3) by auto
  moreover have "\<And>vid ts. Lift vid ts \<in> set ops \<Longrightarrow> dget v ''id'' \<noteq> PStr vid"
    using Cons.prems(3) by (meson list.set_intros(2))
  ultimately show ?case
    using Cons.IH [of "apply_op str op f" d1] by (simp add: run_ops_def)
qed

lemma unlifted_veto_stands:
  assumes "active_vetoes str f = Inr vs" "v \<in> set vs" "scope_covers str a b c v"
    and "\<And>vid ts. Lift vid ts \<in> set ops \<Longrightarrow> dget v ''id'' \<noteq> PStr vid"
  shows "is_vetoed str (run_ops str ops f) a b c = Inr True"
proof -
  obtain d where d: "load_doc str f = Inr d" "v \<in> set (rd_vetoes d)" "binding str v"
    using assms(1,2) by (auto simp: binding_rows)
  obtain d' where d': "load_doc str (run_ops str ops f) = Inr d'" "v \<in> set (rd_vetoes d')"
    using ops_keep_row [where ops = ops, OF d(1,2)] assms(4) by blast
  then show ?thesis
    using d(3) assms(3) is_vetoed_rows [OF d'(1)] by auto
qed

section \<open>Identifiers\<close>

definition sound_doc :: "(pyval \<Rightarrow> string) \<Rightarrow> registry_doc \<Rightarrow> bool" where
  "sound_doc str d \<longleftrightarrow> (\<exists>n. rd_next_id d = PInt n \<and> 0 < n
       \<and> (\<forall>v \<in> set (rd_vetoes d). veto_num str (dget v ''id'') < n))
     \<and> distinct (map (\<lambda>v. dget v ''id'') (rd_vetoes d))"

definition same_veto :: "pyval \<Rightarrow> pyval \<Rightarrow> bool" where
  "same_veto v v' \<longleftrightarrow> (\<forall>k. k \<notin> {''lifted_at'', ''status''} \<longrightarrow> dget v' k = dget v k)
     \<and> (truthy (dget v ''lifted_at'') \<longrightarrow> v' = v)"

lemma after_dash_veto: "0 \<le> n \<Longrightarrow> after_dash (veto_id n) = fmt03 n"
proof -
  assume "0 \<le> n"
  then have "\<forall>c \<in> set (fmt03 n). c \<noteq> CHR ''-''"
    using fmt03_digits [of n] by (auto simp: list_all_iff is_digit_def)
  then have "takeWhile (\<lambda>c. c \<noteq> CHR ''-'') (rev (fmt03 n) @ ''-otev'') = rev (fmt03 n)"
    by (subst takeWhile_append2) auto
  then show ?thesis
    by (simp add: after_dash_def veto_id_def)
qed

lemma veto_num_id: "0 \<le> n \<Longrightarrow> veto_num str (PStr (veto_id n)) = n"
  by (simp only: veto_num_def py_text_def pyval.case after_dash_veto int_text_fmt03 option.case)

lemma veto_row_id [simp]: "dget (veto_row vid sc verbatim ts) ''id'' = PStr vid"
  by (simp add: veto_row_def py_access)

lemma lift_row_same: "has_id vid v \<Longrightarrow> dget (lift_row ts v) ''id'' = dget v ''id''"
  by (simp add: lift_row_def)

lemma op_sound:
  assumes "load_doc str f = Inr d" "sound_doc str d"
  shows "\<exists>d'. load_doc str (apply_op str op f) = Inr d' \<and> sound_doc str d'
     \<and> list_all2 same_veto (rd_vetoes d) (take (length (rd_vetoes d)) (rd_vetoes d'))
     \<and> length (rd_vetoes d) \<le> length (rd_vetoes d')"
proof -
  have refl: "list_all2 same_veto vs vs" for vs
    by (simp add: list_all2_same same_veto_def)
  obtain n where n: "rd_next_id d = PInt n" "0 < n" "\<And>v. v \<in> set (rd_vetoes d) \<Longrightarrow> veto_num str (dget v ''id'') < n"
    using assms(2) by (auto simp: sound_doc_def)
  show ?thesis
    using assms(1)
  proof (cases rule: apply_op_cases [where op = op])
    case same
    then show ?thesis
      using assms refl by auto
  next
    case (appended scope verbatim ts row m d')
    have m: "m = n"
      using appended(2) n(1,2) by (simp add: py_int_def)
    then have new: "veto_num str (PStr (veto_id m)) = n"
      using n(2) by (simp add: veto_num_id)
    have next_id: "rd_next_id d' = PInt (n + 1)"
      using appended(6) n(2) unfolding new by (simp add: Let_def)
    have row: "dget row ''id'' = PStr (veto_id m)"
      unfolding appended(3) by (rule veto_row_id)
    then have "dget row ''id'' \<notin> (\<lambda>v. dget v ''id'') ` set (rd_vetoes d)"
      using n(3) new by force
    then have "distinct (map (\<lambda>v. dget v ''id'') (rd_vetoes d'))"
      using assms(2) appended(5) by (simp add: sound_doc_def)
    moreover have "\<forall>v \<in> set (rd_vetoes d'). veto_num str (dget v ''id'') < n + 1"
      unfolding appended(5) using n(3) by (fastforce simp: row new)
    ultimately have "sound_doc str d'"
      using next_id n(2) by (simp add: sound_doc_def)
    then show ?thesis
      using appended(4,5) refl by auto
  next
    case (lifted vid ts v d')
    have v: "has_id vid v" "v \<in> set (rd_vetoes d)"
      using find_SomeD [OF lifted(2)] by simp_all
    have unique: "x = v" if "x \<in> set (rd_vetoes d)" "has_id vid x" for x
      using assms(2) v that by (auto simp: sound_doc_def has_id_def distinct_map inj_on_def)
    have ids: "map (\<lambda>v. dget v ''id'') (update_first (has_id vid) (lift_row ts) vs) = map (\<lambda>v. dget v ''id'') vs" for vs
      by (induction vs) (simp_all add: lift_row_same)
    have "set (map (\<lambda>v. dget v ''id'') (rd_vetoes d')) = set (map (\<lambda>v. dget v ''id'') (rd_vetoes d))"
      unfolding lifted(5) ids ..
    then have "(\<lambda>v. dget v ''id'') ` set (rd_vetoes d') = (\<lambda>v. dget v ''id'') ` set (rd_vetoes d)"
      by simp
    then have nums: "\<forall>x \<in> set (rd_vetoes d'). veto_num str (dget x ''id'') < n"
      using n(3) by (metis (no_types, lifting) imageE imageI)
    have "sound_doc str d'"
      using assms(2) n(1,2) nums lifted(6) by (simp add: sound_doc_def) (simp add: lifted(5) ids)
    moreover have "list_all2 same_veto (rd_vetoes d) (rd_vetoes d')"
    proof -
      have "same_veto x (lift_row ts x)" if "\<not> truthy (dget x ''lifted_at'')" for x
        using that by (simp add: same_veto_def lift_row_def)
      moreover have "\<forall>x \<in> set (rd_vetoes d). has_id vid x \<longrightarrow> \<not> truthy (dget x ''lifted_at'')"
        using unique lifted(3) by blast
      ultimately have "list_all2 same_veto vs (update_first (has_id vid) (lift_row ts) vs)"
        if "set vs \<subseteq> set (rd_vetoes d)" for vs
        using that refl by (induction vs) (auto simp: same_veto_def)
      then show ?thesis
        unfolding lifted(5) by simp
    qed
    ultimately show ?thesis
      using lifted(4) list_all2_lengthD by fastforce
  qed
qed

lemma same_veto_trans: "same_veto x y \<Longrightarrow> same_veto y z \<Longrightarrow> same_veto x z"
  unfolding same_veto_def by metis

lemma same_rows_trans:
  "list_all2 same_veto xs ys \<Longrightarrow> list_all2 same_veto ys zs \<Longrightarrow> list_all2 same_veto xs zs"
  using same_veto_trans by (auto simp: list_all2_conv_all_nth)

text \<open>
  Rows are never lost and identifiers never repeat. From a registry whose next identifier exceeds
  every identifier in it, any sequence of recordings and lifts leaves such a registry: every row is
  still at its place with its identifier, scope, words and time unchanged, a lifted row is unchanged
  altogether, and all identifiers, old and new, are different.
\<close>

theorem registry_monotone:
  assumes "load_doc str f = Inr d" "sound_doc str d"
  shows "\<exists>d'. load_doc str (run_ops str ops f) = Inr d' \<and> sound_doc str d'
     \<and> distinct (map (\<lambda>v. dget v ''id'') (rd_vetoes d'))
     \<and> list_all2 same_veto (rd_vetoes d) (take (length (rd_vetoes d)) (rd_vetoes d'))"
proof -
  have "\<exists>d'. load_doc str (run_ops str ops f) = Inr d' \<and> sound_doc str d'
     \<and> list_all2 same_veto (rd_vetoes d) (take (length (rd_vetoes d)) (rd_vetoes d'))
     \<and> length (rd_vetoes d) \<le> length (rd_vetoes d')"
    using assms
  proof (induction ops arbitrary: f d)
    case Nil
    then show ?case
      by (simp add: run_ops_def list_all2_same same_veto_def)
  next
    case (Cons op ops)
    obtain d1 where d1: "load_doc str (apply_op str op f) = Inr d1" "sound_doc str d1"
        "list_all2 same_veto (rd_vetoes d) (take (length (rd_vetoes d)) (rd_vetoes d1))"
        "length (rd_vetoes d) \<le> length (rd_vetoes d1)"
      using op_sound [OF Cons.prems] by blast
    obtain d2 where d2: "load_doc str (run_ops str ops (apply_op str op f)) = Inr d2" "sound_doc str d2"
        "list_all2 same_veto (rd_vetoes d1) (take (length (rd_vetoes d1)) (rd_vetoes d2))"
        "length (rd_vetoes d1) \<le> length (rd_vetoes d2)"
      using Cons.IH [OF d1(1,2)] by blast
    have "list_all2 same_veto (take (length (rd_vetoes d)) (rd_vetoes d1)) (take (length (rd_vetoes d)) (rd_vetoes d2))"
      using list_all2_takeI [OF d2(3), of "length (rd_vetoes d)"] d1(4) by simp
    then have "list_all2 same_veto (rd_vetoes d) (take (length (rd_vetoes d)) (rd_vetoes d2))"
      by (rule same_rows_trans [OF d1(3)])
    then show ?case
      using d1(4) d2 by (auto simp: run_ops_def)
  qed
  then show ?thesis
    unfolding sound_doc_def by blast
qed

definition sample_scope :: pyval where
  "sample_scope = PDict [(''action_type'', PStr ''external_email'')]"

definition sample_ops :: "veto_op list" where
  "sample_ops = [Record sample_scope ''never'' ''t1'', Record (PDict [(''board'', PStr ''b'')]) ''no'' ''t2'',
     Lift ''veto-002'' ''t3'']"

theorem registry_monotone_witness:
  "\<exists>d'. load_doc (\<lambda>_. ''x'') (run_ops (\<lambda>_. ''x'') sample_ops No_Registry) = Inr d'
     \<and> distinct (map (\<lambda>v. dget v ''id'') (rd_vetoes d'))"
proof -
  have "load_doc (\<lambda>_. ''x'') No_Registry = Inr empty_doc" "sound_doc (\<lambda>_. ''x'') empty_doc"
    by (simp_all add: load_doc_def sound_doc_def empty_doc_def)
  from registry_monotone [OF this, of sample_ops] show ?thesis
    by blast
qed

section \<open>Recording and lifting\<close>

definition text_scope :: "pyval \<Rightarrow> bool" where
  "text_scope scope \<longleftrightarrow> (\<forall>k \<in> set SCOPE_FIELDS. dget scope k = PNone \<or> is_str (dget scope k))"

lemma clean_field_idem:
  assumes "v = PNone \<or> is_str v"
  shows "clean_field str v = None \<or> (\<exists>s. clean_field str v = Some s \<and> clean_field str (PStr s) = Some s)"
  using assms by (cases v) (auto simp: clean_field_def py_text_def strip_strip)

lemma clean_scope_idem:
  assumes "text_scope scope"
  shows "clean_scope str (PDict (map (\<lambda>(k, v). (k, PStr v)) (clean_scope str scope))) = clean_scope str scope"
proof (cases "is_dict scope")
  case True
  have f: "clean_field str PNone = None"
    by (simp add: clean_field_def)
  have "clean_field str (dget scope k) = None
      \<or> (\<exists>s. clean_field str (dget scope k) = Some s \<and> clean_field str (PStr s) = Some s)"
    if "k \<in> set SCOPE_FIELDS" for k
    using assms that clean_field_idem by (auto simp: text_scope_def)
  from this [of "''action_type''"] this [of "''board''"] this [of "''content_family''"] this [of "''lane''"]
  show ?thesis
    using True by (auto simp: clean_scope_def SCOPE_FIELDS_def map_filter_simps py_access f)
qed (simp add: clean_scope_def py_access SCOPE_FIELDS_def map_filter_simps clean_field_def)

lemma veto_row_binding:
  assumes "text_scope scope" "is_enforceable (clean_scope str scope)"
  shows "binding str (veto_row vid (clean_scope str scope) verbatim ts)"
    and "scope_covers str a b c (veto_row vid (clean_scope str scope) verbatim ts) \<longleftrightarrow> scope_covers str a b c (PDict [(''scope'', scope)])"
proof -
  let ?v = "veto_row vid (clean_scope str scope) verbatim ts"
  have get: "dget ?v ''scope'' = PDict (map (\<lambda>(k, v). (k, PStr v)) (clean_scope str scope))"
      "dget ?v ''lifted_at'' = PNone" "dget ?v ''status'' = PStr ''active''"
    by (simp_all add: veto_row_def py_access)
  have "lower (strip ''active'') \<noteq> ''lifted''"
    by code_simp
  then have "\<not> is_lifted str ?v"
    by (simp add: is_lifted_def get py_text_def)
  moreover have "is_dict ?v"
    by (simp add: veto_row_def)
  ultimately show "binding str ?v"
    using assms by (simp add: binding_def get clean_scope_idem)
  show "scope_covers str a b c ?v \<longleftrightarrow> scope_covers str a b c (PDict [(''scope'', scope)])"
    using assms by (simp add: scope_covers_def get clean_scope_idem) (simp add: py_access)
qed

text \<open>
  Recording adds exactly one veto and lifting it takes exactly that one away. When a veto on a
  scope of texts is recorded, an act is vetoed afterwards just when it was before or the scope's set
  fields equal the act's; and lifting the identifier the recording returned brings back the answers
  of before for every act.
\<close>

theorem record_lift_roundtrip:
  assumes "load_doc str f = Inr d" "sound_doc str d" "text_scope scope"
    and "record_veto str scope verbatim ts f = Inr (row, f1, au)"
    and "lift_veto str (str_of (dget row ''id'')) ts2 f1 = Inr (found, f2, au2)"
  shows "\<exists>old. is_vetoed str f a b c = Inr old
      \<and> is_vetoed str f1 a b c = Inr (old \<or> scope_covers str a b c (PDict [(''scope'', scope)]))
      \<and> found \<noteq> None \<and> is_vetoed str f2 a b c = Inr old"
proof -
  obtain n where n: "rd_next_id d = PInt n" "0 < n" "\<And>v. v \<in> set (rd_vetoes d) \<Longrightarrow> veto_num str (dget v ''id'') < n"
    using assms(2) by (auto simp: sound_doc_def)
  obtain d0 m where d0: "load_doc str f = Inr d0"
      "py_int (if truthy (rd_next_id d0) then rd_next_id d0 else PInt (next_from str (rd_vetoes d0))) = Some m"
      "row = veto_row (veto_id m) (clean_scope str scope) verbatim ts"
      "f1 = save_doc (d0\<lparr>rd_vetoes := rd_vetoes d0 @ [row], rd_next_id := PInt (veto_num str (PStr (veto_id m)) + 1)\<rparr>)"
      "is_enforceable (clean_scope str scope)"
    by (rule record_effect [OF assms(4)])
  have m: "m = n" "d0 = d"
    using d0(1,2) assms(1) n(1,2) by (simp_all add: py_int_def)
  define vid where "vid = veto_id n"
  have row: "row = veto_row vid (clean_scope str scope) verbatim ts" "dget row ''id'' = PStr vid"
    using d0(3) by (simp_all add: m vid_def)
  obtain d1 where d1: "load_doc str f1 = Inr d1" "rd_vetoes d1 = rd_vetoes d @ [row]"
    unfolding d0(4) m load_save by simp
  have old: "\<forall>v \<in> set (rd_vetoes d). \<not> has_id vid v"
  proof
    fix v
    assume "v \<in> set (rd_vetoes d)"
    then have "veto_num str (dget v ''id'') \<noteq> veto_num str (PStr vid)"
      using n(2,3) by (fastforce simp: vid_def veto_num_id)
    then show "\<not> has_id vid v"
      by (auto simp: has_id_def)
  qed
  have hit: "has_id vid row"
    using row(2) by (simp add: has_id_def row(1) veto_row_def)
  have find: "find (has_id vid) (rd_vetoes d1) = Some row"
  proof -
    have "filter (has_id vid) (rd_vetoes d) = []"
      using old by (simp add: filter_empty_conv)
    then show ?thesis
      unfolding d1(2) find_filter_hd using hit by simp
  qed
  have unlifted: "\<not> truthy (dget row ''lifted_at'')"
    by (simp add: row(1) veto_row_def py_access)
  have lift: "found = Some (lift_row ts2 row)"
      "f2 = save_doc (d1\<lparr>rd_vetoes := update_first (has_id vid) (lift_row ts2) (rd_vetoes d1)\<rparr>)"
    using assms(5) unfolding row(2) by (simp_all add: lift_veto_def d1(1) find unlifted)
  obtain d2 where d2: "load_doc str f2 = Inr d2" "rd_vetoes d2 = rd_vetoes d @ [lift_row ts2 row]"
    unfolding lift(2) load_save using old hit by (simp add: d1(2) update_first_none)
  have "lower (strip ''lifted'') = ''lifted''"
    by code_simp
  then have "\<not> binding str (lift_row ts2 row)"
    by (simp add: binding_def is_lifted_def lift_row_def py_text_def)
  moreover note veto_row_binding [where vid = vid and verbatim = verbatim and ts = ts, OF assms(3) d0(5), folded row(1)]
  ultimately show ?thesis
    unfolding is_vetoed_rows [OF d1(1)] is_vetoed_rows [OF d2(1)] is_vetoed_rows [OF assms(1)]
    by (auto simp: d1(2) d2(2) lift(1))
qed

definition one_veto :: registry_file where
  "one_veto = apply_op (\<lambda>_. ''x'') (Record sample_scope ''never'' ''t1'') No_Registry"

lemma one_veto_facts:
  "\<exists>row au. record_veto (\<lambda>_. ''x'') sample_scope ''never'' ''t1'' No_Registry = Inr (row, one_veto, au)
     \<and> str_of (dget row ''id'') = ''veto-001''"
  "\<exists>found f2 au2. lift_veto (\<lambda>_. ''x'') ''veto-001'' ''t2'' one_veto = Inr (found, f2, au2)"
  "scope_covers (\<lambda>_. ''x'') (Some ''external_email'') None None (PDict [(''scope'', sample_scope)])"
proof -
  have "(case record_veto (\<lambda>_. ''x'') sample_scope ''never'' ''t1'' No_Registry of
      Inr (row, _, _) \<Rightarrow> str_of (dget row ''id'') = ''veto-001'' | Inl _ \<Rightarrow> False)"
    by code_simp
  then show "\<exists>row au. record_veto (\<lambda>_. ''x'') sample_scope ''never'' ''t1'' No_Registry = Inr (row, one_veto, au)
     \<and> str_of (dget row ''id'') = ''veto-001''"
    by (auto simp: one_veto_def split: sum.splits prod.splits)
  have "(case lift_veto (\<lambda>_. ''x'') ''veto-001'' ''t2'' one_veto of Inr _ \<Rightarrow> True | Inl _ \<Rightarrow> False)"
    by code_simp
  then show "\<exists>found f2 au2. lift_veto (\<lambda>_. ''x'') ''veto-001'' ''t2'' one_veto = Inr (found, f2, au2)"
    by (auto split: sum.splits)
  show "scope_covers (\<lambda>_. ''x'') (Some ''external_email'') None None (PDict [(''scope'', sample_scope)])"
    by code_simp
qed

theorem record_lift_roundtrip_witness:
  "is_vetoed (\<lambda>_. ''x'') one_veto (Some ''external_email'') None None = Inr True"
proof -
  have "load_doc (\<lambda>_. ''x'') No_Registry = Inr empty_doc" "sound_doc (\<lambda>_. ''x'') empty_doc"
    "text_scope sample_scope"
    by (simp_all add: load_doc_def sound_doc_def empty_doc_def text_scope_def SCOPE_FIELDS_def sample_scope_def py_access)
  note r = record_lift_roundtrip [OF this]
  obtain row au where row: "record_veto (\<lambda>_. ''x'') sample_scope ''never'' ''t1'' No_Registry = Inr (row, one_veto, au)"
      "str_of (dget row ''id'') = ''veto-001''"
    using one_veto_facts(1) by blast
  obtain found f2 au2 where lift: "lift_veto (\<lambda>_. ''x'') (str_of (dget row ''id'')) ''t2'' one_veto = Inr (found, f2, au2)"
    using one_veto_facts(2) row(2) by auto
  show ?thesis
    using r [OF row(1) lift, of "Some ''external_email''" None None] one_veto_facts(3) by auto
qed

section \<open>The cache\<close>

text \<open>
  A registry that cannot be read turns the sentinel to fail, so the lane does not act unattended. But a
  server that cannot be reached is not noticed: nothing is written, and the rebuild reports success.
\<close>

lemma unreadable_not_ready:
  "active_vetoes str f = Inl e \<Longrightarrow> rebuild_cache str Cli_Works f c = (n, c') \<Longrightarrow> n = None \<and> \<not> veto_cache_ready m c'"
  by (auto simp: rebuild_cache_def redis_set_def veto_cache_ready_def)

lemma put_rows_silent: "\<forall>v \<in> set vs. has_key v ''id'' \<Longrightarrow> put_rows str Cli_Silent vs c = (c, True)"
  by (induction vs) (simp_all add: redis_set_def)

theorem silent_rebuild_succeeds:
  assumes "active_vetoes str f = Inr vs" "\<forall>v \<in> set vs. has_key v ''id''"
  shows "rebuild_cache str Cli_Silent f c = (Some (length vs), c)"
  using assms by (simp add: rebuild_cache_def rebuild_rows_def clear_cache_def put_rows_silent redis_set_def Let_def)

end
