(* ===== verification/Veto_Gate.thy ===== *)
theory Veto_Gate
  imports Gate_Correct Veto_Registry_Correct
begin

text \<open>
  The veto registry and the authority gate together: the grants kernel asks the registry, so a veto
  on a kind closes the gate for that kind, however many recordings and lifts follow, until it is
  itself lifted.
\<close>

text \<open>\<^verbatim>\<open>grants._default_is_vetoed\<close>: the registry's answer for a kind alone; a read that raises is None.\<close>

definition registry_answer :: "(pyval \<Rightarrow> string) \<Rightarrow> registry_file \<Rightarrow> string \<Rightarrow> bool option" where
  "registry_answer str f kind = (case is_vetoed str f (Some kind) None None of Inl _ \<Rightarrow> None | Inr b \<Rightarrow> Some b)"

lemma ceiling_allow_unvetoed:
  assumes "ceiling_branch w p posture rc action input officer st = (Allow, st')"
  shows "\<exists>gk. gt_grants w = Some gk \<and> gk_vetoed gk action = Some False"
proof -
  obtain gid st2 where "standing_grant_resolution w rc action (grant_context input) officer True st = (Grant_Allows gid, st2)"
    using assms by (auto simp: ceiling_branch_def gated_def split: if_splits prod.splits grant_resolution.splits)
  from resolution_allows [OF this] show ?thesis
    by blast
qed

lemma eval_ceiling_allow:
  assumes "validate_policy p = None" "(rc, kinds) \<in> set CEILING_CLASS_ACTION_TYPES"
    and "gt_classify w = Some classify" "classify tool input \<in> set kinds"
    and "eval_authority_matrix w p tool input officer st = (Allow, st')"
  shows "\<exists>posture st1. ceiling_branch w p posture rc (classify tool input) input officer st1 = (Allow, st')"
proof -
  have risk: "risk_of (classify tool input) (dget p ''risk_classes'') = Some rc"
    by (rule ceiling_kind_row [OF assms(1,2,4)])
  have hc: "in_list (dget p ''hard_ceiling'') rc"
    using ceiling_class_in [OF assms(1,2)] by (simp add: in_list_iff)
  obtain posture st1 where po: "resolve_gate_posture w st = (posture, st1)"
    by (cases "resolve_gate_posture w st")
  show ?thesis
    using assms(5) eval_ceiling [OF assms(3) risk hc validated_not_quarantined [OF assms(1)] po] by auto
qed

text \<open>
  C5: a never is final until it is lifted. Let a registry hold an active veto covering a ceiling kind
  on every board, and let any recordings and lifts follow, none of which lifts that veto. A gate
  whose grants kernel reads the resulting registry allows no tool call of that kind, under any
  ruling, grant, evidence, posture or state.
\<close>

theorem never_closes_gate:
  assumes "validate_policy p = None" "(rc, kinds) \<in> set CEILING_CLASS_ACTION_TYPES"
    and "gt_classify w = Some classify" "classify tool input \<in> set kinds"
    and "active_vetoes str f = Inr vs" "v \<in> set vs"
    and "scope_covers str (Some (classify tool input)) None None v"
    and "\<And>vid ts. Lift vid ts \<in> set ops \<Longrightarrow> dget v ''id'' \<noteq> PStr vid"
    and "\<And>gk. gt_grants w = Some gk \<Longrightarrow> gk_vetoed gk = registry_answer str (run_ops str ops f)"
  shows "fst (eval_authority_matrix w p tool input officer st) \<noteq> Allow"
proof
  assume "fst (eval_authority_matrix w p tool input officer st) = Allow"
  then obtain st' where "eval_authority_matrix w p tool input officer st = (Allow, st')"
    by (metis prod.collapse)
  then obtain gk where gk: "gt_grants w = Some gk" "gk_vetoed gk (classify tool input) = Some False"
    using eval_ceiling_allow [OF assms(1-4)] ceiling_allow_unvetoed by metis
  have "is_vetoed str (run_ops str ops f) (Some (classify tool input)) None None = Inr True"
    by (rule unlifted_veto_stands [where ops = ops, OF assms(5-7)]) (rule assms(8))
  then show False
    using gk assms(9) [OF gk(1)] by (simp add: registry_answer_def)
qed

definition vetoed_gate :: gate_world where
  "vetoed_gate = sample_gate\<lparr>gt_grants := Some \<lparr>gk_files = sample_grants_world, gk_cabinet = ''main'',
     gk_vetoed = registry_answer (\<lambda>_. ''x'') (run_ops (\<lambda>_. ''x'') [Lift ''veto-002'' ''t''] one_veto)\<rparr>\<rparr>"

text \<open>The same call passes the gate when nothing is vetoed.\<close>

theorem never_closes_gate_witness:
  "fst (eval_authority_matrix sample_gate shipped_policy ''send'' sample_send ''cos'' sample_state) = Allow
   \<and> fst (eval_authority_matrix vetoed_gate shipped_policy ''send'' sample_send ''cos'' sample_state) \<noteq> Allow"
proof
  have act: "(case active_vetoes (\<lambda>_. ''x'') one_veto of Inr [v] \<Rightarrow>
      scope_covers (\<lambda>_. ''x'') (Some ''external_email'') None None v \<and> dget v ''id'' = PStr ''veto-001'' | _ \<Rightarrow> False)"
    by code_simp
  then obtain v where v: "active_vetoes (\<lambda>_. ''x'') one_veto = Inr [v]"
      "scope_covers (\<lambda>_. ''x'') (Some ''external_email'') None None v" "dget v ''id'' = PStr ''veto-001''"
    by (auto split: sum.splits list.splits)
  show "fst (eval_authority_matrix vetoed_gate shipped_policy ''send'' sample_send ''cos'' sample_state) \<noteq> Allow"
  proof (rule never_closes_gate [OF shipped_policy_valid, of "''external_comms''" EXTERNAL_COMMS _ "\<lambda>_ _. ''external_email''"
        _ _ "\<lambda>_. ''x''" one_veto "[v]" v "[Lift ''veto-002'' ''t'']"])
  qed (use v in \<open>simp_all add: CEILING_CLASS_ACTION_TYPES_def EXTERNAL_COMMS_def vetoed_gate_def sample_gate_def\<close>)
qed (rule sample_send_allowed)

end
