(* ===== verification/Veto_Window.thy ===== *)
theory Veto_Window
  imports Cabinet_Base
begin

text \<open>
  The deferred-send window: \<^verbatim>\<open>framework/authority/veto.py\<close>. Redis is the stream of
  queued drafts, the set of sent markers and the dead-letter list; the messages the backend accepted
  are recorded too. A field of an entry is the value its text denotes (the payload its JSON value,
  the deadline its number). The identifiers uuid and Redis assign are arguments. A sweep is given
  twice: as the loop of the source, and as the machine whose steps are the single Redis and backend
  calls of that loop, so that sweeps, kills and crashes can interleave.
\<close>

section \<open>State\<close>

type_synonym entry = "string \<times> pyval"

record veto_state =
  vs_stream :: "entry list"
  vs_markers :: "string set"
  vs_dead :: "pyval list"
  vs_events :: "pyval list"
  vs_sent :: "string list"

definition FALLBACK_WINDOW_MINUTES :: int where
  "FALLBACK_WINDOW_MINUTES = 7"

definition default_window_minutes :: "pyval option \<Rightarrow> int" where
  "default_window_minutes policy = (case policy of None \<Rightarrow> FALLBACK_WINDOW_MINUTES
     | Some p \<Rightarrow> let n = dget p ''veto_window_minutes'' in
         if is_int n \<and> 0 < int_of n then int_of n else FALLBACK_WINDOW_MINUTES)"

section \<open>Queueing and killing\<close>

definition xdel :: "string \<Rightarrow> veto_state \<Rightarrow> veto_state" where
  "xdel eid st = st\<lparr>vs_stream := filter (\<lambda>e. fst e \<noteq> eid) (vs_stream st)\<rparr>"

definition draft_fields :: "string \<Rightarrow> string \<Rightarrow> string \<Rightarrow> string \<Rightarrow> rat \<Rightarrow> pyval \<Rightarrow> pyval" where
  "draft_fields draft_id officer lane action_type send_at payload =
     PDict [(''draft_id'', PStr draft_id), (''officer'', PStr officer), (''lane'', PStr lane),
       (''action_type'', PStr action_type), (''send_at'', PFloat send_at), (''payload'', payload)]"

definition enqueue_veto :: "string \<Rightarrow> string \<Rightarrow> pyval option \<Rightarrow> rat \<Rightarrow> string \<Rightarrow> string \<Rightarrow> string \<Rightarrow>
    pyval \<Rightarrow> rat option \<Rightarrow> veto_state \<Rightarrow> string \<times> veto_state" where
  "enqueue_veto uuid eid policy clock officer lane action_type payload window_minutes st =
     (let n = (case window_minutes of Some w \<Rightarrow> w | None \<Rightarrow> of_int (default_window_minutes policy)) in
      (uuid, st\<lparr>vs_stream := vs_stream st
         @ [(eid, draft_fields uuid officer lane action_type (clock + n * 60) payload)]\<rparr>))"

definition find_entry :: "string \<Rightarrow> entry list \<Rightarrow> entry option" where
  "find_entry draft_id es = find (\<lambda>(eid, f). dget f ''draft_id'' = PStr draft_id \<or> eid = draft_id) es"

definition kill_record :: "string \<Rightarrow> pyval \<Rightarrow> pyval" where
  "kill_record draft_id f = (let g = (\<lambda>k. dget_or f k (PStr [])) in
     PDict [(''cell'', PList [g ''officer'', g ''lane'', g ''action_type'']),
       (''verdict'', PStr ''auto_with_veto_window''), (''action_type'', g ''action_type''),
       (''officer'', g ''officer''), (''lane'', g ''lane''), (''draft_id'', PStr draft_id),
       (''killed'', PBool True)])"

text \<open>\<^verbatim>\<open>emitter\<close>: None when not given, else whether it works.\<close>

definition kill_draft :: "bool option \<Rightarrow> string \<Rightarrow> veto_state \<Rightarrow> bool \<times> veto_state" where
  "kill_draft emitter draft_id st = (case find_entry draft_id (vs_stream st) of
       None \<Rightarrow> (False, st)
     | Some (eid, f) \<Rightarrow>
         let st1 = xdel eid st in
         (True, if emitter = Some True
            then st1\<lparr>vs_events := vs_events st1 @ [kill_record draft_id f]\<rparr> else st1))"

section \<open>The sweep as the source writes it\<close>

definition due :: "rat \<Rightarrow> entry \<Rightarrow> bool" where
  "due now e \<longleftrightarrow> (let s = dget (snd e) ''send_at'' in is_number s \<and> num_of s \<le> now)"

definition draft_of :: "entry \<Rightarrow> string" where
  "draft_of e = (let d = dget (snd e) ''draft_id'' in if truthy d then str_of d else fst e)"

definition decode_payload :: "entry \<Rightarrow> pyval" where
  "decode_payload e = (let p = dget (snd e) ''payload'' in
     if is_dict p then p
     else PDict (filter (\<lambda>(k, v). k \<notin> {''payload'', ''send_at''}) (items (snd e))))"

definition dead_letter :: "bool \<Rightarrow> entry \<Rightarrow> string \<Rightarrow> veto_state \<Rightarrow> veto_state" where
  "dead_letter push e err st = (if push then st\<lparr>vs_dead := vs_dead st @
     [PDict [(''entry_id'', PStr (fst e)), (''draft_id'', dget_or (snd e) ''draft_id'' (PStr (fst e))),
        (''fields'', snd e), (''error'', PStr err)]]\<rparr> else st)"

definition set_nx :: "string \<Rightarrow> veto_state \<Rightarrow> bool \<times> veto_state" where
  "set_nx d st = (d \<notin> vs_markers st, st\<lparr>vs_markers := insert d (vs_markers st)\<rparr>)"

definition unmark :: "string \<Rightarrow> veto_state \<Rightarrow> veto_state" where
  "unmark d st = st\<lparr>vs_markers := vs_markers st - {d}\<rparr>"

definition accepted :: "string \<Rightarrow> veto_state \<Rightarrow> veto_state" where
  "accepted d st = st\<lparr>vs_sent := vs_sent st @ [d]\<rparr>"

definition scan_entry :: "rat \<Rightarrow> (pyval \<Rightarrow> string option) \<Rightarrow> bool \<Rightarrow>
    string list \<times> veto_state \<Rightarrow> entry \<Rightarrow> string list \<times> veto_state" where
  "scan_entry now backend push ss e = (case ss of (sent, st) \<Rightarrow>
     if \<not> due now e then (sent, st)
     else if draft_of e \<in> vs_markers st then (sent, xdel (fst e) st)
     else (case set_nx (draft_of e) st of (claimed, st1) \<Rightarrow>
       if \<not> claimed then (sent, xdel (fst e) st1)
       else (case backend (decode_payload e) of
           Some err \<Rightarrow> (sent, xdel (fst e) (unmark (draft_of e) (dead_letter push e err st1)))
         | None \<Rightarrow> (sent @ [draft_of e], xdel (fst e) (accepted (draft_of e) st1)))))"

definition scan_and_send :: "rat \<Rightarrow> (pyval \<Rightarrow> string option) \<Rightarrow> bool \<Rightarrow> veto_state \<Rightarrow> string list \<times> veto_state" where
  "scan_and_send now backend push st = foldl (scan_entry now backend push) ([], st) (vs_stream st)"

section \<open>The sweep as single calls\<close>

datatype sweep_pc =
    Idle
  | Scan "entry list"                  \<comment> \<open>the rest of the snapshot\<close>
  | Claim entry "entry list"
  | Send entry "entry list"
  | Bury entry "entry list" string
  | Unmark entry "entry list"
  | Reap entry "entry list"
  | Finish entry "entry list"

type_synonym sweeper = "sweep_pc \<times> string list"

fun sweep_step :: "rat \<Rightarrow> string option \<Rightarrow> bool \<Rightarrow> sweeper \<Rightarrow> veto_state \<Rightarrow> sweeper \<times> veto_state" where
  "sweep_step now answer push (Idle, sent) st = ((Idle, sent), st)"
| "sweep_step now answer push (Scan [], sent) st = ((Idle, sent), st)"
| "sweep_step now answer push (Scan (e # es), sent) st =
     ((if \<not> due now e then Scan es
       else if draft_of e \<in> vs_markers st then Reap e es else Claim e es, sent), st)"
| "sweep_step now answer push (Claim e es, sent) st =
     (case set_nx (draft_of e) st of (claimed, st1) \<Rightarrow> ((if claimed then Send e es else Reap e es, sent), st1))"
| "sweep_step now answer push (Send e es, sent) st =
     (case answer of None \<Rightarrow> ((Finish e es, sent), accepted (draft_of e) st)
      | Some err \<Rightarrow> ((Bury e es err, sent), st))"
| "sweep_step now answer push (Bury e es err, sent) st = ((Unmark e es, sent), dead_letter push e err st)"
| "sweep_step now answer push (Unmark e es, sent) st = ((Reap e es, sent), unmark (draft_of e) st)"
| "sweep_step now answer push (Reap e es, sent) st = ((Scan es, sent), xdel (fst e) st)"
| "sweep_step now answer push (Finish e es, sent) st = ((Scan es, sent @ [draft_of e]), xdel (fst e) st)"

text \<open>The answer the backend gives to the draft a sweep is about to send.\<close>

fun answer_to :: "(pyval \<Rightarrow> string option) \<Rightarrow> sweeper \<Rightarrow> string option" where
  "answer_to backend (Send e es, sent) = backend (decode_payload e)"
| "answer_to backend _ = None"

fun sweep_run :: "nat \<Rightarrow> rat \<Rightarrow> (pyval \<Rightarrow> string option) \<Rightarrow> bool \<Rightarrow> sweeper \<times> veto_state \<Rightarrow> sweeper \<times> veto_state" where
  "sweep_run 0 now backend push cfg = cfg"
| "sweep_run (Suc n) now backend push cfg = (case cfg of (sw, st) \<Rightarrow>
     sweep_run n now backend push (sweep_step now (answer_to backend sw) push sw st))"

section \<open>Sweeps, kills and crashes together\<close>

record veto_world =
  vw_redis :: veto_state
  vw_sweeps :: "nat \<Rightarrow> sweeper"
  vw_used :: "string set"              \<comment> \<open>the identifiers uuid and Redis have given out\<close>

fun held :: "sweep_pc \<Rightarrow> entry list" where
  "held Idle = []"
| "held (Scan es) = es"
| "held (Claim e es) = e # es"
| "held (Send e es) = e # es"
| "held (Bury e es err) = e # es"
| "held (Unmark e es) = e # es"
| "held (Reap e es) = e # es"
| "held (Finish e es) = e # es"

text \<open>A draft is live while an entry of it is in the stream or in what some sweep still works on.\<close>

definition live_draft :: "string \<Rightarrow> veto_world \<Rightarrow> bool" where
  "live_draft d w \<longleftrightarrow> d \<in> draft_of ` set (vs_stream (vw_redis w))
     \<or> (\<exists>i. d \<in> draft_of ` set (held (fst (vw_sweeps w i))))"

text \<open>
  The steps of the world: a draft is queued under identifiers not used before, the captain kills,
  a sweep starts with a snapshot of the stream, makes one call whatever the backend answers, or dies;
  a marker expires once no entry of its draft is left, the lifetime being far longer than any sweep.
\<close>

inductive veto_step :: "veto_world \<Rightarrow> veto_world \<Rightarrow> bool" where
  queue: "snd (enqueue_veto uuid eid policy clock officer lane action payload n (vw_redis w)) = st \<Longrightarrow>
     uuid \<noteq> [] \<Longrightarrow> uuid \<noteq> eid \<Longrightarrow> uuid \<notin> vw_used w \<Longrightarrow> eid \<notin> vw_used w \<Longrightarrow>
     veto_step w (w\<lparr>vw_redis := st, vw_used := {uuid, eid} \<union> vw_used w\<rparr>)"
| kill: "snd (kill_draft emitter d (vw_redis w)) = st \<Longrightarrow> veto_step w (w\<lparr>vw_redis := st\<rparr>)"
| start: "fst (vw_sweeps w i) = Idle \<Longrightarrow>
     veto_step w (w\<lparr>vw_sweeps := (vw_sweeps w)(i := (Scan (vs_stream (vw_redis w)), []))\<rparr>)"
| call: "sweep_step now answer push (vw_sweeps w i) (vw_redis w) = (sw, st) \<Longrightarrow>
     veto_step w (w\<lparr>vw_redis := st, vw_sweeps := (vw_sweeps w)(i := sw)\<rparr>)"
| crash: "veto_step w (w\<lparr>vw_sweeps := (vw_sweeps w)(i := (Idle, []))\<rparr>)"
| expire: "\<not> live_draft d w \<Longrightarrow> veto_step w (w\<lparr>vw_redis := unmark d (vw_redis w)\<rparr>)"

definition fresh_veto :: veto_state where
  "fresh_veto = \<lparr>vs_stream = [], vs_markers = {}, vs_dead = [], vs_events = [], vs_sent = []\<rparr>"

definition fresh_world :: veto_world where
  "fresh_world = \<lparr>vw_redis = fresh_veto, vw_sweeps = (\<lambda>_. (Idle, [])), vw_used = {}\<rparr>"

definition veto_reachable :: "veto_world \<Rightarrow> bool" where
  "veto_reachable w \<longleftrightarrow> veto_step\<^sup>*\<^sup>* fresh_world w"

end
