(* ===== verification/Veto_Window_Correct.thy ===== *)
theory Veto_Window_Correct
  imports Veto_Window
begin

text \<open>
  The properties of the deferred-send window: the loop is an uninterrupted run of single calls and
  settles every due draft; under any interleaving of sweeps, kills and crashes a draft is accepted by
  the backend at most once; a kill is final unless a sweep already holds the draft.
\<close>

section \<open>The loop\<close>

lemma xdel_simps [simp]:
  "vs_stream (xdel eid st) = filter (\<lambda>e. fst e \<noteq> eid) (vs_stream st)"
  "vs_markers (xdel eid st) = vs_markers st" "vs_dead (xdel eid st) = vs_dead st"
  "vs_sent (xdel eid st) = vs_sent st" "vs_events (xdel eid st) = vs_events st"
  by (simp_all add: xdel_def)

lemma unmark_simps [simp]:
  "vs_stream (unmark d st) = vs_stream st" "vs_markers (unmark d st) = vs_markers st - {d}"
  "vs_dead (unmark d st) = vs_dead st" "vs_sent (unmark d st) = vs_sent st"
  by (simp_all add: unmark_def)

lemma accepted_simps [simp]:
  "vs_stream (accepted d st) = vs_stream st" "vs_markers (accepted d st) = vs_markers st"
  "vs_dead (accepted d st) = vs_dead st" "vs_sent (accepted d st) = vs_sent st @ [d]"
  by (simp_all add: accepted_def)

lemma dead_letter_simps [simp]:
  "vs_stream (dead_letter push e err st) = vs_stream st" "vs_markers (dead_letter push e err st) = vs_markers st"
  "vs_sent (dead_letter push e err st) = vs_sent st"
  by (simp_all add: dead_letter_def)

lemma sweep_run_add: "sweep_run (m + n) now backend push cfg = sweep_run n now backend push (sweep_run m now backend push cfg)"
  by (induction m arbitrary: cfg) (auto split: prod.splits)

lemma entry_run:
  "\<exists>n. sweep_run n now backend push ((Scan (e # es), sent), st)
     = (case scan_entry now backend push (sent, st) e of (sent', st') \<Rightarrow> ((Scan es, sent'), st'))"
proof -
  let ?d = "draft_of e"
  consider (later) "\<not> due now e" | (marked) "due now e" "?d \<in> vs_markers st"
    | (ok) "due now e" "?d \<notin> vs_markers st" "backend (decode_payload e) = None"
    | (fails) err where "due now e" "?d \<notin> vs_markers st" "backend (decode_payload e) = Some err"
    by fastforce
  then show ?thesis
  proof cases
    case later
    then show ?thesis by (intro exI [of _ 1]) (simp add: scan_entry_def)
  next
    case marked
    then show ?thesis by (intro exI [of _ 2]) (simp add: scan_entry_def numeral_2_eq_2)
  next
    case ok
    then show ?thesis
      by (intro exI [of _ "Suc (Suc (Suc (Suc 0)))"]) (simp add: scan_entry_def set_nx_def)
  next
    case fails
    then show ?thesis
      by (intro exI [of _ "Suc (Suc (Suc (Suc (Suc (Suc 0)))))"]) (simp add: scan_entry_def set_nx_def)
  qed
qed

lemma entries_run:
  "\<exists>n. sweep_run n now backend push ((Scan es, sent), st)
     = (case foldl (scan_entry now backend push) (sent, st) es of (sent', st') \<Rightarrow> ((Idle, sent'), st'))"
proof (induction es arbitrary: sent st)
  case Nil
  show ?case by (intro exI [of _ 1]) simp
next
  case (Cons e es)
  obtain sent1 st1 where s: "scan_entry now backend push (sent, st) e = (sent1, st1)"
    by (cases "scan_entry now backend push (sent, st) e")
  obtain n where n: "sweep_run n now backend push ((Scan (e # es), sent), st) = ((Scan es, sent1), st1)"
    using entry_run [of now backend push e es sent st] s by auto
  obtain m where m: "sweep_run m now backend push ((Scan es, sent1), st1)
      = (case foldl (scan_entry now backend push) (sent1, st1) es of (sent', st') \<Rightarrow> ((Idle, sent'), st'))"
    using Cons.IH [of sent1 st1] by blast
  show ?case
    using n m s by (intro exI [of _ "n + m"]) (simp add: sweep_run_add)
qed

text \<open>
  The loop of the source is the uninterrupted run of its calls: for some number of single Redis
  and backend calls the machine started on the stream is idle again, with the list the loop returns
  and the state the loop leaves. So every sweep ends, and what holds of interleaved calls holds of it.
\<close>

theorem sweep_is_run:
  "\<exists>n. sweep_run n now backend push ((Scan (vs_stream st), []), st)
     = (case scan_and_send now backend push st of (sent, st') \<Rightarrow> ((Idle, sent), st'))"
  unfolding scan_and_send_def by (rule entries_run)

section \<open>What one sweep does\<close>

definition deliverable :: "rat \<Rightarrow> veto_state \<Rightarrow> entry \<Rightarrow> bool" where
  "deliverable now st e \<longleftrightarrow> due now e \<and> draft_of e \<notin> vs_markers st"

definition burial :: "(pyval \<Rightarrow> string option) \<Rightarrow> entry \<Rightarrow> pyval" where
  "burial backend e = hd (vs_dead (dead_letter True e (the (backend (decode_payload e))) fresh_veto))"

lemma dead_letter_burial:
  "backend (decode_payload e) = Some err \<Longrightarrow>
     vs_dead (dead_letter push e err st) = vs_dead st @ (if push then [burial backend e] else [])"
  by (simp add: dead_letter_def burial_def fresh_veto_def)

lemma scan_entry_spec:
  fixes backend push
  assumes "scan_entry now backend push (sent, st) e = (sent', st')"
  defines "ok \<equiv> deliverable now st e \<and> backend (decode_payload e) = None"
    and "bad \<equiv> deliverable now st e \<and> backend (decode_payload e) \<noteq> None"
  shows "sent' = sent @ (if ok then [draft_of e] else [])" "vs_sent st' = vs_sent st @ (if ok then [draft_of e] else [])"
    and "vs_markers st' = vs_markers st \<union> (if ok then {draft_of e} else {})"
    and "vs_dead st' = vs_dead st @ (if bad \<and> push then [burial backend e] else [])"
    and "vs_stream st' = (if due now e then filter (\<lambda>x. fst x \<noteq> fst e) (vs_stream st) else vs_stream st)"
  using assms
  by (auto simp: scan_entry_def deliverable_def set_nx_def dead_letter_burial [of backend] split: if_splits option.splits)

lemma scan_fold_spec:
  assumes "foldl (scan_entry now backend push) (sent, st) es = (sent', st')"
    and "distinct (map draft_of es)"
  shows "sent' = sent @ map draft_of (filter (\<lambda>e. deliverable now st e \<and> backend (decode_payload e) = None) es)
     \<and> vs_sent st' = vs_sent st @ map draft_of (filter (\<lambda>e. deliverable now st e \<and> backend (decode_payload e) = None) es)
     \<and> vs_markers st' = vs_markers st \<union> draft_of ` {e \<in> set es. deliverable now st e \<and> backend (decode_payload e) = None}
     \<and> vs_dead st' = vs_dead st @ (if push then map (burial backend)
           (filter (\<lambda>e. deliverable now st e \<and> backend (decode_payload e) \<noteq> None) es) else [])
     \<and> vs_stream st' = filter (\<lambda>x. fst x \<notin> fst ` {e \<in> set es. due now e}) (vs_stream st)"
  using assms
proof (induction es arbitrary: sent st)
  case Nil
  then show ?case by simp
next
  case (Cons e es)
  obtain sent1 st1 where s: "scan_entry now backend push (sent, st) e = (sent1, st1)"
    by (cases "scan_entry now backend push (sent, st) e")
  note step = scan_entry_spec [OF s]
  have same: "deliverable now st1 x \<longleftrightarrow> deliverable now st x" if "x \<in> set es" for x
  proof -
    have "draft_of x \<noteq> draft_of e"
      using imageI [OF that, of draft_of] Cons.prems(2) by auto
    then show ?thesis
      unfolding deliverable_def step(3) by auto
  qed
  have f: "filter (\<lambda>x. deliverable now st1 x \<and> P x) es = filter (\<lambda>x. deliverable now st x \<and> P x) es" for P
    by (rule filter_cong [OF refl]) (simp add: same)
  have g: "{x \<in> set es. deliverable now st1 x \<and> P x} = {x \<in> set es. deliverable now st x \<and> P x}" for P
    using same by blast
  have "foldl (scan_entry now backend push) (sent1, st1) es = (sent', st')" "distinct (map draft_of es)"
    using Cons.prems s by simp_all
  note ih = Cons.IH [OF this, unfolded f g]
  have h: "{x \<in> set (e # es). Q x} = {x \<in> set es. Q x} \<union> (if Q e then {e} else {})" for Q
    by auto
  show ?case
    unfolding h using ih by (simp add: step image_Un Un_ac conj_ac)
qed

text \<open>
  A sweep settles every due draft and nothing else. On a stream whose entry and draft identifiers
  do not repeat, an uninterrupted sweep hands the backend exactly the due drafts without a sent
  marker, in stream order; it returns and marks the accepted ones, dead-letters the refused ones with
  their fields and error (when the push works), and leaves in the stream exactly the entries not due.
\<close>

theorem sweep_settles:
  assumes "distinct (map fst (vs_stream st))" "distinct (map draft_of (vs_stream st))"
    and "scan_and_send now backend push st = (sent, st')"
  shows "sent = map draft_of (filter (\<lambda>e. deliverable now st e \<and> backend (decode_payload e) = None) (vs_stream st))
     \<and> vs_sent st' = vs_sent st @ sent
     \<and> vs_markers st' = vs_markers st \<union> set sent
     \<and> vs_dead st' = vs_dead st @ (if push then map (burial backend)
           (filter (\<lambda>e. deliverable now st e \<and> backend (decode_payload e) \<noteq> None) (vs_stream st)) else [])
     \<and> vs_stream st' = filter (\<lambda>e. \<not> due now e) (vs_stream st)"
proof -
  note spec = scan_fold_spec [OF assms(3) [unfolded scan_and_send_def] assms(2)]
  have "x \<in> set (vs_stream st) \<Longrightarrow> fst x \<notin> fst ` {e \<in> set (vs_stream st). due now e} \<longleftrightarrow> \<not> due now x" for x
    using assms(1) by (auto simp: distinct_map inj_on_def)
  then have "filter (\<lambda>x. fst x \<notin> fst ` {e \<in> set (vs_stream st). due now e}) (vs_stream st)
      = filter (\<lambda>e. \<not> due now e) (vs_stream st)"
    by (rule filter_cong [OF refl])
  then show ?thesis
    using spec by simp
qed

definition sample_queue :: veto_state where
  "sample_queue = snd (enqueue_veto ''a'' ''1-0'' None 0 ''cos'' ''ops'' ''dm'' (PDict [(''body'', PStr ''hi'')]) None
     (snd (enqueue_veto ''b'' ''2-0'' None 600 ''cos'' ''ops'' ''dm'' (PDict []) (Some 9) fresh_veto)))"

theorem sweep_settles_witness:
  "map draft_of (vs_stream sample_queue) = [''b'', ''a'']
   \<and> vs_stream (snd (scan_and_send 500 (\<lambda>_. None) True sample_queue))
       = filter (\<lambda>e. \<not> due 500 e) (vs_stream sample_queue)"
proof -
  have d: "distinct (map fst (vs_stream sample_queue))" "distinct (map draft_of (vs_stream sample_queue))"
      "map draft_of (vs_stream sample_queue) = [''b'', ''a'']"
    by code_simp+
  show ?thesis
    using sweep_settles [OF d(1,2) prod.collapse [symmetric], of 500 "\<lambda>_. None" True] d(3) by blast
qed

section \<open>Interleavings\<close>

text \<open>A sweep owns a draft from its claim to the call that ends the claim.\<close>

fun owned :: "sweep_pc \<Rightarrow> string option" where
  "owned (Send e es) = Some (draft_of e)"
| "owned (Bury e es err) = Some (draft_of e)"
| "owned (Unmark e es) = Some (draft_of e)"
| "owned _ = None"

definition pc_of :: "veto_world \<Rightarrow> nat \<Rightarrow> sweep_pc" where
  "pc_of w i = fst (vw_sweeps w i)"

text \<open>
  The invariant: identifiers of entries are used ones and do not repeat; what was accepted is marked
  as long as an entry of it is left and no sweep owns it; an owned draft is marked, has one owner and
  was not accepted.
\<close>

definition ids_ok :: "veto_world \<Rightarrow> bool" where
  "ids_ok w \<longleftrightarrow> (\<forall>d. live_draft d w \<longrightarrow> d \<in> vw_used w)
     \<and> fst ` set (vs_stream (vw_redis w)) \<subseteq> vw_used w
     \<and> set (vs_sent (vw_redis w)) \<subseteq> vw_used w
     \<and> distinct (map fst (vs_stream (vw_redis w))) \<and> distinct (map draft_of (vs_stream (vw_redis w)))"

definition claims_ok :: "veto_world \<Rightarrow> bool" where
  "claims_ok w \<longleftrightarrow> (\<forall>d. d \<in> set (vs_sent (vw_redis w)) \<and> live_draft d w \<longrightarrow> d \<in> vs_markers (vw_redis w))
     \<and> (\<forall>i d. owned (pc_of w i) = Some d \<longrightarrow> d \<in> vs_markers (vw_redis w) \<and> d \<notin> set (vs_sent (vw_redis w)))
     \<and> (\<forall>i j d. owned (pc_of w i) = Some d \<and> owned (pc_of w j) = Some d \<longrightarrow> i = j)
     \<and> distinct (vs_sent (vw_redis w))"

lemma owned_held: "owned pc = Some d \<Longrightarrow> d \<in> draft_of ` set (held pc)"
  by (cases pc) auto

lemma owned_live: "owned (pc_of w i) = Some d \<Longrightarrow> live_draft d w"
  unfolding live_draft_def pc_of_def using owned_held by blast

lemma xdel_subset: "set (vs_stream (xdel eid st)) \<subseteq> set (vs_stream st)"
  by auto

lemma sweep_step_held:
  assumes "sweep_step now answer push sw st = (sw', st')"
  shows "set (held (fst sw')) \<subseteq> set (held (fst sw))" "set (vs_stream st') \<subseteq> set (vs_stream st)"
  using assms
  by (cases "(now, answer, push, sw, st)" rule: sweep_step.cases;
      auto simp: set_nx_def split: if_splits option.splits)+

lemma live_draft_mono:
  assumes "live_draft d w'" "set (vs_stream (vw_redis w')) \<subseteq> set (vs_stream (vw_redis w))"
    and "\<And>j. set (held (fst (vw_sweeps w' j))) \<subseteq> set (held (fst (vw_sweeps w j)))"
  shows "live_draft d w"
  using assms unfolding live_draft_def by blast

lemma kill_draft_redis:
  assumes "snd (kill_draft em d st) = st'"
  obtains ids where "vs_stream st' = filter (\<lambda>e. fst e \<notin> ids) (vs_stream st)"
    "vs_markers st' = vs_markers st" "vs_sent st' = vs_sent st"
proof -
  have "\<exists>ids. vs_stream st' = filter (\<lambda>e. fst e \<notin> ids) (vs_stream st)
      \<and> vs_markers st' = vs_markers st \<and> vs_sent st' = vs_sent st"
  proof (cases "find_entry d (vs_stream st)")
    case None
    then show ?thesis
      using assms by (intro exI [of _ "{}"]) (simp add: kill_draft_def)
  next
    case (Some e)
    then show ?thesis
      using assms by (intro exI [of _ "{fst e}"]; cases "em = Some True") (auto simp: kill_draft_def Let_def split: prod.splits)
  qed
  then show ?thesis
    using that by blast
qed

lemma enqueue_redis:
  assumes "snd (enqueue_veto uuid eid policy clock officer lane action payload n st) = st'" "uuid \<noteq> []"
  obtains e where "vs_stream st' = vs_stream st @ [e]" "fst e = eid" "draft_of e = uuid"
    "vs_markers st' = vs_markers st" "vs_sent st' = vs_sent st"
  using assms by (auto simp: enqueue_veto_def Let_def draft_of_def draft_fields_def dget_def)

lemma sweep_step_sent:
  assumes "sweep_step now answer push sw st = (sw', st')"
  shows "vs_sent st' = vs_sent st \<or> (\<exists>d. owned (fst sw) = Some d \<and> vs_sent st' = vs_sent st @ [d])"
  using assms
  by (cases "(now, answer, push, sw, st)" rule: sweep_step.cases)
    (auto simp: set_nx_def split: if_splits option.splits)

lemma sweep_step_filter:
  assumes "sweep_step now answer push sw st = (sw', st')"
  shows "\<exists>P. vs_stream st' = filter P (vs_stream st)"
proof -
  have "vs_stream st' = filter (\<lambda>_. True) (vs_stream st) \<or> (\<exists>eid. vs_stream st' = filter (\<lambda>e. fst e \<noteq> eid) (vs_stream st))"
    using assms
    by (cases "(now, answer, push, sw, st)" rule: sweep_step.cases)
      (auto simp: set_nx_def split: if_splits option.splits)
  then show ?thesis
    by blast
qed

lemma call_mono:
  assumes "sweep_step now answer push (vw_sweeps w i) (vw_redis w) = (sw, st)"
    and "live_draft d (w\<lparr>vw_redis := st, vw_sweeps := (vw_sweeps w)(i := sw)\<rparr>)"
  shows "live_draft d w"
  by (rule live_draft_mono [OF assms(2)]) (use sweep_step_held [OF assms(1)] in auto)

lemma sweep_step_owned:
  assumes "sweep_step now answer push sw st = (sw', st')"
  shows "(vs_markers st' = vs_markers st \<and> vs_sent st' = vs_sent st \<and> (\<forall>d. owned (fst sw') = Some d \<longrightarrow> owned (fst sw) = Some d))
    \<or> (\<exists>d. d \<notin> vs_markers st \<and> d \<in> draft_of ` set (held (fst sw)) \<and> vs_markers st' = insert d (vs_markers st)
          \<and> vs_sent st' = vs_sent st \<and> owned (fst sw') = Some d)
    \<or> (\<exists>d. owned (fst sw) = Some d \<and> vs_markers st' = vs_markers st \<and> vs_sent st' = vs_sent st @ [d] \<and> owned (fst sw') = None)
    \<or> (\<exists>d. owned (fst sw) = Some d \<and> vs_markers st' = vs_markers st - {d} \<and> vs_sent st' = vs_sent st \<and> owned (fst sw') = None)"
  using assms
  by (cases "(now, answer, push, sw, st)" rule: sweep_step.cases)
    (auto simp: set_nx_def insert_absorb split: if_splits option.splits)

lemma step_ids: "veto_step w w' \<Longrightarrow> ids_ok w \<Longrightarrow> ids_ok w'"
proof (induction rule: veto_step.induct)
  case (queue uuid eid policy clock officer lane action payload n w st)
  obtain e where e: "vs_stream st = vs_stream (vw_redis w) @ [e]" "fst e = eid" "draft_of e = uuid"
      "vs_sent st = vs_sent (vw_redis w)"
    using enqueue_redis [OF queue(1,2)] by metis
  have live: "live_draft d w" if "live_draft d (w\<lparr>vw_redis := st, vw_used := {uuid, eid} \<union> vw_used w\<rparr>)" "d \<noteq> uuid" for d
    using that e by (auto simp: live_draft_def)
  have "draft_of ` set (vs_stream (vw_redis w)) \<subseteq> vw_used w"
    using queue.prems by (auto simp: ids_ok_def live_draft_def)
  then show ?case
    using queue e live by (auto simp: ids_ok_def)
next
  case (kill em d w st)
  obtain ids where st: "vs_stream st = filter (\<lambda>e. fst e \<notin> ids) (vs_stream (vw_redis w))" "vs_sent st = vs_sent (vw_redis w)"
    using kill_draft_redis [OF kill(1)] by metis
  have live: "live_draft d (w\<lparr>vw_redis := st\<rparr>) \<Longrightarrow> live_draft d w" for d
    by (erule live_draft_mono) (simp_all add: st)
  show ?case
    using kill.prems live st by (auto simp: ids_ok_def distinct_map_filter)
next
  case (start w i)
  have live: "live_draft d (w\<lparr>vw_sweeps := (vw_sweeps w)(i := (Scan (vs_stream (vw_redis w)), []))\<rparr>) \<Longrightarrow> live_draft d w" for d
    by (auto simp: live_draft_def split: if_splits)
  then show ?case
    using start.prems by (auto simp: ids_ok_def)
next
  case (call now answer push w i sw st)
  obtain P where st: "vs_stream st = filter P (vs_stream (vw_redis w))"
    using sweep_step_filter [OF call(1)] by blast
  have sent: "set (vs_sent st) \<subseteq> vw_used w"
    using sweep_step_sent [OF call(1)] call.prems owned_live [of w i]
    by (auto simp: ids_ok_def pc_of_def)
  show ?case
    using call.prems call_mono [OF call(1)] sent st by (auto simp: ids_ok_def distinct_map_filter)
next
  case (crash w i)
  have live: "live_draft d (w\<lparr>vw_sweeps := (vw_sweeps w)(i := (Idle, []))\<rparr>) \<Longrightarrow> live_draft d w" for d
    by (erule live_draft_mono) simp_all
  then show ?case
    using crash by (auto simp: ids_ok_def)
next
  case (expire d w)
  have live: "live_draft x (w\<lparr>vw_redis := unmark d (vw_redis w)\<rparr>) \<Longrightarrow> live_draft x w" for x
    by (erule live_draft_mono) simp_all
  then show ?case
    using expire.prems by (auto simp: ids_ok_def)
qed

lemma step_claims: "veto_step w w' \<Longrightarrow> ids_ok w \<Longrightarrow> claims_ok w \<Longrightarrow> claims_ok w'"
proof (induction rule: veto_step.induct)
  case (queue uuid eid policy clock officer lane action payload n w st)
  obtain e where e: "vs_stream st = vs_stream (vw_redis w) @ [e]" "draft_of e = uuid"
      "vs_sent st = vs_sent (vw_redis w)" "vs_markers st = vs_markers (vw_redis w)"
    using enqueue_redis [OF queue(1,2)] by metis
  have live: "live_draft d w" if "live_draft d (w\<lparr>vw_redis := st, vw_used := {uuid, eid} \<union> vw_used w\<rparr>)" "d \<noteq> uuid" for d
    using that e by (auto simp: live_draft_def)
  have "uuid \<notin> set (vs_sent (vw_redis w))"
    using queue by (auto simp: ids_ok_def)
  then show ?case
    using queue.prems(2) e live unfolding claims_ok_def pc_of_def by auto
next
  case (kill em d w st)
  obtain ids where st: "vs_stream st = filter (\<lambda>e. fst e \<notin> ids) (vs_stream (vw_redis w))"
      "vs_sent st = vs_sent (vw_redis w)" "vs_markers st = vs_markers (vw_redis w)"
    using kill_draft_redis [OF kill(1)] by metis
  have live: "live_draft d (w\<lparr>vw_redis := st\<rparr>) \<Longrightarrow> live_draft d w" for d
    by (erule live_draft_mono) (simp_all add: st)
  show ?case
    using kill.prems(2) live st unfolding claims_ok_def pc_of_def by auto
next
  case (start w i)
  have live: "live_draft d (w\<lparr>vw_sweeps := (vw_sweeps w)(i := (Scan (vs_stream (vw_redis w)), []))\<rparr>) \<Longrightarrow> live_draft d w" for d
    by (auto simp: live_draft_def split: if_splits)
  then show ?case
    using start.prems(2) unfolding claims_ok_def pc_of_def by auto
next
  case (call now answer push w i sw st)
  let ?w' = "w\<lparr>vw_redis := st, vw_sweeps := (vw_sweeps w)(i := sw)\<rparr>"
  have live: "live_draft d ?w' \<Longrightarrow> live_draft d w" for d
    by (rule call_mono [OF call(1)])
  note c = call.prems(2) [unfolded claims_ok_def pc_of_def]
  have pc: "live_draft d w" if "d \<in> draft_of ` set (held (fst (vw_sweeps w i)))" for d
    using that by (auto simp: live_draft_def)
  note eff = sweep_step_owned [OF call(1)]
  show ?case
    using eff
  proof (elim disjE exE conjE)
    assume e: "vs_markers st = vs_markers (vw_redis w)" "vs_sent st = vs_sent (vw_redis w)"
      "\<forall>d. owned (fst sw) = Some d \<longrightarrow> owned (fst (vw_sweeps w i)) = Some d"
    define f where "f = (vw_sweeps w)(i := sw)"
    have own: "owned (fst (f j)) = Some d \<Longrightarrow> owned (fst (vw_sweeps w j)) = Some d" for j d
      using e(3) by (auto simp: f_def split: if_splits)
    have "claims_ok (w\<lparr>vw_redis := st, vw_sweeps := f\<rparr>)"
      using c live [folded f_def] e(1,2) own unfolding claims_ok_def pc_of_def
      by simp blast
    then show ?thesis
      by (simp add: f_def)
  next
    fix d
    assume e: "d \<notin> vs_markers (vw_redis w)" "d \<in> draft_of ` set (held (fst (vw_sweeps w i)))"
      "vs_markers st = insert d (vs_markers (vw_redis w))" "vs_sent st = vs_sent (vw_redis w)" "owned (fst sw) = Some d"
    have "d \<notin> set (vs_sent (vw_redis w))"
      using c e(1) pc [OF e(2)] by blast
    moreover have "owned (fst (vw_sweeps w j)) \<noteq> Some d" for j
      using c e(1) by blast
    ultimately show ?thesis
      using c live e(3-5) unfolding claims_ok_def pc_of_def by auto
  next
    fix d
    assume e: "owned (fst (vw_sweeps w i)) = Some d" "vs_markers st = vs_markers (vw_redis w)"
      "vs_sent st = vs_sent (vw_redis w) @ [d]" "owned (fst sw) = None"
    define f where "f = (vw_sweeps w)(i := sw)"
    have own: "owned (fst (vw_sweeps w j)) = Some x \<and> x \<noteq> d" if "owned (fst (f j)) = Some x" for j x
      using that c e(1,4) by (cases "j = i") (auto simp: f_def)
    have "d \<in> vs_markers (vw_redis w)" "d \<notin> set (vs_sent (vw_redis w))"
      using c e(1) by blast+
    then have "claims_ok (w\<lparr>vw_redis := st, vw_sweeps := f\<rparr>)"
      using c live [folded f_def] own unfolding claims_ok_def pc_of_def
      by (simp add: e(2,3)) blast
    then show ?thesis
      by (simp add: f_def)
  next
    fix d
    assume e: "owned (fst (vw_sweeps w i)) = Some d" "vs_markers st = vs_markers (vw_redis w) - {d}"
      "vs_sent st = vs_sent (vw_redis w)" "owned (fst sw) = None"
    define f where "f = (vw_sweeps w)(i := sw)"
    have own: "owned (fst (vw_sweeps w j)) = Some x \<and> x \<noteq> d" if "owned (fst (f j)) = Some x" for j x
      using that c e(1,4) by (cases "j = i") (auto simp: f_def)
    have "d \<notin> set (vs_sent (vw_redis w))"
      using c e(1) by blast
    then have "claims_ok (w\<lparr>vw_redis := st, vw_sweeps := f\<rparr>)"
      using c live [folded f_def] own unfolding claims_ok_def pc_of_def
      by (simp add: e(2,3)) blast
    then show ?thesis
      by (simp add: f_def)
  qed
next
  case (crash w i)
  have live: "live_draft d (w\<lparr>vw_sweeps := (vw_sweeps w)(i := (Idle, []))\<rparr>) \<Longrightarrow> live_draft d w" for d
    by (erule live_draft_mono) simp_all
  then show ?case
    using crash.prems(2) unfolding claims_ok_def pc_of_def by auto
next
  case (expire d w)
  have live: "live_draft x (w\<lparr>vw_redis := unmark d (vw_redis w)\<rparr>) \<Longrightarrow> live_draft x w" for x
    by (erule live_draft_mono) simp_all
  have "owned (fst (vw_sweeps w j)) \<noteq> Some d" for j
    using owned_live [of w j d] expire(1) by (auto simp: pc_of_def)
  then show ?case
    using expire live unfolding claims_ok_def pc_of_def by auto
qed

lemma dead_draft_step:
  assumes "veto_step w w'" "\<not> live_draft d w" "d \<in> vw_used w"
  shows "\<not> live_draft d w' \<and> d \<in> vw_used w'
     \<and> (d \<in> set (vs_sent (vw_redis w')) \<longleftrightarrow> d \<in> set (vs_sent (vw_redis w)))"
  using assms
proof (induction rule: veto_step.induct)
  case (queue uuid eid policy clock officer lane action payload n w st)
  obtain e where e: "vs_stream st = vs_stream (vw_redis w) @ [e]" "draft_of e = uuid" "vs_sent st = vs_sent (vw_redis w)"
    using enqueue_redis [OF queue(1,2)] by metis
  have "d \<noteq> uuid"
    using queue by blast
  then show ?case
    using queue.prems e by (auto simp: live_draft_def)
next
  case (kill em x w st)
  obtain ids where st: "vs_stream st = filter (\<lambda>e. fst e \<notin> ids) (vs_stream (vw_redis w))" "vs_sent st = vs_sent (vw_redis w)"
    using kill_draft_redis [OF kill(1)] by metis
  show ?case
    using kill.prems st by (auto simp: live_draft_def)
next
  case (start w i)
  then show ?case
    by (auto simp: live_draft_def)
next
  case (call now answer push w i sw st)
  have "owned (fst (vw_sweeps w i)) \<noteq> Some d"
    using owned_live [of w i d] call.prems(1) by (auto simp: pc_of_def)
  then have "d \<in> set (vs_sent st) \<longleftrightarrow> d \<in> set (vs_sent (vw_redis w))"
    using sweep_step_sent [OF call(1)] by auto
  then show ?case
    using call.prems call_mono [OF call(1)] by auto
next
  case (crash w i)
  then show ?case
    by (auto simp: live_draft_def)
next
  case (expire x w)
  then show ?case
    by (auto simp: live_draft_def)
qed

lemma reachable_ok:
  assumes "veto_reachable w"
  shows "ids_ok w \<and> claims_ok w"
  using assms unfolding veto_reachable_def
proof (induction rule: rtranclp_induct)
  case base
  show ?case
    by (simp add: ids_ok_def claims_ok_def fresh_world_def fresh_veto_def live_draft_def pc_of_def)
next
  case (step w w')
  then show ?case
    using step_ids step_claims by blast
qed

section \<open>Runs\<close>

text \<open>The calls of the listed sweeps, one each, with a backend that accepts.\<close>

fun calls :: "rat \<Rightarrow> nat list \<Rightarrow> veto_world \<Rightarrow> veto_world" where
  "calls now [] w = w"
| "calls now (i # is) w = (case sweep_step now None True (vw_sweeps w i) (vw_redis w) of
     (sw, st) \<Rightarrow> calls now is (w\<lparr>vw_redis := st, vw_sweeps := (vw_sweeps w)(i := sw)\<rparr>))"

lemma calls_steps: "veto_step\<^sup>*\<^sup>* w (calls now is w)"
proof (induction "is" arbitrary: w)
  case Nil
  show ?case by simp
next
  case (Cons i "is")
  obtain sw st where s: "sweep_step now None True (vw_sweeps w i) (vw_redis w) = (sw, st)"
    by (cases "sweep_step now None True (vw_sweeps w i) (vw_redis w)")
  have "veto_step w (w\<lparr>vw_redis := st, vw_sweeps := (vw_sweeps w)(i := sw)\<rparr>)"
    by (rule veto_step.call [OF s])
  then show ?case
    using Cons.IH by (simp add: s converse_rtranclp_into_rtranclp)
qed

definition sample_one :: veto_state where
  "sample_one = snd (enqueue_veto ''a'' ''1-0'' None 0 ''cos'' ''ops'' ''dm'' (PDict []) None fresh_veto)"

definition queued_world :: veto_world where
  "queued_world = fresh_world\<lparr>vw_redis := sample_one, vw_used := {''a'', ''1-0''}\<rparr>"

definition raced_world :: veto_world where
  "raced_world = queued_world\<lparr>vw_sweeps :=
     (\<lambda>_. (Idle, []))(0 := (Scan (vs_stream sample_one), []), 1 := (Scan (vs_stream sample_one), []))\<rparr>"

lemma queued_reachable: "veto_reachable queued_world"
proof -
  have "veto_step fresh_world (fresh_world\<lparr>vw_redis := sample_one, vw_used := {''a'', ''1-0''} \<union> vw_used fresh_world\<rparr>)"
    by (rule veto_step.queue [where policy = None and clock = 0 and officer = "''cos''" and lane = "''ops''"
          and action = "''dm''" and payload = "PDict []" and n = None])
      (simp_all add: sample_one_def fresh_world_def)
  moreover have "fresh_world\<lparr>vw_redis := sample_one, vw_used := {''a'', ''1-0''} \<union> vw_used fresh_world\<rparr> = queued_world"
    by (simp add: queued_world_def fresh_world_def)
  ultimately show ?thesis
    unfolding veto_reachable_def by auto
qed

lemma raced_reachable: "veto_reachable raced_world"
proof -
  let ?w1 = "queued_world\<lparr>vw_sweeps := (vw_sweeps queued_world)(0 := (Scan (vs_stream (vw_redis queued_world)), []))\<rparr>"
  have "veto_step queued_world ?w1"
    by (rule veto_step.start) (simp add: queued_world_def fresh_world_def)
  moreover have "veto_step ?w1 (?w1\<lparr>vw_sweeps := (vw_sweeps ?w1)(1 := (Scan (vs_stream (vw_redis ?w1)), []))\<rparr>)"
    by (rule veto_step.start) (simp add: queued_world_def fresh_world_def)
  moreover have "?w1\<lparr>vw_sweeps := (vw_sweeps ?w1)(1 := (Scan (vs_stream (vw_redis ?w1)), []))\<rparr> = raced_world"
    by (simp add: raced_world_def queued_world_def fresh_world_def)
  ultimately show ?thesis
    using queued_reachable unfolding veto_reachable_def by (metis rtranclp.rtrancl_into_rtrancl)
qed

lemma calls_reachable: "veto_reachable w \<Longrightarrow> veto_reachable (calls now is w)"
  unfolding veto_reachable_def by (erule rtranclp_trans) (rule calls_steps)

lemma raced_sends: "vs_sent (vw_redis (calls 500 [0, 1, 0, 1, 0, 1, 0, 1] raced_world)) = [''a'']"
  by code_simp

text \<open>
  C4: at most one send. However many sweeps run at the same time, whatever the backend answers,
  wherever a sweep dies and whatever is killed or queued in between, the backend accepts no draft
  twice, and a draft a sweep is about to hand to it has not been accepted before.
\<close>

theorem at_most_one_send:
  assumes "veto_reachable w"
  shows "distinct (vs_sent (vw_redis w))
     \<and> (\<forall>i e es. fst (vw_sweeps w i) = Send e es \<longrightarrow> draft_of e \<notin> set (vs_sent (vw_redis w)))"
proof (intro conjI allI impI)
  note c = reachable_ok [OF assms, THEN conjunct2, unfolded claims_ok_def pc_of_def]
  show "distinct (vs_sent (vw_redis w))"
    using c by blast
  fix i e es
  assume "fst (vw_sweeps w i) = Send e es"
  then have "owned (fst (vw_sweeps w i)) = Some (draft_of e)"
    by simp
  then show "draft_of e \<notin> set (vs_sent (vw_redis w))"
    using c by blast
qed

theorem at_most_one_send_witness:
  "\<exists>w. veto_reachable w \<and> vs_sent (vw_redis w) = [''a''] \<and> distinct (vs_sent (vw_redis w))"
  using at_most_one_send [OF calls_reachable [OF raced_reachable]] raced_sends calls_reachable [OF raced_reachable]
  by blast

text \<open>
  A kill is final unless a sweep already holds the draft. After a kill of an entry that no running
  sweep has in its snapshot, nothing that happens later makes the backend accept that draft: it was
  accepted before the kill or it never is.
\<close>

theorem killed_stays_unsent:
  assumes "veto_reachable w" "kill_draft emitter d (vw_redis w) = (True, st)"
    and "find_entry d (vs_stream (vw_redis w)) = Some e"
    and "\<And>i. draft_of e \<notin> draft_of ` set (held (fst (vw_sweeps w i)))"
    and "veto_step\<^sup>*\<^sup>* (w\<lparr>vw_redis := st\<rparr>) w'"
  shows "draft_of e \<in> set (vs_sent (vw_redis w')) \<longleftrightarrow> draft_of e \<in> set (vs_sent (vw_redis w))"
proof -
  let ?d = "draft_of e" and ?w = "w\<lparr>vw_redis := st\<rparr>"
  have ok: "ids_ok w"
    using reachable_ok [OF assms(1)] ..
  have st: "vs_stream st = filter (\<lambda>x. fst x \<noteq> fst e) (vs_stream (vw_redis w))"
      "vs_sent st = vs_sent (vw_redis w)"
    using assms(2,3) by (cases e; cases "emitter = Some True"; clarsimp simp: kill_draft_def Let_def)+
  have e: "e \<in> set (vs_stream (vw_redis w))"
    using find_SomeD [OF assms(3) [unfolded find_entry_def]] by simp
  have "inj_on draft_of (set (vs_stream (vw_redis w)))"
    using ok by (simp add: ids_ok_def distinct_map)
  note inj = this
  have "x = e" if "x \<in> set (vs_stream (vw_redis w))" "draft_of x = ?d" for x
    by (rule inj_onD [OF inj that(2,1) e])
  then have "?d \<notin> draft_of ` set (vs_stream st)"
    unfolding st(1) by fastforce
  moreover have "?d \<in> vw_used w"
    using ok e by (simp add: ids_ok_def live_draft_def)
  ultimately have base: "\<not> live_draft ?d ?w" "?d \<in> vw_used ?w"
    using assms(4) by (auto simp: live_draft_def)
  have "\<not> live_draft ?d w' \<and> ?d \<in> vw_used w' \<and> (?d \<in> set (vs_sent (vw_redis w')) \<longleftrightarrow> ?d \<in> set (vs_sent st))"
    using assms(5)
  proof (induction rule: rtranclp_induct)
    case base
    show ?case
      using \<open>\<not> live_draft ?d ?w\<close> \<open>?d \<in> vw_used ?w\<close> by simp
  next
    case (step y z)
    then show ?case
      using dead_draft_step [OF step(2), of ?d] by simp
  qed
  then show ?thesis
    using st(2) by simp
qed

lemma queued_kill:
  "find_entry ''a'' (vs_stream (vw_redis queued_world)) = Some (hd (vs_stream sample_one))"
  "draft_of (hd (vs_stream sample_one)) = ''a''"
  "fst (kill_draft None ''a'' (vw_redis queued_world))" "vs_sent (vw_redis queued_world) = []"
  by code_simp+

theorem killed_stays_unsent_witness:
  "\<exists>w'. veto_step\<^sup>*\<^sup>* (queued_world\<lparr>vw_redis := snd (kill_draft None ''a'' (vw_redis queued_world))\<rparr>) w'
     \<and> ''a'' \<notin> set (vs_sent (vw_redis w'))"
proof -
  let ?w = "queued_world\<lparr>vw_redis := snd (kill_draft None ''a'' (vw_redis queued_world))\<rparr>"
  have k: "kill_draft None ''a'' (vw_redis queued_world) = (True, snd (kill_draft None ''a'' (vw_redis queued_world)))"
    using queued_kill(3) by (metis (full_types) prod.collapse)
  have "draft_of (hd (vs_stream sample_one)) \<notin> draft_of ` set (held (fst (vw_sweeps queued_world i)))" for i
    by (simp add: queued_world_def fresh_world_def)
  from killed_stays_unsent [OF queued_reachable k queued_kill(1) this calls_steps [of ?w 500 "[0, 0, 0]"]] show ?thesis
    using queued_kill(2,4) calls_steps [of ?w 500 "[0, 0, 0]"] by auto
qed

text \<open>
  Without that proviso a kill can be overtaken: the kill reports success, and the sweep whose snapshot
  was taken before still hands the draft to the backend.
\<close>

theorem kill_overtaken:
  "\<exists>w st w'. veto_reachable w \<and> ''a'' \<notin> set (vs_sent (vw_redis w))
     \<and> kill_draft None ''a'' (vw_redis w) = (True, st)
     \<and> veto_step\<^sup>*\<^sup>* (w\<lparr>vw_redis := st\<rparr>) w' \<and> ''a'' \<in> set (vs_sent (vw_redis w'))"
proof -
  let ?st = "snd (kill_draft None ''a'' (vw_redis raced_world))"
  have k: "fst (kill_draft None ''a'' (vw_redis raced_world))" "vs_sent (vw_redis raced_world) = []"
    by code_simp+
  have "vs_sent (vw_redis (calls 500 [0, 0, 0] (raced_world\<lparr>vw_redis := ?st\<rparr>))) = [''a'']"
    by code_simp
  moreover have "kill_draft None ''a'' (vw_redis raced_world) = (True, ?st)"
    using k(1) by (metis (full_types) prod.collapse)
  ultimately show ?thesis
    using raced_reachable calls_steps [of "raced_world\<lparr>vw_redis := ?st\<rparr>" 500 "[0, 0, 0]"] k(2)
    by (intro exI conjI) (assumption | simp)+
qed

end
