(* ===== verification/Shell_Lexer.thy ===== *)
theory Shell_Lexer
  imports Py_Text
begin

text \<open>
  The statement lexer of \<^verbatim>\<open>framework/authority/policy_engine.py\<close>: the quoting-aware scan
  that cuts a command into the statements a shell would run. Positions are indices into the command,
  as in the source. The two scanners that call each other take fuel; \<^verbatim>\<open>skip_fuel\<close> is enough
  for every command, and so is \<^verbatim>\<open>lex_fuel\<close> for the main loop. Where the source lexes a nested
  body or asks which program a here-document feeds, the loop leaves an item that the parser expands
  at the same place of the output.
\<close>

section \<open>Strings by index\<close>

definition slice :: "string \<Rightarrow> nat \<Rightarrow> nat \<Rightarrow> string" where
  "slice s i j = take (j - i) (drop i s)"

definition starts_at :: "string \<Rightarrow> string \<Rightarrow> nat \<Rightarrow> bool" where
  "starts_at p s i \<longleftrightarrow> starts_with p (drop i s)"

definition find_char :: "char \<Rightarrow> string \<Rightarrow> nat \<Rightarrow> nat option" where
  "find_char c s i = (let d = drop i s; w = takeWhile (\<lambda>x. x \<noteq> c) d in
     if length w < length d then Some (i + length w) else None)"

definition find_str :: "string \<Rightarrow> string \<Rightarrow> nat \<Rightarrow> nat option" where
  "find_str p s i = find (\<lambda>k. starts_at p s k) [i..<Suc (length s)]"

definition rfind_str :: "string \<Rightarrow> string \<Rightarrow> nat option" where
  "rfind_str p s = find (\<lambda>k. starts_at p s k) (rev [0..<Suc (length s)])"

definition contains :: "string \<Rightarrow> string \<Rightarrow> bool" where
  "contains p s \<longleftrightarrow> find_str p s 0 \<noteq> None"

definition run_end :: "(char \<Rightarrow> bool) \<Rightarrow> string \<Rightarrow> nat \<Rightarrow> nat" where
  "run_end P s i = i + length (takeWhile P (drop i s))"

section \<open>Spans\<close>

definition skip_single_quoted :: "string \<Rightarrow> nat \<Rightarrow> nat" where
  "skip_single_quoted s i = (case find_char (CHR 0x27) s (i + 1) of None \<Rightarrow> length s | Some j \<Rightarrow> j + 1)"

fun ansi_c_span :: "string \<Rightarrow> nat" where
  "ansi_c_span [] = 0"
| "ansi_c_span (c # cs) =
     (if c = CHR 0x5C \<and> cs \<noteq> [] then 2 + ansi_c_span (tl cs)
      else if c = CHR 0x27 then 1 else 1 + ansi_c_span cs)"

definition skip_ansi_c_quoted :: "string \<Rightarrow> nat \<Rightarrow> nat" where
  "skip_ansi_c_quoted s i = i + 2 + ansi_c_span (drop (i + 2) s)"

definition take_backtick_substitution :: "string \<Rightarrow> nat \<Rightarrow> string list \<Rightarrow> nat \<times> string list" where
  "take_backtick_substitution s i subs = (case find_char (CHR 0x60) s (i + 1) of
     None \<Rightarrow> (length s, subs @ [drop (i + 1) s])
   | Some j \<Rightarrow> (j + 1, subs @ [slice s (i + 1) j]))"

definition holds_substitution :: "string \<Rightarrow> bool" where
  "holds_substitution s \<longleftrightarrow> contains ''$('' s \<or> contains [CHR 0x60] s"

text \<open>What the scanners see at an index.\<close>

datatype seen = At_End | Escape | Single_Quote | Double_Quote | Command_Sub | Param_Exp | Backtick | Opener | Closer | Other

definition seen_in_quotes :: "string \<Rightarrow> nat \<Rightarrow> seen" where
  "seen_in_quotes s j =
     (if length s \<le> j then At_End
      else if s ! j = CHR 0x5C \<and> j + 1 < length s then Escape
      else if s ! j = CHR 0x22 then Double_Quote
      else if s ! j = CHR ''$'' \<and> j + 1 < length s \<and> s ! (j + 1) = CHR ''('' then Command_Sub
      else if s ! j = CHR ''$'' \<and> j + 1 < length s \<and> s ! (j + 1) = CHR ''{'' then Param_Exp
      else if s ! j = CHR 0x60 then Backtick
      else Other)"

definition seen_in_group :: "char \<Rightarrow> char \<Rightarrow> string \<Rightarrow> nat \<Rightarrow> seen" where
  "seen_in_group opener closer s j =
     (if length s \<le> j then At_End
      else if s ! j = CHR 0x5C \<and> j + 1 < length s then Escape
      else if s ! j = CHR 0x27 then Single_Quote
      else if s ! j = CHR 0x22 then Double_Quote
      else if s ! j = opener then Opener
      else if s ! j = closer then Closer
      else Other)"

text \<open>
  The two scanners that call each other: the inside of a double-quoted span from an index on, with the
  bodies found so far, and the search for the closer of a group at a nesting depth.
\<close>

definition command_subs :: "string \<Rightarrow> nat \<Rightarrow> nat \<Rightarrow> string list \<Rightarrow> string list" where
  "command_subs s i close subs = (if starts_at ''$(('' s i then subs else subs @ [slice s (i + 2) close])"

definition parameter_subs :: "string \<Rightarrow> nat \<Rightarrow> nat \<Rightarrow> string list \<Rightarrow> string list" where
  "parameter_subs s i close subs = (let interior = slice s (i + 2) close in
     if holds_substitution interior then subs @ [interior] else subs)"

datatype scan_job = In_Quotes nat "string list" | In_Group char char nat int

primrec scan :: "nat \<Rightarrow> string \<Rightarrow> scan_job \<Rightarrow> (nat \<times> string list) option" where
  "scan 0 s job = None"
| "scan (Suc f) s job = (case job of
     In_Quotes j subs \<Rightarrow> (case seen_in_quotes s j of
         At_End \<Rightarrow> Some (length s, subs)
       | Escape \<Rightarrow> scan f s (In_Quotes (j + 2) subs)
       | Double_Quote \<Rightarrow> Some (j + 1, subs)
       | Command_Sub \<Rightarrow> (case scan f s (In_Group (CHR ''('') (CHR '')'') (j + 1) 0) of None \<Rightarrow> None
           | Some (close, _) \<Rightarrow> scan f s (In_Quotes (close + 1) (command_subs s j close subs)))
       | Param_Exp \<Rightarrow> (case scan f s (In_Group (CHR ''{'') (CHR ''}'') (j + 1) 0) of None \<Rightarrow> None
           | Some (close, _) \<Rightarrow> scan f s (In_Quotes (close + 1) (parameter_subs s j close subs)))
       | Backtick \<Rightarrow> (case take_backtick_substitution s j subs of (j', subs') \<Rightarrow> scan f s (In_Quotes j' subs'))
       | _ \<Rightarrow> scan f s (In_Quotes (j + 1) subs))
   | In_Group opener closer j depth \<Rightarrow> (case seen_in_group opener closer s j of
         At_End \<Rightarrow> Some (length s, [])
       | Escape \<Rightarrow> scan f s (In_Group opener closer (j + 2) depth)
       | Single_Quote \<Rightarrow> scan f s (In_Group opener closer (skip_single_quoted s j) depth)
       | Double_Quote \<Rightarrow> (case scan f s (In_Quotes (j + 1) []) of None \<Rightarrow> None
           | Some (j', _) \<Rightarrow> scan f s (In_Group opener closer j' depth))
       | Opener \<Rightarrow> scan f s (In_Group opener closer (j + 1) (depth + 1))
       | Closer \<Rightarrow> if depth - 1 = 0 then Some (j, []) else scan f s (In_Group opener closer (j + 1) (depth - 1))
       | _ \<Rightarrow> scan f s (In_Group opener closer (j + 1) depth)))"

definition skip_fuel :: "string \<Rightarrow> nat" where
  "skip_fuel s = length s + 2"

definition skip_double_quoted :: "string \<Rightarrow> nat \<Rightarrow> string list \<Rightarrow> nat \<times> string list" where
  "skip_double_quoted s i subs = the (scan (skip_fuel s) s (In_Quotes (i + 1) subs))"

definition matching_close :: "string \<Rightarrow> nat \<Rightarrow> char \<Rightarrow> char \<Rightarrow> nat" where
  "matching_close s i opener closer = fst (the (scan (skip_fuel s) s (In_Group opener closer i 0)))"

definition take_command_substitution :: "string \<Rightarrow> nat \<Rightarrow> string list \<Rightarrow> nat \<times> string list" where
  "take_command_substitution s i subs = (let close = matching_close s (i + 1) (CHR ''('') (CHR '')'') in
     (close + 1, command_subs s i close subs))"

definition skip_parameter_expansion :: "string \<Rightarrow> nat \<Rightarrow> string list \<Rightarrow> nat \<times> string list" where
  "skip_parameter_expansion s i subs = (let close = matching_close s (i + 1) (CHR ''{'') (CHR ''}'') in
     (close + 1, parameter_subs s i close subs))"

section \<open>Here-strings and here-documents\<close>

definition consume_here_string :: "string \<Rightarrow> nat \<Rightarrow> string list \<Rightarrow> nat \<times> string list" where
  "consume_here_string s i subs =
     (let hs = run_end (\<lambda>c. c \<in> {CHR '' '', CHR 0x09}) s (i + 3) in
      if hs < length s \<and> s ! hs \<in> {CHR 0x27, CHR 0x22} then
        (case find_char (s ! hs) s (hs + 1) of
           None \<Rightarrow> (length s, subs @ [drop (hs + 1) s])
         | Some e \<Rightarrow> (e + 1, subs @ [slice s (hs + 1) e]))
      else let e = run_end (\<lambda>c. c \<notin> {CHR '' '', CHR 0x09, CHR 0x0A, CHR '';'', CHR ''&'', CHR ''|''}) s hs in
        (e, subs @ [slice s hs e]))"

text \<open>The delimiter word of \<^verbatim>\<open><<\<close> and the index past it; None when the line ends there.\<close>

definition heredoc_word :: "string \<Rightarrow> nat \<Rightarrow> (string \<times> nat) option" where
  "heredoc_word s i =
     (let h0 = (if i + 2 < length s \<and> s ! (i + 2) = CHR ''-'' then i + 3 else i + 2);
          h = run_end (\<lambda>c. c = CHR '' '') s h0 in
      if length s \<le> h then None
      else if s ! h \<in> {CHR 0x27, CHR 0x22} then
        let e = (case find_char (s ! h) s (h + 1) of None \<Rightarrow> length s | Some e \<Rightarrow> e) in
        Some (slice s (h + 1) e, e + 1)
      else let e = run_end (\<lambda>c. c \<notin> {CHR '' '', CHR 0x09, CHR 0x0A}) s h in Some (slice s h e, e))"

definition heredoc_body :: "string \<Rightarrow> string \<Rightarrow> nat \<Rightarrow> string \<times> nat" where
  "heredoc_body s delim body_start = (case find_str (CHR 0x0A # delim) s body_start of
     None \<Rightarrow> let stripped = rstrip s; from = body_start + 1 in
       (if drop (length stripped - length delim) stripped = delim
        then (case rfind_str delim stripped of None \<Rightarrow> [] | Some e \<Rightarrow> slice s from e)
        else drop from s, length s)
   | Some e \<Rightarrow> (slice s (body_start + 1) e, e + 1 + length delim))"

definition register_heredoc :: "string \<Rightarrow> nat \<Rightarrow> nat option \<Rightarrow> nat \<times> (string \<times> nat) option" where
  "register_heredoc s i prev_after = (case heredoc_word s i of
     None \<Rightarrow> (i + 2, None)
   | Some (delim, after) \<Rightarrow>
       (case find_char (CHR 0x0A) s (case prev_after of None \<Rightarrow> after | Some p \<Rightarrow> p) of
          None \<Rightarrow> (after, None)
        | Some body_start \<Rightarrow> (after, if delim = [] then None else Some (heredoc_body s delim body_start))))"

section \<open>The scan\<close>

datatype sub = Once string | Twice string

datatype item =
    Stmt string
  | Nested string                 \<comment> \<open>a body to be cut into statements in turn\<close>
  | Regroup string                \<comment> \<open>a body whose statements are cut once more\<close>
  | Heredoc string "string list"  \<comment> \<open>the owner statement, and the bodies if it runs a shell\<close>

record lex_state =
  lx_i :: nat
  lx_items :: "item list"
  lx_cur :: string
  lx_subs :: "sub list"
  lx_pend :: "(string \<times> nat) list"
  lx_case :: nat
  lx_paren :: nat
  lx_brace :: nat

definition sub_items :: "sub list \<Rightarrow> item list" where
  "sub_items subs = List.map_filter (\<lambda>x. case x of
     Once b \<Rightarrow> if strip b = [] then None else Some (Nested b) | Twice b \<Rightarrow> Some (Regroup b)) subs"

definition flush :: "bool \<Rightarrow> lex_state \<Rightarrow> lex_state" where
  "flush dropped st =
     (let t = strip (lx_cur st); head = takeWhile (\<lambda>c. \<not> is_space c) t in
      st\<lparr>lx_items := lx_items st @ (if t \<noteq> [] \<and> \<not> dropped then [Stmt t] else []) @ sub_items (lx_subs st),
         lx_case := (if t \<noteq> [] \<and> head = ''case'' then lx_case st + 1
           else if t \<noteq> [] \<and> head = ''esac'' then lx_case st - 1 else lx_case st),
         lx_cur := [], lx_subs := []\<rparr>)"

definition release_heredocs :: "lex_state \<Rightarrow> lex_state" where
  "release_heredocs st =
     (let owner = strip (lx_cur st); st1 = flush False st in
      st1\<lparr>lx_items := lx_items st1 @ [Heredoc owner (filter (\<lambda>b. strip b \<noteq> []) (map fst (lx_pend st)))],
          lx_i := fold max (map snd (lx_pend st)) 0, lx_pend := []\<rparr>)"

definition WORD_BREAK :: string where
  "WORD_BREAK = [CHR '' '', CHR 0x09, CHR 0x0A, CHR '';'', CHR ''&'', CHR ''|'', CHR ''('', CHR '')'',
     CHR ''{'', CHR ''}'', CHR ''<'', CHR ''>'']"

definition SUBSTITUTION_WORD :: string where
  "SUBSTITUTION_WORD = ''$()''"

definition copy_to :: "nat \<Rightarrow> string \<Rightarrow> lex_state \<Rightarrow> lex_state" where
  "copy_to j s st = st\<lparr>lx_cur := lx_cur st @ slice s (lx_i st) j, lx_i := j\<rparr>"

definition skip_to :: "nat \<Rightarrow> lex_state \<Rightarrow> lex_state" where
  "skip_to j st = st\<lparr>lx_i := j\<rparr>"

definition add_subs :: "string list \<Rightarrow> lex_state \<Rightarrow> lex_state" where
  "add_subs bodies st = st\<lparr>lx_subs := lx_subs st @ map Once bodies\<rparr>"

definition lex_step :: "string \<Rightarrow> lex_state \<Rightarrow> lex_state" where
  "lex_step s st =
     (let i = lx_i st; n = length s; ch = s ! i;
          next = (\<lambda>c. i + 1 < n \<and> s ! (i + 1) = c);
          word_start = (i = 0 \<or> s ! (i - 1) \<in> set WORD_BREAK) in
      if ch = CHR 0x27 then copy_to (skip_single_quoted s i) s st
      else if ch = CHR ''$'' \<and> next (CHR 0x27) then copy_to (skip_ansi_c_quoted s i) s st
      else if ch = CHR 0x22 then
        (case skip_double_quoted s i [] of (j, bodies) \<Rightarrow> add_subs bodies (copy_to j s st))
      else if ch = CHR 0x5C \<and> i + 1 < n then copy_to (i + 2) s st
      else if ch = CHR ''$'' \<and> next (CHR ''('') then
        (case take_command_substitution s i [] of (j, bodies) \<Rightarrow>
           if starts_at ''$(('' s i then add_subs bodies (copy_to j s st)
           else add_subs bodies (skip_to j (st\<lparr>lx_cur := lx_cur st @ SUBSTITUTION_WORD\<rparr>)))
      else if ch = CHR ''$'' \<and> next (CHR ''{'') then
        (case skip_parameter_expansion s i [] of (j, bodies) \<Rightarrow> add_subs bodies (copy_to j s st))
      else if ch = CHR ''('' \<and> next (CHR ''('') then
        (let e = min (matching_close s (i + 1) (CHR ''('') (CHR '')'') + 2) n; span = slice s i e;
             st1 = copy_to e s st in
         if holds_substitution span
         then st1\<lparr>lx_subs := lx_subs st1 @ [Twice (slice span 2 (length span - 2))]\<rparr> else st1)
      else if ch = CHR 0x60 then
        (case take_backtick_substitution s i [] of (j, bodies) \<Rightarrow>
           add_subs bodies (skip_to j (st\<lparr>lx_cur := lx_cur st @ SUBSTITUTION_WORD\<rparr>)))
      else if ch = CHR ''#'' \<and> word_start then
        skip_to (case find_char (CHR 0x0A) s i of None \<Rightarrow> n | Some j \<Rightarrow> j) st
      else if ch = CHR ''<'' \<and> next (CHR ''<'') then
        (if starts_at ''<<<'' s i then
           (case consume_here_string s i [] of (j, bodies) \<Rightarrow> add_subs bodies (skip_to j st))
         else (case register_heredoc s i (if lx_pend st = [] then None else Some (snd (last (lx_pend st)))) of
             (j, entry) \<Rightarrow> (skip_to j st)\<lparr>lx_pend := lx_pend st @ (case entry of None \<Rightarrow> [] | Some e \<Rightarrow> [e])\<rparr>))
      else if ch = CHR ''&'' \<and> next (CHR ''>'') then copy_to (i + 2) s st
      else if ch = CHR ''&'' \<and> i \<noteq> 0 \<and> s ! (i - 1) = CHR ''>'' then copy_to (i + 1) s st
      else if ch = CHR 0x0A then (if lx_pend st \<noteq> [] then release_heredocs st else skip_to (i + 1) (flush False st))
      else if ch = CHR '';'' then skip_to (if next (CHR '';'') then i + 2 else i + 1) (flush False st)
      else if ch = CHR ''&'' then skip_to (if next (CHR ''&'') then i + 2 else i + 1) (flush False st)
      else if ch = CHR ''|'' then skip_to (if next (CHR ''|'') \<or> next (CHR ''&'') then i + 2 else i + 1) (flush False st)
      else if ch = CHR ''('' \<and> word_start then
        skip_to (i + 1) ((flush False st)\<lparr>lx_paren := lx_paren st + 1\<rparr>)
      else if ch = CHR '')'' then
        skip_to (i + 1) (if 0 < lx_paren st then (flush False st)\<lparr>lx_paren := lx_paren st - 1\<rparr>
          else flush (0 < lx_case st) st)
      else if ch = CHR ''{'' \<and> word_start \<and> (n \<le> i + 1 \<or> s ! (i + 1) \<in> {CHR '' '', CHR 0x09, CHR 0x0A}) then
        skip_to (i + 1) ((flush False st)\<lparr>lx_brace := lx_brace st + 1\<rparr>)
      else if ch = CHR ''}'' \<and> word_start \<and> 0 < lx_brace st then
        skip_to (i + 1) ((flush False st)\<lparr>lx_brace := lx_brace st - 1\<rparr>)
      else copy_to (i + 1) s st)"

fun lex_loop :: "nat \<Rightarrow> string \<Rightarrow> lex_state \<Rightarrow> lex_state option" where
  "lex_loop 0 s st = None"
| "lex_loop (Suc f) s st = (if lx_i st < length s then lex_loop f s (lex_step s st) else Some st)"

definition lex_init :: lex_state where
  "lex_init = \<lparr>lx_i = 0, lx_items = [], lx_cur = [], lx_subs = [], lx_pend = [], lx_case = 0, lx_paren = 0, lx_brace = 0\<rparr>"

definition lex_fuel :: "string \<Rightarrow> nat" where
  "lex_fuel s = Suc (length s + 2) * Suc (length s + 2)"

definition lex_end :: "lex_state \<Rightarrow> item list" where
  "lex_end st = lx_items (if lx_pend st \<noteq> [] then release_heredocs st else flush False st)"

definition lex :: "string \<Rightarrow> item list" where
  "lex s = lex_end (the (lex_loop (lex_fuel s) s lex_init))"

end
