(* ===== verification/Shell_Parse.thy ===== *)
theory Shell_Parse
  imports Shell_Lexer
begin

text \<open>
  From statements to programs: tokens (\<^verbatim>\<open>shlex.split\<close> in its POSIX mode), redirections,
  assignments, wrappers, and the extraction of every program a command invokes, with the check for a
  recursive removal of the root; \<^verbatim>\<open>framework/authority/policy_engine.py\<close>. The extraction and
  the cutting into statements call each other on smaller texts; their fuel is twice the weight of the
  command, and that is enough for every command.
\<close>

section \<open>Tokens\<close>

definition strip_path :: "string \<Rightarrow> string" where
  "strip_path b = rev (takeWhile (\<lambda>c. c \<noteq> CHR ''/'') (rev b))"

fun ansi_c_text :: "string \<Rightarrow> string \<times> string" where
  "ansi_c_text [] = ([], [])"
| "ansi_c_text (c # cs) =
     (if c = CHR 0x27 then ([], cs)
      else if c = CHR 0x5C \<and> cs \<noteq> [] then (case ansi_c_text (tl cs) of (t, r) \<Rightarrow> (hd cs # t, r))
      else (case ansi_c_text cs of (t, r) \<Rightarrow> (c # t, r)))"

lemma ansi_c_text_length: "ansi_c_text s = (t, r) \<Longrightarrow> length r \<le> length s"
  by (induction s arbitrary: t r rule: ansi_c_text.induct) (fastforce split: if_splits prod.splits)+

function strip_quotes_and_escapes :: "string \<Rightarrow> string" where
  "strip_quotes_and_escapes [] = []"
| "strip_quotes_and_escapes (c # cs) =
     (if c = CHR 0x5C \<and> cs \<noteq> [] then hd cs # strip_quotes_and_escapes (tl cs)
      else if c \<in> {CHR 0x27, CHR 0x22} then
        (let t = takeWhile (\<lambda>x. x \<noteq> c) cs in t @ strip_quotes_and_escapes (drop (length t + 1) cs))
      else if c = CHR ''$'' \<and> cs \<noteq> [] \<and> hd cs = CHR 0x27 then
        fst (ansi_c_text (tl cs)) @ strip_quotes_and_escapes (snd (ansi_c_text (tl cs)))
      else c # strip_quotes_and_escapes cs)"
  by pat_completeness auto
termination
proof (relation "measure length")
  have "length (snd (ansi_c_text (tl cs))) < Suc (length cs)" for cs
    using ansi_c_text_length [of "tl cs"] by (cases "ansi_c_text (tl cs)") (simp add: le_imp_less_Suc order_trans)
  then show "\<And>c cs. \<not> (c = CHR 0x5C \<and> cs \<noteq> []) \<Longrightarrow> c \<notin> {CHR 0x27, CHR 0x22} \<Longrightarrow>
      c = CHR ''$'' \<and> cs \<noteq> [] \<and> hd cs = CHR 0x27 \<Longrightarrow> (snd (ansi_c_text (tl cs)), c # cs) \<in> measure length"
    by simp
qed auto

text \<open>\<^verbatim>\<open>shlex.split(s, posix=True)\<close>; None where it raises.\<close>

datatype shlex_mode = Between | Word | Quoted char | Escaped "char option"

fun shlex :: "shlex_mode \<Rightarrow> string \<Rightarrow> bool \<Rightarrow> string \<Rightarrow> string list option" where
  "shlex Between tok quoted [] = Some []"
| "shlex Word tok quoted [] = Some (if tok \<noteq> [] \<or> quoted then [tok] else [])"
| "shlex (Quoted d) tok quoted [] = None"
| "shlex (Escaped d) tok quoted [] = None"
| "shlex Between tok quoted (c # cs) =
     (if c \<in> {CHR '' '', CHR 0x09, CHR 0x0D, CHR 0x0A} then shlex Between [] False cs
      else if c = CHR 0x5C then shlex (Escaped None) [] False cs
      else if c \<in> {CHR 0x27, CHR 0x22} then shlex (Quoted c) [] False cs
      else shlex Word [c] False cs)"
| "shlex Word tok quoted (c # cs) =
     (if c \<in> {CHR '' '', CHR 0x09, CHR 0x0D, CHR 0x0A} then
        (if tok \<noteq> [] \<or> quoted then map_option (Cons tok) (shlex Between [] False cs) else shlex Between [] False cs)
      else if c = CHR 0x5C then shlex (Escaped None) tok quoted cs
      else if c \<in> {CHR 0x27, CHR 0x22} then shlex (Quoted c) tok quoted cs
      else shlex Word (tok @ [c]) quoted cs)"
| "shlex (Quoted d) tok quoted (c # cs) =
     (if c = d then shlex Word tok True cs
      else if c = CHR 0x5C \<and> d = CHR 0x22 then shlex (Escaped (Some d)) tok True cs
      else shlex (Quoted d) (tok @ [c]) True cs)"
| "shlex (Escaped None) tok quoted (c # cs) = shlex Word (tok @ [c]) quoted cs"
| "shlex (Escaped (Some d)) tok quoted (c # cs) =
     shlex (Quoted d) (if c \<noteq> CHR 0x5C \<and> c \<noteq> d then tok @ [CHR 0x5C, c] else tok @ [c]) quoted cs"

definition shlex_split :: "string \<Rightarrow> string list option" where
  "shlex_split s = shlex Between [] False s"

text \<open>\<^verbatim>\<open>s.split()\<close>\<close>

fun words_from :: "string \<Rightarrow> string \<Rightarrow> string list" where
  "words_from w [] = (if w = [] then [] else [w])"
| "words_from w (c # cs) = (if is_space c then (if w = [] then words_from [] cs else w # words_from [] cs)
     else words_from (w @ [c]) cs)"

definition tokenize_simple :: "string \<Rightarrow> string list" where
  "tokenize_simple s = (case shlex_split s of Some ts \<Rightarrow> ts
     | None \<Rightarrow> map strip_quotes_and_escapes (words_from [] s))"

section \<open>Words\<close>

definition name_start :: "char \<Rightarrow> bool" where
  "name_start c \<longleftrightarrow> (let n = of_char c :: nat in (65 \<le> n \<and> n \<le> 90) \<or> (97 \<le> n \<and> n \<le> 122)) \<or> c = CHR ''_''"

definition name_char :: "char \<Rightarrow> bool" where
  "name_char c \<longleftrightarrow> name_start c \<or> is_digit c"

text \<open>A pattern that ends in \<^verbatim>\<open>$\<close> also matches before a final newline.\<close>

definition chomp :: "string \<Rightarrow> string" where
  "chomp s = (if s \<noteq> [] \<and> last s = CHR 0x0A then butlast s else s)"

definition is_assignment :: "string \<Rightarrow> bool" where
  "is_assignment t \<longleftrightarrow> (let w = takeWhile name_char t in
     w \<noteq> [] \<and> name_start (hd w) \<and> length w < length t \<and> t ! length w = CHR ''='')"

definition is_name :: "string \<Rightarrow> bool" where
  "is_name t \<longleftrightarrow> (let w = chomp t in w \<noteq> [] \<and> name_start (hd w) \<and> list_all name_char w)"

definition PROGRAM_WORD_COMMANDS :: "string list" where
  "PROGRAM_WORD_COMMANDS = [''.'', '':'', ''['', ''[['', ''!'']"

definition program_name :: "string \<Rightarrow> bool" where
  "program_name t \<longleftrightarrow> (let w = chomp t in w \<noteq> [] \<and> name_char (hd w)
     \<and> list_all (\<lambda>c. name_char c \<or> c \<in> {CHR ''.'', CHR ''+'', CHR ''@'', CHR ''%'', CHR ''-''}) w)"

definition is_program_word :: "string \<Rightarrow> bool" where
  "is_program_word w \<longleftrightarrow> w \<in> set PROGRAM_WORD_COMMANDS
     \<or> w \<noteq> [] \<and> \<not> list_all is_digit w \<and> last w \<notin> {CHR ''.'', CHR ''-''} \<and> program_name w"

text \<open>The length of the redirection operator a token starts with.\<close>

definition redirect_op :: "string \<Rightarrow> nat option" where
  "redirect_op t = (let amp = (\<lambda>r. if r \<noteq> [] \<and> hd r = CHR ''&'' then 1 else 0) in
     if starts_with ''>>'' t then Some (2 + amp (drop 2 t))
     else if starts_with ''>'' t then Some (1 + amp (drop 1 t))
     else if starts_with ''<<<'' t then Some (3 + amp (drop 3 t))
     else if starts_with ''<<'' t then Some (2 + amp (drop 2 t))
     else if starts_with ''<'' t then Some (1 + amp (drop 1 t)) else None)"

definition redirect_end :: "string \<Rightarrow> nat option" where
  "redirect_end t = (let d = takeWhile is_digit t;
       p = (if d \<noteq> [] then length d else if starts_with ''&'' t then 1 else 0) in
     map_option (\<lambda>k. p + k) (redirect_op (drop p t)))"

function strip_redirections :: "string list \<Rightarrow> string list" where
  "strip_redirections [] = []"
| "strip_redirections (t # ts) = (case redirect_end t of
     None \<Rightarrow> t # strip_redirections ts
   | Some e \<Rightarrow> if e = length t then strip_redirections (tl ts) else strip_redirections ts)"
  by pat_completeness auto
termination by (relation "measure length") auto

section \<open>The command word\<close>

definition UNRESOLVED :: string where "UNRESOLVED = ''__unresolved_program__''"
definition ENV_ASSIGNMENT :: string where "ENV_ASSIGNMENT = ''__env_assignment__''"

definition SHELL_CONTROL_KEYWORDS :: "string list" where
  "SHELL_CONTROL_KEYWORDS = [''if'', ''then'', ''else'', ''elif'', ''fi'', ''while'', ''until'', ''do'', ''done'',
     ''for'', ''in'', ''select'', ''case'', ''esac'', ''function'', ''!'']"

definition NON_COMMAND_KEYWORDS :: "string list" where
  "NON_COMMAND_KEYWORDS = [''for'', ''select'', ''case'', ''in'', ''function'']"

definition EXEC_WRAPPERS :: "string list" where
  "EXEC_WRAPPERS = [''eval'', ''exec'', ''nohup'', ''time'', ''nice'', ''ionice'', ''chrt'', ''taskset'', ''unbuffer'',
     ''cgexec'', ''doas'', ''pkexec'', ''gosu'', ''su-exec'', ''strace'', ''ltrace'', ''gdb'', ''valgrind'', ''watch'',
     ''chroot'', ''timeout'', ''numactl'', ''setsid'', ''stdbuf'', ''coproc'', ''trap'']"

definition ENV_BINARIES :: "string list" where "ENV_BINARIES = [''env'']"

definition SHELL_BINARIES :: "string list" where
  "SHELL_BINARIES = [''bash'', ''sh'', ''dash'', ''zsh'', ''ksh'', ''mksh'', ''ash'', ''fish'', ''csh'', ''tcsh'',
     ''busybox'', ''su'', ''runuser'', ''script'']"

definition COMMAND_BINARY :: string where "COMMAND_BINARY = ''command''"

text \<open>
  What the word walker does with the tokens: it has the programs, goes on with the tokens of an inner
  statement, or parses a command text.
\<close>

datatype action = Done "string list" | Again "string list" | Reparse string

fun command_flags :: "string list \<Rightarrow> action" where
  "command_flags [] = Again []"
| "command_flags (t # ts) =
     (if \<not> starts_with ''-'' t then Again (t # ts)
      else if contains ''-v'' t \<or> contains ''-V'' t then Done []
      else if t = ''--'' then Again ts else command_flags ts)"

function env_flags :: "string list \<Rightarrow> action" where
  "env_flags [] = Again []"
| "env_flags (t # ts) =
     (if starts_with ''-'' t then
        (if starts_with ''-S'' t then
           (if t = ''-S'' \<and> ts \<noteq> [] then Reparse (hd ts)
            else if 2 < length t then Reparse (drop 2 t) else env_flags ts)
         else if ts \<noteq> [] \<and> \<not> starts_with ''-'' (hd ts) \<and> CHR ''='' \<notin> set (hd ts) then env_flags (tl ts)
         else env_flags ts)
      else if is_assignment t then env_flags ts else Again (t # ts))"
  by pat_completeness auto
termination by (relation "measure length") auto

function shell_flags :: "string list \<Rightarrow> action" where
  "shell_flags [] = Done [UNRESOLVED]"
| "shell_flags (t # ts) =
     (if t = ''--'' then Done [UNRESOLVED]
      else if starts_with ''--'' t then
        (if CHR ''='' \<in> set t then shell_flags ts
         else if t \<in> {''--rcfile'', ''--init-file''} then shell_flags (tl ts) else shell_flags ts)
      else if starts_with ''-'' t \<and> CHR ''c'' \<in> set t then
        (case ts of [] \<Rightarrow> Done [UNRESOLVED] | c # _ \<Rightarrow> Reparse c)
      else if starts_with ''-'' t then shell_flags ts else Done [UNRESOLVED])"
  by pat_completeness auto
termination by (relation "measure length") auto

definition takes_value :: "string \<Rightarrow> string \<Rightarrow> bool" where
  "takes_value cmd flag \<longleftrightarrow>
     cmd = ''nice'' \<and> flag \<in> {''-n'', ''--adjustment''}
   \<or> cmd = ''ionice'' \<and> flag \<in> {''-c'', ''-n'', ''--class'', ''--classdata''}
   \<or> cmd = ''chrt'' \<and> flag \<in> {''-p'', ''--pid''}
   \<or> cmd = ''timeout'' \<and> flag \<in> {''-k'', ''--kill-after'', ''-s'', ''--signal''}
   \<or> cmd = ''stdbuf'' \<and> flag \<in> {''-i'', ''-o'', ''-e''}
   \<or> cmd = ''cgexec'' \<and> flag \<in> {''-g'', ''--sticky''}
   \<or> cmd = ''numactl'' \<and> flag \<in> {''--physcpubind'', ''--cpunodebind'', ''--membind'', ''--interleave'', ''--preferred''}
   \<or> starts_with ''--'' flag \<and> \<not> starts_with ''--no'' flag"

function wrapper_flags :: "string \<Rightarrow> string list \<Rightarrow> string list" where
  "wrapper_flags cmd [] = []"
| "wrapper_flags cmd (t # ts) =
     (if \<not> starts_with ''-'' t then t # ts
      else if t = ''--'' then ts
      else if starts_with ''--'' t \<and> CHR ''='' \<in> set t then wrapper_flags cmd ts
      else if ts \<noteq> [] \<and> \<not> starts_with ''-'' (hd ts) \<and> takes_value cmd t then wrapper_flags cmd (tl ts)
      else wrapper_flags cmd ts)"
  by pat_completeness auto
termination by (relation "measure (length \<circ> snd)") auto

definition digit_first :: "string \<Rightarrow> bool" where
  "digit_first t \<longleftrightarrow> t \<noteq> [] \<and> is_digit (hd t)"

definition drop_if :: "(string \<Rightarrow> bool) \<Rightarrow> string list \<Rightarrow> string list" where
  "drop_if P ts = (case ts of [] \<Rightarrow> [] | t # r \<Rightarrow> if P t then r else ts)"

definition wrapper_action :: "string \<Rightarrow> string list \<Rightarrow> action" where
  "wrapper_action cmd ts =
     (if cmd = ''eval'' then (if ts = [] then Done [] else Reparse (join '' '' ts))
      else if cmd = ''trap'' then
        (case dropWhile (starts_with ''-'') ts of [] \<Rightarrow> Done [] | t # _ \<Rightarrow> Reparse t)
      else let ts1 = wrapper_flags cmd (if cmd = ''coproc'' then drop_if is_name ts else ts) in
        Again (if cmd = ''timeout'' then drop_if digit_first ts1
          else if cmd = ''chroot'' then drop_if (\<lambda>_. True) ts1
          else if cmd \<in> {''chrt'', ''taskset''} then drop_if digit_first ts1 else ts1))"

definition extract_command :: "string list \<Rightarrow> action" where
  "extract_command tokens =
     (case (if tokens \<noteq> [] \<and> hd tokens = ''!'' then tl tokens else tokens) of
        [] \<Rightarrow> Done []
      | raw # ts \<Rightarrow>
          let cmd = strip_path (strip_quotes_and_escapes raw) in
          if cmd \<in> set NON_COMMAND_KEYWORDS then Done []
          else if cmd \<in> set SHELL_CONTROL_KEYWORDS then Again ts
          else if cmd = COMMAND_BINARY then command_flags ts
          else if cmd \<in> set ENV_BINARIES then env_flags ts
          else if cmd \<in> set SHELL_BINARIES then shell_flags ts
          else if cmd \<in> set EXEC_WRAPPERS then wrapper_action cmd ts
          else Done [if is_program_word cmd then cmd else UNRESOLVED])"

section \<open>Statements\<close>

lemma strip_redirections_length: "length (strip_redirections ts) \<le> length ts"
  by (induction ts rule: strip_redirections.induct) (auto split: option.splits)

lemma command_flags_Again: "command_flags ts = Again us \<Longrightarrow> length us \<le> length ts"
  by (induction ts rule: command_flags.induct) (auto split: if_splits)

lemma env_flags_Again: "env_flags ts = Again us \<Longrightarrow> length us \<le> length ts"
  by (induction ts rule: env_flags.induct) (auto split: if_splits simp: less_eq_Suc_le)

lemma shell_flags_Again: "shell_flags ts \<noteq> Again us"
  by (induction ts rule: shell_flags.induct) (auto split: list.splits)

lemma wrapper_flags_length: "length (wrapper_flags cmd ts) \<le> length ts"
  by (induction cmd ts rule: wrapper_flags.induct) auto

lemma drop_if_length: "length (drop_if P ts) \<le> length ts"
  by (simp add: drop_if_def split: list.split)

lemma wrapper_action_Again:
  assumes "wrapper_action cmd ts = Again us"
  shows "length us \<le> length ts"
proof -
  define ts0 where "ts0 = (if cmd = ''coproc'' then drop_if is_name ts else ts)"
  define ts1 where "ts1 = wrapper_flags cmd ts0"
  have "length ts0 \<le> length ts"
    by (simp add: ts0_def drop_if_length)
  with wrapper_flags_length have le: "length ts1 \<le> length ts"
    unfolding ts1_def by (rule order_trans)
  have "us \<in> {ts1, drop_if digit_first ts1, drop_if (\<lambda>_. True) ts1}"
    using assms unfolding wrapper_action_def ts0_def [symmetric] ts1_def [symmetric] Let_def
    by (auto split: if_splits list.splits)
  then have "length us \<le> length ts1"
    using drop_if_length by auto
  then show ?thesis
    using le by (rule order_trans)
qed

lemma extract_command_Again:
  assumes "extract_command tokens = Again us"
  shows "length us < length tokens"
proof -
  let ?ts = "if tokens \<noteq> [] \<and> hd tokens = ''!'' then tl tokens else tokens"
  obtain raw ts where ts: "?ts = raw # ts"
    using assms by (cases ?ts) (simp_all add: extract_command_def)
  define cmd where "cmd = strip_path (strip_quotes_and_escapes raw)"
  have "us = ts \<or> command_flags ts = Again us \<or> env_flags ts = Again us \<or> shell_flags ts = Again us
      \<or> wrapper_action cmd ts = Again us"
    using assms unfolding extract_command_def ts
    by (simp only: list.case Let_def cmd_def [symmetric] split: if_splits) auto
  then have "length us \<le> length ts"
    using command_flags_Again env_flags_Again shell_flags_Again wrapper_action_Again by blast
  moreover have "length ts < length ?ts" "length ?ts \<le> length tokens"
    by (simp add: ts) simp
  ultimately show ?thesis
    by linarith
qed

function from_statement :: "(string \<Rightarrow> string list option) \<Rightarrow> string list \<Rightarrow> string list option" where
  "from_statement ex tokens =
     (let ts = strip_redirections tokens; rest = dropWhile is_assignment ts in
      if ts = [] then Some []
      else map_option (append (if rest \<noteq> ts then [ENV_ASSIGNMENT] else []))
        (case extract_command rest of Done bs \<Rightarrow> Some bs | Again us \<Rightarrow> from_statement ex us | Reparse s \<Rightarrow> ex s))"
  by pat_completeness auto
termination
proof (relation "measure (length \<circ> snd)")
  fix tokens ts rest us
  assume "ts = strip_redirections tokens" "rest = dropWhile is_assignment ts" "extract_command rest = Again us"
  then show "((ex, us), (ex, tokens)) \<in> measure (length \<circ> snd)" for ex :: "string \<Rightarrow> string list option"
    using extract_command_Again [of rest us] strip_redirections_length [of tokens]
      length_dropWhile_le [of is_assignment ts] by simp
qed simp

declare from_statement.simps [simp del]

section \<open>Braces\<close>

fun find_brace :: "string \<Rightarrow> (string \<times> string \<times> string) option" where
  "find_brace [] = None"
| "find_brace (c # cs) =
     (let inner = takeWhile (\<lambda>x. x \<notin> {CHR ''{'', CHR ''}''}) cs; rest = drop (length inner) cs in
      if c = CHR ''{'' \<and> rest \<noteq> [] \<and> hd rest = CHR ''}'' \<and> CHR '','' \<in> set inner then Some ([], inner, tl rest)
      else map_option (\<lambda>(pre, inner', post). (c # pre, inner', post)) (find_brace cs))"

fun split_char :: "char \<Rightarrow> string \<Rightarrow> string list" where
  "split_char d [] = [[]]"
| "split_char d (c # cs) = (if c = d then [] # split_char d cs
     else (case split_char d cs of [] \<Rightarrow> [[c]] | w # ws \<Rightarrow> (c # w) # ws))"

fun expand_braces :: "nat \<Rightarrow> string \<Rightarrow> string" where
  "expand_braces 0 s = s"
| "expand_braces (Suc n) s = (case find_brace s of None \<Rightarrow> s
     | Some (pre, inner, post) \<Rightarrow>
         expand_braces n (pre @ join '' '' (filter (\<lambda>p. p \<noteq> []) (split_char (CHR '','') inner)) @ post))"

definition expand_braces_in_command :: "string \<Rightarrow> string" where
  "expand_braces_in_command command = expand_braces 10 command"

section \<open>Extraction\<close>

definition HEREDOC_DATA_CONSUMERS :: "string list" where
  "HEREDOC_DATA_CONSUMERS = [''cat'', ''tee'', ''grep'', ''egrep'', ''fgrep'', ''head'', ''tail'', ''wc'', ''sort'',
     ''uniq'', ''tr'', ''cut'', ''nl'', ''rev'', ''fold'', ''column'', ''diff'', ''cmp'', ''jq'', ''base64'', ''base32'',
     ''xxd'', ''od'', ''md5'', ''md5sum'', ''shasum'', ''sha1sum'', ''sha256sum'', ''sha512sum'', ''cksum'', ''strings'',
     ''tac'', ''python'', ''python3'', ''python3.12'', ''python3.11'', ''python3.13'', ''perl'', ''ruby'', ''node'',
     ''php'', ''lua'', ''tclsh'', ''osascript'', ''sqlite3'', ''psql'', ''mysql'', ''redis-cli'', ''bc'', ''dc'', ''ed'',
     ''ex'', ''read'', ''git'']"

fun concat_map :: "('a \<Rightarrow> 'b list option) \<Rightarrow> 'a list \<Rightarrow> 'b list option" where
  "concat_map f [] = Some []"
| "concat_map f (x # xs) = (case f x of None \<Rightarrow> None | Some ys \<Rightarrow> map_option (append ys) (concat_map f xs))"

definition runs_shell :: "string list \<Rightarrow> bool" where
  "runs_shell binaries = (let names = filter (\<lambda>n. n \<noteq> ENV_ASSIGNMENT) (map strip_path binaries) in
     names = [] \<or> \<not> list_all (\<lambda>n. n \<in> set HEREDOC_DATA_CONSUMERS) names)"

text \<open>The two queries that call each other, on the answers one level down.\<close>

datatype query = Statements | Binaries

definition expand_item :: "(query \<Rightarrow> string \<Rightarrow> string list option) \<Rightarrow> item \<Rightarrow> string list option" where
  "expand_item ask x = (case x of
     Stmt t \<Rightarrow> Some [t]
   | Nested b \<Rightarrow> ask Statements b
   | Regroup b \<Rightarrow> (case ask Statements b of None \<Rightarrow> None | Some bodies \<Rightarrow> concat_map (ask Statements) bodies)
   | Heredoc owner bodies \<Rightarrow>
       if owner = [] then concat_map (ask Statements) bodies
       else (case ask Binaries owner of None \<Rightarrow> None
         | Some bs \<Rightarrow> if runs_shell bs then concat_map (ask Statements) bodies else Some []))"

primrec answer :: "nat \<Rightarrow> query \<Rightarrow> string \<Rightarrow> string list option" where
  "answer 0 q s = None"
| "answer (Suc f) q s = (case q of
     Statements \<Rightarrow> map_option (\<lambda>ts. filter (\<lambda>t. t \<noteq> []) (map strip ts)) (concat_map (expand_item (answer f)) (lex s))
   | Binaries \<Rightarrow>
       if strip s = [] then Some []
       else (case answer f Statements (expand_braces_in_command s) of None \<Rightarrow> None
         | Some stmts \<Rightarrow> concat_map (\<lambda>t. from_statement (answer f Binaries) (tokenize_simple t)) stmts))"

text \<open>The weight of a text: a substitution and the word that stands for it weigh the same.\<close>

definition char_weight :: "char \<Rightarrow> nat" where
  "char_weight c = (if c = CHR '')'' then 0 else if c = CHR 0x60 then 2 else 1)"

definition weight :: "string \<Rightarrow> nat" where
  "weight s = sum_list (map char_weight s)"

definition parse_fuel :: "string \<Rightarrow> nat" where
  "parse_fuel s = 2 * weight s + 2"

definition split_on_statement_seps :: "string \<Rightarrow> string list" where
  "split_on_statement_seps command = the (answer (parse_fuel command) Statements command)"

definition extract_invoked_binaries :: "string \<Rightarrow> string list" where
  "extract_invoked_binaries command = the (answer (parse_fuel command) Binaries command)"

definition extract_from_statement :: "string list \<Rightarrow> string list" where
  "extract_from_statement tokens = the (from_statement (\<lambda>s. Some (extract_invoked_binaries s)) tokens)"

section \<open>Destructive removal\<close>

definition strip_both :: "string \<Rightarrow> string" where
  "strip_both target = (let r = rev target in
     rev (dropWhile (\<lambda>c. c = CHR ''/'') (dropWhile (\<lambda>c. c = CHR ''*'') r)))"

definition recursive_flag :: "string \<Rightarrow> bool" where
  "recursive_flag t \<longleftrightarrow> (if starts_with ''--'' t then t = ''--recursive''
     else starts_with ''-'' t \<and> (CHR ''r'' \<in> set (tl t) \<or> CHR ''R'' \<in> set (tl t)))"

definition root_target :: "string \<Rightarrow> bool" where
  "root_target t \<longleftrightarrow> \<not> starts_with ''-'' t \<and> (strip_both t = [] \<or> t = ''/'')"

definition check_rm_in_tokens :: "string list \<Rightarrow> bool" where
  "check_rm_in_tokens tokens =
     (case dropWhile (\<lambda>t. strip_path (strip_quotes_and_escapes t) \<noteq> ''rm'') tokens of
        [] \<Rightarrow> False
      | _ # args \<Rightarrow> let cleaned = map strip_quotes_and_escapes args in
          list_ex recursive_flag cleaned \<and> list_ex root_target cleaned)"

definition is_destructive_rm :: "string \<Rightarrow> bool" where
  "is_destructive_rm command = list_ex (\<lambda>stmt. let tokens = tokenize_simple stmt in
     ''rm'' \<in> set (extract_from_statement tokens) \<and> check_rm_in_tokens tokens) (split_on_statement_seps command)"

section \<open>The command rules\<close>

text \<open>The block message of a rule, None to allow. The command is a text.\<close>

definition blocked :: "pyval \<Rightarrow> string option" where
  "blocked policy = Some (''BLOCKED: '' @ str_of (dget policy ''message''))"

definition command_of :: "pyval \<Rightarrow> string" where
  "command_of tool_input = str_of (dget tool_input ''command'')"

definition eval_binary_block :: "pyval \<Rightarrow> string \<Rightarrow> pyval \<Rightarrow> string option" where
  "eval_binary_block policy tool_name tool_input =
     (if tool_name \<noteq> ''Bash'' \<or> command_of tool_input = [] then None
      else if list_ex (\<lambda>b. PStr b \<in> set (elems (dget policy ''binaries'')))
                (extract_invoked_binaries (command_of tool_input)) then blocked policy
      else None)"

definition eval_destructive_rm :: "pyval \<Rightarrow> string \<Rightarrow> pyval \<Rightarrow> string option" where
  "eval_destructive_rm policy tool_name tool_input =
     (let command = command_of tool_input; expanded = expand_braces_in_command command in
      if tool_name \<noteq> ''Bash'' \<or> command = [] then None
      else if is_destructive_rm command then blocked policy
      else if expanded \<noteq> command \<and> is_destructive_rm expanded then blocked policy
      else None)"

end
