(* ===== verification/Shell_Total.thy ===== *)
theory Shell_Total
  imports Shell_Parse
begin

text \<open>
  The shell parser returns on every command. Nothing a scan finds is heavier than the command it
  scans, a substitution, here-document or argument that is parsed in turn is strictly lighter, and the
  main loop makes progress although a here-document may send it backwards: it never returns to or
  before the first here-document that is still open.
\<close>

section \<open>Weights\<close>

lemma weight_simps [simp]: "weight [] = 0" "weight (c # s) = char_weight c + weight s"
  "weight (s @ t) = weight s + weight t"
  by (simp_all add: weight_def)

lemma char_weight_space: "is_space c \<Longrightarrow> char_weight c = 1"
  by (auto simp: char_weight_def is_space_def Let_def)

lemma weight_take: "weight (take i s) + weight (drop i s) = weight s"
  by (metis append_take_drop_id weight_simps(3))

lemma weight_take_le: "weight (take i s) \<le> weight s"
  using weight_take [of i s] by linarith

lemma weight_slice: "i \<le> j \<Longrightarrow> weight (take j s) = weight (take i s) + weight (slice s i j)"
  unfolding slice_def using take_add [of i "j - i" s] by simp

lemma weight_take_mono: "i \<le> j \<Longrightarrow> weight (take i s) \<le> weight (take j s)"
  using weight_slice by simp

lemma weight_take_Suc: "i < length s \<Longrightarrow> weight (take (Suc i) s) = weight (take i s) + char_weight (s ! i)"
  by (simp add: take_Suc_conv_app_nth)

lemma weight_drop_less:
  assumes "p < a" "p < length s" "s ! p \<noteq> CHR '')''"
  shows "weight (drop a s) < weight s"
proof -
  have "0 < char_weight (s ! p)"
    using assms(3) by (simp add: char_weight_def)
  then have "0 < weight (take (Suc p) s)"
    using weight_take_Suc [OF assms(2)] by simp
  also have "\<dots> \<le> weight (take a s)"
    using assms(1) by (intro weight_take_mono) simp
  finally show ?thesis
    using weight_take [of a s] by simp
qed

lemma weight_slice_less:
  assumes "p < a" "p < length s" "s ! p \<noteq> CHR '')''"
  shows "weight (slice s a b) < weight s"
  using weight_drop_less [OF assms] weight_take_le [of "b - a" "drop a s"] by (simp add: slice_def)

lemma weight_inner_slice: "weight (slice (slice s i e) 2 b) \<le> weight (drop (i + 2) s)"
proof -
  have "slice (slice s i e) 2 b = take (b - 2) (take (e - i - 2) (drop (i + 2) s))"
    by (simp add: slice_def drop_take add.commute)
  then show ?thesis
    using weight_take_le [of "b - 2" "take (e - i - 2) (drop (i + 2) s)"] weight_take_le [of "e - i - 2" "drop (i + 2) s"]
    by simp
qed

lemma weight_dropWhile: "weight (dropWhile P s) \<le> weight s"
  by (induction s) auto

lemma weight_rev [simp]: "weight (rev s) = weight s"
  by (induction s) auto

lemma weight_strip: "weight (strip s) \<le> weight s"
proof -
  have "weight (strip s) \<le> weight (lstrip s)"
    using weight_dropWhile [of is_space "rev (lstrip s)"] by (simp add: strip_def rstrip_def)
  then show ?thesis
    using weight_dropWhile [of is_space s] by (simp add: lstrip_def)
qed

lemma weight_filter: "weight (filter P s) \<le> weight s"
  by (induction s) auto

section \<open>The scanners\<close>

lemma find_char_bounds: "find_char c s i = Some j \<Longrightarrow> i \<le> j \<and> j < length s"
  by (auto simp: find_char_def Let_def split: if_splits)

lemma skip_single_quoted_bounds: "i < length s \<Longrightarrow> i < skip_single_quoted s i \<and> skip_single_quoted s i \<le> length s"
  using find_char_bounds [of "CHR 0x27" s "i + 1"] by (auto simp: skip_single_quoted_def split: option.split)

definition light :: "string \<Rightarrow> string list \<Rightarrow> bool" where
  "light s bodies \<longleftrightarrow> (\<forall>b \<in> set bodies. weight b < weight s)"

lemma light_simps [simp]: "light s []" "light s (xs @ ys) \<longleftrightarrow> light s xs \<and> light s ys"
  "light s (x # xs) \<longleftrightarrow> weight x < weight s \<and> light s xs"
  by (auto simp: light_def)

lemma backtick_bounds:
  assumes "take_backtick_substitution s i subs = (j, subs')" "i < length s" "s ! i = CHR 0x60" "light s subs"
  shows "i < j" "j \<le> length s" "light s subs'"
proof -
  have "s ! i \<noteq> CHR '')''"
    using assms(3) by simp
  note less = weight_drop_less [OF _ assms(2) this] weight_slice_less [OF _ assms(2) this]
  show "i < j" "j \<le> length s" "light s subs'"
    using assms less find_char_bounds [of "CHR 0x60" s "i + 1"]
    by (auto simp: take_backtick_substitution_def split: option.splits)
qed

lemma command_subs_light:
  "i < length s \<Longrightarrow> s ! i = CHR ''$'' \<Longrightarrow> light s subs \<Longrightarrow> light s (command_subs s i close subs)"
  using weight_slice_less [of i "i + 2" s close] by (simp add: command_subs_def)

lemma parameter_subs_light:
  "i < length s \<Longrightarrow> s ! i = CHR ''$'' \<Longrightarrow> light s subs \<Longrightarrow> light s (parameter_subs s i close subs)"
  using weight_slice_less [of i "i + 2" s close] by (simp add: parameter_subs_def Let_def)

fun job_at :: "scan_job \<Rightarrow> nat" where
  "job_at (In_Quotes j subs) = j"
| "job_at (In_Group opener closer j depth) = j"

fun job_subs :: "scan_job \<Rightarrow> string list" where
  "job_subs (In_Quotes j subs) = subs"
| "job_subs (In_Group opener closer j depth) = []"

definition scanned :: "string \<Rightarrow> nat \<Rightarrow> scan_job \<Rightarrow> bool" where
  "scanned s f job \<longleftrightarrow> (\<exists>r subs. scan f s job = Some (r, subs) \<and> r \<le> length s
     \<and> min (job_at job) (length s) \<le> r \<and> light s subs)"

lemma scanned_pass:
  assumes "scanned s f job'" "scan (Suc f) s job = scan f s job'" "job_at job \<le> job_at job'"
  shows "scanned s (Suc f) job"
proof -
  have "min (job_at job) (length s) \<le> min (job_at job') (length s)"
    using assms(3) by simp
  then show ?thesis
    using assms unfolding scanned_def by (metis order_trans)
qed

lemma seen_in_quotes_inside:
  "seen_in_quotes s j \<noteq> At_End \<Longrightarrow> j < length s"
  "seen_in_quotes s j = Escape \<Longrightarrow> j + 1 < length s"
  "seen_in_quotes s j = Command_Sub \<Longrightarrow> s ! j = CHR ''$''"
  "seen_in_quotes s j = Param_Exp \<Longrightarrow> s ! j = CHR ''$''"
  "seen_in_quotes s j = Backtick \<Longrightarrow> s ! j = CHR 0x60"
  by (auto simp: seen_in_quotes_def split: if_splits)

lemma seen_in_group_inside:
  "seen_in_group opener closer s j \<noteq> At_End \<Longrightarrow> j < length s"
  "seen_in_group opener closer s j = Escape \<Longrightarrow> j + 1 < length s"
  by (auto simp: seen_in_group_def split: if_splits)

lemma scan_enough:
  "length s < f + job_at job \<Longrightarrow> 0 < f \<Longrightarrow> light s (job_subs job) \<Longrightarrow> scanned s f job"
proof (induction f arbitrary: job)
  case 0
  then show ?case by simp
next
  case (Suc f)
  show ?case
  proof (cases job)
    case job: (In_Quotes j subs)
    have go: "scanned s f job'" if "j < job_at job'" "j < length s" "light s (job_subs job')" for job'
      by (rule Suc.IH) (use that Suc.prems job in auto)
    have subs: "light s subs"
      using Suc.prems(3) job by simp
    note inside = seen_in_quotes_inside [of s j]
    have group: "scanned s (Suc f) job"
      if jn: "j < length s" and g: "scan (Suc f) s job = (case scan f s (In_Group opener closer (j + 1) 0) of None \<Rightarrow> None
            | Some (close, _) \<Rightarrow> scan f s (In_Quotes (close + 1) (h close)))"
        and h: "\<And>close. light s (h close)" for opener closer h
    proof -
      obtain close x where c: "scan f s (In_Group opener closer (j + 1) 0) = Some (close, x)" "min (j + 1) (length s) \<le> close"
        using go [of "In_Group opener closer (j + 1) 0"] jn unfolding scanned_def by auto
      show ?thesis
        by (rule scanned_pass [OF go [of "In_Quotes (close + 1) (h close)"]]) (use c g h jn job in auto)
    qed
    show ?thesis
    proof (cases "seen_in_quotes s j")
      case At_End
      then have "length s \<le> j"
        by (auto simp: seen_in_quotes_def split: if_splits)
      then show ?thesis
        using At_End job subs by (simp add: scanned_def)
    next
      case Escape
      then show ?thesis
        using inside job subs by (intro scanned_pass [OF go [of "In_Quotes (j + 2) subs"]]) auto
    next
      case Double_Quote
      then show ?thesis
        using inside job subs by (simp add: scanned_def)
    next
      case Command_Sub
      then show ?thesis
        using inside job subs command_subs_light by (intro group [where h = "\<lambda>close. command_subs s j close subs"]) auto
    next
      case Param_Exp
      then show ?thesis
        using inside job subs parameter_subs_light by (intro group [where h = "\<lambda>close. parameter_subs s j close subs"]) auto
    next
      case Backtick
      obtain j' subs' where b: "take_backtick_substitution s j subs = (j', subs')"
        by (cases "take_backtick_substitution s j subs")
      have "j < length s" "s ! j = CHR 0x60"
        using inside Backtick by simp_all
      note bounds = backtick_bounds [OF b this subs]
      show ?thesis
        using Backtick inside job b bounds by (intro scanned_pass [OF go [of "In_Quotes j' subs'"]]) auto
    qed (use inside job subs in \<open>auto intro!: scanned_pass [OF go [of "In_Quotes (j + 1) subs"]]\<close>)
  next
    case job: (In_Group opener closer j depth)
    have go: "scanned s f job'" if "j < job_at job'" "j < length s" "light s (job_subs job')" for job'
      by (rule Suc.IH) (use that Suc.prems job in auto)
    note inside = seen_in_group_inside [of opener closer s j]
    show ?thesis
    proof (cases "seen_in_group opener closer s j")
      case At_End
      then have "length s \<le> j"
        by (auto simp: seen_in_group_def split: if_splits)
      then show ?thesis
        using At_End job by (simp add: scanned_def)
    next
      case Escape
      then show ?thesis
        using inside job by (intro scanned_pass [OF go [of "In_Group opener closer (j + 2) depth"]]) auto
    next
      case Single_Quote
      then show ?thesis
        using inside job skip_single_quoted_bounds [of j s]
        by (intro scanned_pass [OF go [of "In_Group opener closer (skip_single_quoted s j) depth"]]) auto
    next
      case Double_Quote
      then have "j < length s"
        using inside by simp
      then obtain r x where r: "scan f s (In_Quotes (j + 1) []) = Some (r, x)" "min (j + 1) (length s) \<le> r"
        using go [of "In_Quotes (j + 1) []"] unfolding scanned_def by auto
      show ?thesis
        using Double_Quote job r \<open>j < length s\<close>
        by (intro scanned_pass [OF go [of "In_Group opener closer r depth"]]) auto
    next
      case Opener
      then show ?thesis
        using inside job by (intro scanned_pass [OF go [of "In_Group opener closer (j + 1) (depth + 1)"]]) auto
    next
      case Closer
      then show ?thesis
        using inside job
        by (cases "depth - 1 = 0")
          (simp add: scanned_def, intro scanned_pass [OF go [of "In_Group opener closer (j + 1) (depth - 1)"]], auto)
    qed (use inside job in \<open>auto intro!: scanned_pass [OF go [of "In_Group opener closer (j + 1) depth"]]\<close>)
  qed
qed

lemma scanned_skip: "light s (job_subs job) \<Longrightarrow> scanned s (skip_fuel s) job"
  by (rule scan_enough) (simp_all add: skip_fuel_def)

lemma matching_close_bounds:
  assumes "i < length s"
  shows "i \<le> matching_close s i opener closer" "matching_close s i opener closer \<le> length s"
  using scanned_skip [of s "In_Group opener closer i 0"] assms
  by (auto simp: matching_close_def scanned_def)

lemma skip_double_quoted_bounds:
  assumes "skip_double_quoted s i [] = (j, bodies)" "i < length s"
  shows "i < j" "light s bodies"
  using scanned_skip [of s "In_Quotes (i + 1) []"] assms
  by (auto simp: skip_double_quoted_def scanned_def)

section \<open>The main loop\<close>

definition light_sub :: "string \<Rightarrow> sub \<Rightarrow> bool" where
  "light_sub s x \<longleftrightarrow> (case x of Once b \<Rightarrow> weight b < weight s | Twice b \<Rightarrow> weight b < weight s)"

definition light_item :: "string \<Rightarrow> item \<Rightarrow> bool" where
  "light_item s x \<longleftrightarrow> (case x of Stmt t \<Rightarrow> weight t \<le> weight s | Nested b \<Rightarrow> weight b < weight s
     | Regroup b \<Rightarrow> weight b < weight s
     | Heredoc owner bodies \<Rightarrow> weight owner < weight s \<and> light s bodies)"

text \<open>
  The invariant, with a position \<open>p\<close> before every pending here-document: the current text is no
  heavier than what was scanned, and lighter when the operator of a here-document was left out of it.
\<close>

definition lex_inv :: "string \<Rightarrow> nat \<Rightarrow> lex_state \<Rightarrow> bool" where
  "lex_inv s p st \<longleftrightarrow> weight (lx_cur st) + (if lx_pend st = [] then 0 else 1) \<le> weight (take (lx_i st) s)
     \<and> list_all (light_sub s) (lx_subs st) \<and> list_all (light_item s) (lx_items st)
     \<and> (\<forall>(b, a) \<in> set (lx_pend st). p < a \<and> weight b < weight s)
     \<and> (lx_pend st \<noteq> [] \<longrightarrow> p < lx_i st)"

definition rank_of :: "string \<Rightarrow> nat \<Rightarrow> lex_state \<Rightarrow> nat" where
  "rank_of s p st = (length s + 2 - (if lx_pend st = [] then lx_i st else p)) * (length s + 3) + (length s + 2 - lx_i st)"

definition step_ok :: "string \<Rightarrow> nat \<Rightarrow> lex_state \<Rightarrow> lex_state \<Rightarrow> bool" where
  "step_ok s p st st' \<longleftrightarrow> (\<exists>p'. lex_inv s p' st' \<and> rank_of s p' st' < rank_of s p st)"

lemma rank_less:
  fixes b b' i i' n :: nat
  assumes "b < b' \<or> b = b' \<and> i < i'" "b \<le> i" "i < n"
  shows "(n + 2 - b') * (n + 3) + (n + 2 - i') < (n + 2 - b) * (n + 3) + (n + 2 - i)"
  using assms(1)
proof
  assume "b < b'"
  then have "Suc (n + 2 - b') \<le> n + 2 - b"
    using assms by linarith
  then have "Suc (n + 2 - b') * (n + 3) \<le> (n + 2 - b) * (n + 3)"
    by (rule mult_le_mono1)
  moreover have "(n + 2 - b') * (n + 3) + (n + 2 - i') < Suc (n + 2 - b') * (n + 3)"
    by simp
  ultimately show ?thesis
    by linarith
next
  assume "b = b' \<and> i < i'"
  moreover from this have "n + 2 - i' < n + 2 - i"
    using assms(3) by linarith
  ultimately show ?thesis
    by simp
qed

lemma advance:
  assumes "lex_inv s p st" "lx_i st < length s" "lex_inv s p st'" "lx_pend st' = lx_pend st" "lx_i st < lx_i st'"
  shows "step_ok s p st st'"
proof -
  have "rank_of s p st' < rank_of s p st"
    unfolding rank_of_def assms(4)
    by (rule rank_less) (use assms in \<open>auto simp: lex_inv_def\<close>)
  then show ?thesis
    using assms(3) by (auto simp: step_ok_def)
qed

lemma copy_inv:
  assumes "lex_inv s p st" "lx_i st \<le> j"
  shows "lex_inv s p (copy_to j s st)"
  using assms weight_slice [of "lx_i st" j s] by (auto simp: lex_inv_def copy_to_def)

lemma skip_inv:
  assumes "lex_inv s p st" "lx_i st \<le> j"
  shows "lex_inv s p (skip_to j st)"
  using assms weight_take_mono [of "lx_i st" j s] by (auto simp: lex_inv_def skip_to_def)

lemma sub_items_light: "list_all (light_sub s) subs \<Longrightarrow> list_all (light_item s) (sub_items subs)"
  by (induction subs) (auto simp: sub_items_def map_filter_simps light_sub_def light_item_def split: sub.splits if_splits)

lemma flush_inv:
  assumes "lex_inv s p st"
  shows "lex_inv s p (flush dropped st)"
proof -
  have "weight (strip (lx_cur st)) \<le> weight s"
    using assms weight_strip [of "lx_cur st"] weight_take_le [of "lx_i st" s] by (simp add: lex_inv_def)
  moreover have "0 < weight (take (lx_i st) s)" if "lx_pend st \<noteq> []"
    using assms that by (auto simp: lex_inv_def)
  ultimately show ?thesis
    using assms sub_items_light by (auto simp: lex_inv_def flush_def Let_def light_item_def)
qed

lemma flush_simps [simp]:
  "lx_i (flush d st) = lx_i st" "lx_pend (flush d st) = lx_pend st" "lx_cur (flush d st) = []"
  "lx_subs (flush d st) = []"
  by (simp_all add: flush_def Let_def)

lemma moves_simps [simp]:
  "lx_i (copy_to j s st) = j" "lx_pend (copy_to j s st) = lx_pend st"
  "lx_i (skip_to j st) = j" "lx_pend (skip_to j st) = lx_pend st"
  "lx_i (add_subs bodies st) = lx_i st" "lx_pend (add_subs bodies st) = lx_pend st"
  by (simp_all add: copy_to_def skip_to_def add_subs_def)

lemma add_subs_inv: "lex_inv s p st \<Longrightarrow> light s bodies \<Longrightarrow> lex_inv s p (add_subs bodies st)"
  by (auto simp: lex_inv_def add_subs_def light_def list_all_iff light_sub_def)

lemma depth_inv [simp]:
  "lex_inv s p (st\<lparr>lx_paren := n\<rparr>) = lex_inv s p st" "lex_inv s p (st\<lparr>lx_brace := n\<rparr>) = lex_inv s p st"
  by (simp_all add: lex_inv_def)

text \<open>A substitution is replaced by a word of its weight.\<close>

lemma placeholder_inv:
  assumes "lex_inv s p st" "lx_i st < length s" "lx_i st < j"
    and "s ! lx_i st = CHR 0x60 \<or> s ! lx_i st = CHR ''$'' \<and> lx_i st + 1 < length s \<and> s ! (lx_i st + 1) = CHR ''('' \<and> lx_i st + 2 \<le> j"
  shows "lex_inv s p (skip_to j (st\<lparr>lx_cur := lx_cur st @ SUBSTITUTION_WORD\<rparr>))"
proof -
  let ?i = "lx_i st"
  have "weight SUBSTITUTION_WORD = 2"
    by (simp add: SUBSTITUTION_WORD_def char_weight_def)
  moreover have "weight (take ?i s) + 2 \<le> weight (take j s)"
    using assms(4)
  proof
    assume c: "s ! ?i = CHR 0x60"
    have "weight (take (Suc ?i) s) = weight (take ?i s) + 2"
      by (simp only: weight_take_Suc [OF assms(2)] c) (simp add: char_weight_def)
    then show ?thesis
      using weight_take_mono [of "Suc ?i" j s] assms(3) by simp
  next
    assume c: "s ! ?i = CHR ''$'' \<and> ?i + 1 < length s \<and> s ! (?i + 1) = CHR ''('' \<and> ?i + 2 \<le> j"
    have "weight (take (Suc (Suc ?i)) s) = weight (take ?i s) + 2"
      using c weight_take_Suc [OF assms(2)] weight_take_Suc [of "Suc ?i" s] by (simp add: char_weight_def)
    then show ?thesis
      using weight_take_mono [of "Suc (Suc ?i)" j s] c by simp
  qed
  ultimately show ?thesis
    using assms(1,3) by (auto simp: lex_inv_def skip_to_def)
qed

lemma run_end_ge: "i \<le> run_end P s i"
  by (simp add: run_end_def)

lemma find_char_nth: "find_char c s i = Some j \<Longrightarrow> s ! j = c"
  using nth_length_takeWhile [of "\<lambda>x. x \<noteq> c" "drop i s"]
  by (auto simp: find_char_def Let_def split: if_splits)

lemma find_str_ge: "find_str p s i = Some k \<Longrightarrow> i \<le> k"
  using find_SomeD by (fastforce simp: find_str_def)

lemma consume_here_string_bounds:
  assumes "consume_here_string s i [] = (j, bodies)" "i < length s" "s ! i = CHR ''<''"
  shows "i < j" "light s bodies"
proof -
  define hs where "hs = run_end (\<lambda>c. c \<in> {CHR '' '', CHR 0x09}) s (i + 3)"
  have hs: "i + 3 \<le> hs"
    unfolding hs_def by (rule run_end_ge)
  have less: "weight (drop a s) < weight s" "weight (slice s a b) < weight s" if "i < a" for a b
    using weight_drop_less [OF that assms(2)] weight_slice_less [OF that assms(2)] assms(3) by simp_all
  define e where "e = run_end (\<lambda>c. c \<notin> {CHR '' '', CHR 0x09, CHR 0x0A, CHR '';'', CHR ''&'', CHR ''|''}) s hs"
  have e: "hs \<le> e"
    unfolding e_def by (rule run_end_ge)
  note c = assms(1) [unfolded consume_here_string_def Let_def, folded hs_def, folded e_def]
  show "i < j" "light s bodies"
    using c hs e less find_char_bounds [of "s ! hs" s "hs + 1"] assms(2)
    by (auto split: if_splits option.splits)
qed

lemma heredoc_word_after:
  assumes "heredoc_word s i = Some (delim, after)"
  shows "i + 2 \<le> after"
proof -
  define h0 where "h0 = (if i + 2 < length s \<and> s ! (i + 2) = CHR ''-'' then i + 3 else i + 2)"
  define h where "h = run_end (\<lambda>c. c = CHR '' '') s h0"
  have "i + 2 \<le> h0"
    by (simp add: h0_def)
  then have h: "i + 2 \<le> h"
    unfolding h_def using run_end_ge by (rule order_trans)
  show ?thesis
    using assms [unfolded heredoc_word_def Let_def, folded h0_def, folded h_def] h
      find_char_bounds [of "s ! h" s "h + 1"] run_end_ge [of h "\<lambda>c. c \<notin> {CHR '' '', CHR 0x09, CHR 0x0A}" s]
    by (auto split: if_splits option.splits)
qed

lemma heredoc_body_bounds:
  assumes "heredoc_body s delim k = (b, a)" "k < length s" "s ! k = CHR 0x0A"
  shows "k < a" "weight b < weight s"
proof -
  have less: "weight (drop (k + 1) s) < weight s" "weight (slice s (k + 1) e) < weight s" for e
    using weight_drop_less [of k "k + 1" s] weight_slice_less [of k "k + 1" s] assms(2,3) by simp_all
  have "0 < weight s"
    using less(1) by simp
  then show "k < a" "weight b < weight s"
    using assms(1,2) less find_str_ge [of "CHR 0x0A # delim" s k]
    by (auto simp: heredoc_body_def Let_def split: option.splits if_splits)
qed

lemma register_heredoc_bounds:
  assumes "register_heredoc s i prev = (j, entry)"
  shows "i < j" "entry = Some (b, a) \<Longrightarrow> weight b < weight s \<and> (case prev of None \<Rightarrow> i | Some q \<Rightarrow> q) < a"
proof -
  show "i < j"
    using assms heredoc_word_after [of s i]
    by (fastforce simp: register_heredoc_def split: option.splits)
  assume e: "entry = Some (b, a)"
  obtain delim after where w: "heredoc_word s i = Some (delim, after)"
    using assms e by (cases "heredoc_word s i") (auto simp: register_heredoc_def)
  obtain k where k: "find_char (CHR 0x0A) s (case prev of None \<Rightarrow> after | Some p \<Rightarrow> p) = Some k"
      "heredoc_body s delim k = (b, a)"
    using assms e w by (auto simp: register_heredoc_def split: option.splits if_splits)
  have "(case prev of None \<Rightarrow> after | Some p \<Rightarrow> p) \<le> k" "k < length s" "s ! k = CHR 0x0A"
    using find_char_bounds [OF k(1)] find_char_nth [OF k(1)] by simp_all
  then show "weight b < weight s \<and> (case prev of None \<Rightarrow> i | Some q \<Rightarrow> q) < a"
    using heredoc_body_bounds [OF k(2)] heredoc_word_after [OF w] by (auto split: option.splits)
qed

lemma fold_max_ge: "m \<le> fold max xs m \<and> (\<forall>a \<in> set xs. a \<le> fold max xs (m :: nat))"
proof (induction xs arbitrary: m)
  case (Cons x xs)
  show ?case
    using Cons.IH [of "max x m"] by simp
qed simp

lemma release_ok:
  assumes "lex_inv s p st" "lx_pend st \<noteq> []" "lx_i st < length s"
  shows "step_ok s p st (release_heredocs st)"
proof -
  let ?st = "release_heredocs st"
  have owner: "weight (strip (lx_cur st)) < weight s"
    using assms weight_strip [of "lx_cur st"] weight_take_le [of "lx_i st" s] by (simp add: lex_inv_def)
  have bodies: "light s (filter P (map fst (lx_pend st)))" for P
    using assms(1) by (auto simp: lex_inv_def light_def)
  have inv: "lex_inv s q ?st" for q
    using flush_inv [OF assms(1), of False] owner bodies
    by (auto simp: lex_inv_def release_heredocs_def Let_def light_item_def)
  obtain b a where "(b, a) \<in> set (lx_pend st)"
    using assms(2) by (cases "lx_pend st") auto
  then have "p < lx_i ?st"
    using assms(1) fold_max_ge [of 0 "map snd (lx_pend st)"]
    by (force simp: lex_inv_def release_heredocs_def Let_def)
  then have "rank_of s p ?st < rank_of s p st"
    unfolding rank_of_def by (intro rank_less) (use assms in \<open>auto simp: lex_inv_def release_heredocs_def Let_def\<close>)
  then show ?thesis
    using inv by (auto simp: step_ok_def)
qed

lemma register_ok:
  assumes "lex_inv s p st" "lx_i st < length s" "s ! lx_i st = CHR ''<''"
    and "register_heredoc s (lx_i st) (if lx_pend st = [] then None else Some (snd (last (lx_pend st)))) = (j, entry)"
  shows "step_ok s p st ((skip_to j st)\<lparr>lx_pend := lx_pend st @ (case entry of None \<Rightarrow> [] | Some e \<Rightarrow> [e])\<rparr>)"
proof (cases entry)
  case None
  have "lx_i st < j"
    using register_heredoc_bounds(1) [OF assms(4)] .
  then show ?thesis
    using None advance [OF assms(1,2) skip_inv [OF assms(1), of j]] by (simp add: skip_to_def)
next
  case (Some e)
  obtain b a where e: "e = (b, a)"
    by (cases e)
  let ?p = "if lx_pend st = [] then lx_i st else p"
  let ?st = "(skip_to j st)\<lparr>lx_pend := lx_pend st @ [(b, a)]\<rparr>"
  have j: "lx_i st < j"
    using register_heredoc_bounds(1) [OF assms(4)] .
  have "weight (take (Suc (lx_i st)) s) = weight (take (lx_i st) s) + 1"
    by (simp only: weight_take_Suc [OF assms(2)] assms(3)) (simp add: char_weight_def)
  then have w: "weight (lx_cur st) + 1 \<le> weight (take j s)"
    using weight_take_mono [of "Suc (lx_i st)" j s] j assms(1) by (simp add: lex_inv_def split: if_splits)
  have "snd (last (lx_pend st)) > p" if "lx_pend st \<noteq> []"
    using assms(1) last_in_set [OF that] by (cases "last (lx_pend st)") (auto simp: lex_inv_def)
  then have "weight b < weight s" "?p < a"
    using register_heredoc_bounds(2) [OF assms(4), of b a] Some e by (auto split: if_splits)
  then have "lex_inv s ?p ?st"
    using assms(1) w j by (auto simp: lex_inv_def skip_to_def split: if_splits)
  moreover have "rank_of s ?p ?st < rank_of s p st"
    unfolding rank_of_def by (intro rank_less) (use j assms in \<open>auto simp: lex_inv_def\<close>)
  ultimately show ?thesis
    using Some e by (auto simp: step_ok_def)
qed

text \<open>Every branch of the step keeps the invariant and makes progress.\<close>

lemma if_step: "(c \<Longrightarrow> step_ok s p st x) \<Longrightarrow> (\<not> c \<Longrightarrow> step_ok s p st y) \<Longrightarrow> step_ok s p st (if c then x else y)"
  by simp

lemma lex_step_ok:
  assumes inv: "lex_inv s p st" and i: "lx_i st < length s"
  shows "step_ok s p st (lex_step s st)"
proof -
  have copy: "step_ok s p st (copy_to j s st)" if "lx_i st < j" for j
    by (rule advance [OF inv i copy_inv [OF inv]]) (use that in simp_all)
  have skip: "step_ok s p st (skip_to j st)" if "lx_i st < j" for j
    by (rule advance [OF inv i skip_inv [OF inv]]) (use that in simp_all)
  have copy_add: "step_ok s p st (add_subs bodies (copy_to j s st))" if "lx_i st < j" "light s bodies" for j bodies
    by (rule advance [OF inv i add_subs_inv [OF copy_inv [OF inv]]]) (use that in simp_all)
  have skip_add: "step_ok s p st (add_subs bodies (skip_to j st))" if "lx_i st < j" "light s bodies" for j bodies
    by (rule advance [OF inv i add_subs_inv [OF skip_inv [OF inv]]]) (use that in simp_all)
  have flushed: "step_ok s p st (skip_to j st')"
    if "lex_inv s p st'" "lx_i st < j" "lx_i st' = lx_i st" "lx_pend st' = lx_pend st" for j st'
    by (rule advance [OF inv i skip_inv [OF that(1)]]) (use that in simp_all)
  have place: "step_ok s p st (add_subs bodies (skip_to j (st\<lparr>lx_cur := lx_cur st @ SUBSTITUTION_WORD\<rparr>)))"
    if "lx_i st < j" "light s bodies"
      "s ! lx_i st = CHR 0x60 \<or> s ! lx_i st = CHR ''$'' \<and> lx_i st + 1 < length s
         \<and> s ! (lx_i st + 1) = CHR ''('' \<and> lx_i st + 2 \<le> j" for j bodies
    by (rule advance [OF inv i add_subs_inv [OF placeholder_inv [OF inv i that(1,3)]]]) (use that in simp_all)
  show ?thesis
    unfolding lex_step_def Let_def
  proof (intro if_step)
    assume "s ! lx_i st = CHR 0x27"
    show "step_ok s p st (copy_to (skip_single_quoted s (lx_i st)) s st)"
      by (rule copy) (use skip_single_quoted_bounds [OF i] in simp)
  next
    show "step_ok s p st (copy_to (skip_ansi_c_quoted s (lx_i st)) s st)"
      by (rule copy) (simp add: skip_ansi_c_quoted_def)
  next
    show "step_ok s p st (case skip_double_quoted s (lx_i st) [] of (j, bodies) \<Rightarrow> add_subs bodies (copy_to j s st))"
      using skip_double_quoted_bounds [OF _ i] copy_add by (auto split: prod.split)
  next
    show "step_ok s p st (copy_to (lx_i st + 2) s st)"
      by (rule copy) simp
  next
    assume c: "s ! lx_i st = CHR ''$'' \<and> lx_i st + 1 < length s \<and> s ! (lx_i st + 1) = CHR ''(''"
    obtain j bodies where t: "take_command_substitution s (lx_i st) [] = (j, bodies)"
      by (cases "take_command_substitution s (lx_i st) []")
    have "lx_i st + 2 \<le> j" "light s bodies"
      using t c i matching_close_bounds [of "lx_i st + 1" s] command_subs_light [OF i, of "[]"]
      by (auto simp: take_command_substitution_def Let_def)
    then show "step_ok s p st (case take_command_substitution s (lx_i st) [] of (j, bodies) \<Rightarrow>
        if starts_at ''$(('' s (lx_i st) then add_subs bodies (copy_to j s st)
        else add_subs bodies (skip_to j (st\<lparr>lx_cur := lx_cur st @ SUBSTITUTION_WORD\<rparr>)))"
      using t c copy_add place by auto
  next
    assume c: "s ! lx_i st = CHR ''$'' \<and> lx_i st + 1 < length s \<and> s ! (lx_i st + 1) = CHR ''{''"
    obtain j bodies where t: "skip_parameter_expansion s (lx_i st) [] = (j, bodies)"
      by (cases "skip_parameter_expansion s (lx_i st) []")
    have "lx_i st < j" "light s bodies"
      using t c i matching_close_bounds(1) [of "lx_i st + 1" s "CHR ''{''" "CHR ''}''"] parameter_subs_light [OF i, of "[]"]
      by (auto simp: skip_parameter_expansion_def Let_def)
    then show "step_ok s p st (case skip_parameter_expansion s (lx_i st) [] of (j, bodies) \<Rightarrow> add_subs bodies (copy_to j s st))"
      using t copy_add by simp
  next
    let ?e = "min (matching_close s (lx_i st + 1) (CHR ''('') (CHR '')'') + 2) (length s)"
    let ?span = "slice s (lx_i st) ?e"
    assume c: "s ! lx_i st = CHR ''('' \<and> lx_i st + 1 < length s \<and> s ! (lx_i st + 1) = CHR ''(''"
    have e: "lx_i st < ?e"
      using matching_close_bounds [of "lx_i st + 1" s "CHR ''(''" "CHR '')''"] c by linarith
    then show "step_ok s p st (copy_to ?e s st)"
      by (rule copy)
    have "weight (slice ?span 2 (length ?span - 2)) < weight s"
      by (rule le_less_trans [OF weight_inner_slice]) (rule weight_drop_less [of "lx_i st"], use c i in simp_all)
    then have "lex_inv s p ((copy_to ?e s st)\<lparr>lx_subs := lx_subs (copy_to ?e s st) @ [Twice (slice ?span 2 (length ?span - 2))]\<rparr>)"
      using copy_inv [OF inv, of ?e] e by (auto simp: lex_inv_def light_sub_def)
    then show "step_ok s p st ((copy_to ?e s st)\<lparr>lx_subs := lx_subs (copy_to ?e s st) @ [Twice (slice ?span 2 (length ?span - 2))]\<rparr>)"
      by (rule advance [OF inv i]) (use e in simp_all)
  next
    assume c: "s ! lx_i st = CHR 0x60"
    obtain j bodies where t: "take_backtick_substitution s (lx_i st) [] = (j, bodies)"
      by (cases "take_backtick_substitution s (lx_i st) []")
    then show "step_ok s p st (case take_backtick_substitution s (lx_i st) [] of (j, bodies) \<Rightarrow>
        add_subs bodies (skip_to j (st\<lparr>lx_cur := lx_cur st @ SUBSTITUTION_WORD\<rparr>)))"
      using backtick_bounds [OF t i c] place c by simp
  next
    assume c: "s ! lx_i st = CHR ''#'' \<and> (lx_i st = 0 \<or> s ! (lx_i st - 1) \<in> set WORD_BREAK)"
    have "lx_i st < j" if "find_char (CHR 0x0A) s (lx_i st) = Some j" for j
      using find_char_bounds [OF that] find_char_nth [OF that] c by (cases "j = lx_i st") auto
    then show "step_ok s p st (skip_to (case find_char (CHR 0x0A) s (lx_i st) of None \<Rightarrow> length s | Some j \<Rightarrow> j) st)"
      by (intro skip) (use i in \<open>simp split: option.split\<close>)
  next
    assume c: "s ! lx_i st = CHR ''<'' \<and> lx_i st + 1 < length s \<and> s ! (lx_i st + 1) = CHR ''<''"
    show "step_ok s p st (case consume_here_string s (lx_i st) [] of (j, bodies) \<Rightarrow> add_subs bodies (skip_to j st))"
      using consume_here_string_bounds [OF _ i] c skip_add by (auto split: prod.split)
    show "step_ok s p st (case register_heredoc s (lx_i st) (if lx_pend st = [] then None else Some (snd (last (lx_pend st)))) of
        (j, entry) \<Rightarrow> (skip_to j st)\<lparr>lx_pend := lx_pend st @ (case entry of None \<Rightarrow> [] | Some e \<Rightarrow> [e])\<rparr>)"
      using register_ok [OF inv i] c by (auto split: prod.split)
  next
    show "step_ok s p st (copy_to (lx_i st + 2) s st)" "step_ok s p st (copy_to (lx_i st + 1) s st)"
      by (rule copy; simp)+
  next
    assume "lx_pend st \<noteq> []"
    then show "step_ok s p st (release_heredocs st)"
      by (rule release_ok [OF inv _ i])
  next
    show "step_ok s p st (skip_to (lx_i st + 1) (flush False st))"
      by (rule flushed) (simp_all add: flush_inv inv)
  next
    show "step_ok s p st (skip_to (if lx_i st + 1 < length s \<and> s ! (lx_i st + 1) = CHR '';'' then lx_i st + 2 else lx_i st + 1) (flush False st))"
      "step_ok s p st (skip_to (if lx_i st + 1 < length s \<and> s ! (lx_i st + 1) = CHR ''&'' then lx_i st + 2 else lx_i st + 1) (flush False st))"
      "step_ok s p st (skip_to (if lx_i st + 1 < length s \<and> s ! (lx_i st + 1) = CHR ''|'' \<or>
          lx_i st + 1 < length s \<and> s ! (lx_i st + 1) = CHR ''&'' then lx_i st + 2 else lx_i st + 1) (flush False st))"
      by (rule flushed; simp add: flush_inv inv)+
  next
    show "step_ok s p st (skip_to (lx_i st + 1) ((flush False st)\<lparr>lx_paren := n\<rparr>))" for n
      by (rule flushed) (simp_all add: flush_inv inv)
    show "step_ok s p st (skip_to (lx_i st + 1) ((flush False st)\<lparr>lx_brace := n\<rparr>))" for n
      by (rule flushed) (simp_all add: flush_inv inv)
    show "step_ok s p st (skip_to (lx_i st + 1) (if 0 < lx_paren st then (flush False st)\<lparr>lx_paren := lx_paren st - 1\<rparr>
        else flush (0 < lx_case st) st))"
      by (rule flushed) (simp_all add: flush_inv inv)
  qed ((rule copy, simp) | (rule flushed; simp add: flush_inv inv))+
qed

lemma lex_loop_enough:
  assumes "lex_inv s p st" "rank_of s p st < f"
  shows "\<exists>p' st'. lex_loop f s st = Some st' \<and> lex_inv s p' st'"
  using assms
proof (induction f arbitrary: p st)
  case 0
  then show ?case by simp
next
  case (Suc f)
  show ?case
  proof (cases "lx_i st < length s")
    case True
    then obtain p' where "lex_inv s p' (lex_step s st)" "rank_of s p' (lex_step s st) < rank_of s p st"
      using lex_step_ok [OF Suc.prems(1)] by (auto simp: step_ok_def)
    then show ?thesis
      using Suc.IH [of p' "lex_step s st"] Suc.prems(2) True by simp
  next
    case False
    then show ?thesis
      using Suc.prems(1) by auto
  qed
qed

lemma light_lex: "list_all (light_item s) (lex s)"
proof -
  have "lex_inv s 0 lex_init"
    by (simp add: lex_inv_def lex_init_def)
  moreover have "rank_of s 0 lex_init < lex_fuel s"
    by (simp add: rank_of_def lex_fuel_def lex_init_def algebra_simps)
  ultimately obtain p st where st: "lex_loop (lex_fuel s) s lex_init = Some st" "lex_inv s p st"
    using lex_loop_enough by blast
  have "weight (lx_cur st) < weight s" if "lx_pend st \<noteq> []"
    using st(2) that weight_take_le [of "lx_i st" s] by (simp add: lex_inv_def)
  then have "list_all (light_item s) (lex_end st)"
    using flush_inv [OF st(2), of False] st(2) weight_strip [of "lx_cur st"]
    by (auto simp: lex_end_def lex_inv_def release_heredocs_def Let_def light_item_def light_def)
  then show ?thesis
    by (simp add: lex_def st(1))
qed

section \<open>Tokens\<close>

text \<open>A list of tokens with a separator for each.\<close>

definition tokens_weight :: "string list \<Rightarrow> nat" where
  "tokens_weight ts = sum_list (map (\<lambda>t. weight t + 1) ts)"

lemma tokens_weight_simps [simp]: "tokens_weight [] = 0" "tokens_weight (t # ts) = weight t + 1 + tokens_weight ts"
  by (simp_all add: tokens_weight_def)

lemma tokens_weight_mem: "t \<in> set ts \<Longrightarrow> weight t + 1 \<le> tokens_weight ts"
  by (induction ts) auto

lemma tokens_weight_drop: "tokens_weight (drop n ts) \<le> tokens_weight ts"
  by (induction ts arbitrary: n) (auto simp: drop_Cons split: nat.split intro: le_SucI trans_le_add2)

lemma tokens_weight_tl: "tokens_weight (tl ts) \<le> tokens_weight ts"
  by (cases ts) auto

lemma tokens_weight_dropWhile: "tokens_weight (dropWhile P ts) \<le> tokens_weight ts"
  by (induction ts) auto

lemma weight_join: "ts \<noteq> [] \<Longrightarrow> weight (join '' '' ts) + 1 = tokens_weight ts"
  by (induction "'' ''" ts rule: join.induct) (simp_all add: char_weight_def)

definition weight_before :: "shlex_mode \<Rightarrow> string \<Rightarrow> nat" where
  "weight_before mode tok = (case mode of Between \<Rightarrow> 0 | Word \<Rightarrow> weight tok | Quoted d \<Rightarrow> weight tok | Escaped d \<Rightarrow> weight tok + 1)"

lemma shlex_weight:
  "shlex mode tok quoted cs = Some ts \<Longrightarrow> tokens_weight ts \<le> weight_before mode tok + weight cs + 1"
proof (induction mode tok quoted cs arbitrary: ts rule: shlex.induct)
  case (5 tok quoted c cs)
  consider (blank) "c \<in> {CHR '' '', CHR 0x09, CHR 0x0D, CHR 0x0A}"
    | (escape) "c = CHR 0x5C"
    | (quote) "c \<in> {CHR 0x27, CHR 0x22}"
    | (other) "c \<notin> {CHR '' '', CHR 0x09, CHR 0x0D, CHR 0x0A}" "c \<noteq> CHR 0x5C" "c \<notin> {CHR 0x27, CHR 0x22}"
    by blast
  then show ?case
  proof cases
    case blank
    then show ?thesis using 5(1) [OF blank] 5(5) by (auto simp: weight_before_def)
  next
    case escape
    then show ?thesis using 5(2) 5(5) by (auto simp: weight_before_def char_weight_def)
  next
    case quote
    then show ?thesis using 5(3) [of ts] 5(5) by (auto simp: weight_before_def char_weight_def)
  next
    case other
    then show ?thesis using 5(4) [of ts] 5(5) by (auto simp: weight_before_def)
  qed
next
  case (6 tok quoted c cs)
  consider (blank) "c \<in> {CHR '' '', CHR 0x09, CHR 0x0D, CHR 0x0A}"
    | (escape) "c = CHR 0x5C"
    | (quote) "c \<in> {CHR 0x27, CHR 0x22}"
    | (other) "c \<notin> {CHR '' '', CHR 0x09, CHR 0x0D, CHR 0x0A}" "c \<noteq> CHR 0x5C" "c \<notin> {CHR 0x27, CHR 0x22}"
    by blast
  then show ?case
  proof cases
    case blank
    have one: "char_weight c = 1"
      using blank by (auto simp: char_weight_def)
    show ?thesis
    proof (cases "tok \<noteq> [] \<or> quoted")
      case True
      then obtain us where us: "shlex Between [] False cs = Some us" "ts = tok # us"
        using 6(6) blank by auto
      then show ?thesis
        using 6(1) [OF blank True us(1)] one by (simp add: weight_before_def)
    next
      case False
      then show ?thesis
        using 6(2) [OF blank False] 6(6) blank one by (auto simp: weight_before_def)
    qed
  next
    case escape
    then show ?thesis using 6(3) 6(6) by (auto simp: weight_before_def char_weight_def)
  next
    case quote
    then show ?thesis using 6(4) [of ts] 6(6) by (auto simp: weight_before_def char_weight_def)
  next
    case other
    then show ?thesis using 6(5) [of ts] 6(6) by (auto simp: weight_before_def)
  qed
next
  case (7 d tok quoted c cs)
  then show ?case
    by (cases "c = d"; cases "c = CHR 0x5C \<and> d = CHR 0x22") (auto simp: weight_before_def char_weight_def)
next
  case (9 d tok quoted c cs)
  show ?case
    using 9(1) [of ts] 9(2)
    by (cases "c \<noteq> CHR 0x5C \<and> c \<noteq> d") (simp_all add: weight_before_def char_weight_def)
qed (auto simp: weight_before_def)

lemma ansi_c_text_weight: "weight (fst (ansi_c_text s)) + weight (snd (ansi_c_text s)) \<le> weight s"
proof (induction s rule: ansi_c_text.induct)
  case (2 c cs)
  show ?case
  proof (cases "c = CHR 0x27")
    case False
    show ?thesis
    proof (cases "c = CHR 0x5C \<and> cs \<noteq> []")
      case True
      have "char_weight (hd cs) + weight (tl cs) = weight cs"
        using True by (cases cs) simp_all
      then show ?thesis
        using 2(1) [OF False True] True False by (cases "ansi_c_text (tl cs)") simp
    qed (use 2(2) False in \<open>auto split: prod.split\<close>)
  qed simp
qed simp

lemma weight_takeWhile_drop: "weight (takeWhile P s) + weight (drop (Suc (length (takeWhile P s))) s) \<le> weight s"
proof -
  have "weight (drop (Suc (length (takeWhile P s))) s) \<le> weight (dropWhile P s)"
    by (induction s) auto
  moreover have "weight (takeWhile P s) + weight (dropWhile P s) = weight s"
    by (metis takeWhile_dropWhile_id weight_simps(3))
  ultimately show ?thesis
    by simp
qed

lemma weight_strip_quotes: "weight (strip_quotes_and_escapes s) \<le> weight s"
proof (induction s rule: strip_quotes_and_escapes.induct)
  case (2 c cs)
  consider (escape) "c = CHR 0x5C \<and> cs \<noteq> []"
    | (quote) "\<not> (c = CHR 0x5C \<and> cs \<noteq> [])" "c \<in> {CHR 0x27, CHR 0x22}"
    | (ansi) "\<not> (c = CHR 0x5C \<and> cs \<noteq> [])" "c \<notin> {CHR 0x27, CHR 0x22}" "c = CHR ''$'' \<and> cs \<noteq> [] \<and> hd cs = CHR 0x27"
    | (plain) "\<not> (c = CHR 0x5C \<and> cs \<noteq> [])" "c \<notin> {CHR 0x27, CHR 0x22}" "\<not> (c = CHR ''$'' \<and> cs \<noteq> [] \<and> hd cs = CHR 0x27)"
    by blast
  then show ?case
  proof cases
    case escape
    have "char_weight (hd cs) + weight (tl cs) = weight cs"
      using escape by (cases cs) simp_all
    then show ?thesis
      using 2(1) [OF escape] escape by simp
  next
    case quote
    have "weight (strip_quotes_and_escapes (drop (Suc (length (takeWhile (\<lambda>x. x \<noteq> c) cs))) cs))
        \<le> weight (drop (Suc (length (takeWhile (\<lambda>x. x \<noteq> c) cs))) cs)"
      using 2(2) [OF quote refl] by simp
    moreover have "strip_quotes_and_escapes (c # cs) = takeWhile (\<lambda>x. x \<noteq> c) cs
        @ strip_quotes_and_escapes (drop (Suc (length (takeWhile (\<lambda>x. x \<noteq> c) cs))) cs)"
      by (subst strip_quotes_and_escapes.simps) (use quote in \<open>auto simp: Let_def simp del: strip_quotes_and_escapes.simps\<close>)
    ultimately show ?thesis
      using weight_takeWhile_drop [of "\<lambda>x. x \<noteq> c" cs] by simp
  next
    case ansi
    have "weight (tl cs) \<le> weight cs"
      by (cases cs) simp_all
    then show ?thesis
      using 2(3) [OF ansi] ansi ansi_c_text_weight [of "tl cs"] by simp
  next
    case plain
    have "strip_quotes_and_escapes (c # cs) = c # strip_quotes_and_escapes cs"
      by (subst strip_quotes_and_escapes.simps) (use plain in \<open>auto simp del: strip_quotes_and_escapes.simps\<close>)
    then show ?thesis
      using 2(4) [OF plain] by simp
  qed
qed simp

lemma words_from_weight: "tokens_weight (words_from w cs) \<le> weight w + weight cs + 1"
proof (induction w cs rule: words_from.induct)
  case (2 w c cs)
  then show ?case
    by (cases "is_space c") (auto simp: char_weight_space)
qed simp

lemma tokenize_weight: "tokens_weight (tokenize_simple s) \<le> weight s + 1"
proof (cases "shlex_split s")
  case None
  have "tokens_weight (map strip_quotes_and_escapes ts) \<le> tokens_weight ts" for ts
    using weight_strip_quotes by (induction ts) (auto intro: add_mono)
  then have "tokens_weight (tokenize_simple s) \<le> tokens_weight (words_from [] s)"
    using None by (simp add: tokenize_simple_def)
  then show ?thesis
    using words_from_weight [of "[]" s] by simp
next
  case (Some ts)
  then show ?thesis
    using shlex_weight [of Between "[]" False s ts] by (simp add: tokenize_simple_def shlex_split_def weight_before_def)
qed

section \<open>Statements and commands\<close>

lemma strip_redirections_weight: "tokens_weight (strip_redirections ts) \<le> tokens_weight ts"
proof (induction ts rule: strip_redirections.induct)
  case (2 t ts)
  then show ?case
    using tokens_weight_tl [of ts] by (auto split: option.split)
qed simp

lemma wrapper_flags_weight: "tokens_weight (wrapper_flags cmd ts) \<le> tokens_weight ts"
proof (induction cmd ts rule: wrapper_flags.induct)
  case (2 cmd t ts)
  then show ?case
    using tokens_weight_tl [of ts] by auto
qed simp

lemma drop_if_weight: "tokens_weight (drop_if P ts) \<le> tokens_weight ts"
  by (simp add: drop_if_def split: list.split)

lemma command_flags_weight:
  "command_flags ts = Again us \<Longrightarrow> tokens_weight us \<le> tokens_weight ts" "command_flags ts \<noteq> Reparse s"
  by (induction ts rule: command_flags.induct) (auto split: if_splits)

definition fits :: "nat \<Rightarrow> action \<Rightarrow> bool" where
  "fits n act \<longleftrightarrow> (case act of Done bs \<Rightarrow> True | Again us \<Rightarrow> tokens_weight us \<le> n | Reparse s \<Rightarrow> weight s + 1 \<le> n)"

lemma fits_mono: "fits m act \<Longrightarrow> m \<le> n \<Longrightarrow> fits n act"
  by (auto simp: fits_def split: action.splits)

lemma fits_if: "(c \<Longrightarrow> fits n x) \<Longrightarrow> (\<not> c \<Longrightarrow> fits n y) \<Longrightarrow> fits n (if c then x else y)"
  by simp

lemma env_flags_fits: "fits (tokens_weight ts) (env_flags ts)"
proof (induction ts rule: length_induct)
  case (1 ts)
  show ?case
  proof (cases ts)
    case (Cons t r)
    have tl: "fits (tokens_weight ts) (env_flags (tl r))"
      by (rule fits_mono [OF 1 [rule_format]]) (use Cons tokens_weight_tl [of r] in auto)
    have r: "fits (tokens_weight ts) (env_flags r)"
      by (rule fits_mono [OF 1 [rule_format]]) (use Cons in auto)
    have "weight (drop 2 t) \<le> weight t"
      using weight_take [of 2 t] by simp
    then have d: "fits (tokens_weight ts) (Reparse (drop 2 t))"
      using Cons by (simp add: fits_def)
    have h: "fits (tokens_weight ts) (Reparse (hd r))" if "r \<noteq> []"
      using Cons that by (cases r) (simp_all add: fits_def)
    have a: "fits (tokens_weight ts) (Again (t # r))"
      using Cons by (simp add: fits_def)
    show ?thesis
      unfolding Cons env_flags.simps(2) by (intro fits_if) (use tl r d h a Cons in auto)
  qed (simp add: fits_def)
qed

lemma env_flags_weight:
  "(env_flags ts = Again us \<longrightarrow> tokens_weight us \<le> tokens_weight ts)
   \<and> (env_flags ts = Reparse s \<longrightarrow> weight s + 1 \<le> tokens_weight ts)"
  using env_flags_fits [of ts] by (auto simp: fits_def)

lemma shell_flags_weight: "shell_flags ts = Reparse s \<Longrightarrow> weight s + 1 \<le> tokens_weight ts"
proof (induction ts rule: shell_flags.induct)
  case (2 t ts)
  then show ?case
    using tokens_weight_tl [of ts] by (auto split: if_splits list.splits)
qed simp

lemma wrapper_action_weight:
  "(wrapper_action cmd ts = Again us \<longrightarrow> tokens_weight us \<le> tokens_weight ts)
   \<and> (wrapper_action cmd ts = Reparse s \<longrightarrow> weight s + 1 \<le> tokens_weight ts)"
proof -
  define ts0 where "ts0 = (if cmd = ''coproc'' then drop_if is_name ts else ts)"
  define ts1 where "ts1 = wrapper_flags cmd ts0"
  have "tokens_weight ts0 \<le> tokens_weight ts"
    by (simp add: ts0_def drop_if_weight)
  with wrapper_flags_weight have le: "tokens_weight ts1 \<le> tokens_weight ts"
    unfolding ts1_def by (rule order_trans)
  note act = wrapper_action_def [of cmd ts, unfolded Let_def, folded ts0_def, folded ts1_def]
  have "us \<in> {ts1, drop_if digit_first ts1, drop_if (\<lambda>_. True) ts1}" if "wrapper_action cmd ts = Again us"
    using that unfolding act by (auto split: if_splits list.splits)
  moreover have "ts \<noteq> [] \<and> s = join '' '' ts \<or> s \<in> set ts" if "wrapper_action cmd ts = Reparse s"
  proof -
    have "t \<in> set ts" if "dropWhile (starts_with ''-'') ts = t # r" for t r
      using that set_dropWhileD by (metis list.set_intros(1))
    then show ?thesis
      using that unfolding act by (auto split: if_splits list.splits)
  qed
  ultimately show ?thesis
    using le drop_if_weight [of _ ts1] weight_join [of ts] tokens_weight_mem [of s ts] by (fastforce intro: order_trans)
qed

lemma extract_command_weight:
  "extract_command tokens = Again us \<Longrightarrow> tokens_weight us \<le> tokens_weight tokens"
  "extract_command tokens = Reparse s \<Longrightarrow> weight s + 2 \<le> tokens_weight tokens"
proof -
  let ?ts = "if tokens \<noteq> [] \<and> hd tokens = ''!'' then tl tokens else tokens"
  have le: "tokens_weight ?ts \<le> tokens_weight tokens"
    by (simp add: tokens_weight_tl)
  have body: "(extract_command tokens = Again us \<longrightarrow> tokens_weight us \<le> tokens_weight ?ts)
      \<and> (extract_command tokens = Reparse s \<longrightarrow> weight s + 2 \<le> tokens_weight ?ts)"
  proof (cases ?ts)
    case Nil
    then show ?thesis
      by (simp only: extract_command_def list.case action.distinct action.inject) simp
  next
    case (Cons raw ts)
    define cmd where "cmd = strip_path (strip_quotes_and_escapes raw)"
    have "extract_command tokens = Again ts \<or> extract_command tokens = command_flags ts
        \<or> extract_command tokens = env_flags ts \<or> extract_command tokens = shell_flags ts
        \<or> extract_command tokens = wrapper_action cmd ts \<or> (\<exists>bs. extract_command tokens = Done bs)"
      unfolding extract_command_def Cons by (simp only: list.case Let_def cmd_def [symmetric] split: if_split) blast
    then have "(extract_command tokens = Again us \<longrightarrow> tokens_weight us \<le> tokens_weight ts)
        \<and> (extract_command tokens = Reparse s \<longrightarrow> weight s + 1 \<le> tokens_weight ts)"
      using command_flags_weight [of ts] env_flags_weight [of ts us s] shell_flags_weight [of ts s]
        shell_flags_Again [of ts us] wrapper_action_weight [of cmd ts us s]
      by (elim disjE exE) simp_all
    then show ?thesis
      unfolding Cons by auto
  qed
  show "extract_command tokens = Again us \<Longrightarrow> tokens_weight us \<le> tokens_weight tokens"
    "extract_command tokens = Reparse s \<Longrightarrow> weight s + 2 \<le> tokens_weight tokens"
    using body le by linarith+
qed

lemma from_statement_total:
  assumes "\<And>s. weight s + 2 \<le> tokens_weight tokens \<Longrightarrow> ex s \<noteq> None"
  shows "from_statement ex tokens \<noteq> None"
  using assms
proof (induction ex tokens rule: from_statement.induct)
  case (1 ex tokens)
  define ts where "ts = strip_redirections tokens"
  define rest where "rest = dropWhile is_assignment ts"
  have le: "tokens_weight rest \<le> tokens_weight tokens"
    unfolding rest_def ts_def using tokens_weight_dropWhile strip_redirections_weight by (rule order_trans)
  show ?case
  proof (cases "ts = []")
    case False
    have "(case extract_command rest of Done bs \<Rightarrow> Some bs | Again us \<Rightarrow> from_statement ex us | Reparse s \<Rightarrow> ex s) \<noteq> None"
    proof (cases "extract_command rest")
      case (Again us)
      have "from_statement ex us \<noteq> None"
        using 1(1) [OF ts_def rest_def False Again] 1(2) extract_command_weight(1) [OF Again] le
        by (meson order_trans)
      then show ?thesis using Again by simp
    next
      case (Reparse s)
      then show ?thesis
        using 1(2) [of s] extract_command_weight(2) [OF Reparse] le by simp
    qed simp
    then show ?thesis
      using False by (subst from_statement.simps) (simp add: ts_def [symmetric] rest_def [symmetric] Let_def)
  qed (simp add: from_statement.simps [of ex tokens] ts_def [symmetric] Let_def)
qed

section \<open>Braces\<close>

lemma find_brace_split:
  "find_brace s = Some (pre, inner, post) \<Longrightarrow> s = pre @ CHR ''{'' # inner @ CHR ''}'' # post"
proof (induction s arbitrary: pre)
  case (Cons c cs)
  define inn where "inn = takeWhile (\<lambda>x. x \<notin> {CHR ''{'', CHR ''}''}) cs"
  define rest where "rest = drop (length inn) cs"
  have cs: "cs = inn @ rest"
    unfolding rest_def inn_def by (metis append_take_drop_id takeWhile_eq_take)
  note f = Cons.prems [unfolded find_brace.simps Let_def, folded inn_def, folded rest_def]
  show ?case
  proof (cases "c = CHR ''{'' \<and> rest \<noteq> [] \<and> hd rest = CHR ''}'' \<and> CHR '','' \<in> set inn")
    case True
    then show ?thesis
      using f cs by (cases rest) auto
  next
    case False
    then show ?thesis
      using f Cons.IH by auto
  qed
qed simp

lemma split_char_weight: "char_weight d = 1 \<Longrightarrow> tokens_weight (split_char d s) = weight s + 1 \<and> split_char d s \<noteq> []"
  by (induction s) (auto split: list.splits)

lemma expand_braces_weight: "weight (expand_braces n s) \<le> weight s"
proof (induction n arbitrary: s)
  case (Suc n)
  show ?case
  proof (cases "find_brace s")
    case (Some b)
    obtain pre inner post where b: "b = (pre, inner, post)"
      by (cases b)
    define parts where "parts = filter (\<lambda>p. p \<noteq> []) (split_char (CHR '','') inner)"
    have "tokens_weight parts \<le> weight inner + 1"
    proof -
      have "tokens_weight (filter P ts) \<le> tokens_weight ts" for P and ts :: "string list"
        by (induction ts) auto
      from this [of "\<lambda>p. p \<noteq> []" "split_char (CHR '','') inner"] show ?thesis
        using split_char_weight [of "CHR '',''" inner] by (simp add: parts_def char_weight_def)
    qed
    then have "weight (join '' '' parts) \<le> weight inner"
      using weight_join [of parts] by (cases "parts = []") simp_all
    then have "weight (pre @ join '' '' parts @ post) \<le> weight s"
      using find_brace_split [of s pre inner post] Some b by simp
    then show ?thesis
      using Suc [of "pre @ join '' '' parts @ post"] Some b by (simp add: parts_def)
  qed simp
qed simp

section \<open>The parser returns\<close>

definition returns :: "(query \<Rightarrow> string \<Rightarrow> string list option) \<Rightarrow> query \<Rightarrow> string \<Rightarrow> bool" where
  "returns ask q s \<longleftrightarrow> (\<exists>ts. ask q s = Some ts \<and> (q = Statements \<longrightarrow> (\<forall>t \<in> set ts. weight t \<le> weight s)))"

lemma concat_map_Some:
  assumes "\<And>x. x \<in> set xs \<Longrightarrow> \<exists>ys. f x = Some ys \<and> (\<forall>y \<in> set ys. P y)"
  shows "\<exists>zs. concat_map f xs = Some zs \<and> (\<forall>z \<in> set zs. P z)"
  using assms
proof (induction xs)
  case (Cons x xs)
  then obtain ys zs where "f x = Some ys" "\<forall>y \<in> set ys. P y" "concat_map f xs = Some zs" "\<forall>z \<in> set zs. P z"
    by (metis list.set_intros)
  then show ?case by auto
qed simp

lemma expand_item_returns:
  assumes "light_item s x" and ask: "\<And>b q. weight b < weight s \<Longrightarrow> returns ask q b"
  shows "\<exists>ts. expand_item ask x = Some ts \<and> (\<forall>t \<in> set ts. weight t \<le> weight s)"
proof -
  have one: "\<exists>ts. ask Statements b = Some ts \<and> (\<forall>t \<in> set ts. weight t < weight s)" if "weight b < weight s" for b
    using ask [OF that, of Statements] that unfolding returns_def by (metis order_le_less_trans)
  have all: "\<exists>ts. concat_map (ask Statements) bs = Some ts \<and> (\<forall>t \<in> set ts. weight t \<le> weight s)"
    if "\<forall>b \<in> set bs. weight b < weight s" for bs
  proof (rule concat_map_Some)
    fix b
    assume "b \<in> set bs"
    then have "weight b < weight s"
      using that by blast
    from one [OF this] show "\<exists>ts. ask Statements b = Some ts \<and> (\<forall>t \<in> set ts. weight t \<le> weight s)"
      by (auto intro: less_imp_le)
  qed
  show ?thesis
  proof (cases x)
    case (Stmt t)
    then show ?thesis using assms(1) by (simp add: expand_item_def light_item_def)
  next
    case (Nested b)
    then show ?thesis
      using one [of b] assms(1) less_imp_le by (auto simp: expand_item_def light_item_def)
  next
    case (Regroup b)
    then obtain ts where "ask Statements b = Some ts" "\<forall>t \<in> set ts. weight t < weight s"
      using one [of b] assms(1) by (auto simp: light_item_def)
    then show ?thesis
      using all [of ts] Regroup by (simp add: expand_item_def)
  next
    case (Heredoc owner bodies)
    then have "\<forall>b \<in> set bodies. weight b < weight s" "weight owner < weight s"
      using assms(1) by (auto simp: light_item_def light_def)
    then show ?thesis
      using all [of bodies] ask [of owner Binaries] Heredoc by (auto simp: expand_item_def returns_def)
  qed
qed

definition need :: "query \<Rightarrow> string \<Rightarrow> nat" where
  "need q s = 2 * weight s + (case q of Statements \<Rightarrow> 1 | Binaries \<Rightarrow> 2)"

lemma answer_returns: "need q s \<le> f \<Longrightarrow> returns (answer f) q s"
proof (induction f arbitrary: q s)
  case 0
  then show ?case by (cases q) (simp_all add: need_def)
next
  case (Suc f)
  show ?case
  proof (cases q)
    case Statements
    have ask: "returns (answer f) q b" if "weight b < weight s" for b q
      by (rule Suc.IH) (use that Suc.prems Statements in \<open>cases q; simp add: need_def\<close>)
    have "\<exists>ts. concat_map (expand_item (answer f)) (lex s) = Some ts \<and> (\<forall>t \<in> set ts. weight t \<le> weight s)"
    proof (rule concat_map_Some)
      fix x
      assume "x \<in> set (lex s)"
      then have "light_item s x"
        using light_lex [of s] by (simp add: list_all_iff)
      from expand_item_returns [OF this ask]
      show "\<exists>ts. expand_item (answer f) x = Some ts \<and> (\<forall>t \<in> set ts. weight t \<le> weight s)" .
    qed
    then obtain ts where ts: "concat_map (expand_item (answer f)) (lex s) = Some ts" "\<forall>t \<in> set ts. weight t \<le> weight s"
      by blast
    have "\<forall>t \<in> set ts. weight (strip t) \<le> weight s"
      using ts(2) weight_strip order_trans by blast
    then show ?thesis
      using Statements ts(1) by (auto simp: returns_def)
  next
    case Binaries
    have "returns (answer f) Statements (expand_braces_in_command s)"
      by (rule Suc.IH) (use Suc.prems Binaries expand_braces_weight [of 10 s] in
          \<open>simp add: need_def expand_braces_in_command_def\<close>)
    then obtain stmts where stmts: "answer f Statements (expand_braces_in_command s) = Some stmts"
        "\<forall>t \<in> set stmts. weight t \<le> weight s"
      using expand_braces_weight [of 10 s] unfolding returns_def expand_braces_in_command_def by (auto intro: order_trans)
    have ask: "answer f Binaries b \<noteq> None" if "weight b < weight s" for b
      using Suc.IH [of Binaries b] that Suc.prems Binaries by (auto simp: need_def returns_def)
    have "\<exists>bs. from_statement (answer f Binaries) (tokenize_simple t) = Some bs \<and> (\<forall>b \<in> set bs. True)"
      if t: "t \<in> set stmts" for t
    proof -
      have "from_statement (answer f Binaries) (tokenize_simple t) \<noteq> None"
      proof (rule from_statement_total)
        fix b
        assume "weight b + 2 \<le> tokens_weight (tokenize_simple t)"
        then have "weight b < weight t"
          using tokenize_weight [of t] by linarith
        then show "answer f Binaries b \<noteq> None"
          using stmts(2) t by (intro ask) (meson order_less_le_trans)
      qed
      then show ?thesis
        by auto
    qed
    then obtain bs where "concat_map (\<lambda>t. from_statement (answer f Binaries) (tokenize_simple t)) stmts = Some bs"
      using concat_map_Some [of stmts "\<lambda>t. from_statement (answer f Binaries) (tokenize_simple t)" "\<lambda>_. True"] by blast
    then show ?thesis
      using Binaries stmts(1) by (simp add: returns_def)
  qed
qed

end
