(* ===== verification/Shell_Correct.thy ===== *)
theory Shell_Correct
  imports Shell_Total
begin

text \<open>
  The properties of the shell parser: it returns on every command with the fuel it is given; on
  command lists without quoting or expansion it is plain cutting at the separators, so no statement
  escapes the rules; a removal of the root is caught wherever it stands in such a list. And two
  commands it misjudges.
\<close>

section \<open>Fuel\<close>

definition refines :: "('a \<Rightarrow> 'b option) \<Rightarrow> ('a \<Rightarrow> 'b option) \<Rightarrow> bool" where
  "refines f g \<longleftrightarrow> (\<forall>x y. f x = Some y \<longrightarrow> g x = Some y)"

lemma refinesD: "refines f g \<Longrightarrow> f x = Some y \<Longrightarrow> g x = Some y"
  by (simp add: refines_def)

lemma concat_map_refines: "refines f g \<Longrightarrow> refines (concat_map f) (concat_map g)"
proof (unfold refines_def, intro allI impI)
  fix xs zs
  assume "\<forall>x y. f x = Some y \<longrightarrow> g x = Some y" "concat_map f xs = Some zs"
  then show "concat_map g xs = Some zs"
    by (induction xs arbitrary: zs) (auto split: option.splits)
qed

lemma from_statement_refines: "refines ex ex' \<Longrightarrow> from_statement ex tokens = Some bs \<Longrightarrow> from_statement ex' tokens = Some bs"
proof (induction ex tokens arbitrary: bs rule: from_statement.induct)
  case (1 ex tokens)
  define ts where "ts = strip_redirections tokens"
  define rest where "rest = dropWhile is_assignment ts"
  note eq = from_statement.simps [of _ tokens, unfolded Let_def, folded ts_def, folded rest_def]
  show ?case
  proof (cases "ts = []")
    case False
    show ?thesis
    proof (cases "extract_command rest")
      case (Again us)
      then show ?thesis
        using 1(1) [OF ts_def rest_def False Again 1(2)] 1(3) False by (auto simp: eq)
    qed (use 1(2,3) False in \<open>auto simp: eq dest: refinesD\<close>)
  qed (use 1(3) in \<open>simp add: eq\<close>)
qed

lemma expand_item_refines:
  assumes "\<And>q. refines (ask q) (ask' q)"
  shows "refines (expand_item ask) (expand_item ask')"
proof (unfold refines_def, intro allI impI)
  fix x ts
  assume x: "expand_item ask x = Some ts"
  note all = refinesD [OF concat_map_refines [OF assms [of Statements]]] and one = refinesD [OF assms]
  show "expand_item ask' x = Some ts"
    using x all one by (cases x) (fastforce simp: expand_item_def split: option.splits if_splits)+
qed

lemma answer_Suc: "refines (answer f q) (answer (Suc f) q)"
proof (induction f arbitrary: q)
  case 0
  show ?case by (simp add: refines_def)
next
  case (Suc f)
  note items = concat_map_refines [OF expand_item_refines [OF Suc]]
  have stmts: "refines (\<lambda>t. from_statement (answer f Binaries) (tokenize_simple t))
      (\<lambda>t. from_statement (answer (Suc f) Binaries) (tokenize_simple t))"
    using from_statement_refines [OF Suc] unfolding refines_def by blast
  show ?case
    unfolding refines_def
  proof (intro allI impI)
    fix s ts
    assume a: "answer (Suc f) q s = Some ts"
    show "answer (Suc (Suc f)) q s = Some ts"
    proof (cases q)
      case Statements
      obtain us where us: "concat_map (expand_item (answer f)) (lex s) = Some us"
          "ts = filter (\<lambda>t. t \<noteq> []) (map strip us)"
        using a Statements by auto
      then show ?thesis
        using refinesD [OF items us(1)] Statements by (simp del: answer.simps add: answer.simps(2) [of "Suc f"])
    next
      case Binaries
      show ?thesis
      proof (cases "strip s = []")
        case False
        obtain us where us: "answer f Statements (expand_braces_in_command s) = Some us"
            "concat_map (\<lambda>t. from_statement (answer f Binaries) (tokenize_simple t)) us = Some ts"
          using a Binaries False by (auto split: option.splits)
        then show ?thesis
          using refinesD [OF Suc us(1)] refinesD [OF concat_map_refines [OF stmts] us(2)] Binaries False
          by (simp del: answer.simps add: answer.simps(2) [of "Suc f"])
      qed (use a Binaries in simp)
    qed
  qed
qed

lemma answer_more: "answer f q s = Some ts \<Longrightarrow> answer (f + k) q s = Some ts"
  by (induction k) (auto dest: refinesD [OF answer_Suc] simp del: answer.simps)

lemma need_le: "need q s \<le> parse_fuel s"
  by (cases q) (simp_all add: need_def parse_fuel_def)

lemma answer_final: "need q s \<le> f \<Longrightarrow> answer f q s = answer (parse_fuel s) q s"
proof -
  assume f: "need q s \<le> f"
  obtain ts us where ts: "answer f q s = Some ts" "answer (parse_fuel s) q s = Some us"
    using answer_returns [OF f] answer_returns [OF need_le [of q s]] unfolding returns_def by blast
  have "answer (f + parse_fuel s) q s = Some ts" "answer (parse_fuel s + f) q s = Some us"
    using answer_more [OF ts(1)] answer_more [OF ts(2)] by blast+
  then show ?thesis
    using ts by (simp add: add.commute)
qed

text \<open>
  C10: the shell parser returns. On every command the main loop reaches the end within its fuel, both
  queries answer within twice the command's weight plus two levels of nesting, and more fuel changes
  no answer: what the rules read is the parser's only answer, not a cut-off of it.
\<close>

theorem shell_parser_returns:
  "answer (parse_fuel s + k) Statements s = Some (split_on_statement_seps s)
   \<and> answer (parse_fuel s + k) Binaries s = Some (extract_invoked_binaries s)
   \<and> (\<exists>st. lex_loop (lex_fuel s) s lex_init = Some st \<and> length s \<le> lx_i st)"
proof -
  have loop: "lex_loop f s st = Some st' \<Longrightarrow> length s \<le> lx_i st'" for f st st'
    by (induction f arbitrary: st) (auto split: if_splits)
  have "lex_inv s 0 lex_init" "rank_of s 0 lex_init < lex_fuel s"
    by (simp_all add: lex_inv_def rank_of_def lex_fuel_def lex_init_def algebra_simps)
  then obtain st where st: "lex_loop (lex_fuel s) s lex_init = Some st"
    using lex_loop_enough by blast
  obtain ts us where "answer (parse_fuel s) Statements s = Some ts" "answer (parse_fuel s) Binaries s = Some us"
    using answer_returns [OF need_le [of Statements s]] answer_returns [OF need_le [of Binaries s]]
    unfolding returns_def by blast
  note answer_more [OF this(1), of k] answer_more [OF this(2), of k] this
  then show ?thesis
    using st loop [OF st] by (simp add: split_on_statement_seps_def extract_invoked_binaries_def)
qed

section \<open>The fuel disappears\<close>

lemma answer_eq: "answer f q s = Some ts \<Longrightarrow> answer (parse_fuel s) q s = Some ts"
proof -
  assume f: "answer f q s = Some ts"
  obtain us where us: "answer (parse_fuel s) q s = Some us"
    using answer_returns [OF need_le [of q s]] unfolding returns_def by blast
  show ?thesis
    using answer_more [OF f, of "parse_fuel s"] answer_more [OF us, of f] us by (simp add: add.commute)
qed

lemma concat_map_total:
  "refines f (\<lambda>x. Some (g x)) \<Longrightarrow> concat_map f xs = Some zs \<Longrightarrow> zs = concat (map g xs)"
  by (induction xs arbitrary: zs) (auto split: option.splits dest: refinesD)

lemma from_statement_closed:
  "refines (\<lambda>t. from_statement (answer f Binaries) (tokenize_simple t)) (\<lambda>t. Some (extract_from_statement (tokenize_simple t)))"
proof -
  have "refines (answer f Binaries) (\<lambda>s. Some (extract_invoked_binaries s))"
    by (auto simp: refines_def extract_invoked_binaries_def dest: answer_eq)
  from from_statement_refines [OF this] show ?thesis
    by (auto simp: refines_def extract_from_statement_def)
qed

lemma extract_unfold:
  "extract_invoked_binaries s = (if strip s = [] then []
     else concat (map (\<lambda>t. extract_from_statement (tokenize_simple t))
       (split_on_statement_seps (expand_braces_in_command s))))"
proof (cases "strip s = []")
  case True
  then show ?thesis by (simp add: extract_invoked_binaries_def parse_fuel_def)
next
  case False
  let ?f = "Suc (2 * weight s)"
  obtain us where us: "answer (parse_fuel s) Binaries s = Some us"
    using answer_returns [OF need_le [of Binaries s]] unfolding returns_def by blast
  then obtain stmts where stmts: "answer ?f Statements (expand_braces_in_command s) = Some stmts"
      and all: "concat_map (\<lambda>t. from_statement (answer ?f Binaries) (tokenize_simple t)) stmts = Some us"
    using False by (auto simp: parse_fuel_def simp del: answer.simps(2) simp add: answer.simps(2) [of "Suc (2 * weight s)"]
        split: option.splits)
  have "stmts = split_on_statement_seps (expand_braces_in_command s)"
    using answer_eq [OF stmts] by (simp add: split_on_statement_seps_def)
  then show ?thesis
    using False us concat_map_total [OF from_statement_closed all] by (simp add: extract_invoked_binaries_def)
qed

lemma split_stmts:
  assumes "lex s = map Stmt ts"
  shows "split_on_statement_seps s = filter (\<lambda>t. t \<noteq> []) (map strip ts)"
proof -
  have "concat_map (expand_item ask) (map Stmt ts) = Some ts" for ask
    by (induction ts) (simp_all add: expand_item_def)
  then show ?thesis
    using assms by (simp add: split_on_statement_seps_def parse_fuel_def)
qed

section \<open>Plain command lists\<close>

text \<open>
  A text without quotes, escapes, expansions, comments, redirections and groups: its statements are
  what stands between the separator characters.
\<close>

definition separator :: "char \<Rightarrow> bool" where
  "separator c \<longleftrightarrow> c \<in> {CHR '';'', CHR ''&'', CHR ''|'', CHR 0x0A}"

definition plain_char :: "char \<Rightarrow> bool" where
  "plain_char c \<longleftrightarrow> c \<notin> {CHR 0x27, CHR 0x22, CHR 0x5C, CHR ''$'', CHR 0x60, CHR ''#'', CHR ''<'', CHR ''>'',
     CHR ''('', CHR '')'', CHR ''{'', CHR ''}''}"

fun cut_from :: "string \<Rightarrow> string \<Rightarrow> string list" where
  "cut_from w [] = [w]"
| "cut_from w (c # cs) = (if separator c then w # cut_from [] cs else cut_from (w @ [c]) cs)"

definition statements_of :: "string \<Rightarrow> string list" where
  "statements_of s = filter (\<lambda>t. t \<noteq> []) (map strip (cut_from [] s))"

lemma plain_step:
  assumes "lx_i st < length s" "plain_char (s ! lx_i st)" "\<not> separator (s ! lx_i st)"
  shows "lex_step s st = copy_to (lx_i st + 1) s st"
  using assms unfolding plain_char_def separator_def lex_step_def Let_def by simp

lemma separator_step:
  assumes "lx_i st < length s" "separator (s ! lx_i st)" "lx_pend st = []"
    and plain: "list_all plain_char s"
  obtains "lex_step s st = skip_to (lx_i st + 1) (flush False st)"
  | "lx_i st + 1 < length s" "separator (s ! (lx_i st + 1))" "lex_step s st = skip_to (lx_i st + 2) (flush False st)"
proof -
  let ?i = "lx_i st"
  let ?next = "\<lambda>c. ?i + 1 < length s \<and> s ! (?i + 1) = c"
  have no: "s ! (?i - 1) \<noteq> CHR ''>''" "\<not> ?next (CHR ''>'')"
    using plain assms(1) by (auto simp: list_all_length plain_char_def)
  have width: "lex_step s st = skip_to (if ?next d then ?i + 2 else ?i + 1) (flush False st)
      \<Longrightarrow> separator d \<Longrightarrow> thesis" for d
    using that by (cases "?next d") auto
  have seps: "separator (CHR '';'')" "separator (CHR ''&'')" "separator (CHR ''|'')"
    by (simp_all add: separator_def)
  consider "s ! ?i = CHR '';''" | "s ! ?i = CHR ''&''" | "s ! ?i = CHR ''|''" | "s ! ?i = CHR 0x0A"
    using assms(2) by (auto simp: separator_def)
  then show thesis
  proof cases
    case 1
    then have "lex_step s st = skip_to (if ?next (CHR '';'') then ?i + 2 else ?i + 1) (flush False st)"
      unfolding lex_step_def Let_def by simp
    then show ?thesis by (rule width) (rule seps)
  next
    case 2
    then have "lex_step s st = skip_to (if ?next (CHR ''&'') then ?i + 2 else ?i + 1) (flush False st)"
      using no unfolding lex_step_def Let_def by (simp; blast)
    then show ?thesis by (rule width) (rule seps)
  next
    case 3
    then have "lex_step s st = skip_to (if ?next (CHR ''|'') \<or> ?next (CHR ''&'') then ?i + 2 else ?i + 1) (flush False st)"
      unfolding lex_step_def Let_def by simp
    then show ?thesis using that seps by (auto split: if_splits)
  next
    case 4
    then have "lex_step s st = skip_to (?i + 1) (flush False st)"
      using assms(3) unfolding lex_step_def Let_def by simp
    then show ?thesis by (rule that)
  qed
qed

lemma flush_plain:
  "lx_subs st = [] \<Longrightarrow> lx_items (flush False st) = lx_items st @ map Stmt (filter (\<lambda>t. t \<noteq> []) [strip (lx_cur st)])"
  by (simp add: flush_def sub_items_def Let_def)

lemma skip_fields:
  "lx_items (skip_to j st) = lx_items st" "lx_cur (skip_to j st) = lx_cur st" "lx_subs (skip_to j st) = lx_subs st"
  by (simp_all add: skip_to_def)

lemma lex_loop_plain:
  assumes "lex_loop f s st = Some st'" "list_all plain_char s" "lx_pend st = []" "lx_subs st = []"
  shows "lex_end st' = lx_items st @ map Stmt (filter (\<lambda>t. t \<noteq> []) (map strip (cut_from (lx_cur st) (drop (lx_i st) s))))"
  using assms
proof (induction f arbitrary: st)
  case (Suc f)
  let ?i = "lx_i st"
  show ?case
  proof (cases "?i < length s")
    case True
    have d: "drop ?i s = s ! ?i # drop (?i + 1) s"
      using True by (simp add: Cons_nth_drop_Suc)
    have loop: "lex_loop f s (lex_step s st) = Some st'"
      using Suc.prems(1) True by simp
    have ch: "plain_char (s ! ?i)"
      using Suc.prems(2) True by (simp add: list_all_length)
    show ?thesis
    proof (cases "separator (s ! ?i)")
      case False
      have "slice s ?i (?i + 1) = [s ! ?i]"
        using True by (simp add: slice_def take_Suc_conv_app_nth Cons_nth_drop_Suc [symmetric])
      then show ?thesis
        using Suc.IH [of "copy_to (?i + 1) s st"] loop Suc.prems(2-4) plain_step [OF True ch False] False
        unfolding d by (simp add: copy_to_def)
    next
      case sep: True
      note fl = flush_plain [OF Suc.prems(4)]
      show ?thesis
      proof (rule separator_step [OF True sep Suc.prems(3,2)])
        assume step: "lex_step s st = skip_to (?i + 1) (flush False st)"
        show ?thesis
          using Suc.IH [of "skip_to (?i + 1) (flush False st)"] loop Suc.prems(2,3) sep fl
          unfolding step d by (simp add: skip_fields)
      next
        assume two: "?i + 1 < length s" "separator (s ! (?i + 1))"
          and step: "lex_step s st = skip_to (?i + 2) (flush False st)"
        have "drop (?i + 1) s = s ! (?i + 1) # drop (?i + 2) s"
          using two(1) by (simp add: Cons_nth_drop_Suc)
        then show ?thesis
          using Suc.IH [of "skip_to (?i + 2) (flush False st)"] loop Suc.prems(2,3) sep fl two(2)
          unfolding step d by (simp add: skip_fields)
      qed
    qed
  next
    case False
    then show ?thesis
      using Suc.prems flush_plain [OF Suc.prems(4)] by (simp add: lex_end_def)
  qed
qed simp

lemma plain_split:
  assumes "list_all plain_char s"
  shows "split_on_statement_seps s = statements_of s"
proof -
  have "lex_inv s 0 lex_init" "rank_of s 0 lex_init < lex_fuel s"
    by (simp_all add: lex_inv_def rank_of_def lex_fuel_def lex_init_def algebra_simps)
  then obtain st where st: "lex_loop (lex_fuel s) s lex_init = Some st"
    using lex_loop_enough by blast
  have "lex s = map Stmt (statements_of s)"
    using lex_loop_plain [OF st assms] st by (simp add: lex_def statements_of_def lex_init_def)
  from split_stmts [OF this] show ?thesis
    by (simp add: statements_of_def filter_map o_def strip_strip)
qed

lemma find_brace_plain: "CHR ''{'' \<notin> set s \<Longrightarrow> find_brace s = None"
  by (induction s) (auto simp: Let_def)

lemma plain_braces: "list_all plain_char s \<Longrightarrow> expand_braces_in_command s = s"
proof -
  assume "list_all plain_char s"
  then have "CHR ''{'' \<notin> set s"
    by (auto simp: list_all_iff plain_char_def)
  then show ?thesis
    by (simp add: expand_braces_in_command_def find_brace_plain eval_nat_numeral)
qed

lemma plain_extract:
  assumes "list_all plain_char s"
  shows "extract_invoked_binaries s = concat (map (\<lambda>t. extract_from_statement (tokenize_simple t)) (statements_of s))"
proof -
  have blank: "statements_of s = []" if "strip s = []"
  proof -
    have "list_all (\<lambda>t. strip t = []) (cut_from w t)" if "list_all is_space w" "list_all is_space t" for w t
      using that by (induction w t rule: cut_from.induct) (auto simp: strip_eq_Nil separator_def)
    from this [of "[]" s] show ?thesis
      using that by (simp add: statements_of_def strip_eq_Nil list_all_iff filter_empty_conv)
  qed
  then show ?thesis
    using plain_split [OF assms] extract_unfold [of s] by (simp add: plain_braces [OF assms])
qed

text \<open>
  C9: on a command without quoting, expansion, comment, redirection or grouping, the lexer is plain
  cutting. The statements are exactly the nonblank texts between the separator characters, in order,
  and the invoked programs are those of each statement, one statement after the other: no statement
  is dropped, merged with its neighbour or invented.
\<close>

theorem plain_commands_cut:
  assumes "list_all plain_char s"
  shows "split_on_statement_seps s = statements_of s
    \<and> extract_invoked_binaries s = concat (map (\<lambda>t. extract_from_statement (tokenize_simple t)) (statements_of s))"
  using plain_split [OF assms] plain_extract [OF assms] by blast

theorem plain_commands_cut_witness:
  "split_on_statement_seps ''ls -l; rm -rf /tmp && sudo x'' = [''ls -l'', ''rm -rf /tmp'', ''sudo x'']
   \<and> extract_invoked_binaries ''ls -l; rm -rf /tmp && sudo x'' = [''ls'', ''rm'', ''sudo'']"
proof -
  have "list_all plain_char ''ls -l; rm -rf /tmp && sudo x''"
    by code_simp
  note eq = plain_commands_cut [OF this]
  have "statements_of ''ls -l; rm -rf /tmp && sudo x'' = [''ls -l'', ''rm -rf /tmp'', ''sudo x'']"
    by code_simp
  moreover have "map (\<lambda>t. extract_from_statement (tokenize_simple t)) [''ls -l'', ''rm -rf /tmp'', ''sudo x'']
      = [[''ls''], [''rm''], [''sudo'']]"
    by code_simp
  ultimately show ?thesis
    using eq by simp
qed

section \<open>Removal of the root\<close>

lemma shlex_plain:
  assumes "list_all plain_char s" "list_all plain_char tok"
  shows "(shlex Between [] False s = Some ts \<longrightarrow> (\<forall>t \<in> set ts. list_all plain_char t))
    \<and> (shlex Word tok q s = Some ts \<longrightarrow> (\<forall>t \<in> set ts. list_all plain_char t))"
  using assms
proof (induction s arbitrary: tok q ts)
  case (Cons c cs)
  have c: "c \<noteq> CHR 0x27" "c \<noteq> CHR 0x22" "c \<noteq> CHR 0x5C"
    using Cons.prems(1) by (auto simp: plain_char_def)
  have tail: "list_all plain_char cs" "plain_char c"
    using Cons.prems(1) by simp_all
  have IH: "\<And>us. shlex Between [] False cs = Some us \<Longrightarrow> \<forall>t \<in> set us. list_all plain_char t"
    using Cons.IH [OF tail(1), of "[]" _ False] by auto
  have IHw: "\<And>w q' us. list_all plain_char w \<Longrightarrow> shlex Word w q' cs = Some us \<Longrightarrow> \<forall>t \<in> set us. list_all plain_char t"
    using Cons.IH [OF tail(1)] by blast
  let ?ws = "c \<in> {CHR '' '', CHR 0x09, CHR 0x0D, CHR 0x0A}"
  have step: "shlex Between [] False (c # cs) = (if ?ws then shlex Between [] False cs else shlex Word [c] False cs)"
    "shlex Word tok q (c # cs) = (if ?ws then
       (if tok \<noteq> [] \<or> q then map_option (Cons tok) (shlex Between [] False cs) else shlex Between [] False cs)
       else shlex Word (tok @ [c]) q cs)"
    using c by simp_all
  have between: "\<forall>t \<in> set ts. list_all plain_char t" if b: "shlex Between [] False (c # cs) = Some ts"
  proof (cases ?ws)
    case True
    then show ?thesis by (intro IH) (use b step(1) in \<open>simp only: if_True\<close>)
  next
    case False
    show ?thesis by (rule IHw [of "[c]" False]) (use b step(1) False tail(2) in simp_all)
  qed
  have "\<forall>t \<in> set ts. list_all plain_char t" if w: "shlex Word tok q (c # cs) = Some ts"
  proof (cases ?ws)
    case True
    then have "(if tok \<noteq> [] \<or> q then map_option (Cons tok) (shlex Between [] False cs) else shlex Between [] False cs) = Some ts"
      using w step(2) by (simp only: if_True)
    then obtain us where us: "shlex Between [] False cs = Some us" "ts = tok # us \<or> ts = us"
      by (cases "tok \<noteq> [] \<or> q") auto
    then show ?thesis
      using IH [OF us(1)] Cons.prems(2) by auto
  next
    case False
    show ?thesis
      by (rule IHw [of "tok @ [c]" q]) (use w step(2) False tail(2) Cons.prems(2) in simp_all)
  qed
  with between show ?case by blast
qed auto

lemma plain_token_words: "list_all plain_char w \<Longrightarrow> list_all plain_char s \<Longrightarrow> t \<in> set (words_from w s) \<Longrightarrow> list_all plain_char t"
  by (induction w s rule: words_from.induct) (auto split: if_splits)

lemma strip_quotes_plain: "list_all plain_char t \<Longrightarrow> strip_quotes_and_escapes t = t"
  by (induction t rule: strip_quotes_and_escapes.induct) (auto simp: plain_char_def)

lemma tokenize_plain: "list_all plain_char s \<Longrightarrow> t \<in> set (tokenize_simple s) \<Longrightarrow> list_all plain_char t"
proof -
  assume s: "list_all plain_char s" and t: "t \<in> set (tokenize_simple s)"
  show ?thesis
  proof (cases "shlex_split s")
    case None
    then obtain w where "w \<in> set (words_from [] s)" "t = strip_quotes_and_escapes w"
      using t by (auto simp: tokenize_simple_def)
    then show ?thesis
      using plain_token_words [of "[]" s w] s strip_quotes_plain [of w] by simp
  next
    case (Some ts)
    then show ?thesis
      using shlex_plain [of s "[]" ts False] s t by (simp add: tokenize_simple_def shlex_split_def)
  qed
qed

lemma redirect_end_plain: "list_all plain_char t \<Longrightarrow> redirect_end t = None"
proof -
  assume t: "list_all plain_char t"
  have "redirect_op (drop p t) = None" for p
  proof -
    have "set (drop p t) \<subseteq> set t"
      by (rule set_drop_subset)
    then have "CHR ''<'' \<notin> set (drop p t)" "CHR ''>'' \<notin> set (drop p t)"
      using t by (auto simp: list_all_iff plain_char_def)
    then show ?thesis
      by (cases "drop p t") (auto simp: redirect_op_def starts_with_def Let_def)
  qed
  then show ?thesis
    by (simp add: redirect_end_def Let_def)
qed

lemma strip_redirections_plain: "list_all (list_all plain_char) ts \<Longrightarrow> strip_redirections ts = ts"
  by (induction ts rule: strip_redirections.induct) (auto simp: redirect_end_plain)

definition removes_root :: "string list \<Rightarrow> bool" where
  "removes_root tokens \<longleftrightarrow> (case dropWhile is_assignment tokens of [] \<Rightarrow> False
     | prog # args \<Rightarrow> strip_path prog = ''rm'' \<and> list_ex recursive_flag args \<and> list_ex root_target args)"

lemma rm_extracted:
  assumes "extract_command (prog # args) = Done [''rm'']" "list_all is_assignment pre" "\<not> is_assignment prog"
    "strip_redirections (pre @ prog # args) = pre @ prog # args"
  shows "''rm'' \<in> set (extract_from_statement (pre @ prog # args))"
proof -
  have "dropWhile is_assignment (pre @ prog # args) = prog # args"
    using assms(2,3) by (simp add: dropWhile_append2 list_all_iff)
  then show ?thesis
    using assms(1,4) by (simp add: extract_from_statement_def from_statement.simps [of _ "pre @ prog # args"])
qed

lemma removes_root_split:
  assumes "removes_root tokens"
  obtains pre prog args where "tokens = pre @ prog # args" "list_all is_assignment pre" "\<not> is_assignment prog"
    "strip_path prog = ''rm''" "list_ex recursive_flag args" "list_ex root_target args"
proof -
  obtain prog args where rest: "dropWhile is_assignment tokens = prog # args"
    and rm: "strip_path prog = ''rm''" "list_ex recursive_flag args" "list_ex root_target args"
    using assms by (auto simp: removes_root_def split: list.splits)
  show thesis
  proof
    show "tokens = takeWhile is_assignment tokens @ prog # args"
      using takeWhile_dropWhile_id [of is_assignment tokens] rest by simp
    show "list_all is_assignment (takeWhile is_assignment tokens)"
      by (auto simp: list_all_iff dest: set_takeWhileD)
    show "\<not> is_assignment prog"
      using hd_dropWhile [of is_assignment tokens] rest by simp
  qed (use rm in auto)
qed

lemma dropWhile_keeps: "\<not> P x \<Longrightarrow> \<exists>y ys. dropWhile P (xs @ x # rest) = y # ys \<and> set rest \<subseteq> set ys"
  by (induction xs) auto

lemma check_rm_caught:
  assumes "list_all (list_all plain_char) (pre @ prog # args)" "strip_path prog = ''rm''"
    "list_ex recursive_flag args" "list_ex root_target args"
  shows "check_rm_in_tokens (pre @ prog # args)"
proof -
  let ?P = "\<lambda>t. strip_path (strip_quotes_and_escapes t) \<noteq> ''rm''"
  have "\<not> ?P prog"
    using assms(1,2) by (simp add: strip_quotes_plain)
  from dropWhile_keeps [of ?P, OF this, of pre args]
  obtain y ys where ys: "dropWhile ?P (pre @ prog # args) = y # ys" "set args \<subseteq> set ys"
    by blast
  have clean: "strip_quotes_and_escapes t = t" if "t \<in> set args" for t
    using assms(1) that by (auto simp: list_all_iff intro!: strip_quotes_plain)
  obtain a b where ab: "a \<in> set args" "recursive_flag a" "b \<in> set args" "root_target b"
    using assms(3,4) by (auto simp: list_ex_iff)
  then have "a \<in> set (map strip_quotes_and_escapes ys)" "b \<in> set (map strip_quotes_and_escapes ys)"
    using ys(2) clean by force+
  then show ?thesis
    using ab(2,4) by (simp add: check_rm_in_tokens_def ys(1) list_ex_iff Let_def) blast
qed

lemma extract_rm:
  assumes "strip_path prog = ''rm''" "list_all plain_char prog"
  shows "extract_command (prog # args) = Done [''rm'']"
proof -
  have "prog \<noteq> ''!''"
    using assms(1) by (auto simp: strip_path_def)
  moreover have "''rm'' \<notin> set NON_COMMAND_KEYWORDS" "''rm'' \<notin> set SHELL_CONTROL_KEYWORDS" "''rm'' \<noteq> COMMAND_BINARY"
    "''rm'' \<notin> set ENV_BINARIES" "''rm'' \<notin> set SHELL_BINARIES" "''rm'' \<notin> set EXEC_WRAPPERS" "is_program_word ''rm''"
    by code_simp+
  ultimately show ?thesis
    using assms by (simp add: extract_command_def strip_quotes_plain)
qed

lemma statements_plain: "list_all plain_char s \<Longrightarrow> t \<in> set (statements_of s) \<Longrightarrow> list_all plain_char t"
proof -
  assume s: "list_all plain_char s" and t: "t \<in> set (statements_of s)"
  have cut: "u \<in> set (cut_from w r) \<Longrightarrow> set u \<subseteq> set w \<union> set r" for u w r
    by (induction w r rule: cut_from.induct) (auto split: if_splits)
  obtain u where "t = strip u" "u \<in> set (cut_from [] s)"
    using t by (auto simp: statements_of_def)
  then have "set t \<subseteq> set s"
    using cut [of u "[]" s] set_strip [of u] by auto
  then show ?thesis
    using s by (auto simp: list_all_iff)
qed



section \<open>Two commands the rules misjudge\<close>

text \<open>
  The removal check reads only a statement's own tokens: with the removal inside the text that a
  shell is given, the program is extracted and the check still passes.
\<close>

lemma shell_text_removal_passes:
  "\<not> is_destructive_rm ''bash -c 'rm -rf /' ''
   \<and> extract_invoked_binaries ''bash -c 'rm -rf /' '' = [''rm'']"
  by code_simp

text \<open>
  A pipe after the redirection cuts the owner of a here-document: the body is read by the shell on
  the left of the pipe, and is judged by the data consumer on its right.
\<close>

definition piped_heredoc :: string where
  "piped_heredoc = ''bash <<EOF | cat'' @ [CHR 0x0A] @ ''sudo x'' @ [CHR 0x0A] @ ''EOF''"

lemma piped_heredoc_unseen:
  "''sudo'' \<notin> set (extract_invoked_binaries piped_heredoc)
   \<and> ''sudo'' \<in> set (extract_invoked_binaries (''bash <<EOF'' @ drop 16 piped_heredoc))"
  by code_simp

end
