(* ===== verification/Regex.thy ===== *)
theory Regex
  imports Cabinet_Base
begin

text \<open>
  Regular expressions as the classifier writes them: characters by class, sequence, choice,
  repetition, word boundaries, the two anchors and lookahead. A spot is a place in a text: the
  character before it, if any, and what follows. The matcher lists the spots where a match can end;
  it is shown to list exactly those of the declarative semantics.
\<close>

section \<open>Patterns\<close>

datatype rx =
    Eps
  | One "char \<Rightarrow> bool"
  | Seq rx rx
  | Alt rx rx
  | Star rx
  | Bound                 \<comment> \<open>\<^verbatim>\<open>\b\<close>\<close>
  | Begin                 \<comment> \<open>\<^verbatim>\<open>^\<close>\<close>
  | Finish                \<comment> \<open>\<^verbatim>\<open>$\<close>, which also matches before a final newline\<close>
  | Ahead rx              \<comment> \<open>\<^verbatim>\<open>(?=...)\<close>\<close>

type_synonym spot = "char option \<times> string"

text \<open>\<^verbatim>\<open>\w\<close> on the code points below 256.\<close>

definition word_char :: "char \<Rightarrow> bool" where
  "word_char c \<longleftrightarrow> (let n = of_char c :: nat in
     (48 \<le> n \<and> n \<le> 57) \<or> (65 \<le> n \<and> n \<le> 90) \<or> n = 95 \<or> (97 \<le> n \<and> n \<le> 122)
     \<or> n \<in> {170, 178, 179, 181, 185, 186, 188, 189, 190} \<or> (192 \<le> n \<and> n \<noteq> 215 \<and> n \<noteq> 247))"

definition before_word :: "spot \<Rightarrow> bool" where
  "before_word x = (case fst x of None \<Rightarrow> False | Some c \<Rightarrow> word_char c)"

definition after_word :: "spot \<Rightarrow> bool" where
  "after_word x = (case snd x of [] \<Rightarrow> False | c # _ \<Rightarrow> word_char c)"

section \<open>Semantics\<close>

inductive matches :: "rx \<Rightarrow> spot \<Rightarrow> spot \<Rightarrow> bool" where
  eps: "matches Eps x x"
| one: "p c \<Longrightarrow> matches (One p) (b, c # cs) (Some c, cs)"
| seq: "matches r x y \<Longrightarrow> matches s y z \<Longrightarrow> matches (Seq r s) x z"
| left: "matches r x y \<Longrightarrow> matches (Alt r s) x y"
| right: "matches s x y \<Longrightarrow> matches (Alt r s) x y"
| star_done: "matches (Star r) x x"
| star_more: "matches r x y \<Longrightarrow> matches (Star r) y z \<Longrightarrow> matches (Star r) x z"
| bound: "before_word x \<noteq> after_word x \<Longrightarrow> matches Bound x x"
| at_start: "matches Begin (None, cs) (None, cs)"
| at_end: "cs \<in> {[], [CHR 0x0A]} \<Longrightarrow> matches Finish (b, cs) (b, cs)"
| ahead: "matches r x y \<Longrightarrow> matches (Ahead r) x x"

inductive_cases matches_cases [elim!]:
  "matches Eps x y" "matches (One p) x y" "matches (Seq r s) x y" "matches (Alt r s) x y"
  "matches Bound x y" "matches Begin x y" "matches Finish x y" "matches (Ahead r) x y"

section \<open>The matcher\<close>

primrec closure :: "(spot \<Rightarrow> spot list) \<Rightarrow> nat \<Rightarrow> spot \<Rightarrow> spot list" where
  "closure f 0 x = [x]"
| "closure f (Suc n) x = x # concat (map (closure f n) (filter (\<lambda>y. length (snd y) < length (snd x)) (f x)))"

primrec ends :: "rx \<Rightarrow> spot \<Rightarrow> spot list" where
  "ends Eps x = [x]"
| "ends (One p) x = (case snd x of [] \<Rightarrow> [] | c # cs \<Rightarrow> if p c then [(Some c, cs)] else [])"
| "ends (Seq r s) x = concat (map (ends s) (ends r x))"
| "ends (Alt r s) x = ends r x @ ends s x"
| "ends (Star r) x = closure (ends r) (length (snd x)) x"
| "ends Bound x = (if before_word x \<noteq> after_word x then [x] else [])"
| "ends Begin x = (if fst x = None then [x] else [])"
| "ends Finish x = (if snd x = [] \<or> snd x = [CHR 0x0A] then [x] else [])"
| "ends (Ahead r) x = (if ends r x \<noteq> [] then [x] else [])"

fun spots_from :: "char option \<Rightarrow> string \<Rightarrow> spot list" where
  "spots_from b [] = [(b, [])]"
| "spots_from b (c # cs) = (b, c # cs) # spots_from (Some c) cs"

text \<open>\<^verbatim>\<open>re.search\<close>: is there a match, and the text after the leftmost one's shortest end.\<close>

definition search :: "rx \<Rightarrow> string \<Rightarrow> bool" where
  "search r s \<longleftrightarrow> list_ex (\<lambda>x. ends r x \<noteq> []) (spots_from None s)"

section \<open>The matcher is the semantics\<close>

definition later :: "spot \<Rightarrow> spot \<Rightarrow> bool" where
  "later x y \<longleftrightarrow> (\<exists>w. snd x = w @ snd y \<and> fst y = (if w = [] then fst x else Some (last w)))"

lemma later_refl [simp]: "later x x"
  by (simp add: later_def)

lemma later_trans: "later x y \<Longrightarrow> later y z \<Longrightarrow> later x z"
proof -
  assume "later x y" "later y z"
  then obtain v w where "snd x = v @ snd y" "fst y = (if v = [] then fst x else Some (last v))"
    "snd y = w @ snd z" "fst z = (if w = [] then fst y else Some (last w))"
    by (auto simp: later_def)
  then show "later x z"
    by (intro later_def [THEN iffD2] exI [of _ "v @ w"]) auto
qed

lemma matches_later: "matches r x y \<Longrightarrow> later x y"
proof (induction rule: matches.induct)
  case (one p c b cs)
  then show ?case by (auto simp: later_def intro: exI [of _ "[c]"])
qed (auto intro: later_trans)

lemma later_same: "later x y \<Longrightarrow> \<not> length (snd y) < length (snd x) \<Longrightarrow> y = x"
  by (auto simp: later_def prod_eq_iff)

lemma closure_sound:
  assumes "\<And>y z. z \<in> set (f y) \<Longrightarrow> matches r y z"
  shows "y \<in> set (closure f n x) \<Longrightarrow> matches (Star r) x y"
proof (induction n arbitrary: x)
  case (Suc n)
  then consider "y = x" | z where "z \<in> set (f x)" "y \<in> set (closure f n z)"
    by (simp only: closure.simps set_simps set_concat set_map set_filter) blast
  then show ?case using assms Suc.IH by cases (blast intro: star_done star_more)+
qed (simp add: star_done)

lemma closure_complete:
  assumes "\<And>y z. matches r y z \<Longrightarrow> z \<in> set (f y)"
  shows "matches q x y \<Longrightarrow> q = Star r \<Longrightarrow> length (snd x) \<le> n \<Longrightarrow> y \<in> set (closure f n x)"
proof (induction arbitrary: n rule: matches.induct)
  case (star_done r x)
  then show ?case by (cases n) auto
next
  case (star_more r' x y z)
  show ?case
  proof (cases "length (snd y) < length (snd x)")
    case True
    then obtain k where n: "n = Suc k" using star_more.prems by (cases n) auto
    have "z \<in> set (closure f k y)" using star_more.IH(2) star_more.prems True n by simp
    moreover have "y \<in> set (filter (\<lambda>y. length (snd y) < length (snd x)) (f x))"
      using True assms star_more.hyps(1) star_more.prems(1) by simp
    ultimately show ?thesis
      unfolding n closure.simps set_simps set_concat set_map by blast
  next
    case False
    then have "y = x" using later_same [OF matches_later [OF star_more.hyps(1)]] by simp
    then show ?thesis using star_more by simp
  qed
qed auto

lemma ends_iff: "y \<in> set (ends r x) \<longleftrightarrow> matches r x y"
proof (induction r arbitrary: x y)
  case (One p)
  then show ?case by (cases x; cases "snd x") (auto intro: one)
next
  case (Star r)
  have "y \<in> set (closure (ends r) (length (snd x)) x) \<Longrightarrow> matches (Star r) x y"
    by (rule closure_sound [of "ends r"]) (simp_all add: Star)
  moreover have "matches (Star r) x y \<Longrightarrow> y \<in> set (closure (ends r) (length (snd x)) x)"
    by (rule closure_complete [of r "ends r"]) (simp_all add: Star)
  ultimately show ?case by (simp only: ends.simps) blast
next
  case (Ahead r)
  show ?case
  proof (cases "ends r x")
    case Nil
    then have "\<not> matches r x z" for z using Ahead [of z x] by simp
    then show ?thesis using Nil by (simp, blast)
  next
    case (Cons z zs)
    then have "matches r x z" using Ahead [of z x] by simp
    then show ?thesis using Cons by (auto intro: ahead)
  qed
next
  case Begin
  then show ?case by (cases x) (auto intro: at_start)
next
  case Finish
  then show ?case by (cases x) (auto intro: at_end)
qed (auto intro: eps seq left right bound)

lemma spots_from_iff: "y \<in> set (spots_from b s) \<longleftrightarrow> later (b, s) y"
proof (induction b s rule: spots_from.induct)
  case (1 b)
  then show ?case by (cases y) (auto simp: later_def)
next
  case (2 b c cs)
  have "later (b, c # cs) y \<longleftrightarrow> y = (b, c # cs) \<or> later (Some c, cs) y"
  proof
    assume "later (b, c # cs) y"
    then obtain w where w: "c # cs = w @ snd y" "fst y = (if w = [] then b else Some (last w))"
      by (auto simp: later_def)
    then show "y = (b, c # cs) \<or> later (Some c, cs) y"
      by (cases w) (auto simp: later_def prod_eq_iff)
  next
    have "later (b, c # cs) (Some c, cs)" by (auto simp: later_def intro: exI [of _ "[c]"])
    then show "y = (b, c # cs) \<or> later (Some c, cs) y \<Longrightarrow> later (b, c # cs) y"
      using later_trans [of "(b, c # cs)" "(Some c, cs)" y] by (elim disjE) (simp_all only: later_refl simp_thms)
  qed
  then show ?case using 2 by auto
qed

text \<open>A search finds a match at some place of the text, exactly when there is one.\<close>

lemma search_iff: "search r s \<longleftrightarrow> (\<exists>x y. later (None, s) x \<and> matches r x y)"
proof -
  have "ends r x \<noteq> [] \<longleftrightarrow> (\<exists>y. matches r x y)" for x
    using ends_iff by (metis list.set_intros(1) list.set_cases neq_Nil_conv empty_iff list.set(1))
  then show ?thesis
    unfolding search_def list_ex_iff Bex_def spots_from_iff by blast
qed

section \<open>Names for the patterns\<close>

primrec lit :: "string \<Rightarrow> rx" where
  "lit [] = Eps"
| "lit (c # cs) = Seq (One (\<lambda>d. d = c)) (lit cs)"

fun seqs :: "rx list \<Rightarrow> rx" where
  "seqs [] = Eps"
| "seqs [r] = r"
| "seqs (r # s # rs) = Seq r (seqs (s # rs))"

fun alts :: "rx list \<Rightarrow> rx" where
  "alts [] = One (\<lambda>_. False)"
| "alts [r] = r"
| "alts (r # s # rs) = Alt r (alts (s # rs))"

definition plus :: "rx \<Rightarrow> rx" where "plus r = Seq r (Star r)"
definition maybe :: "rx \<Rightarrow> rx" where "maybe r = Alt r Eps"
definition whole :: "rx \<Rightarrow> rx" where "whole r = Seq Bound (Seq r Bound)"
definition word :: "string \<Rightarrow> rx" where "word s = whole (lit s)"
definition words :: "string list \<Rightarrow> rx" where "words ss = alts (map lit ss)"
definition among :: "string \<Rightarrow> rx" where "among s = One (\<lambda>c. c \<in> set s)"
definition dots :: rx where "dots = Star (One (\<lambda>c. c \<noteq> CHR 0x0A))"
definition spaces :: rx where "spaces = plus (One is_space)"

lemma matches_lit: "matches (lit s) x y \<longleftrightarrow> snd x = s @ snd y \<and> fst y = (if s = [] then fst x else Some (last s))"
proof (induction s arbitrary: x)
  case Nil
  show ?case by (cases x; cases y) (auto intro: eps)
next
  case (Cons c s)
  show ?case
  proof
    assume "matches (lit (c # s)) x y"
    then show "snd x = (c # s) @ snd y \<and> fst y = (if c # s = [] then fst x else Some (last (c # s)))"
      using Cons.IH by auto
  next
    assume r: "snd x = (c # s) @ snd y \<and> fst y = (if c # s = [] then fst x else Some (last (c # s)))"
    have "matches (One (\<lambda>d. d = c)) x (Some c, s @ snd y)"
      using r by (cases x) (auto intro: one)
    moreover have "matches (lit s) (Some c, s @ snd y) y"
      using r Cons.IH [of "(Some c, s @ snd y)"] by auto
    ultimately show "matches (lit (c # s)) x y" unfolding lit.simps by (rule seq)
  qed
qed

lemma matches_alts: "matches (alts rs) x y \<longleftrightarrow> (\<exists>r \<in> set rs. matches r x y)"
  by (induction rs rule: alts.induct) (auto intro: left right)

lemma matches_seqs_Cons: "matches (seqs (r # rs)) x z \<longleftrightarrow> (\<exists>y. matches r x y \<and> matches (seqs rs) y z)"
proof (cases rs)
  case Nil
  have "matches Eps y z \<longleftrightarrow> y = z" for y by (auto intro: eps)
  then show ?thesis by (simp only: Nil seqs.simps) blast
next
  case (Cons s ss)
  show ?thesis unfolding Cons seqs.simps by (blast intro: seq)
qed

lemma matches_run: "list_all p w \<Longrightarrow> matches (Star (One p)) (b, w @ cs) (if w = [] then b else Some (last w), cs)"
proof (induction w arbitrary: b)
  case (Cons c w)
  then have "matches (Star (One p)) (Some c, w @ cs) (if w = [] then Some c else Some (last w), cs)"
    by simp
  moreover have "matches (One p) (b, (c # w) @ cs) (Some c, w @ cs)"
    using Cons.prems by (auto intro: one)
  ultimately have "matches (Star (One p)) (b, (c # w) @ cs) (if w = [] then Some c else Some (last w), cs)"
    by (metis star_more)
  then show ?case by (simp split: if_splits)
qed (auto intro: star_done)

section \<open>Patterns that look at the text alone\<close>

text \<open>Without boundary and start, the character before a spot does not matter.\<close>

primrec inner :: "rx \<Rightarrow> bool" where
  "inner Eps = True"
| "inner (One p) = True"
| "inner (Seq r s) = (inner r \<and> inner s)"
| "inner (Alt r s) = (inner r \<and> inner s)"
| "inner (Star r) = inner r"
| "inner Bound = False"
| "inner Begin = False"
| "inner Finish = True"
| "inner (Ahead r) = inner r"

definition reads :: "rx \<Rightarrow> string \<Rightarrow> string \<Rightarrow> bool" where
  "reads r s t \<longleftrightarrow> (\<exists>b b'. matches r (b, s) (b', t))"

lemma matches_inner: "matches r x y \<Longrightarrow> inner r \<Longrightarrow> \<exists>b'. matches r (b, snd x) (b', snd y)"
proof (induction arbitrary: b rule: matches.induct)
  case (one p c b' cs)
  have "matches (One p) (b, c # cs) (Some c, cs)" using one by (intro matches.one) simp
  then show ?case by (intro exI [of _ "Some c"]) simp
next
  case (seq r x y s z)
  then obtain b1 where "matches r (b, snd x) (b1, snd y)" by auto
  moreover obtain b2 where "matches s (b1, snd y) (b2, snd z)" using seq by auto
  ultimately show ?case using matches.seq by blast
next
  case (star_more r x y z)
  then obtain b1 where "matches r (b, snd x) (b1, snd y)" by auto
  moreover obtain b2 where "matches (Star r) (b1, snd y) (b2, snd z)" using star_more by auto
  ultimately show ?case using matches.star_more by blast
next
  case (left r x y s)
  then show ?case using matches.left by (metis inner.simps(4))
next
  case (right s x y r)
  then show ?case using matches.right by (metis inner.simps(4))
next
  case (ahead r x y)
  then show ?case using matches.ahead by (metis inner.simps(9))
next
  case (at_end cs b')
  then show ?case using matches.at_end by (metis snd_conv)
qed (auto intro: eps star_done)

lemma reads_iff: "inner r \<Longrightarrow> reads r s t \<longleftrightarrow> (\<exists>b'. matches r (b, s) (b', t))"
  unfolding reads_def using matches_inner [of r _ _ b] by fastforce

lemma reads_seq:
  assumes "inner r" "inner s"
  shows "reads (Seq r s) u w \<longleftrightarrow> (\<exists>v. reads r u v \<and> reads s v w)"
proof
  assume "reads (Seq r s) u w"
  then obtain b b' y where "matches r (b, u) y" "matches s y (b', w)"
    by (auto simp: reads_def)
  then show "\<exists>v. reads r u v \<and> reads s v w"
    unfolding reads_def by (metis prod.collapse)
next
  assume "\<exists>v. reads r u v \<and> reads s v w"
  then obtain v b b' where "matches r (b, u) (b', v)" "reads s v w"
    unfolding reads_def by blast
  then show "reads (Seq r s) u w"
    using reads_iff [OF assms(2), of v w b'] by (auto simp: reads_def intro: seq)
qed

lemma reads_one [simp]: "reads (One p) s t \<longleftrightarrow> (\<exists>c. p c \<and> s = c # t)"
  by (auto simp: reads_def intro: one)

lemma reads_finish [simp]: "reads Finish s t \<longleftrightarrow> s = t \<and> s \<in> {[], [CHR 0x0A]}"
  by (auto simp: reads_def intro: at_end)

lemma reads_maybe: "reads (maybe r) s t \<longleftrightarrow> reads r s t \<or> s = t"
  by (auto simp: reads_def maybe_def intro: left right eps)

lemma reads_lit [simp]: "reads (lit w) s t \<longleftrightarrow> s = w @ t"
  by (auto simp: reads_def matches_lit simp del: lit.simps)

lemma star_one_run: "matches q x y \<Longrightarrow> q = Star (One p) \<Longrightarrow> \<exists>w. list_all p w \<and> snd x = w @ snd y"
proof (induction rule: matches.induct)
  case (star_done r x)
  then show ?case by (intro exI [of _ "[]"]) simp
next
  case (star_more r x y z)
  then obtain c cs where c: "p c" "snd x = c # cs" "snd y = cs" by auto
  obtain w where "list_all p w" "snd y = w @ snd z" using star_more by auto
  then show ?case using c by (intro exI [of _ "c # w"]) simp
qed auto

lemma reads_run [simp]: "reads (Star (One p)) s t \<longleftrightarrow> (\<exists>w. list_all p w \<and> s = w @ t)"
  using star_one_run [OF _ refl, of p] matches_run by (fastforce simp: reads_def)

lemma inner_lit [simp]: "inner (lit w)"
  by (induction w) simp_all

lemma ends_reads: "inner r \<Longrightarrow> ends r (b, s) \<noteq> [] \<longleftrightarrow> (\<exists>t. reads r s t)"
proof -
  assume i: "inner r"
  have "ends r (b, s) \<noteq> [] \<longleftrightarrow> (\<exists>y. matches r (b, s) y)"
    using ends_iff by (metis list.set_intros(1) neq_Nil_conv empty_iff list.set(1))
  then show ?thesis using reads_iff [OF i, of s _ b] by fastforce
qed

end
