(* ===== verification/Classifier.thy ===== *)
theory Classifier
  imports Regex Authority_Vocab Shell_Parse Py_Text
begin

text \<open>
  The action classifier, \<^verbatim>\<open>framework/authority/classifier.py\<close>: from a tool call to the kind
  the authority matrix knows. Every regular expression of the source is written as a pattern of
  \<open>Regex\<close>. The recipient allowlist and its exclusions are read as in \<^verbatim>\<open>framework/env.py\<close>
  from the parsed files; the declared operations and the programs a command invokes are those of
  \<open>Authority_Vocab\<close> and \<open>Shell_Parse\<close>.
\<close>

section \<open>Recipients\<close>

definition clean_domains :: "pyval \<Rightarrow> string list" where
  "clean_domains v = (if is_list v then filter (\<lambda>d. d \<noteq> []) (map (\<lambda>d. lower (strip (str_of d))) (elems v)) else [])"

definition domains_in :: "pyval \<Rightarrow> string list" where
  "domains_in data = (if \<not> is_dict data then []
     else let v = dget data ''org_domains'' in
       clean_domains (if v = PNone \<and> is_dict (dget data ''product'') then dget (dget data ''product'') ''org_domains'' else v))"

text \<open>The parsed platform and product files; \<^verbatim>\<open>PNone\<close> for one that is absent or unreadable.\<close>

definition org_domains :: "pyval \<Rightarrow> pyval \<Rightarrow> string list" where
  "org_domains platform product = (if domains_in platform \<noteq> [] then domains_in platform else domains_in product)"

record recipient_policy =
  rp_deny :: "string list"
  rp_inherit :: bool

definition DENY_ALL_RECIPIENTS :: string where "DENY_ALL_RECIPIENTS = ''*''"

definition inert_deny :: "string \<Rightarrow> bool" where
  "inert_deny v \<longleftrightarrow> list_ex (\<lambda>c. is_space c \<or> c \<in> set '',;<>'') v \<or> starts_with ''.'' v \<or> (v \<noteq> [] \<and> last v = CHR ''.'')"

definition deny_value :: "pyval \<Rightarrow> string option" where
  "deny_value row =
     (if \<not> is_dict row then None
      else case filter (has_key row) [''address'', ''domain''] of
        [k] \<Rightarrow> (let v = lower (strip (str_of (dget row k))) in
          if \<not> is_str (dget row k) \<or> v = [] \<or> (k = ''address'') \<noteq> (CHR ''@'' \<in> set v) \<or> inert_deny v then None else Some v)
      | _ \<Rightarrow> None)"

fun all_some :: "'a option list \<Rightarrow> 'a list option" where
  "all_some [] = Some []"
| "all_some (x # xs) = (case x of None \<Rightarrow> None | Some y \<Rightarrow> map_option (Cons y) (all_some xs))"

definition parse_recipient_exclusions :: "pyval \<Rightarrow> recipient_policy option" where
  "parse_recipient_exclusions data =
     (let rows = dget data ''denylist''; mode = dget_or data ''subdomain_matching'' (PStr ''strict'');
          m = lower (strip (str_of mode)) in
      if \<not> is_dict data \<or> \<not> has_key data ''denylist'' \<or> (rows \<noteq> PNone \<and> \<not> is_list rows) then None
      else case all_some (map deny_value (elems rows)) of None \<Rightarrow> None
        | Some deny \<Rightarrow> if \<not> is_str mode \<or> m \<notin> {''strict'', ''inherit''} then None
            else Some \<lparr>rp_deny = deny, rp_inherit = (m = ''inherit'')\<rparr>)"

text \<open>The exclusion file: absent, unreadable for the strict loader, or what it parses to.\<close>

datatype exclusion_file = Absent | Unreadable | Parsed pyval

definition recipient_policy :: "exclusion_file \<Rightarrow> recipient_policy" where
  "recipient_policy f = (case f of
     Absent \<Rightarrow> \<lparr>rp_deny = [], rp_inherit = False\<rparr>
   | Unreadable \<Rightarrow> \<lparr>rp_deny = [DENY_ALL_RECIPIENTS], rp_inherit = False\<rparr>
   | Parsed data \<Rightarrow> (case parse_recipient_exclusions data of Some p \<Rightarrow> p
       | None \<Rightarrow> \<lparr>rp_deny = [DENY_ALL_RECIPIENTS], rp_inherit = False\<rparr>))"

record classifier_env =
  ce_domains :: "string list"
  ce_policy :: recipient_policy
  ce_declared :: "declared_op list"
  ce_builtins :: builtins

fun cut_at :: "(char \<Rightarrow> bool) \<Rightarrow> string \<Rightarrow> string \<Rightarrow> string list" where
  "cut_at sep w [] = [w]"
| "cut_at sep w (c # cs) = (if sep c then w # cut_at sep [] cs else cut_at sep (w @ [c]) cs)"

definition address_sep :: "char \<Rightarrow> bool" where
  "address_sep c \<longleftrightarrow> is_space c \<or> c = CHR '','' \<or> c = CHR '';''"

definition addresses :: "string \<Rightarrow> string list" where
  "addresses recipient = filter (\<lambda>t. CHR ''@'' \<in> set t) (cut_at address_sep [] (lower (strip recipient)))"

definition after_last :: "char \<Rightarrow> string \<Rightarrow> string" where
  "after_last d s = rev (takeWhile (\<lambda>c. c \<noteq> d) (rev s))"

definition is_excluded :: "recipient_policy \<Rightarrow> string \<Rightarrow> string \<Rightarrow> bool" where
  "is_excluded p addr host \<longleftrightarrow> list_ex (\<lambda>pat. pat = DENY_ALL_RECIPIENTS
     \<or> (if CHR ''@'' \<in> set pat then addr = pat else host = pat \<or> ends_with (''.'' @ pat) host)) (rp_deny p)"

definition internal_domain :: "classifier_env \<Rightarrow> string \<Rightarrow> bool" where
  "internal_domain env host \<longleftrightarrow> list_ex (\<lambda>d. host = d \<or> (rp_inherit (ce_policy env) \<and> ends_with (''.'' @ d) host)) (ce_domains env)"

definition internal_address :: "classifier_env \<Rightarrow> string \<Rightarrow> bool" where
  "internal_address env addr \<longleftrightarrow> (let host = after_last (CHR ''@'') addr in
     \<not> is_excluded (ce_policy env) addr host \<and> internal_domain env host)"

definition is_internal_recipient :: "classifier_env \<Rightarrow> string \<Rightarrow> bool" where
  "is_internal_recipient env recipient \<longleftrightarrow> addresses recipient \<noteq> [] \<and> list_all (internal_address env) (addresses recipient)"

section \<open>Fields of a call\<close>

definition file_path :: "pyval \<Rightarrow> string" where
  "file_path ti = (case find (\<lambda>k. is_str (dget ti k) \<and> str_of (dget ti k) \<noteq> []) [''file_path'', ''path''] of
     None \<Rightarrow> [] | Some k \<Rightarrow> str_of (dget ti k))"

definition recipient_field :: "pyval \<Rightarrow> string" where
  "recipient_field ti = (case find (\<lambda>k. is_str (dget ti k)) [''recipient'', ''to'', ''recipient_email'', ''email''] of
     None \<Rightarrow> [] | Some k \<Rightarrow> str_of (dget ti k))"

text \<open>\<^verbatim>\<open>(^|/)\.env(\.[\w.-]+)?$\<close> and its variant for a command line.\<close>

definition env_suffix :: rx where
  "env_suffix = maybe (Seq (lit ''.'') (plus (One (\<lambda>c. word_char c \<or> c = CHR ''.'' \<or> c = CHR ''-''))))"

definition DOTENV :: rx where
  "DOTENV = seqs [Alt Begin (lit ''/''), lit ''.env'', env_suffix, Finish]"

definition dotenv_before :: "char \<Rightarrow> bool" where
  "dotenv_before c \<longleftrightarrow> is_space c \<or> c \<in> {CHR ''='', CHR 0x27, CHR 0x22, CHR ''/''}"

definition dotenv_after :: "char \<Rightarrow> bool" where
  "dotenv_after c \<longleftrightarrow> is_space c \<or> c \<in> {CHR 0x27, CHR 0x22, CHR '';'', CHR ''&'', CHR ''|'', CHR ''>'', CHR '')''}"

definition DOTENV_CMD :: rx where
  "DOTENV_CMD = seqs [Alt Begin (One dotenv_before), lit ''.env'', env_suffix, Ahead (Alt Finish (One dotenv_after))]"

definition is_dotenv :: "string \<Rightarrow> bool" where
  "is_dotenv path = search DOTENV path"

definition is_tier2 :: "string \<Rightarrow> bool" where
  "is_tier2 path = sublist ''instance/memory/tier2/'' (map (\<lambda>c. if c = CHR 0x5C then CHR ''/'' else c) path)"

section \<open>Network\<close>

definition is_letter :: "char \<Rightarrow> bool" where
  "is_letter c \<longleftrightarrow> (let n = of_char c :: nat in (65 \<le> n \<and> n \<le> 90) \<or> (97 \<le> n \<and> n \<le> 122))"

definition upper :: "string \<Rightarrow> string" where
  "upper s = map (\<lambda>c. let n = of_char c :: nat in if 97 \<le> n \<and> n \<le> 122 then char_of (n - 32) else c) s"

text \<open>The leftmost \<^verbatim>\<open>(?:-X\s*|--request[=\s]+)([A-Za-z]+)\<close>: its letters.\<close>

definition verb_start :: "string \<Rightarrow> string option" where
  "verb_start s = (if starts_with ''-X'' s then Some (lstrip (drop 2 s))
     else if starts_with ''--request'' s then
       (let r = drop 9 s; r' = dropWhile (\<lambda>c. c = CHR ''='' \<or> is_space c) r in if r' = r then None else Some r')
     else None)"

fun curl_verb :: "string \<Rightarrow> string option" where
  "curl_verb [] = None"
| "curl_verb (c # cs) = (case verb_start (c # cs) of None \<Rightarrow> curl_verb cs
     | Some r \<Rightarrow> if takeWhile is_letter r = [] then curl_verb cs else Some (takeWhile is_letter r))"

definition CURL_BODY :: rx where
  "CURL_BODY = alts [lit ''-d'', Seq (lit ''--data'') Bound, Seq (lit ''--data-'') (plus (One (\<lambda>c. word_char c \<or> c = CHR ''-''))),
     Seq (lit ''-F'') Bound, Seq (lit ''--form'') Bound, Seq (lit ''-T'') Bound, lit ''--upload-file'']"

definition curl_method :: "string \<Rightarrow> string option" where
  "curl_method command = (if \<not> search (word ''curl'') command then None
     else case curl_verb command of Some v \<Rightarrow> Some (upper v)
       | None \<Rightarrow> Some (if search CURL_BODY command then ''POST'' else ''GET''))"

definition host_char :: "char \<Rightarrow> bool" where
  "host_char c \<longleftrightarrow> \<not> (is_space c \<or> c \<in> {CHR ''/'', CHR 0x27, CHR 0x22})"

definition url_start :: "string \<Rightarrow> string option" where
  "url_start s = (if starts_with ''http://'' s then Some (drop 7 s) else if starts_with ''https://'' s then Some (drop 8 s) else None)"

text \<open>\<^verbatim>\<open>findall\<close> of \<^verbatim>\<open>https?://([^/\s'"]+)\<close>.\<close>

function url_hosts :: "string \<Rightarrow> string list" where
  "url_hosts [] = []"
| "url_hosts (c # cs) = (case url_start (c # cs) of None \<Rightarrow> url_hosts cs
     | Some r \<Rightarrow> if takeWhile host_char r = [] then url_hosts cs else takeWhile host_char r # url_hosts (dropWhile host_char r))"
  by pat_completeness auto
termination
proof (relation "measure length")
  have "length (dropWhile host_char r) < length (c # cs)" if "url_start (c # cs) = Some r" for c cs r
    using that by (intro le_less_trans [OF length_dropWhile_le]) (auto simp: url_start_def split: if_splits)
  then show "\<And>c cs r. url_start (c # cs) = Some r \<Longrightarrow> takeWhile host_char r \<noteq> [] \<Longrightarrow> (dropWhile host_char r, c # cs) \<in> measure length"
    by simp
qed auto

definition local_host :: "string \<Rightarrow> bool" where
  "local_host u \<longleftrightarrow> list_ex (\<lambda>p. sublist p u) [''localhost'', ''127.0.0.1'', ''0.0.0.0'', ''[::1]'']"

definition curl_targets_remote :: "string \<Rightarrow> bool" where
  "curl_targets_remote command =
     (if url_hosts command \<noteq> [] \<and> \<not> list_all local_host (url_hosts command) then True else \<not> local_host command)"

section \<open>Declared operations\<close>

definition bare_name :: "string \<Rightarrow> string" where
  "bare_name token = strip_path (rev (dropWhile (\<lambda>c. c \<in> {CHR 0x27, CHR 0x22, CHR 0x5C})
     (rev (dropWhile (\<lambda>c. c \<in> {CHR 0x27, CHR 0x22, CHR 0x5C}) token))))"

definition declared_for_tokens :: "declared_op list \<Rightarrow> string list \<Rightarrow> string option" where
  "declared_for_tokens ops tokens =
     (let wanted = filter (\<lambda>t. t \<noteq> []) (map (\<lambda>t. lower (strip t)) tokens) in
      map_option op_id (find (\<lambda>r. list_ex (\<lambda>t. lower t \<in> set wanted) (op_invoked_as r)) ops))"

definition declared_for :: "declared_op list \<Rightarrow> string \<Rightarrow> string option" where
  "declared_for ops command = (if ops = [] then None else declared_for_tokens ops (map bare_name (extract_invoked_binaries command)))"

section \<open>Provably local commands\<close>

definition LOCAL_ONLY_BINARIES :: "string list" where
  "LOCAL_ONLY_BINARIES = [
     ''ls'', ''cat'', ''head'', ''tail'', ''wc'', ''grep'', ''egrep'', ''fgrep'', ''diff'', ''cmp'', ''file'',
     ''stat'', ''du'', ''tree'', ''nl'', ''basename'', ''dirname'', ''realpath'', ''readlink'', ''pwd'', ''cut'',
     ''tr'', ''uniq'', ''comm'', ''join'', ''paste'', ''rev'', ''fold'', ''expand'', ''unexpand'', ''column'', ''fmt'',
     ''jq'', ''xxd'', ''od'', ''base64'', ''base32'', ''strings'', ''tac'', ''mkdir'', ''rmdir'', ''touch'', ''cp'',
     ''mv'', ''rm'', ''ln'', ''chmod'', ''truncate'', ''mktemp'', ''tee'', ''sync'', ''echo'', ''printf'', ''true'',
     ''false'', ''yes'', ''seq'', ''sleep'', ''date'', ''expr'', ''test'', ''['', ''[['', ''wait'', ''type'',
     ''which'', ''hash'', ''cd'', ''pushd'', ''popd'', ''umask'', ''shift'', '':'', ''whoami'', ''id'', ''uname'',
     ''groups'', ''tty'', ''logname'', ''md5'', ''md5sum'', ''shasum'', ''sha1sum'', ''sha256sum'', ''sha512sum'',
     ''cksum'', ''gzip'', ''gunzip'', ''zcat'', ''bzip2'', ''bunzip2'', ''xz'', ''unxz'', ''zstd'']"

definition GIT_LOCAL_SUBCOMMANDS :: "string list" where
  "GIT_LOCAL_SUBCOMMANDS = [
     ''status'', ''log'', ''diff'', ''show'', ''branch'', ''reset'', ''rev-parse'', ''rev-list'', ''ls-files'',
     ''ls-tree'', ''cat-file'', ''blame'', ''shortlog'', ''describe'', ''merge-base'', ''symbolic-ref'',
     ''for-each-ref'', ''name-rev'', ''check-ignore'', ''hash-object'', ''count-objects'', ''diff-tree'',
     ''diff-index'', ''whatchanged'', ''range-diff'', ''var'', ''version'', ''reflog'', ''check-attr'']"

definition GIT_VALUE_FLAGS :: "string list" where
  "GIT_VALUE_FLAGS = [''-C'', ''--git-dir'', ''--work-tree'', ''--namespace'', ''--super-prefix'']"

definition GIT_DISQUALIFYING_FLAGS :: "string list" where
  "GIT_DISQUALIFYING_FLAGS = [''-c'', ''--config-env'', ''--exec-path'']"

definition disqualifying :: "string \<Rightarrow> bool" where
  "disqualifying t \<longleftrightarrow> t \<in> set GIT_DISQUALIFYING_FLAGS \<or> list_ex (\<lambda>f. starts_with (f @ ''='') t) GIT_DISQUALIFYING_FLAGS"

text \<open>The verb after a \<^verbatim>\<open>git\<close> token, and the tokens after it.\<close>

fun git_verb :: "string list \<Rightarrow> string \<times> string list" where
  "git_verb [] = ([], [])"
| "git_verb (t # ts) =
     (if disqualifying t then (''__git_disqualified__'', ts)
      else if t \<in> set GIT_VALUE_FLAGS then git_verb (tl ts)
      else if starts_with ''-'' t then git_verb ts
      else (t, ts))"

lemma git_verb_length: "length (snd (git_verb ts)) \<le> length ts"
  by (induction ts rule: git_verb.induct) (auto intro: order_trans le_SucI)

function git_subcommands :: "string list \<Rightarrow> string list" where
  "git_subcommands [] = []"
| "git_subcommands (t # ts) = (if bare_name t \<noteq> ''git'' then git_subcommands ts
     else fst (git_verb ts) # git_subcommands (snd (git_verb ts)))"
  by pat_completeness auto
termination by (relation "measure length") (auto intro: le_imp_less_Suc git_verb_length)

definition dev_socket :: "string \<Rightarrow> bool" where
  "dev_socket command \<longleftrightarrow> sublist ''/dev/tcp/'' command \<or> sublist ''/dev/udp/'' command"

definition is_provably_local :: "string \<Rightarrow> bool" where
  "is_provably_local command =
     (let names = map bare_name (extract_invoked_binaries command) in
      if dev_socket command \<or> names = [] then False
      else if list_ex (\<lambda>n. n \<notin> set LOCAL_ONLY_BINARIES \<and> n \<noteq> ''git'') names then False
      else if ''git'' \<in> set names then
        (case shlex_split command of None \<Rightarrow> False
         | Some tokens \<Rightarrow> let subs = git_subcommands tokens in subs \<noteq> [] \<and> list_all (\<lambda>s. s \<in> set GIT_LOCAL_SUBCOMMANDS) subs)
      else True)"

section \<open>Pushes\<close>

text \<open>What follows the leftmost \<^verbatim>\<open>\bpush\b\<close>; None where the split has one part and its index
  raises.\<close>

definition after_push :: "string \<Rightarrow> string option" where
  "after_push command = (if \<not> sublist ''push'' command then Some []
     else map_option (\<lambda>x. drop 4 (snd x)) (find (\<lambda>x. ends (word ''push'') x \<noteq> []) (spots_from None command)))"

definition strip_quote_chars :: "string \<Rightarrow> string" where
  "strip_quote_chars s = rev (dropWhile (\<lambda>c. c \<in> {CHR 0x27, CHR 0x22}) (rev (dropWhile (\<lambda>c. c \<in> {CHR 0x27, CHR 0x22}) s)))"

definition lstrip_plus :: "string \<Rightarrow> string" where
  "lstrip_plus s = dropWhile (\<lambda>c. c = CHR ''+'') s"

text \<open>\<^verbatim>\<open>(?:HEAD:)?(?:refs/heads/)?(\S+)$\<close> on a destination, which has neither blank nor colon.\<close>

definition branch_of :: "string \<Rightarrow> string" where
  "branch_of r = lstrip_plus (let n = length ''refs/heads/'' in
     if starts_with ''refs/heads/'' r \<and> drop n r \<noteq> [] then drop n r else r)"

definition push_kind :: "string list \<Rightarrow> string" where
  "push_kind ps =
     (if 2 \<le> length ps then
        (let refspec = lstrip_plus (strip_quote_chars (last ps));
             target = (if CHR '':'' \<in> set refspec then after_last (CHR '':'') refspec else refspec) in
         if branch_of target \<in> {''main'', ''master''} then ''git_push_main'' else ''git_push_nonmain'')
      else if length ps = 1 then
        (let only = lstrip_plus (strip_quote_chars (hd ps)) in
         if only \<in> {''main'', ''master''} then ''git_push_main''
         else if only \<in> {''origin'', ''upstream''} \<or> CHR ''/'' \<notin> set only then ''git_push_main''
         else ''git_push_nonmain'')
      else ''git_push_main'')"

definition classify_git_push :: "string \<Rightarrow> string option" where
  "classify_git_push command = map_option (\<lambda>a. push_kind (filter (\<lambda>t. \<not> starts_with ''-'' t) (words_from [] a))) (after_push command)"

section \<open>Commands\<close>

definition VERCEL_ENV_WRITE :: rx where
  "VERCEL_ENV_WRITE = seqs [word ''vercel'', dots, word ''env'', spaces, words [''add'', ''set'', ''create'', ''rm'', ''remove'']]"

definition VERCEL_ENV_PULL :: rx where
  "VERCEL_ENV_PULL = seqs [word ''vercel'', dots, word ''env'', spaces, lit ''pull'', Bound]"

definition FILE_WRITE :: rx where
  "FILE_WRITE = alts [Seq (lit ''>'') (maybe (lit ''>'')), word ''tee'', word ''cp'', word ''mv'', seqs [word ''sed'', spaces, lit ''-i''],
     word ''dd'', word ''truncate'', word ''install'',
     seqs [lit ''open('', Star (One (\<lambda>c. c \<noteq> CHR '')'')), One (\<lambda>c. c \<in> {CHR 0x27, CHR 0x22}), lit ''w'']]"

definition both :: "string \<Rightarrow> string \<Rightarrow> rx" where
  "both a b = Alt (seqs [word a, dots, word b]) (seqs [word b, dots, word a])"

definition TOKEN_GRANT :: rx where
  "TOKEN_GRANT = whole (alts [seqs [lit ''auth'', spaces, lit ''token''], seqs [lit ''token'', spaces, lit ''grant''],
     seqs [lit ''create'', among ''- '', lit ''token''], seqs [lit ''grant'', among ''- '', lit ''token'']])"

definition PURCHASE :: rx where
  "PURCHASE = alts [whole (words [''charge'', ''purchase'', ''buy'', ''subscribe'']), seqs [word ''stripe'', dots, Seq Bound (lit ''charge'')],
     seqs [Seq Bound (Seq (lit ''domain'') (Seq (maybe (lit ''s'')) Bound)), spaces, Seq (lit ''buy'') Bound]]"

definition GIT_PUSH :: rx where
  "GIT_PUSH = seqs [word ''git'', dots, word ''push'']"

definition ATTENDEE :: rx where
  "ATTENDEE = alts [Seq Bound (lit ''attendee''), Seq Bound (lit ''invitee''), lit ''make new attendee'']"

definition CALENDAR_EVENT_SCRIPT :: string where
  \<open>CALENDAR_EVENT_SCRIPT = join [CHR 0x0A] [
     ''on run argv'',
     ''set calName to item 1 of argv'',
     ''set evTitle to item 2 of argv'',
     ''set evNotes to item 3 of argv'',
     ''set dueIso to item 4 of argv'',
     ''set startDate to my parseIso(dueIso)'',
     ''set endDate to startDate + (30 * minutes)'',
     ''tell application "Calendar"'',
     '' if not (exists calendar calName) then return "err:calendar-not-found:" & calName'',
     '' if (writable of calendar calName is false) then return "err:calendar-not-writable:" & calName'',
     '' tell calendar calName'',
     ''  set newEvent to make new event with properties {summary:evTitle, start date:startDate, end date:endDate, description:evNotes}'',
     ''  set theUid to uid of newEvent'',
     '' end tell'',
     ''end tell'',
     ''return "ok:" & calName & ":" & theUid'',
     ''end run'',
     ''on parseIso(s)'',
     '' set d to current date'',
     '' set year of d to (text 1 thru 4 of s) as integer'',
     '' set month of d to (text 6 thru 7 of s) as integer'',
     '' set day of d to (text 9 thru 10 of s) as integer'',
     '' if (length of s) > 10 then'',
     ''  set hours of d to (text 12 thru 13 of s) as integer'',
     ''  set minutes of d to (text 15 thru 16 of s) as integer'',
     '' else'',
     ''  set hours of d to 9'',
     ''  set minutes of d to 0'',
     '' end if'',
     '' set seconds of d to 0'',
     '' return d'',
     ''end parseIso'']\<close>

text \<open>The secrets of a command, then the other ceilings in the order of the source.\<close>

definition bash_secret :: "string \<Rightarrow> string option" where
  "bash_secret low =
     (if search VERCEL_ENV_WRITE low then Some ''env_write''
      else if search VERCEL_ENV_PULL low then Some ''secret_read''
      else if search DOTENV_CMD low then Some (if search FILE_WRITE low then ''secret_write'' else ''secret_read'')
      else None)"

definition bash_grant :: "string \<Rightarrow> string option" where
  "bash_grant low =
     (if search (both ''oauth'' ''grant'') low then Some ''oauth_grant''
      else if search TOKEN_GRANT low then Some ''token_grant''
      else if search (both ''token'' ''grant'') low then Some ''token_grant''
      else if search (word ''billing'') low then Some ''billing''
      else if search PURCHASE low then Some ''purchase''
      else None)"

definition bash_network :: "string \<Rightarrow> string option" where
  "bash_network cmd = (case curl_method cmd of None \<Rightarrow> None
     | Some m \<Rightarrow> if m \<in> {''POST'', ''PUT'', ''DELETE'', ''PATCH''} \<and> curl_targets_remote cmd
         then Some (if m = ''PUT'' then ''mcp_put'' else if m = ''DELETE'' then ''mcp_delete'' else ''mcp_post'') else None)"

definition bash_vercel :: "string \<Rightarrow> string option" where
  "bash_vercel low = (if search (word ''vercel'') low \<and> (sublist ''deploy'' low \<or> sublist ''--prod'' low \<or> sublist ''--target'' low)
     then Some (if sublist ''--prod'' low then ''vercel_deploy_prod'' else ''vercel_deploy_preview'') else None)"

definition bash_calendar :: "string \<Rightarrow> string \<Rightarrow> string option" where
  "bash_calendar command low = (if sublist ''osascript'' low \<and> sublist ''calendar'' low
     then Some (if search ATTENDEE low then ''external_message''
       else if sublist CALENDAR_EVENT_SCRIPT command then ''calendar_event_create'' else AMBIGUOUS) else None)"

text \<open>The first answer of a list of rules.\<close>

fun first_some :: "'a option list \<Rightarrow> 'a option" where
  "first_some [] = None"
| "first_some (x # xs) = (case x of None \<Rightarrow> first_some xs | Some y \<Rightarrow> Some y)"

text \<open>None where \<^verbatim>\<open>_classify_git_push\<close> raises.\<close>

definition classify_bash :: "classifier_env \<Rightarrow> string \<Rightarrow> string option" where
  "classify_bash env command =
     (let cmd = strip command; low = lower cmd in
      case first_some [bash_secret low, bash_grant low, bash_network cmd] of Some k \<Rightarrow> Some k
      | None \<Rightarrow>
          if search GIT_PUSH low then classify_git_push cmd
          else case first_some [bash_vercel low, bash_calendar command low, declared_for (ce_declared env) cmd] of Some k \<Rightarrow> Some k
            | None \<Rightarrow> Some (if is_provably_local cmd then ''local_edit'' else AMBIGUOUS))"

section \<open>MCP tools\<close>

definition MONDAY_CREATE_OPS :: "string list" where
  "MONDAY_CREATE_OPS = [''create_item'', ''create_update'']"

definition MONDAY_STATUS_OPS :: "string list" where
  "MONDAY_STATUS_OPS = [''change_column_value'', ''change_multiple_column_values'', ''change_simple_column_value'',
     ''change_item_column_values'']"

definition MONDAY_KNOWN_OPS :: "string list" where
  "MONDAY_KNOWN_OPS = [''create_item'', ''create_update'', ''create_subitem'', ''create_board'', ''create_group'', ''create_column'',
     ''duplicate_item'', ''archive_item'', ''delete_item'', ''delete_update'', ''move_item_to_board'', ''move_item_to_group''] @ MONDAY_STATUS_OPS"

definition RAW_BODY_OP :: string where "RAW_BODY_OP = ''__raw_graphql_body__''"

definition monday_mutation_ops :: "builtins \<Rightarrow> string \<Rightarrow> pyval \<Rightarrow> string list option" where
  "monday_mutation_ops b tool_name ti =
     (let tn = lower tool_name; shown = (\<lambda>k. py_str b (dget_or ti k (PStr [])));
          body = strip (join '' '' (map shown [''query'', ''body'', ''graphql'', ''mutation''])) \<noteq> [] in
      if \<not> sublist ''monday'' tn \<and> \<not> (body \<and> sublist ''monday'' (lower (shown ''query''))) then None
      else case find (\<lambda>op. ends_with (''__'' @ op) tn \<or> ends_with (''_'' @ op) tn) MONDAY_KNOWN_OPS of
          Some op \<Rightarrow> Some [op]
        | None \<Rightarrow> if body \<or> sublist ''all_api'' tn \<or> sublist ''all_monday_api'' tn then Some [RAW_BODY_OP] else None)"

definition mcp_monday :: "builtins \<Rightarrow> string \<Rightarrow> pyval \<Rightarrow> string option" where
  "mcp_monday b tool_name ti = map_option (\<lambda>ops.
     if ops \<noteq> [] \<and> set ops \<subseteq> set MONDAY_CREATE_OPS then ''task_create''
     else if ops \<noteq> [] \<and> set ops \<subseteq> set MONDAY_STATUS_OPS then ''board_status'' else ''mcp_post'') (monday_mutation_ops b tool_name ti)"

definition name_part :: "string \<Rightarrow> rx" where
  "name_part w = seqs [Alt Begin (lit ''_''), lit w, Alt (lit ''_'') Finish]"

definition mcp_draft :: "classifier_env \<Rightarrow> string \<Rightarrow> pyval \<Rightarrow> string option" where
  "mcp_draft env tn ti =
     (if \<not> sublist ''queue_draft'' tn then None
      else let channel = lower (py_str (ce_builtins env) (dget_or ti ''channel'' (PStr [])));
          is_email = sublist ''email'' channel \<or> sublist ''mail'' channel in
        Some (if is_internal_recipient env (recipient_field ti) then (if is_email then ''internal_email'' else ''internal_message'')
          else (if is_email then ''external_email'' else ''external_message'')))"

definition mcp_grant :: "string \<Rightarrow> string option" where
  "mcp_grant tn =
     (if sublist ''complete_authentication'' tn \<or> sublist ''authenticate'' tn then Some ''oauth_grant''
      else if sublist ''oauth'' tn then Some ''oauth_grant''
      else if sublist ''credential'' tn \<and> (sublist ''create'' tn \<or> sublist ''grant'' tn) then Some ''token_grant''
      else if sublist ''create_project'' tn \<and> (sublist ''neon'' tn \<or> sublist ''vercel'' tn) then Some ''provision_paid''
      else if sublist ''buy'' tn \<or> sublist ''purchase'' tn \<or> sublist ''billing'' tn
        then Some (if sublist ''billing'' tn then ''billing'' else ''purchase'')
      else None)"

definition mcp_status :: "string \<Rightarrow> string option" where
  "mcp_status tn =
     (if sublist ''board'' tn \<and> \<not> sublist ''monday'' tn
         \<and> (sublist ''change_item_column'' tn \<or> sublist ''column_value'' tn \<or> sublist ''status'' tn) then Some ''board_status''
      else if sublist ''linear'' tn \<and> sublist ''update_issue'' tn then Some ''task_status_move''
      else if sublist ''dev_tasks'' tn \<and> (sublist ''updatetask'' tn \<or> sublist ''update_task'' tn) then Some ''task_status_move''
      else None)"

definition mcp_network :: "string \<Rightarrow> string option" where
  "mcp_network tn =
     (if search (name_part ''post'') tn \<or> sublist ''post_resource'' tn then Some ''mcp_post''
      else if search (name_part ''put'') tn then Some ''mcp_put''
      else if search (name_part ''delete'') tn then Some ''mcp_delete'' else None)"

definition classify_mcp :: "classifier_env \<Rightarrow> string \<Rightarrow> pyval \<Rightarrow> string option" where
  "classify_mcp env tool_name ti = (let tn = lower tool_name in
     first_some [mcp_draft env tn ti, mcp_grant tn, mcp_monday (ce_builtins env) tool_name ti, mcp_status tn, mcp_network tn])"

section \<open>The classification\<close>

definition classify_action :: "classifier_env \<Rightarrow> string \<Rightarrow> pyval \<Rightarrow> string option" where
  "classify_action env tool_name tool_input =
     (let ti = (if is_dict tool_input then tool_input else PDict []); command = command_of ti; path = file_path ti in
      if tool_name = ''Bash'' then (if command \<noteq> [] then classify_bash env command else Some AMBIGUOUS)
      else if tool_name \<in> {''Edit'', ''Write'', ''MultiEdit'', ''NotebookEdit''} then
        Some (if path \<noteq> [] \<and> is_dotenv path then ''env_write'' else if path \<noteq> [] \<and> is_tier2 path then ''tier2_note'' else ''local_edit'')
      else if tool_name \<in> {''Read'', ''Grep'', ''Glob'', ''LS''} then Some ''local_edit''
      else Some (case first_some [if starts_with ''mcp__'' tool_name \<or> sublist ''__'' tool_name then classify_mcp env tool_name ti else None,
          declared_for_tokens (ce_declared env) [tool_name]] of Some k \<Rightarrow> k | None \<Rightarrow> AMBIGUOUS))"

end
