(* ===== verification/Deploy.thy ===== *)
theory Deploy
  imports Classifier
begin

text \<open>
  The deploy classifier, \<^verbatim>\<open>framework/authority/deploy_classifier.py\<close>: its globs, the
  backstop pattern, the production check over the shared action classifier, and the verdict. The
  three injected signals are their results here, None for one that raises. The character sets of
  \<^verbatim>\<open>fnmatch\<close> are read as its documentation says, an empty range matching nothing.
\<close>

section \<open>Paths and globs\<close>

lemma take_eq_shorter: "take n s = p \<Longrightarrow> p \<noteq> [] \<Longrightarrow> 0 < k \<Longrightarrow> length s - k < length s"
  by (cases s) auto

function strip_here :: "string \<Rightarrow> string" where
  "strip_here s = (if starts_with ''./'' s then strip_here (drop 2 s) else s)"
  by pat_completeness auto
termination
  by (relation "measure length") (auto simp: starts_with_def dest: take_eq_shorter)

declare strip_here.simps [simp del]

definition normpath :: "string \<Rightarrow> string" where
  "normpath path = strip_here (map (\<lambda>c. if c = CHR 0x5C then CHR ''/'' else c) path)"

text \<open>A character set after its opening bracket: its content and what follows the closing one.\<close>

definition char_set :: "string \<Rightarrow> (string \<times> string) option" where
  "char_set s = (let h = (if starts_with ''!'' s then 1 else 0);
       k = h + (if starts_with '']'' (drop h s) then 1 else 0);
       n = k + length (takeWhile (\<lambda>c. c \<noteq> CHR '']'') (drop k s)) in
     if drop n s = [] then None else Some (take n s, drop (Suc n) s))"

fun set_has :: "string \<Rightarrow> char \<Rightarrow> bool" where
  "set_has [] c = False"
| "set_has (a # s) c =
     (if starts_with ''-'' s \<and> drop 1 s \<noteq> []
      then (of_char a \<le> (of_char c :: nat) \<and> of_char c \<le> (of_char (s ! 1) :: nat)) \<or> set_has (drop 2 s) c
      else a = c \<or> set_has s c)"

definition set_rx :: "string \<Rightarrow> rx" where
  "set_rx s = (if starts_with ''!'' s then One (\<lambda>c. \<not> set_has (drop 1 s) c) else One (set_has s))"

text \<open>\<^verbatim>\<open>fnmatch.translate\<close>, then a match of the whole text.\<close>

function fn_rx :: "string \<Rightarrow> rx" where
  "fn_rx [] = Eps"
| "fn_rx (c # cs) =
     (if c = CHR ''*'' then Seq (Star (One (\<lambda>_. True))) (fn_rx cs)
      else if c = CHR ''?'' then Seq (One (\<lambda>_. True)) (fn_rx cs)
      else if c = CHR ''['' then (case char_set cs of None \<Rightarrow> Seq (One (\<lambda>d. d = c)) (fn_rx cs)
        | Some (s, r) \<Rightarrow> Seq (set_rx s) (fn_rx r))
      else Seq (One (\<lambda>d. d = c)) (fn_rx cs))"
  by pat_completeness auto
termination
  by (relation "measure length") (auto simp: char_set_def Let_def split: if_splits)

definition fnmatchcase :: "string \<Rightarrow> string \<Rightarrow> bool" where
  "fnmatchcase path glob \<longleftrightarrow> list_ex (\<lambda>x. snd x = []) (ends (fn_rx glob) (None, path))"

text \<open>\<^verbatim>\<open>_glob_to_regex\<close>, after its anchor.\<close>

function glob_rx :: "string \<Rightarrow> rx" where
  "glob_rx [] = Finish"
| "glob_rx (c # cs) =
     (if c = CHR ''*'' then
        (if starts_with ''*'' cs then
           (if starts_with ''/'' (drop 1 cs) then Seq dots (Seq (maybe (Seq dots (lit ''/''))) (glob_rx (drop 2 cs)))
            else Seq dots (glob_rx (drop 1 cs)))
         else Seq (Star (One (\<lambda>d. d \<noteq> CHR ''/''))) (glob_rx cs))
      else if c = CHR ''?'' then Seq (One (\<lambda>d. d \<noteq> CHR ''/'')) (glob_rx cs)
      else Seq (One (\<lambda>d. d = c)) (glob_rx cs))"
  by pat_completeness auto
termination
  by (relation "measure length") auto

function glob_match :: "string \<Rightarrow> string \<Rightarrow> bool" where
  "glob_match path glob =
     (if \<not> sublist ''**'' glob then fnmatchcase path glob
      else if ends (glob_rx glob) (None, path) \<noteq> [] then True
      else if starts_with ''**/'' glob then glob_match path (drop 3 glob)
      else False)"
  by pat_completeness auto
termination
  by (relation "measure (\<lambda>(_, g). length g)") (auto simp: starts_with_def dest: take_eq_shorter)

declare glob_match.simps [simp del]

definition matches_any_glob :: "pyval \<Rightarrow> pyval \<Rightarrow> bool" where
  "matches_any_glob path globs \<longleftrightarrow> is_str path \<and> str_of path \<noteq> []
     \<and> list_ex (\<lambda>g. is_str g \<and> str_of g \<noteq> [] \<and> glob_match (normpath (str_of path)) (str_of g)) (elems globs)"

section \<open>The backstop\<close>

definition RISKY_TOKENS :: "string list" where
  "RISKY_TOKENS = [''auth'', ''authentication'', ''oauth'', ''jwt'', ''payment'', ''payments'', ''stripe'', ''billing'',
     ''checkout'', ''subscription'', ''secret'', ''secrets'', ''credential'', ''credentials'', ''token'']"

definition BACKSTOP :: rx where
  "BACKSTOP = Alt (Seq (lit ''.sql'') Finish)
     (Seq (Alt Begin (lit ''/'')) (Seq (words RISKY_TOKENS) (Star (One word_char))))"

definition backstop_high_risk :: "string \<Rightarrow> bool" where
  "backstop_high_risk path = search BACKSTOP (lower (normpath path))"

section \<open>The verdict\<close>

definition PROD_TARGET_TOKENS :: "string list" where
  "PROD_TARGET_TOKENS = [''prod'', ''production'', ''live'', ''main'', ''master'']"

definition names_prod :: "pyval \<Rightarrow> bool" where
  "names_prod v \<longleftrightarrow> is_str v \<and> list_ex (\<lambda>tok. sublist tok (lower (strip (str_of v)))) PROD_TARGET_TOKENS"

definition targets_prod :: "classifier_env \<Rightarrow> pyval \<Rightarrow> bool" where
  "targets_prod env ti \<longleftrightarrow>
     (if \<not> is_dict ti then True
      else if list_ex (\<lambda>k. names_prod (dget ti k)) [''target'', ''environment'', ''env''] then True
      else case classify_action env ''Bash'' ti of None \<Rightarrow> True | Some k \<Rightarrow> k \<in> set DEPLOY_PROD)"

definition low_risk_file :: "pyval \<Rightarrow> pyval \<Rightarrow> pyval \<Rightarrow> bool" where
  "low_risk_file safe high f \<longleftrightarrow>
     (if \<not> is_str f \<or> str_of f = [] then False
      else if matches_any_glob f high then False
      else if backstop_high_risk (str_of f) then False
      else matches_any_glob f safe)"

definition signal_is :: "(string \<Rightarrow> string) \<Rightarrow> string \<Rightarrow> pyval option \<Rightarrow> bool" where
  "signal_is fold_case want v \<longleftrightarrow> (case v of Some (PStr s) \<Rightarrow> fold_case (strip s) = want | _ \<Rightarrow> False)"

definition classify_deploy ::
  "classifier_env \<Rightarrow> pyval \<Rightarrow> pyval \<Rightarrow> pyval option \<Rightarrow> pyval option \<Rightarrow> pyval option \<Rightarrow> string" where
  "classify_deploy env ti cfg diff ci preview =
     (let safe = dget cfg ''safe_globs''; high = dget cfg ''high_risk_globs'' in
      if targets_prod env ti then ''propose_only''
      else if \<not> is_dict cfg \<or> \<not> is_list safe \<or> elems safe = [] \<or> \<not> is_list high then ''propose_only''
      else (case diff of Some (PList changed) \<Rightarrow>
          (if changed = [] \<or> \<not> list_all (low_risk_file safe high) changed then ''propose_only''
           else if \<not> signal_is lower ''success'' ci then ''propose_only''
           else if \<not> signal_is upper ''READY'' preview then ''propose_only''
           else ''auto'')
        | _ \<Rightarrow> ''propose_only''))"

end
