(* ===== verification/Classifier_Correct.thy ===== *)
theory Classifier_Correct
  imports Classifier Gate_Correct
begin

text \<open>
  What a classification is worth: its answers stay in the vocabulary, a declaration never covers a
  ceiling, a command is local only with a proof, an environment file is always a secret, and an
  outsider among the recipients keeps a draft on the ceiling of the gate.
\<close>

section \<open>Answers\<close>

lemma first_some_in: "first_some xs = Some y \<Longrightarrow> Some y \<in> set xs"
  by (induction xs) (auto split: option.splits)

lemma first_some_None: "first_some xs = None \<longleftrightarrow> set xs \<subseteq> {None}"
  by (induction xs) (auto split: option.splits)

named_theorems kind_rules \<open>the kinds a rule of the classifier can answer\<close>

lemma bash_secret_kind [kind_rules]: "bash_secret low = Some k \<Longrightarrow> k \<in> set SECRETS"
  by (auto simp: bash_secret_def SECRETS_def split: if_splits)

lemma bash_grant_kind [kind_rules]: "bash_grant low = Some k \<Longrightarrow> k \<in> set (CREDENTIALS_GRANT @ SPEND)"
  by (auto simp: bash_grant_def CREDENTIALS_GRANT_def SPEND_def split: if_splits)

lemma bash_network_kind [kind_rules]: "bash_network cmd = Some k \<Longrightarrow> k \<in> set NETWORK_WRITE"
  by (auto simp: bash_network_def NETWORK_WRITE_def split: if_splits option.splits)

lemma classify_git_push_kind [kind_rules]: "classify_git_push cmd = Some k \<Longrightarrow> k \<in> set DEPLOY"
  by (auto simp: classify_git_push_def push_kind_def DEPLOY_def DEPLOY_PROD_def Let_def split: if_splits)

lemma bash_vercel_kind [kind_rules]: "bash_vercel low = Some k \<Longrightarrow> k \<in> set DEPLOY"
  by (auto simp: bash_vercel_def DEPLOY_def DEPLOY_PROD_def split: if_splits)

lemma bash_calendar_kind [kind_rules]: "bash_calendar c low = Some k \<Longrightarrow> k \<in> set (EXTERNAL_COMMS @ CALENDAR_WRITE @ [AMBIGUOUS])"
  by (auto simp: bash_calendar_def EXTERNAL_COMMS_def CALENDAR_WRITE_def split: if_splits)

lemma mcp_draft_kind [kind_rules]: "mcp_draft env tn ti = Some k \<Longrightarrow> k \<in> set (INTERNAL_COMMS @ EXTERNAL_COMMS)"
  by (auto simp: mcp_draft_def INTERNAL_COMMS_def EXTERNAL_COMMS_def Let_def split: if_splits)

lemma mcp_grant_kind [kind_rules]: "mcp_grant tn = Some k \<Longrightarrow> k \<in> set (CREDENTIALS_GRANT @ SPEND)"
  by (auto simp: mcp_grant_def CREDENTIALS_GRANT_def SPEND_def split: if_splits)

lemma mcp_monday_kind [kind_rules]: "mcp_monday b tool ti = Some k \<Longrightarrow> k \<in> set (PM_WRITE @ NETWORK_WRITE)"
  by (auto simp: mcp_monday_def PM_WRITE_def NETWORK_WRITE_def split: if_splits)

lemma mcp_status_kind [kind_rules]: "mcp_status tn = Some k \<Longrightarrow> k \<in> set (PM_WRITE @ REVERSIBLE)"
  by (auto simp: mcp_status_def PM_WRITE_def REVERSIBLE_def split: if_splits)

lemma mcp_network_kind [kind_rules]: "mcp_network tn = Some k \<Longrightarrow> k \<in> set NETWORK_WRITE"
  by (auto simp: mcp_network_def NETWORK_WRITE_def split: if_splits)

lemma ACTION_TYPES_parts:
  "set ACTION_TYPES = set REVERSIBLE \<union> set PM_WRITE \<union> set CALENDAR_WRITE \<union> set INTERNAL_COMMS \<union> set EXTERNAL_COMMS
     \<union> set DEPLOY \<union> set SPEND \<union> set SECRETS \<union> set NETWORK_WRITE \<union> set CREDENTIALS_GRANT \<union> {AMBIGUOUS}"
  by (simp add: ACTION_TYPES_def Un_assoc)

lemma local_edit_kind: "''local_edit'' \<in> set REVERSIBLE" "''tier2_note'' \<in> set REVERSIBLE" "''env_write'' \<in> set SECRETS"
  by (simp_all add: REVERSIBLE_def SECRETS_def)

lemma declared_for_tokens_in: "declared_for_tokens ops ts = Some k \<Longrightarrow> k \<in> op_id ` set ops"
  by (auto simp: declared_for_tokens_def Let_def dest!: find_SomeD)

lemma declared_for_in: "declared_for ops cmd = Some k \<Longrightarrow> k \<in> op_id ` set ops"
  by (auto simp: declared_for_def dest: declared_for_tokens_in split: if_splits)

lemma declared_nothing [simp]: "declared_for_tokens [] ts = None" "declared_for [] cmd = None"
  by (simp_all add: declared_for_tokens_def declared_for_def)

section \<open>The rules of a command\<close>

text \<open>The rules before the declared operations, and what is left when none of them speaks.\<close>

definition bash_rules :: "string \<Rightarrow> string option" where
  "bash_rules command = (let cmd = strip command; low = lower cmd in
     first_some [bash_secret low, bash_grant low, bash_network cmd,
       if search GIT_PUSH low then classify_git_push cmd else first_some [bash_vercel low, bash_calendar command low]])"

definition bash_open :: "string \<Rightarrow> bool" where
  "bash_open command \<longleftrightarrow> bash_rules command = None \<and> \<not> search GIT_PUSH (lower (strip command))"

lemma classify_bash_rules:
  "classify_bash env command = (case bash_rules command of Some k \<Rightarrow> Some k
     | None \<Rightarrow> if \<not> bash_open command then None
         else Some (case declared_for (ce_declared env) (strip command) of Some k \<Rightarrow> k
           | None \<Rightarrow> if is_provably_local (strip command) then ''local_edit'' else AMBIGUOUS))"
  unfolding classify_bash_def bash_open_def bash_rules_def Let_def
  by (simp split: option.splits)

lemma bash_rules_kind:
  assumes "bash_rules c = Some k"
  shows "k \<in> set ACTION_TYPES - {''local_edit''}"
proof -
  have "k \<in> set (SECRETS @ CREDENTIALS_GRANT @ SPEND @ NETWORK_WRITE @ DEPLOY @ EXTERNAL_COMMS @ CALENDAR_WRITE @ [AMBIGUOUS])"
    using assms by (auto simp: bash_rules_def Let_def dest!: kind_rules split: option.splits if_splits)
  then show ?thesis
    unfolding ACTION_TYPES_parts by (auto simp: kind_sets)
qed

text \<open>The rules before the declared operations for any other tool.\<close>

definition tool_rules :: "classifier_env \<Rightarrow> string \<Rightarrow> pyval \<Rightarrow> string option" where
  "tool_rules env tool i = (let ti = (if is_dict i then i else PDict []); path = file_path ti in
     if tool = ''Bash'' then (if command_of ti = [] then Some AMBIGUOUS else None)
     else if tool \<in> {''Edit'', ''Write'', ''MultiEdit'', ''NotebookEdit''} then
       Some (if path \<noteq> [] \<and> is_dotenv path then ''env_write'' else if path \<noteq> [] \<and> is_tier2 path then ''tier2_note'' else ''local_edit'')
     else if tool \<in> {''Read'', ''Grep'', ''Glob'', ''LS''} then Some ''local_edit''
     else if starts_with ''mcp__'' tool \<or> sublist ''__'' tool then classify_mcp env tool ti else None)"

lemma classify_action_rules:
  "classify_action env tool i = (case tool_rules env tool i of Some k \<Rightarrow> Some k
     | None \<Rightarrow> if tool = ''Bash'' then classify_bash env (command_of (if is_dict i then i else PDict []))
         else Some (case declared_for_tokens (ce_declared env) [tool] of Some k \<Rightarrow> k | None \<Rightarrow> AMBIGUOUS))"
  unfolding classify_action_def tool_rules_def Let_def
  by (simp split: option.splits)

lemma classify_mcp_kind: "classify_mcp env tool ti = Some k \<Longrightarrow> k \<in> set ACTION_TYPES"
  unfolding classify_mcp_def Let_def ACTION_TYPES_parts
  by (drule first_some_in) (auto dest!: kind_rules kind_rules [OF sym])

lemma tool_rules_kind: "tool_rules env tool i = Some k \<Longrightarrow> k \<in> set ACTION_TYPES"
  using local_edit_kind unfolding tool_rules_def Let_def
  by (auto simp: ACTION_TYPES_parts dest: classify_mcp_kind split: if_splits)

text \<open>
  C1: the classification of a tool call is total on the vocabulary. Whatever the tool, the input and
  the environment, an answer is one of the action kinds of the framework or the identifier of an
  operation this deployment declared.
\<close>

theorem classified_kind:
  assumes "classify_action env tool i = Some k"
  shows "k \<in> set ACTION_TYPES \<union> op_id ` set (ce_declared env)"
proof (cases "tool_rules env tool i")
  case (Some r)
  then show ?thesis using assms tool_rules_kind by (auto simp: classify_action_rules)
next
  case None
  then show ?thesis
    using assms local_edit_kind(1)
    by (auto simp: classify_action_rules classify_bash_rules ACTION_TYPES_parts dest: bash_rules_kind declared_for_in
      declared_for_tokens_in split: option.splits if_splits)
qed

section \<open>Declarations\<close>

lemma mcp_declared [simp]: "classify_mcp (env\<lparr>ce_declared := ops\<rparr>) tool ti = classify_mcp env tool ti"
  by (simp add: classify_mcp_def mcp_draft_def is_internal_recipient_def internal_address_def internal_domain_def
    Let_def cong: list.pred_cong)

lemma tool_rules_declared [simp]: "tool_rules (env\<lparr>ce_declared := ops\<rparr>) tool i = tool_rules env tool i"
  by (simp add: tool_rules_def Let_def)

text \<open>
  A declaration covers no ceiling. What a deployment declares changes a classification only where
  the framework itself knows nothing more than that the call is a local edit or ambiguous, and then
  it becomes the identifier of a declared operation. Every other answer, and every refusal to answer,
  is what it would be with nothing declared.
\<close>

theorem declarations_never_soften:
  "classify_action env tool i = classify_action (env\<lparr>ce_declared := []\<rparr>) tool i
   \<or> (classify_action (env\<lparr>ce_declared := []\<rparr>) tool i \<in> {Some ''local_edit'', Some AMBIGUOUS}
      \<and> (\<exists>r \<in> set (ce_declared env). classify_action env tool i = Some (op_id r)))"
proof (cases "tool_rules env tool i")
  case (Some r)
  then show ?thesis by (simp add: classify_action_rules)
next
  case None
  then show ?thesis
    by (auto simp: classify_action_rules classify_bash_rules dest: declared_for_in declared_for_tokens_in
      split: option.splits)
qed

section \<open>Local commands\<close>

lemma declared_not_local:
  assumes "r \<in> set (declared_operations data)"
  shows "op_id r \<notin> set ACTION_TYPES"
proof -
  have "CHR ''/'' \<in> set (op_id r)"
    using assms declared_rows_sound declared_op_shape_slash by (auto simp: declared_operations_def)
  moreover have "list_all (\<lambda>a. CHR ''/'' \<notin> set a) ACTION_TYPES"
    by code_simp
  ultimately show ?thesis by (auto simp: list_all_iff)
qed

lemma not_dict_command [simp]: "\<not> is_dict i \<Longrightarrow> command_of i = []" "command_of (PDict []) = []"
  by (cases i; simp add: command_of_def dget_def dget_opt_def)+

lemma bash_command: "command_of (if is_dict i then i else PDict []) = command_of i"
  by simp

text \<open>
  C13: a shell command is a local edit only with a proof. When the classifier answers local edit for a
  shell call, over the operations parsed from the deployment's own file, then no rule of a ceiling,
  of a push, of a deploy or of a calendar speaks; the text opens no shell socket; the parser finds at
  least one program, and every program it finds is one of the local ones, or git with only local
  verbs after it.
\<close>

theorem local_edit_is_proven:
  assumes "classify_action env ''Bash'' i = Some ''local_edit''" "ce_declared env = declared_operations data"
  shows "(let cmd = strip (command_of i); low = lower cmd; programs = map bare_name (extract_invoked_binaries cmd) in
     bash_secret low = None \<and> bash_grant low = None \<and> bash_network cmd = None \<and> \<not> search GIT_PUSH low
     \<and> bash_vercel low = None \<and> bash_calendar (command_of i) low = None
     \<and> \<not> dev_socket cmd \<and> programs \<noteq> [] \<and> set programs \<subseteq> insert ''git'' (set LOCAL_ONLY_BINARIES)
     \<and> (''git'' \<in> set programs \<longrightarrow> (\<exists>tokens. shlex_split cmd = Some tokens \<and> git_subcommands tokens \<noteq> []
          \<and> set (git_subcommands tokens) \<subseteq> set GIT_LOCAL_SUBCOMMANDS)))"
proof -
  have l: "''local_edit'' \<in> set ACTION_TYPES"
    by (simp add: ACTION_TYPES_parts local_edit_kind)
  have b: "bash_rules (command_of i) = None" "is_provably_local (strip (command_of i))" "bash_open (command_of i)"
    using assms l bash_rules_kind declared_not_local
    by (fastforce simp: classify_action_rules tool_rules_def classify_bash_rules bash_command AMBIGUOUS_def Let_def
      dest: declared_for_in split: option.splits if_splits)+
  have "\<not> search GIT_PUSH (lower (strip (command_of i)))"
    using b(3) by (simp add: bash_open_def)
  with b(1) have r: "bash_secret (lower (strip (command_of i))) = None \<and> bash_grant (lower (strip (command_of i))) = None
      \<and> bash_network (strip (command_of i)) = None \<and> bash_vercel (lower (strip (command_of i))) = None
      \<and> bash_calendar (command_of i) (lower (strip (command_of i))) = None"
    by (simp add: bash_rules_def Let_def split: option.splits)
  show ?thesis
    using b r unfolding bash_open_def is_provably_local_def Let_def
    by (auto simp: list_ex_iff list_all_iff split: if_splits option.splits)
qed

section \<open>Samples\<close>

definition sample_env :: classifier_env where
  "sample_env = \<lparr>ce_domains = [''acme.com''], ce_policy = recipient_policy Absent, ce_declared = [],
     ce_builtins = \<lparr>bi_repr = \<lambda>_. [], bi_float = \<lambda>_. None\<rparr>\<rparr>"

definition shell_kind :: "string \<Rightarrow> string option" where
  "shell_kind c = classify_action sample_env ''Bash'' (PDict [(''command'', PStr c)])"

section \<open>Environment files\<close>

definition env_suffix_text :: "string \<Rightarrow> bool" where
  "env_suffix_text s \<longleftrightarrow> s = [] \<or> (\<exists>t. s = CHR ''.'' # t \<and> t \<noteq> [] \<and> list_all (\<lambda>c. word_char c \<or> c = CHR ''.'' \<or> c = CHR ''-'') t)"

lemma matches_env_suffix:
  assumes "env_suffix_text s"
  shows "\<exists>y. snd y = cs \<and> matches env_suffix (b, s @ cs) y"
proof -
  let ?p = "\<lambda>c. word_char c \<or> c = CHR ''.'' \<or> c = CHR ''-''"
  consider "s = []" | c t where "s = CHR ''.'' # c # t" "?p c" "list_all ?p t"
    using assms by (auto simp: env_suffix_text_def neq_Nil_conv)
  then show ?thesis
  proof cases
    case 1
    have "matches env_suffix (b, cs) (b, cs)"
      unfolding env_suffix_def maybe_def by (rule right [OF eps])
    then show ?thesis using 1 by (intro exI [of _ "(b, cs)"]) simp
  next
    case 2
    let ?y = "(if t = [] then Some c else Some (last t), cs)"
    have "matches (lit ''.'') (b, s @ cs) (Some (CHR ''.''), c # t @ cs)"
      using 2 by (simp add: matches_lit del: lit.simps)
    moreover have "matches (plus (One ?p)) (Some (CHR ''.''), c # t @ cs) ?y"
      unfolding plus_def using 2 by (intro seq [OF one [of ?p] matches_run]) simp_all
    ultimately have "matches env_suffix (b, s @ cs) ?y"
      unfolding env_suffix_def maybe_def by (intro left seq)
    then show ?thesis by (intro exI [of _ ?y]) simp
  qed
qed

lemma dotenv_found:
  assumes "low = a @ ''.env'' @ s @ b" "a = [] \<or> dotenv_before (last a)" "env_suffix_text s" "b = [] \<or> dotenv_after (hd b)"
  shows "search DOTENV_CMD low"
proof -
  let ?e = "''.env'' @ s @ b"
  obtain x p where x: "later (None, low) x" "matches (Alt Begin (One dotenv_before)) x (p, ?e)"
  proof (cases a rule: rev_cases)
    case Nil
    have "matches (Alt Begin (One dotenv_before)) (None, ?e) (None, ?e)"
      by (rule left [OF at_start])
    then show ?thesis using that [of "(None, ?e)" None] assms(1) Nil by simp
  next
    case (snoc a' c)
    let ?x = "(if a' = [] then None else Some (last a'), c # ?e)"
    have "matches (Alt Begin (One dotenv_before)) ?x (Some c, ?e)"
      using snoc assms(2) by (intro right one) simp
    moreover have "later (None, low) ?x"
      using assms(1) snoc by (auto simp: later_def)
    ultimately show ?thesis by (rule that [rotated])
  qed
  obtain y where y: "snd y = b" "matches env_suffix (Some (CHR ''v''), s @ b) y"
    using matches_env_suffix [OF assms(3)] by blast
  have l: "matches (lit ''.env'') (p, ?e) (Some (CHR ''v''), s @ b)"
    by (simp add: matches_lit del: lit.simps)
  obtain z where z: "matches (Alt Finish (One dotenv_after)) y z"
  proof (cases b)
    case Nil
    then have "y = (fst y, [])" using y(1) by (simp add: prod_eq_iff)
    then have "matches (Alt Finish (One dotenv_after)) y (fst y, [])"
      using at_end [of "[]" "fst y"] by (metis insertI1 left)
    then show ?thesis by (rule that)
  next
    case (Cons c cs)
    then have "y = (fst y, c # cs)" "dotenv_after c" using y(1) assms(4) by (simp_all add: prod_eq_iff)
    then have "matches (Alt Finish (One dotenv_after)) y (Some c, cs)"
      using one [of dotenv_after c "fst y" cs] by (metis right)
    then show ?thesis by (rule that)
  qed
  have "matches DOTENV_CMD x y"
    unfolding DOTENV_CMD_def seqs.simps by (rule seq [OF x(2) seq [OF l seq [OF y(2) ahead [OF z]]]])
  then show ?thesis using x(1) search_iff by blast
qed



section \<open>Recipients\<close>

text \<open>The policy under which every listed domain claims all of its subdomains and nobody is denied.\<close>

definition unbounded_policy :: recipient_policy where
  "unbounded_policy = \<lparr>rp_deny = [], rp_inherit = True\<rparr>"

lemma internal_facts:
  assumes "is_internal_recipient env r" "a \<in> set (addresses r)"
  shows "\<not> is_excluded (ce_policy env) a (after_last (CHR ''@'') a)" "internal_domain env (after_last (CHR ''@'') a)"
  using assms by (auto simp: is_internal_recipient_def internal_address_def list_all_iff Let_def)

lemma not_excluded:
  assumes "\<not> is_excluded p a host" "d \<in> set (rp_deny p)"
  shows "d \<noteq> DENY_ALL_RECIPIENTS" "CHR ''@'' \<in> set d \<Longrightarrow> a \<noteq> d" "CHR ''@'' \<notin> set d \<Longrightarrow> host \<noteq> d \<and> \<not> ends_with (''.'' @ d) host"
proof -
  have n: "\<not> (d = DENY_ALL_RECIPIENTS \<or> (if CHR ''@'' \<in> set d then a = d else host = d \<or> ends_with (''.'' @ d) host))"
    using assms unfolding is_excluded_def list_ex_iff by blast
  show "d \<noteq> DENY_ALL_RECIPIENTS" using n by simp
  show "CHR ''@'' \<in> set d \<Longrightarrow> a \<noteq> d" using n by simp
  show "CHR ''@'' \<notin> set d \<Longrightarrow> host \<noteq> d \<and> \<not> ends_with (''.'' @ d) host" using n by simp
qed

lemma address_at: "a \<in> set (addresses r) \<Longrightarrow> CHR ''@'' \<in> set a"
  by (simp add: addresses_def)

lemma host_plain: "d \<notin> set (after_last d a)"
  by (auto simp: after_last_def dest: set_takeWhileD)

text \<open>
  The exclusion file only takes recipients away. Let a recipient field count as internal under
  whatever the file holds, and take any of its addresses. The field would count as internal with no
  exclusion at all; the file is absent, and then the host is one of the listed domains exactly, or
  it parses, and then neither the address nor its host nor a domain the host lies under is denied,
  and the host is a listed domain exactly unless the captain ruled that subdomains inherit.
\<close>

theorem exclusions_only_narrow:
  assumes "is_internal_recipient (env\<lparr>ce_policy := recipient_policy f\<rparr>) r" "a \<in> set (addresses r)"
  shows "is_internal_recipient (env\<lparr>ce_policy := unbounded_policy\<rparr>) r
     \<and> (let host = after_last (CHR ''@'') a; p = recipient_policy f in
        (f = Absent \<or> (\<exists>data. f = Parsed data \<and> parse_recipient_exclusions data = Some p))
        \<and> a \<notin> set (rp_deny p) \<and> host \<notin> set (rp_deny p)
        \<and> (\<forall>d \<in> set (rp_deny p). CHR ''@'' \<notin> set d \<longrightarrow> \<not> ends_with (''.'' @ d) host)
        \<and> (host \<in> set (ce_domains env) \<or> (rp_inherit p \<and> (\<exists>d \<in> set (ce_domains env). ends_with (''.'' @ d) host))))"
proof -
  let ?p = "recipient_policy f"
  have wide: "internal_address (env\<lparr>ce_policy := unbounded_policy\<rparr>) x" if "internal_address (env\<lparr>ce_policy := ?p\<rparr>) x" for x
    using that by (auto simp: internal_address_def internal_domain_def is_excluded_def unbounded_policy_def Let_def list_ex_iff)
  have w: "is_internal_recipient (env\<lparr>ce_policy := unbounded_policy\<rparr>) r"
    using assms(1) wide by (auto simp: is_internal_recipient_def list_all_iff)
  note n = internal_facts [OF assms]
  note d = not_excluded [OF n(1)]
  have "DENY_ALL_RECIPIENTS \<notin> set (rp_deny ?p)"
    using d(1) by fastforce
  then have "f = Absent \<or> (\<exists>data. f = Parsed data \<and> parse_recipient_exclusions data = Some ?p)"
    by (auto simp: recipient_policy_def split: exclusion_file.splits option.splits)
  moreover have "a \<notin> set (rp_deny ?p)"
    using d(2) [of a] address_at [OF assms(2)] by auto
  moreover have "after_last (CHR ''@'') a \<notin> set (rp_deny ?p)"
    using d(3) [of "after_last (CHR ''@'') a"] host_plain by auto
  moreover have "\<forall>x \<in> set (rp_deny ?p). CHR ''@'' \<notin> set x \<longrightarrow> \<not> ends_with (''.'' @ x) (after_last (CHR ''@'') a)"
    using d(3) by auto
  moreover have "after_last (CHR ''@'') a \<in> set (ce_domains env)
      \<or> (rp_inherit ?p \<and> (\<exists>x \<in> set (ce_domains env). ends_with (''.'' @ x) (after_last (CHR ''@'') a)))"
    using n(2) by (auto simp: internal_domain_def list_ex_iff)
  ultimately show ?thesis
    using w by (simp add: Let_def)
qed

section \<open>Drafts at the gate\<close>

lemma draft_tool:
  assumes "sublist ''queue_draft'' (lower tool)"
  shows "tool \<notin> {''Bash'', ''Edit'', ''Write'', ''MultiEdit'', ''NotebookEdit'', ''Read'', ''Grep'', ''Glob'', ''LS''}"
proof -
  have "list_all (\<lambda>t. \<not> sublist ''queue_draft'' (lower t)) [''Bash'', ''Edit'', ''Write'', ''MultiEdit'', ''NotebookEdit'', ''Read'', ''Grep'', ''Glob'', ''LS'']"
    by code_simp
  then show ?thesis using assms by auto
qed

lemma outsider_external:
  assumes "sublist ''queue_draft'' (lower tool)" "starts_with ''mcp__'' tool \<or> sublist ''__'' tool" "is_dict input"
    and "a \<in> set (addresses (recipient_field input))" "\<not> internal_address env a"
  shows "the (classify_action env tool input) \<in> set EXTERNAL_COMMS"
proof -
  have "\<not> is_internal_recipient env (recipient_field input)"
    using assms(4,5) by (auto simp: is_internal_recipient_def list_all_iff)
  then obtain k where "mcp_draft env (lower tool) input = Some k" "k \<in> set EXTERNAL_COMMS"
    using assms(1) by (auto simp: mcp_draft_def EXTERNAL_COMMS_def Let_def)
  then show ?thesis
    using draft_tool [OF assms(1)] assms(2,3) by (auto simp: classify_action_def classify_mcp_def Let_def)
qed


theorem classified_kind_witness:
  "''env_write'' \<in> set ACTION_TYPES \<union> op_id ` set (ce_declared sample_env)"
proof (rule classified_kind)
  show "classify_action sample_env ''Write'' (PDict [(''file_path'', PStr ''app/.env'')]) = Some ''env_write''"
    by code_simp
qed

theorem local_edit_is_proven_witness:
  "map bare_name (extract_invoked_binaries ''ls /'') \<noteq> []
   \<and> set (map bare_name (extract_invoked_binaries ''ls /'')) \<subseteq> insert ''git'' (set LOCAL_ONLY_BINARIES)"
proof -
  have "classify_action sample_env ''Bash'' (PDict [(''command'', PStr ''ls /'')]) = Some ''local_edit''"
      "ce_declared sample_env = declared_operations PNone"
      "strip (command_of (PDict [(''command'', PStr ''ls /'')])) = ''ls /''"
    by code_simp+
  from local_edit_is_proven [OF this(1,2), unfolded this(3)] show ?thesis
    by (simp only: Let_def) blast
qed

definition exclusions :: pyval where
  "exclusions = PDict [(''denylist'', PList [PDict [(''address'', PStr ''all@acme.com'')]])]"

theorem exclusions_only_narrow_witness:
  "is_internal_recipient (sample_env\<lparr>ce_policy := unbounded_policy\<rparr>) ''Ann@acme.com''
   \<and> ''ann@acme.com'' \<notin> set (rp_deny (recipient_policy (Parsed exclusions)))"
proof -
  have "is_internal_recipient (sample_env\<lparr>ce_policy := recipient_policy (Parsed exclusions)\<rparr>) ''Ann@acme.com''"
      "''ann@acme.com'' \<in> set (addresses ''Ann@acme.com'')"
    by code_simp+
  from exclusions_only_narrow [OF this] show ?thesis
    by (simp only: Let_def) blast
qed

definition sample_draft :: pyval where
  "sample_draft = PDict [(''to'', PStr ''ann@example.com''), (''channel'', PStr ''email'')]"

definition draft_gate :: gate_world where
  "draft_gate = sample_gate\<lparr>gt_classify := Some (\<lambda>t i. the (classify_action sample_env t i))\<rparr>"

lemma draft_allowed: "fst (eval_authority_matrix draft_gate shipped_policy ''mcp__brain__queue_draft'' sample_draft ''cos'' sample_state) = Allow"
  by code_simp


section \<open>Commands the rules misjudge\<close>

text \<open>
  Everything after the first \<^verbatim>\<open>push\<close> counts as an argument of the push: what follows the push
  on the line, or a second branch, hides the production branch.
\<close>

lemma hidden_main_push: "shell_kind ''git push a main;'' = Some ''git_push_nonmain''"
  by code_simp

lemma push_main_kind:
  "classify_git_push ''git push a main'' = Some ''git_push_main''"
  "classify_git_push ''git push origin main && echo done'' = Some ''git_push_nonmain''"
  "classify_git_push ''git push origin main next'' = Some ''git_push_nonmain''"
  by code_simp+

text \<open>A push written in capitals matches on the lowered text and is then split on the original.\<close>

lemma capital_push_raises: "search GIT_PUSH (lower ''git PUSH pushed'')" "classify_git_push ''git PUSH pushed'' = None"
  by code_simp+

text \<open>An input redirection is not among the characters that may stand before an environment file.\<close>

lemma redirected_dotenv_local: "shell_kind ''nl <.env'' = Some ''local_edit''"
  by code_simp

text \<open>A host that only begins like a local one counts as local.\<close>

lemma local_lookalike:
  "bash_network ''curl -d x http://ab.com'' = Some ''mcp_post''" "bash_network ''curl -d x http://localhost.com'' = None"
  by code_simp+

text \<open>The tools that only read never look at the path they are given.\<close>

lemma read_of_dotenv_local:
  "classify_action env ''Read'' (PDict [(''file_path'', PStr ''app/.env'')]) = Some ''local_edit''"
  by (simp add: classify_action_def Let_def)

end
