(* ===== verification/Deploy_Correct.thy ===== *)
theory Deploy_Correct
  imports Deploy Classifier_Correct
begin

text \<open>
  The globs of the shipped policy read as plain string tests, and an automatic deploy verdict has
  none of the listed risks in it.
\<close>

section \<open>Globs\<close>

definition plain_glob :: "string \<Rightarrow> bool" where
  "plain_glob = list_all (\<lambda>c. c \<notin> {CHR ''*'', CHR ''?'', CHR ''['', CHR ''/'', CHR 0x0A})"

lemma plain_glob_Cons [simp]: "plain_glob [] \<longleftrightarrow> True"
  "plain_glob (c # s) \<longleftrightarrow> c \<notin> {CHR ''*'', CHR ''?'', CHR ''['', CHR ''/'', CHR 0x0A} \<and> plain_glob s"
  by (simp_all add: plain_glob_def)

lemma plain_glob_set: "plain_glob e \<Longrightarrow> c \<in> {CHR ''*'', CHR ''?'', CHR ''['', CHR ''/'', CHR 0x0A} \<Longrightarrow> c \<notin> set e"
  by (auto simp: plain_glob_def list_all_iff)

lemma inner_run [simp]: "inner dots" by (simp add: dots_def)

lemma inner_glob [simp]: "inner (glob_rx g)"
  by (induction g rule: glob_rx.induct) (simp_all add: dots_def maybe_def)

lemma inner_set [simp]: "inner (set_rx s)"
  by (simp add: set_rx_def)

lemma inner_fn [simp]: "inner (fn_rx g)"
  by (induction g rule: fn_rx.induct) (auto split: option.splits)

lemma glob_plain: "plain_glob d \<Longrightarrow> reads (glob_rx (d @ g)) s t \<longleftrightarrow> (\<exists>u. s = d @ u \<and> reads (glob_rx g) u t)"
proof (induction d arbitrary: s)
  case (Cons c d)
  then show ?case by (auto simp: reads_seq)
qed simp

lemma fn_plain: "plain_glob d \<Longrightarrow> reads (fn_rx d) s t \<longleftrightarrow> s = d @ t"
proof (induction d arbitrary: s)
  case Nil
  show ?case by (auto simp: reads_def intro: eps)
next
  case (Cons c d)
  then show ?case by (auto simp: reads_seq)
qed

lemma fnmatchcase_reads: "fnmatchcase path g \<longleftrightarrow> reads (fn_rx g) path []"
proof -
  have "fnmatchcase path g \<longleftrightarrow> (\<exists>x. matches (fn_rx g) (None, path) x \<and> snd x = [])"
    by (simp only: fnmatchcase_def list_ex_iff Bex_def ends_iff)
  also have "\<dots> \<longleftrightarrow> reads (fn_rx g) path []"
    unfolding reads_iff [OF inner_fn, of _ _ _ None] by force
  finally show ?thesis .
qed

lemma reads_dots: "CHR 0x0A \<notin> set s \<Longrightarrow> reads dots s t \<longleftrightarrow> (\<exists>w. s = w @ t)"
  by (auto simp: dots_def list_all_iff)

lemma plain_no_stars: "plain_glob e \<Longrightarrow> \<not> sublist ''**'' e" "plain_glob e \<Longrightarrow> \<not> sublist ''**'' (CHR ''*'' # e)"
  using plain_glob_set [of e "CHR ''*''"] by (auto simp: sublist_def Cons_eq_append_conv)

lemma finish_line: "CHR 0x0A \<notin> set s \<Longrightarrow> reads Finish s t \<longleftrightarrow> s = [] \<and> t = []"
  by auto

lemma glob_any: "CHR 0x0A \<notin> set s \<Longrightarrow> reads (glob_rx ''**'') s t \<longleftrightarrow> t = []"
  by (auto simp: reads_seq reads_dots starts_with_def)

lemma glob_tree: "CHR 0x0A \<notin> set s \<Longrightarrow> reads (glob_rx ''/**'') s t \<longleftrightarrow> t = [] \<and> (\<exists>w. s = CHR ''/'' # w)"
proof -
  assume s: "CHR 0x0A \<notin> set s"
  have "glob_rx ''/**'' = Seq (One (\<lambda>d. d = CHR ''/'')) (glob_rx ''**'')" by simp
  then show ?thesis using s by (auto simp: reads_seq glob_any simp del: glob_rx.simps)
qed

lemma glob_match_regex:
  "sublist ''**'' g \<Longrightarrow> glob_match path g \<longleftrightarrow> (\<exists>t. reads (glob_rx g) path t) \<or> (starts_with ''**/'' g \<and> glob_match path (drop 3 g))"
  by (subst glob_match.simps) (auto simp: ends_reads)

lemma plain_no_slash: "plain_glob d \<Longrightarrow> \<not> starts_with ''**/'' (d @ g) \<or> d = []"
  by (cases d) (auto simp: starts_with_def)

lemma reads_leading:
  assumes "CHR 0x0A \<notin> set s" "inner R"
  shows "(\<exists>t. reads (Seq dots (Seq (maybe (Seq dots (lit ''/''))) R)) s t) \<longleftrightarrow> (\<exists>u v. s = u @ v \<and> (\<exists>t. reads R v t))"
proof -
  have m: "inner (maybe (Seq dots (lit ''/'')))"
    by (simp add: maybe_def del: lit.simps)
  have slash: "reads (Seq dots (lit ''/'')) x v \<longleftrightarrow> (\<exists>w. x = w @ ''/'' @ v)" if "CHR 0x0A \<notin> set x" for x v
    using that by (auto simp: reads_seq reads_dots simp del: lit.simps)
  have "(\<exists>t. reads (Seq dots (Seq (maybe (Seq dots (lit ''/''))) R)) s t)
      \<longleftrightarrow> (\<exists>u x v t. s = u @ x \<and> (x = v \<or> reads (Seq dots (lit ''/'')) x v) \<and> reads R v t)"
    using assms m by (auto simp: reads_seq reads_dots reads_maybe simp del: lit.simps)
  also have "\<dots> \<longleftrightarrow> (\<exists>u v t. s = u @ v \<and> reads R v t)"
  proof
    assume "\<exists>u x v t. s = u @ x \<and> (x = v \<or> reads (Seq dots (lit ''/'')) x v) \<and> reads R v t"
    then obtain u x v t where h: "s = u @ x" "x = v \<or> reads (Seq dots (lit ''/'')) x v" "reads R v t"
      by blast
    have "CHR 0x0A \<notin> set x" using assms(1) h(1) by simp
    then obtain w where "x = w @ v"
      using h(2) slash [of x v] by (metis append_Nil append_assoc)
    then have "s = (u @ w) @ v" using h(1) by simp
    then show "\<exists>u v t. s = u @ v \<and> reads R v t" using h(3) by blast
  qed blast
  finally show ?thesis by blast
qed

lemma glob_ext: "plain_glob e \<Longrightarrow> CHR 0x0A \<notin> set s \<Longrightarrow> reads (glob_rx e) s t \<longleftrightarrow> s = e \<and> t = []"
  using glob_plain [of e "[]" s t] by (auto simp: finish_line simp del: reads_finish)

lemma leading_stars: "sublist ''**'' (''**/'' @ x)" "sublist ''**'' (''**/*'' @ x)"
  unfolding sublist_def by (rule exI [of _ "[]"], rule exI [of _ "''/'' @ x"], simp)
    (rule exI [of _ "[]"], rule exI [of _ "''/*'' @ x"], simp)

lemma ends_with_iff: "ends_with e s \<longleftrightarrow> (\<exists>w. s = w @ e)"
proof
  assume "ends_with e s"
  then have "s = take (length s - length e) s @ e"
    unfolding ends_with_def by (metis append_take_drop_id)
  then show "\<exists>w. s = w @ e" by blast
qed (auto simp: ends_with_def)

lemma glob_match_ext:
  assumes "plain_glob e" "CHR 0x0A \<notin> set path"
  shows "glob_match path (''**/*'' @ e) \<longleftrightarrow> ends_with e path"
proof -
  let ?R = "Seq (Star (One (\<lambda>d. d \<noteq> CHR ''/''))) (glob_rx e)"
  have e: "\<not> starts_with ''*'' e"
    using assms(1) by (cases e) (auto simp: starts_with_def)
  then have g: "glob_rx (''**/*'' @ e) = Seq dots (Seq (maybe (Seq dots (lit ''/''))) ?R)"
    by (simp add: starts_with_def)
  have R: "(\<exists>t. reads ?R v t) \<longleftrightarrow> (\<exists>w. list_all (\<lambda>d. d \<noteq> CHR ''/'') w \<and> v = w @ e)" if "CHR 0x0A \<notin> set v" for v
  proof -
    have "(\<exists>t. reads ?R v t) \<longleftrightarrow> (\<exists>t w u. list_all (\<lambda>d. d \<noteq> CHR ''/'') w \<and> v = w @ u \<and> reads (glob_rx e) u t)"
      by (simp add: reads_seq) blast
    also have "\<dots> \<longleftrightarrow> (\<exists>w. list_all (\<lambda>d. d \<noteq> CHR ''/'') w \<and> v = w @ e)"
      using that glob_ext [OF assms(1)] by (metis UnCI set_append)
    finally show ?thesis .
  qed
  have long: "(\<exists>t. reads (glob_rx (''**/*'' @ e)) path t) \<longleftrightarrow> (\<exists>w. path = w @ e)"
  proof
    assume "\<exists>t. reads (glob_rx (''**/*'' @ e)) path t"
    then obtain u v where uv: "path = u @ v" "\<exists>t. reads ?R v t"
      unfolding g using reads_leading [OF assms(2), of ?R] by auto
    then obtain w where "v = w @ e" using R [of v] assms(2) by auto
    then show "\<exists>w. path = w @ e" using uv(1) by (metis append_assoc)
  next
    assume "\<exists>w. path = w @ e"
    then obtain w where w: "path = w @ e" by blast
    have "\<exists>t. reads ?R e t" using R [of e] w assms(2) by (auto intro: exI [of _ "[]"])
    then show "\<exists>t. reads (glob_rx (''**/*'' @ e)) path t"
      unfolding g using reads_leading [OF assms(2), of ?R] w by auto
  qed
  have short: "glob_match path (''*'' @ e) \<longleftrightarrow> (\<exists>w. path = w @ e)"
    using plain_no_stars(2) [OF assms(1)]
    by (subst glob_match.simps) (simp add: fnmatchcase_reads reads_seq fn_plain [OF assms(1)] list_all_iff)
  have "sublist ''**'' (''**/*'' @ e)"
    by (rule leading_stars)
  then show ?thesis
    using long short by (auto simp: glob_match_regex ends_with_iff starts_with_def simp del: glob_rx.simps)
qed

text \<open>
  The globs of the shipped policy are plain tests on the path. For a path without a line break
  and plain names, \<^verbatim>\<open>dir/**\<close> holds exactly when the path starts with \<^verbatim>\<open>dir/\<close>, \<^verbatim>\<open>**/*ext\<close>
  exactly when it ends with the extension, and \<^verbatim>\<open>**/dir/**\<close> exactly when \<^verbatim>\<open>dir/\<close> occurs
  anywhere in it, at the start of a segment or not.
\<close>

theorem shipped_globs:
  assumes "plain_glob d" "d \<noteq> []" "plain_glob e" "CHR 0x0A \<notin> set path"
  shows "(glob_match path (d @ ''/**'') \<longleftrightarrow> starts_with (d @ ''/'') path)
     \<and> (glob_match path (''**/*'' @ e) \<longleftrightarrow> ends_with e path)
     \<and> (glob_match path (''**/'' @ d @ ''/**'') \<longleftrightarrow> sublist (d @ ''/'') path)"
proof -
  have reads_tree: "reads (glob_rx (d @ ''/**'')) s t \<longleftrightarrow> t = [] \<and> prefix (d @ ''/'') s" if "CHR 0x0A \<notin> set s" for s t
    using that by (auto simp: glob_plain [OF assms(1)] glob_tree prefix_def simp del: glob_rx.simps)
  have tree: "glob_match path (d @ ''/**'') \<longleftrightarrow> prefix (d @ ''/'') path"
  proof -
    have "sublist ''**'' (d @ ''/**'')"
      by (metis append_Cons append_Nil append_assoc sublist_appendI append.right_neutral)
    moreover have "\<not> starts_with ''**/'' (d @ ''/**'')"
      using assms(1,2) plain_no_slash by blast
    ultimately show ?thesis
      using assms(4) by (simp add: glob_match_regex reads_tree del: glob_rx.simps)
  qed
  have anywhere: "glob_match path (''**/'' @ d @ ''/**'') \<longleftrightarrow> sublist (d @ ''/'') path"
  proof -
    have "glob_rx (''**/'' @ d @ ''/**'') = Seq dots (Seq (maybe (Seq dots (lit ''/''))) (glob_rx (d @ ''/**'')))"
      by (simp add: starts_with_def)
    then have "(\<exists>t. reads (glob_rx (''**/'' @ d @ ''/**'')) path t)
        \<longleftrightarrow> (\<exists>u v. path = u @ v \<and> (\<exists>t. reads (glob_rx (d @ ''/**'')) v t))"
      using reads_leading [OF assms(4), of "glob_rx (d @ ''/**'')"] by simp
    also have "\<dots> \<longleftrightarrow> (\<exists>u v. path = u @ v \<and> prefix (d @ ''/'') v)"
      using assms(4) reads_tree by (metis Un_iff set_append)
    also have "\<dots> \<longleftrightarrow> sublist (d @ ''/'') path"
      by (auto simp: sublist_def prefix_def)
    finally have l: "(\<exists>t. reads (glob_rx (''**/'' @ d @ ''/**'')) path t) \<longleftrightarrow> sublist (d @ ''/'') path" .
    have "sublist ''**'' (''**/'' @ d @ ''/**'')"
      by (rule leading_stars)
    then show ?thesis
      using tree l by (auto simp: glob_match_regex prefix_imp_sublist starts_with_def simp del: glob_rx.simps)
  qed
  show ?thesis
    using tree anywhere glob_match_ext [OF assms(3,4)] by (simp add: starts_with_prefix)
qed

theorem shipped_globs_witness:
  "glob_match ''framework/docs/a.md'' ''docs/**'' = starts_with ''docs/'' ''framework/docs/a.md''
   \<and> glob_match ''framework/docs/a.md'' ''**/*.md'' = ends_with ''.md'' ''framework/docs/a.md''"
proof -
  have "plain_glob ''docs''" "plain_glob ''.md''" "CHR 0x0A \<notin> set ''framework/docs/a.md''"
    by code_simp+
  from shipped_globs [OF this(1) _ this(2,3)] show ?thesis by simp
qed

section \<open>The verdict\<close>

lemma backstop_found:
  assumes "lower (normpath path) = a @ tok @ b" "tok \<in> set RISKY_TOKENS" "a = [] \<or> last a = CHR ''/''"
  shows "backstop_high_risk path"
proof -
  obtain x p where x: "later (None, lower (normpath path)) x" "matches (Alt Begin (lit ''/'')) x (p, tok @ b)"
  proof (cases a rule: rev_cases)
    case Nil
    have "matches (Alt Begin (lit ''/'')) (None, tok @ b) (None, tok @ b)"
      by (rule left [OF at_start])
    then show ?thesis using that [of "(None, tok @ b)" None] assms(1) Nil by simp
  next
    case (snoc a' c)
    let ?x = "(if a' = [] then None else Some (last a'), c # tok @ b)"
    have "matches (lit ''/'') ?x (Some c, tok @ b)"
      using snoc assms(3) by (simp add: matches_lit del: lit.simps)
    then have "matches (Alt Begin (lit ''/'')) ?x (Some c, tok @ b)" by (rule right)
    moreover have "later (None, lower (normpath path)) ?x"
      using assms(1) snoc by (auto simp: later_def)
    ultimately show ?thesis by (rule that [rotated])
  qed
  let ?y = "(if tok = [] then p else Some (last tok), b)"
  have "matches (lit tok) (p, tok @ b) ?y"
    by (simp add: matches_lit del: lit.simps)
  then have w: "matches (words RISKY_TOKENS) (p, tok @ b) ?y"
    unfolding words_def matches_alts using assms(2) by (intro bexI [of _ "lit tok"]) (simp_all del: lit.simps)
  have "matches BACKSTOP x ?y"
    unfolding BACKSTOP_def by (rule right [OF seq [OF x(2) seq [OF w star_done]]])
  then show ?thesis
    unfolding backstop_high_risk_def using x(1) search_iff by blast
qed

lemma auto_parts:
  assumes "classify_deploy env ti cfg diff ci preview = ''auto''"
  shows "\<not> targets_prod env ti" "signal_is lower ''success'' ci" "signal_is upper ''READY'' preview"
    "\<exists>changed. diff = Some (PList changed) \<and> changed \<noteq> []
       \<and> (\<forall>f \<in> set changed. low_risk_file (dget cfg ''safe_globs'') (dget cfg ''high_risk_globs'') f)"
  using assms by (auto simp: classify_deploy_def Let_def list_all_iff split: if_splits option.splits pyval.splits)

lemma matches_any_glob_iff:
  "matches_any_glob (PStr path) globs
     \<longleftrightarrow> path \<noteq> [] \<and> (\<exists>g. PStr g \<in> set (elems globs) \<and> g \<noteq> [] \<and> glob_match (normpath path) g)"
  by (auto simp: matches_any_glob_def list_ex_iff is_str_iff)

lemma low_risk_facts:
  assumes "low_risk_file safe high f"
  shows "\<exists>path g. f = PStr path \<and> path \<noteq> [] \<and> PStr g \<in> set (elems safe) \<and> glob_match (normpath path) g
    \<and> (\<forall>h. PStr h \<in> set (elems high) \<longrightarrow> h = [] \<or> \<not> glob_match (normpath path) h) \<and> \<not> backstop_high_risk path"
proof -
  obtain path where f: "f = PStr path" "path \<noteq> []"
    using assms by (auto simp: low_risk_file_def is_str_iff split: if_splits)
  have "\<not> matches_any_glob (PStr path) high" "\<not> backstop_high_risk path" "matches_any_glob (PStr path) safe"
    using assms f by (auto simp: low_risk_file_def split: if_splits)
  then show ?thesis
    unfolding matches_any_glob_iff using f by blast
qed


definition sample_deploy :: pyval where
  "sample_deploy = PDict [(''safe_globs'', PList [PStr ''docs/**'']), (''high_risk_globs'', PList [PStr ''auth/**''])]"


section \<open>What still reads automatic\<close>

text \<open>
  The check against a production target relies on the action classifier, and misses what it misses.
  A directory glob matches inside a segment, and a single star outside a tree glob crosses segments.
\<close>

lemma hidden_main_deploys:
  "classify_deploy sample_env (PDict [(''command'', PStr ''git push a main;'')]) sample_deploy
     (Some (PList [PStr ''docs/a.md''])) (Some (PStr ''success'')) (Some (PStr ''READY'')) = ''auto''"
proof -
  have "\<not> targets_prod sample_env (PDict [(''command'', PStr ''git push a main;'')])"
    using hidden_main_push
    by (simp add: targets_prod_def shell_kind_def DEPLOY_PROD_def names_prod_def dget_def dget_opt_def)
  moreover have "low_risk_file (dget sample_deploy ''safe_globs'') (dget sample_deploy ''high_risk_globs'') (PStr ''docs/a.md'')"
      "signal_is lower ''success'' (Some (PStr ''success''))" "signal_is upper ''READY'' (Some (PStr ''READY''))"
    by code_simp+
  ultimately show ?thesis
    by (simp add: classify_deploy_def sample_deploy_def dget_def dget_opt_def)
qed

lemma globs_cross_segments:
  "glob_match ''src/live__tests__/run.ts'' ''**/__tests__/**'' \<and> glob_match ''.eslintrc.d/hooks/run.ts'' ''.eslintrc*''"
  by code_simp

end
