(* ===== verification/Work_Graph.thy ===== *)
theory Work_Graph
  imports Cabinet_Base
begin

text \<open>
  The work graph of \<^verbatim>\<open>cabinet/scripts/lib/work_graph.py\<close>: tasks with dependency edges,
  validation, the ready set, completion, the topological order and the serialised form. A dict is
  the list of its nodes in insertion order; the two dependency indices are read off the edges, which
  the source keeps in step. Where the source iterates a Python set, the order is an argument. JSON
  text is the value it encodes. Both searches take fuel; \<^verbatim>\<open>kahn_fuel\<close> and
  \<^verbatim>\<open>bfs_fuel\<close> are enough for every graph.
\<close>

section \<open>Nodes\<close>

datatype node_status = PENDING | READY | IN_PROGRESS | DONE | BLOCKED | FAILED

fun status_value :: "node_status \<Rightarrow> string" where
  "status_value PENDING = ''pending''"
| "status_value READY = ''ready''"
| "status_value IN_PROGRESS = ''in_progress''"
| "status_value DONE = ''done''"
| "status_value BLOCKED = ''blocked''"
| "status_value FAILED = ''failed''"

definition node_status_of :: "string \<Rightarrow> node_status option" where
  "node_status_of s = find (\<lambda>st. status_value st = s) [PENDING, READY, IN_PROGRESS, DONE, BLOCKED, FAILED]"

record work_node =
  wn_id :: string
  wn_description :: string
  wn_assigned_role :: "string option"
  wn_status :: node_status
  wn_verification_criteria :: "string list"
  wn_verification_passed :: "bool option"
  wn_evidence_required :: string
  wn_verifier_role :: "string option"
  wn_risk_level :: string
  wn_rollback_note :: string
  wn_budget_note :: string
  wn_captain_attention_estimate :: rat

text \<open>
  \<^verbatim>\<open>normalize_role_name\<close>: compatibility normalisation, removal of control and format
  characters, strip and casefold, on the code points below 256; the result is a list of code points,
  as a few of them normalise to higher ones.
\<close>

definition nfkc :: "nat \<Rightarrow> nat list" where
  "nfkc n = (if n = 160 then [32] else if n = 168 then [32, 776] else if n = 170 then [97]
     else if n = 175 then [32, 772] else if n = 178 then [50] else if n = 179 then [51]
     else if n = 180 then [32, 769] else if n = 181 then [956] else if n = 184 then [32, 807]
     else if n = 185 then [49] else if n = 186 then [111] else if n = 188 then [49, 8260, 52]
     else if n = 189 then [49, 8260, 50] else if n = 190 then [51, 8260, 52] else [n])"

definition control_or_format :: "nat \<Rightarrow> bool" where
  "control_or_format n \<longleftrightarrow> n < 32 \<or> (127 \<le> n \<and> n < 160) \<or> n = 173"

definition casefold :: "nat \<Rightarrow> nat list" where
  "casefold n = (if (65 \<le> n \<and> n \<le> 90) \<or> (192 \<le> n \<and> n \<le> 222 \<and> n \<noteq> 215) then [n + 32]
     else if n = 223 then [115, 115] else [n])"

definition normalize_role_name :: "string option \<Rightarrow> nat list" where
  "normalize_role_name value =
     (let text = filter (\<lambda>n. \<not> control_or_format n)
            (concat (map (\<lambda>c. nfkc (of_char c)) (case value of None \<Rightarrow> [] | Some s \<Rightarrow> s)));
          left = dropWhile (\<lambda>n. n = 32) text in
      concat (map casefold (rev (dropWhile (\<lambda>n. n = 32) (rev left)))))"

definition UNATTRIBUTED_ACTOR :: string where "UNATTRIBUTED_ACTOR = ''system''"

definition verification_is_independent :: "work_node \<Rightarrow> string option \<Rightarrow> bool" where
  "verification_is_independent node actor =
     (let who = normalize_role_name actor; owner = normalize_role_name (wn_assigned_role node);
          verifier = normalize_role_name (wn_verifier_role node) in
      who \<noteq> [] \<and> who \<noteq> map of_char UNATTRIBUTED_ACTOR
      \<and> who \<noteq> owner \<and> (verifier = [] \<or> who = verifier))"

text \<open>\<^verbatim>\<open>WorkNode.__post_init__\<close> raises for a node whose owner is its verifier.\<close>

definition some_text :: "string option \<Rightarrow> bool" where
  "some_text v \<longleftrightarrow> (case v of None \<Rightarrow> False | Some s \<Rightarrow> s \<noteq> [])"

definition self_verified :: "work_node \<Rightarrow> bool" where
  "self_verified node \<longleftrightarrow> some_text (wn_verifier_role node) \<and> some_text (wn_assigned_role node)
     \<and> normalize_role_name (wn_verifier_role node) = normalize_role_name (wn_assigned_role node)"

definition make_node :: "work_node \<Rightarrow> py_exc + work_node" where
  "make_node node = (if self_verified node
     then Inl (ValueError ''node names its owner as its own verifier_role'') else Inr node)"

section \<open>The graph\<close>

record work_graph =
  wg_nodes :: "work_node list"
  wg_edges :: "(string \<times> string) list"

definition empty_graph :: work_graph where
  "empty_graph = \<lparr>wg_nodes = [], wg_edges = []\<rparr>"

definition node_ids :: "work_graph \<Rightarrow> string list" where
  "node_ids g = map wn_id (wg_nodes g)"

definition node_of :: "work_graph \<Rightarrow> string \<Rightarrow> work_node option" where
  "node_of g nid = find (\<lambda>n. wn_id n = nid) (wg_nodes g)"

definition deps :: "work_graph \<Rightarrow> string \<Rightarrow> string list" where
  "deps g nid = map fst (filter (\<lambda>e. snd e = nid) (wg_edges g))"

definition rdeps :: "work_graph \<Rightarrow> string \<Rightarrow> string list" where
  "rdeps g nid = map snd (filter (\<lambda>e. fst e = nid) (wg_edges g))"

definition add_node :: "work_node \<Rightarrow> work_graph \<Rightarrow> py_exc + work_graph" where
  "add_node node g = (if wn_id node \<in> set (node_ids g) then Inl (ValueError ''Duplicate node ID'')
     else Inr (g\<lparr>wg_nodes := wg_nodes g @ [node]\<rparr>))"

definition add_edge :: "string \<Rightarrow> string \<Rightarrow> work_graph \<Rightarrow> py_exc + work_graph" where
  "add_edge from_id to_id g =
     (if from_id \<notin> set (node_ids g) then Inl (ValueError ''Unknown node'')
      else if to_id \<notin> set (node_ids g) then Inl (ValueError ''Unknown node'')
      else if from_id = to_id then Inl (ValueError ''Self-loop not allowed'')
      else Inr (if (from_id, to_id) \<in> set (wg_edges g) then g
        else g\<lparr>wg_edges := wg_edges g @ [(from_id, to_id)]\<rparr>))"

section \<open>Kahn's algorithm\<close>

definition in_degree :: "work_graph \<Rightarrow> string \<Rightarrow> int" where
  "in_degree g nid = int (length (filter (\<lambda>e. snd e = nid) (wg_edges g)))"

definition relax :: "string list \<Rightarrow> (string \<Rightarrow> int) \<times> string list \<Rightarrow> (string \<Rightarrow> int) \<times> string list" where
  "relax ts st = foldl (\<lambda>(deg, queue) t. let deg' = deg(t := deg t - 1) in
     (deg', if deg' t = 0 then queue @ [t] else queue)) st ts"

primrec kahn :: "nat \<Rightarrow> (string \<Rightarrow> string list) \<Rightarrow> (string \<Rightarrow> int) \<Rightarrow> string list \<Rightarrow> string list
    \<Rightarrow> ((string \<Rightarrow> int) \<times> string list) option" where
  "kahn 0 succ deg queue out = None"
| "kahn (Suc f) succ deg queue out = (case queue of
     [] \<Rightarrow> Some (deg, out)
   | nid # rest \<Rightarrow> (case relax (succ nid) (deg, rest) of (deg', queue') \<Rightarrow> kahn f succ deg' queue' (out @ [nid])))"

definition kahn_fuel :: "work_graph \<Rightarrow> nat" where
  "kahn_fuel g = Suc (length (wg_nodes g))"

definition roots :: "work_graph \<Rightarrow> string list" where
  "roots g = filter (\<lambda>nid. deps g nid = []) (node_ids g)"

primrec bfs :: "nat \<Rightarrow> (string \<Rightarrow> string list) \<Rightarrow> string list \<Rightarrow> string list \<Rightarrow> string list option" where
  "bfs 0 succ queue reachable = None"
| "bfs (Suc f) succ queue reachable = (case queue of
     [] \<Rightarrow> Some reachable
   | nid # rest \<Rightarrow>
       if nid \<in> set reachable then bfs f succ rest reachable
       else bfs f succ (rest @ filter (\<lambda>t. t \<notin> set (nid # reachable)) (succ nid)) (nid # reachable))"

definition bfs_fuel :: "work_graph \<Rightarrow> nat" where
  "bfs_fuel g = Suc (length (wg_nodes g) + length (wg_edges g))"

datatype graph_error = Cycle "string list" | No_Roots | Unreachable "string list" | No_Role string

text \<open>The argument is the iteration order of a Python set.\<close>

definition validate :: "(string list \<Rightarrow> string list) \<Rightarrow> work_graph \<Rightarrow> graph_error list" where
  "validate ord g =
     (if wg_nodes g = [] then []
      else let succ = \<lambda>nid. ord (rdeps g nid) in
        (case kahn (kahn_fuel g) succ (in_degree g) (filter (\<lambda>nid. in_degree g nid = 0) (node_ids g)) [] of
           None \<Rightarrow> []
         | Some (deg, out) \<Rightarrow>
             if length out \<noteq> length (wg_nodes g) then [Cycle (sort (filter (\<lambda>nid. 0 < deg nid) (node_ids g)))] else [])
        @ (if roots g = [] then [No_Roots]
           else (case bfs (bfs_fuel g) succ (ord (roots g)) [] of
             None \<Rightarrow> []
           | Some reachable \<Rightarrow> (let missed = filter (\<lambda>nid. nid \<notin> set reachable) (node_ids g) in
               if missed = [] then [] else [Unreachable (sort missed)])))
        @ List.map_filter (\<lambda>n. if deps g (wn_id n) \<noteq> [] \<and> wn_assigned_role n = None then Some (No_Role (wn_id n)) else None)
            (wg_nodes g))"

definition topological_sort :: "work_graph \<Rightarrow> py_exc + string list" where
  "topological_sort g =
     (case kahn (kahn_fuel g) (\<lambda>nid. sort (rdeps g nid)) (in_degree g)
        (sort (filter (\<lambda>nid. in_degree g nid = 0) (node_ids g))) [] of
        Some (_, out) \<Rightarrow> if length out \<noteq> length (wg_nodes g) then Inl (ValueError ''Graph contains a cycle'') else Inr out
      | None \<Rightarrow> Inl (ValueError ''fuel''))"

section \<open>Readiness and completion\<close>

definition status_in :: "work_graph \<Rightarrow> string \<Rightarrow> node_status option" where
  "status_in g nid = map_option wn_status (node_of g nid)"

definition ready_tasks :: "work_graph \<Rightarrow> work_node list" where
  "ready_tasks g = filter (\<lambda>n. wn_status n \<in> {PENDING, READY}
     \<and> list_all (\<lambda>d. status_in g d = Some DONE) (deps g (wn_id n))) (wg_nodes g)"

definition update_node :: "string \<Rightarrow> (work_node \<Rightarrow> work_node) \<Rightarrow> work_graph \<Rightarrow> work_graph" where
  "update_node nid f g = g\<lparr>wg_nodes := map (\<lambda>n. if wn_id n = nid then f n else n) (wg_nodes g)\<rparr>"

definition complete_task :: "string \<Rightarrow> bool \<Rightarrow> work_graph \<Rightarrow> py_exc + (work_node list \<times> work_graph)" where
  "complete_task nid passed g =
     (if nid \<notin> set (node_ids g) then Inl (ValueError ''Unknown node'')
      else let g' = update_node nid (\<lambda>n. n\<lparr>wn_verification_passed := Some passed,
             wn_status := (if passed then DONE else FAILED)\<rparr>) g in
        Inr (ready_tasks g', g'))"

section \<open>The serialised form\<close>

definition opt_str :: "string option \<Rightarrow> pyval" where
  "opt_str v = (case v of None \<Rightarrow> PNone | Some s \<Rightarrow> PStr s)"

definition str_opt :: "pyval \<Rightarrow> string option" where
  "str_opt v = (case v of PStr s \<Rightarrow> Some s | _ \<Rightarrow> None)"

definition opt_bool :: "bool option \<Rightarrow> pyval" where
  "opt_bool v = (case v of None \<Rightarrow> PNone | Some b \<Rightarrow> PBool b)"

definition bool_opt :: "pyval \<Rightarrow> bool option" where
  "bool_opt v = (case v of PBool b \<Rightarrow> Some b | _ \<Rightarrow> None)"

definition node_json :: "work_node \<Rightarrow> pyval" where
  "node_json n = PDict [(''id'', PStr (wn_id n)), (''description'', PStr (wn_description n)),
     (''assigned_role'', opt_str (wn_assigned_role n)), (''status'', PStr (status_value (wn_status n))),
     (''verification_criteria'', PList (map PStr (wn_verification_criteria n))),
     (''verification_passed'', opt_bool (wn_verification_passed n)),
     (''evidence_required'', PStr (wn_evidence_required n)), (''verifier_role'', opt_str (wn_verifier_role n)),
     (''risk_level'', PStr (wn_risk_level n)), (''rollback_note'', PStr (wn_rollback_note n)),
     (''budget_note'', PStr (wn_budget_note n)),
     (''captain_attention_estimate'', PFloat (wn_captain_attention_estimate n))]"

definition to_json :: "work_graph \<Rightarrow> pyval" where
  "to_json g = PDict [(''nodes'', PList (map node_json (wg_nodes g))),
     (''edges'', PList (map (\<lambda>(f, t). PDict [(''from'', PStr f), (''to'', PStr t)]) (wg_edges g)))]"

text \<open>A required key that is absent raises; the others have the defaults of the dataclass.\<close>

definition parse_node :: "pyval \<Rightarrow> py_exc + work_node" where
  "parse_node d =
     (if \<not> has_key d ''id'' \<or> \<not> has_key d ''description'' \<or> \<not> has_key d ''status'' then Inl (KeyError ''node'')
      else (case node_status_of (str_of (dget d ''status'')) of
          None \<Rightarrow> Inl (ValueError ''status'')
        | Some st \<Rightarrow> make_node \<lparr>wn_id = str_of (dget d ''id''), wn_description = str_of (dget d ''description''),
            wn_assigned_role = str_opt (dget d ''assigned_role''), wn_status = st,
            wn_verification_criteria = map str_of (elems (dget d ''verification_criteria'')),
            wn_verification_passed = bool_opt (dget d ''verification_passed''),
            wn_evidence_required = str_of (dget d ''evidence_required''),
            wn_verifier_role = str_opt (dget d ''verifier_role''),
            wn_risk_level = str_of (dget d ''risk_level''), wn_rollback_note = str_of (dget d ''rollback_note''),
            wn_budget_note = str_of (dget d ''budget_note''),
            wn_captain_attention_estimate = num_of (dget d ''captain_attention_estimate'')\<rparr>))"

fun parse_nodes :: "pyval list \<Rightarrow> work_graph \<Rightarrow> py_exc + work_graph" where
  "parse_nodes [] g = Inr g"
| "parse_nodes (d # ds) g = (case parse_node d of Inl e \<Rightarrow> Inl e
     | Inr n \<Rightarrow> (case add_node n g of Inl e \<Rightarrow> Inl e | Inr g' \<Rightarrow> parse_nodes ds g'))"

fun parse_edges :: "pyval list \<Rightarrow> work_graph \<Rightarrow> py_exc + work_graph" where
  "parse_edges [] g = Inr g"
| "parse_edges (d # ds) g =
     (if \<not> has_key d ''from'' \<or> \<not> has_key d ''to'' then Inl (KeyError ''edge'')
      else (case add_edge (str_of (dget d ''from'')) (str_of (dget d ''to'')) g of
          Inl e \<Rightarrow> Inl e | Inr g' \<Rightarrow> parse_edges ds g'))"

definition from_json :: "pyval \<Rightarrow> py_exc + work_graph" where
  "from_json d = (if \<not> has_key d ''nodes'' then Inl (KeyError ''nodes'')
     else (case parse_nodes (elems (dget d ''nodes'')) empty_graph of Inl e \<Rightarrow> Inl e
       | Inr g \<Rightarrow> if \<not> has_key d ''edges'' then Inl (KeyError ''edges'') else parse_edges (elems (dget d ''edges'')) g))"

end
