(* ===== verification/Event_Ledger.thy ===== *)
theory Event_Ledger
  imports Py_Text Iso_Time
begin

text \<open>
  The organisation's event ledger, \<^verbatim>\<open>framework/events/emitter.py\<close>: one append-only file of
  lines per day, written under a lock, read back in file order. A file is the list of its terminated
  lines and what follows the last newline; an interrupted append leaves a tail there, which the next
  append cuts off and every read skips. A line holds the event it decodes to. The two best-effort
  mirrors and the evidence stamp change neither the file nor what is read here and are left out.
\<close>

section \<open>Events\<close>

record org_event =
  ev_id :: string
  ev_type :: string
  ev_actor :: string
  ev_payload :: pyval
  ev_parent :: "string option"
  ev_created :: int

definition VALID_EVENT_TYPES :: "string list" where
  "VALID_EVENT_TYPES = [
    ''captain_goal_declared'', ''captain_outcome_ratified'', ''captain_decision_logged'',
    ''captain_boundary_set'', ''captain_gate_bounced'', ''role_created'', ''role_charter_changed'',
    ''role_capability_added'', ''role_capability_removed'', ''role_authority_changed'', ''role_suspended'',
    ''role_reactivated'', ''role_retired'', ''role_hat_assigned'', ''role_hat_removed'',
    ''role_hat_promoted'', ''mission_created'', ''mission_activated'', ''mission_completed'',
    ''mission_failed'', ''work_item_created'', ''work_item_assigned'', ''work_item_unroutable'',
    ''work_item_started'', ''work_item_completed'', ''work_item_failed'', ''work_item_verified'',
    ''work_item_claim_renewed'', ''work_item_claim_released'', ''subagent_completed'', ''policy_evaluated'',
    ''policy_blocked'', ''policy_updated'', ''ovi_snapshot_computed'', ''eval_run_started'', ''eval_passed'',
    ''eval_failed'', ''fidelity_case_evaluated'', ''fidelity_case_leak_detected'', ''fidelity_case_scored'',
    ''fidelity_case_labeled'', ''graduation_transition'', ''role_evolved'', ''skill_promoted'',
    ''self_improvement_loop_started'', ''self_improvement_loop_completed'', ''capability_gap_recorded'',
    ''capability_gap_merged'', ''capability_gap_classified'', ''capability_gap_proposed'',
    ''capability_gap_approved'', ''capability_gap_declined'', ''capability_gap_resolved'',
    ''self_proposal_prepared'', ''account_flow_surfaced'', ''trust_rung_proposed'', ''trust_rung_granted'',
    ''experience_recorded'', ''digest_published'', ''memory_claim_created'', ''memory_claim_superseded'',
    ''session_started'', ''session_ended'', ''notification_received'', ''kill_switch_activated'',
    ''kill_switch_deactivated'', ''spending_limit_reached'', ''cabinet_update_applied'',
    ''cabinet_update_refused'', ''cabinet_update_rolled_back'', ''posture_cap_narrowed'',
    ''posture_cap_cleared'', ''posture_changed'', ''germline_unlock_observed'', ''germline_relock_observed'',
    ''evidence_mirror_degraded'', ''outbox_queued'', ''outbox_dispatched'', ''outbox_failed'',
    ''need_filed'', ''need_approved'', ''need_granted'', ''need_denied'', ''need_snoozed'', ''need_expired'',
    ''need_escalated'', ''cap_alarm'', ''kind_unfrozen'', ''kind_frozen'', ''watchdog_outcome_failed'',
    ''doctor_verdict'', ''officer_session_started'', ''officer_session_ended'',
    ''officer_session_compacted'', ''officer_restarted'', ''officer_limit_wake'']"

definition new_event :: "string \<Rightarrow> int \<Rightarrow> string \<Rightarrow> string \<Rightarrow> pyval \<Rightarrow> string option \<Rightarrow> org_event" where
  "new_event uuid now etype actor payload parent =
     \<lparr>ev_id = uuid, ev_type = etype, ev_actor = actor, ev_payload = (if truthy payload then payload else PDict []),
      ev_parent = parent, ev_created = now\<rparr>"

section \<open>Files\<close>

datatype 'e line = Event 'e | Garbage            \<comment> \<open>a terminated line; Garbage does not decode\<close>
datatype 'e tail = Clean | Torn | Unended 'e     \<comment> \<open>after the last newline; Unended lacks only its newline\<close>

record 'e day_file =
  df_lines :: "'e line list"
  df_tail :: "'e tail"

definition no_file :: "'e day_file" where
  "no_file = \<lparr>df_lines = [], df_tail = Clean\<rparr>"

text \<open>The files in the order of their names, which is the order of their days.\<close>

type_synonym 'e ledger = "(int \<times> 'e day_file) list"

definition trim_torn_tail :: "'e day_file \<Rightarrow> 'e day_file" where
  "trim_torn_tail f = f\<lparr>df_tail := Clean\<rparr>"

text \<open>How far an append got: all of it, or a prefix of the line when the process died.\<close>

datatype reach = Written | Cut_Short | Cut_Newline | Not_Begun

definition append_line :: "'e \<Rightarrow> reach \<Rightarrow> 'e day_file \<Rightarrow> 'e day_file" where
  "append_line e r f = (let f' = trim_torn_tail f in case r of
     Written \<Rightarrow> f'\<lparr>df_lines := df_lines f' @ [Event e]\<rparr>
   | Cut_Short \<Rightarrow> f'\<lparr>df_tail := Torn\<rparr>
   | Cut_Newline \<Rightarrow> f'\<lparr>df_tail := Unended e\<rparr>
   | Not_Begun \<Rightarrow> f')"

fun on_day :: "int \<Rightarrow> ('e day_file \<Rightarrow> 'e day_file) \<Rightarrow> 'e ledger \<Rightarrow> 'e ledger" where
  "on_day d f [] = [(d, f no_file)]"
| "on_day d f ((d', x) # rest) =
     (if d = d' then (d, f x) # rest else if d < d' then (d, f no_file) # (d', x) # rest else (d', x) # on_day d f rest)"

definition write_to_log :: "int \<Rightarrow> 'e \<Rightarrow> reach \<Rightarrow> 'e ledger \<Rightarrow> 'e ledger" where
  "write_to_log now e r L = on_day (now div day_us) (append_line e r) L"

definition emit :: "string \<Rightarrow> int \<Rightarrow> reach \<Rightarrow> string \<Rightarrow> string \<Rightarrow> pyval \<Rightarrow> string option \<Rightarrow> org_event ledger
    \<Rightarrow> py_exc + (org_event \<times> org_event ledger)" where
  "emit uuid now r etype actor payload parent L =
     (if etype \<notin> set VALID_EVENT_TYPES then Inl (ValueError ''Unknown event type'')
      else let e = new_event uuid now etype actor payload parent in Inr (e, write_to_log now e r L))"

section \<open>Replay\<close>

text \<open>A terminated line that does not decode raises; an undecodable tail is skipped.\<close>

fun read_lines :: "'e line list \<Rightarrow> py_exc + 'e list" where
  "read_lines [] = Inr []"
| "read_lines (Garbage # ls) = Inl (ValueError ''JSONDecodeError'')"
| "read_lines (Event e # ls) = (case read_lines ls of Inl x \<Rightarrow> Inl x | Inr es \<Rightarrow> Inr (e # es))"

definition tail_events :: "'e tail \<Rightarrow> 'e list" where
  "tail_events t = (case t of Unended e \<Rightarrow> [e] | _ \<Rightarrow> [])"

definition read_file :: "'e day_file \<Rightarrow> py_exc + 'e list" where
  "read_file f = (case read_lines (df_lines f) of Inl x \<Rightarrow> Inl x | Inr es \<Rightarrow> Inr (es @ tail_events (df_tail f)))"

fun read_ledger :: "'e ledger \<Rightarrow> py_exc + 'e list" where
  "read_ledger [] = Inr []"
| "read_ledger ((_, f) # fs) = (case read_file f of Inl x \<Rightarrow> Inl x
     | Inr es \<Rightarrow> (case read_ledger fs of Inl x \<Rightarrow> Inl x | Inr es' \<Rightarrow> Inr (es @ es')))"

text \<open>The filter by type; the readers of this development pass no other.\<close>

definition of_types :: "string list \<Rightarrow> org_event list \<Rightarrow> org_event list" where
  "of_types types es = filter (\<lambda>e. types = [] \<or> ev_type e \<in> set types) es"

definition replay :: "string list \<Rightarrow> org_event ledger \<Rightarrow> py_exc + org_event list" where
  "replay types L = (case read_ledger L of Inl x \<Rightarrow> Inl x | Inr es \<Rightarrow> Inr (of_types types es))"

section \<open>The interface of an event log\<close>

text \<open>What the components that keep their state in the ledger rely on: an emit that returned is the
  last event of the next read.\<close>

locale event_log =
  fixes events :: "'s \<Rightarrow> 'e list option"
    and emit_to :: "'a \<Rightarrow> 'e \<Rightarrow> 's \<Rightarrow> 's"
    and ready :: "'a \<Rightarrow> 's \<Rightarrow> bool"
  assumes readable: "ready a s \<Longrightarrow> \<exists>es. events s = Some es"
    and emit_last: "ready a s \<Longrightarrow> events s = Some es \<Longrightarrow> events (emit_to a e s) = Some (es @ [e])"
    and emit_ready: "ready a s \<Longrightarrow> ready a (emit_to a e s)"
begin

lemma emits_last:
  "ready a s \<Longrightarrow> events s = Some es \<Longrightarrow> events (fold (emit_to a) new s) = Some (es @ new) \<and> ready a (fold (emit_to a) new s)"
proof (induction new arbitrary: s es)
  case (Cons e new)
  then show ?case
    using Cons.IH [OF emit_ready [OF Cons.prems(1)] emit_last [OF Cons.prems], of e] by simp
qed simp

end

section \<open>The files implement the log\<close>

text \<open>Healthy: every line decodes, the days are in order, and none lies after the writer's day.\<close>

definition healthy :: "int \<Rightarrow> 'e ledger \<Rightarrow> bool" where
  "healthy day L \<longleftrightarrow> sorted_wrt (<) (map fst L) \<and> (\<forall>(d, f) \<in> set L. d \<le> day \<and> Garbage \<notin> set (df_lines f))"

definition tail_of :: "int \<Rightarrow> 'e ledger \<Rightarrow> 'e list" where
  "tail_of day L = (case map_of L day of None \<Rightarrow> [] | Some f \<Rightarrow> tail_events (df_tail f))"

definition settled :: "int \<Rightarrow> 'e ledger \<Rightarrow> bool" where
  "settled day L \<longleftrightarrow> healthy day L \<and> tail_of day L = []"

lemma read_lines_ok: "Garbage \<notin> set ls \<Longrightarrow> \<exists>es. read_lines ls = Inr es"
  by (induction ls rule: read_lines.induct) auto

lemma read_lines_append: "read_lines ls = Inr es \<Longrightarrow> read_lines (ls @ [Event e]) = Inr (es @ [e])"
  by (induction ls arbitrary: es rule: read_lines.induct) (auto split: sum.splits)

lemma read_healthy: "healthy day L \<Longrightarrow> \<exists>es. read_ledger L = Inr es"
proof (induction L rule: read_ledger.induct)
  case (2 d f fs)
  then have "healthy day fs" by (auto simp: healthy_def)
  moreover obtain es where "read_lines (df_lines f) = Inr es"
    using 2(2) read_lines_ok by (fastforce simp: healthy_def)
  ultimately show ?case using 2 by (auto simp: read_file_def)
qed simp

lemma read_append:
  "read_ledger (L @ M) = (case read_ledger L of Inl x \<Rightarrow> Inl x
     | Inr es \<Rightarrow> (case read_ledger M of Inl x \<Rightarrow> Inl x | Inr es' \<Rightarrow> Inr (es @ es')))"
  by (induction L rule: read_ledger.induct) (auto split: sum.splits)

lemma on_day_new: "\<forall>(d', f) \<in> set L. d' < d \<Longrightarrow> on_day d g L = L @ [(d, g no_file)]"
  by (induction d g L rule: on_day.induct) auto

lemma on_day_last: "\<forall>(d', f) \<in> set L. d' < d \<Longrightarrow> on_day d g (L @ [(d, x)]) = L @ [(d, g x)]"
  by (induction d g L rule: on_day.induct) auto

text \<open>A healthy ledger at a day: the earlier files, and the file of the day, absent or not.\<close>

lemma healthy_split:
  assumes "healthy day L"
  obtains init f where "\<forall>(d', f) \<in> set init. d' < day" "healthy day init" "Garbage \<notin> set (df_lines f)"
    "L = init @ [(day, f)] \<or> L = init \<and> f = no_file"
proof (cases "L = [] \<or> fst (last L) < day")
  case True
  have "\<forall>(d', f) \<in> set L. d' < day"
  proof (cases L rule: rev_cases)
    case (snoc ys y)
    then show ?thesis
      using True assms by (auto simp: healthy_def sorted_wrt_append)
  qed simp
  then show ?thesis
    using that [of L no_file] assms by (simp add: no_file_def)
next
  case False
  then obtain ys d f where L: "L = ys @ [(d, f)]" "day \<le> d"
    by (cases L rule: rev_cases) (auto simp: not_less)
  then have "d = day" "\<forall>(d', f) \<in> set ys. d' < day" "healthy day ys" "Garbage \<notin> set (df_lines f)"
    using assms by (auto simp: healthy_def sorted_wrt_append)
  then show ?thesis
    using that [of ys f] L by simp
qed

definition written :: "'e \<Rightarrow> reach \<Rightarrow> 'e list" where
  "written e r = (if r = Written then [e] else [])"

definition visible :: "'e \<Rightarrow> reach \<Rightarrow> 'e list" where
  "visible e r = (if r \<in> {Written, Cut_Newline} then [e] else [])"

text \<open>What an append does to what is read: the day's unended tail goes, the line comes.\<close>

lemma write_effect:
  assumes "healthy (now div day_us) L"
  shows "\<exists>base. read_ledger L = Inr (base @ tail_of (now div day_us) L)
    \<and> read_ledger (write_to_log now e r L) = Inr (base @ visible e r)
    \<and> healthy (now div day_us) (write_to_log now e r L)
    \<and> tail_of (now div day_us) (write_to_log now e r L) = (if r = Cut_Newline then [e] else [])"
proof -
  let ?d = "now div day_us"
  obtain init f where init: "\<forall>(d', f) \<in> set init. d' < ?d" "healthy ?d init" and f: "Garbage \<notin> set (df_lines f)"
    and L: "L = init @ [(?d, f)] \<or> L = init \<and> f = no_file"
    by (rule healthy_split [OF assms])
  have new: "write_to_log now e r L = init @ [(?d, append_line e r f)]"
    using L on_day_new [OF init(1)] on_day_last [OF init(1)] by (auto simp: write_to_log_def)
  obtain es where es: "read_ledger init = Inr es"
    using read_healthy [OF init(2)] by blast
  obtain ls where ls: "read_lines (df_lines f) = Inr ls"
    using read_lines_ok [OF f] by blast
  have "map_of init ?d = None"
    using init(1) by (auto simp: map_of_eq_None_iff)
  then have tails: "tail_of ?d (init @ [(?d, x)]) = tail_events (df_tail x)" "tail_of ?d init = []" for x
    by (simp_all add: tail_of_def map_add_def)
  have "read_ledger L = Inr ((es @ ls) @ tail_of ?d L)"
    using L
  proof
    assume "L = init @ [(?d, f)]"
    then show ?thesis using es ls tails by (simp add: read_append read_file_def)
  next
    assume "L = init \<and> f = no_file"
    then show ?thesis using es ls tails by (simp add: no_file_def)
  qed
  moreover have "read_ledger (write_to_log now e r L) = Inr ((es @ ls) @ visible e r)"
    unfolding new using es ls read_lines_append [OF ls, of e]
    by (cases r) (simp_all add: read_append read_file_def append_line_def trim_torn_tail_def tail_events_def visible_def Let_def)
  moreover have "healthy ?d (write_to_log now e r L)"
    unfolding new using init f
    by (cases r) (auto simp: healthy_def sorted_wrt_append append_line_def trim_torn_tail_def Let_def)
  moreover have "tail_of ?d (write_to_log now e r L) = (if r = Cut_Newline then [e] else [])"
    unfolding new tails by (cases r) (simp_all add: append_line_def trim_torn_tail_def tail_events_def Let_def)
  ultimately show ?thesis by blast
qed

lemma healthy_later: "healthy day L \<Longrightarrow> day \<le> day' \<Longrightarrow> healthy day' L"
  by (auto simp: healthy_def)

definition file_events :: "'e ledger \<Rightarrow> 'e list option" where
  "file_events L = (case read_ledger L of Inl _ \<Rightarrow> None | Inr es \<Rightarrow> Some es)"

definition file_emit :: "int \<Rightarrow> 'e \<Rightarrow> 'e ledger \<Rightarrow> 'e ledger" where
  "file_emit now e L = write_to_log now e Written L"

definition file_ready :: "int \<Rightarrow> 'e ledger \<Rightarrow> bool" where
  "file_ready now L = settled (now div day_us) L"

lemma file_emit_ok:
  assumes "file_ready now L"
  shows "\<exists>es. file_events L = Some es \<and> file_events (file_emit now e L) = Some (es @ [e]) \<and> file_ready now (file_emit now e L)"
proof -
  have h: "healthy (now div day_us) L" "tail_of (now div day_us) L = []"
    using assms by (simp_all add: file_ready_def settled_def)
  obtain base where "read_ledger L = Inr (base @ tail_of (now div day_us) L)"
    "read_ledger (write_to_log now e Written L) = Inr (base @ visible e Written)"
    "healthy (now div day_us) (write_to_log now e Written L)"
    "tail_of (now div day_us) (write_to_log now e Written L) = []"
    using write_effect [OF h(1), of e Written] by auto
  then show ?thesis
    using h by (simp add: file_events_def file_emit_def file_ready_def settled_def visible_def)
qed

interpretation ledger: event_log file_events file_emit file_ready
  by unfold_locales (use file_emit_ok in fastforce)+

section \<open>Durability\<close>

primrec write_all :: "(int \<times> 'e \<times> reach) list \<Rightarrow> 'e ledger \<Rightarrow> 'e ledger" where
  "write_all [] L = L"
| "write_all (w # ws) L = (case w of (now, e, r) \<Rightarrow> write_all ws (write_to_log now e r L))"

lemma write_all_append: "write_all (vs @ ws) L = write_all ws (write_all vs L)"
  by (induction vs arbitrary: L) auto

lemma day_mono: "a \<le> b \<Longrightarrow> a div day_us \<le> (b :: int) div day_us"
  by (simp add: zdiv_mono1 day_us_def)

text \<open>
  C34: the event ledger keeps what it acknowledged. Through any sequence of appends at moments that do
  not go back, any of which may die before, inside or right before the end of its line, the ledger
  stays readable; every event whose append returned is read, once and in order; and nothing else is
  read but events whose whole text was on disk when their append died.
\<close>

theorem ledger_durable:
  assumes "sorted (map fst ws)"
  shows "\<exists>es. read_ledger (write_all ws []) = Inr es
    \<and> subseq (concat (map (\<lambda>(now, e, r). written e r) ws)) es
    \<and> subseq es (concat (map (\<lambda>(now, e, r). visible e r) ws))"
proof -
  let ?W = "\<lambda>ws. concat (map (\<lambda>(now, e, r). written e r) ws)" and ?V = "\<lambda>ws. concat (map (\<lambda>(now, e, r). visible e r) ws)"
  have "\<forall>now. list_all (\<lambda>w. fst w \<le> now) ws \<longrightarrow> healthy (now div day_us) (write_all ws [])
      \<and> (\<exists>base. read_ledger (write_all ws []) = Inr (base @ tail_of (now div day_us) (write_all ws []))
        \<and> subseq (?W ws) base \<and> subseq (base @ tail_of (now div day_us) (write_all ws [])) (?V ws))"
    using assms
  proof (induction ws rule: rev_induct)
    case Nil
    then show ?case by (simp add: healthy_def tail_of_def)
  next
    case (snoc w ws)
    obtain now e r where w: "w = (now, e, r)" by (cases w)
    let ?L = "write_all ws []" and ?L' = "write_all (ws @ [w]) []"
    have L': "?L' = write_to_log now e r ?L"
      by (simp add: write_all_append w)
    have "sorted (map fst ws)" and le: "list_all (\<lambda>w. fst w \<le> now) ws"
      using snoc.prems w by (auto simp: sorted_append list_all_iff)
    then obtain base where h: "healthy (now div day_us) ?L"
        and old: "read_ledger ?L = Inr (base @ tail_of (now div day_us) ?L)" "subseq (?W ws) base"
          "subseq (base @ tail_of (now div day_us) ?L) (?V ws)"
      using snoc.IH by blast
    have new: "read_ledger ?L' = Inr (base @ visible e r)" "healthy (now div day_us) ?L'"
        "tail_of (now div day_us) ?L' = (if r = Cut_Newline then [e] else [])"
      using write_effect [OF h, of e r] old(1) unfolding L' by auto
    have sub: "subseq base (?V ws)"
      using old(3) by (meson list_emb_append2 prefixI prefix_imp_subseq subseq_order.trans)
    show ?case
    proof (intro allI impI)
      fix now'
      assume "list_all (\<lambda>w. fst w \<le> now') (ws @ [w])"
      then have day: "now div day_us \<le> now' div day_us"
        using w day_mono by auto
      have "\<exists>b. base @ visible e r = b @ tail_of (now' div day_us) ?L' \<and> subseq (?W (ws @ [w])) b"
      proof (cases "now div day_us = now' div day_us")
        case True
        then show ?thesis
          using new(3) old(2) w by (intro exI [of _ "base @ written e r"]) (auto simp: visible_def written_def intro: list_emb_append_mono)
      next
        case False
        then have "map_of ?L' (now' div day_us) = None"
          using new(2) day by (auto simp: healthy_def map_of_eq_None_iff)
        then have "tail_of (now' div day_us) ?L' = []"
          by (simp add: tail_of_def)
        then show ?thesis
          using old(2) w by (intro exI [of _ "base @ visible e r"])
            (auto simp: visible_def written_def intro: list_emb_append_mono list_emb_append2 subseq_order.trans)
      qed
      moreover have "subseq (base @ visible e r) (?V (ws @ [w]))"
        using sub w by (auto intro: list_emb_append_mono)
      ultimately show "healthy (now' div day_us) ?L' \<and> (\<exists>base. read_ledger ?L' = Inr (base @ tail_of (now' div day_us) ?L')
          \<and> subseq (?W (ws @ [w])) base \<and> subseq (base @ tail_of (now' div day_us) ?L') (?V (ws @ [w])))"
        using healthy_later [OF new(2) day] new(1) by metis
    qed
  qed
  moreover have "list_all (\<lambda>w. fst w \<le> Max (insert 0 (fst ` set ws))) ws"
    by (auto simp: list_all_iff)
  ultimately obtain base t where "read_ledger (write_all ws []) = Inr (base @ t)" "subseq (?W ws) base" "subseq (base @ t) (?V ws)"
    by blast
  then show ?thesis
    by (meson prefixI prefix_imp_subseq subseq_order.trans)
qed

theorem ledger_durable_witness:
  "\<exists>es. read_ledger (write_all [(0, ''a'', Written), (1, ''b'', Cut_Short), (2, ''c'', Written)] []) = Inr es
     \<and> subseq [''a'', ''c''] es"
  using ledger_durable [of "[(0, ''a'', Written), (1, ''b'', Cut_Short), (2, ''c'', Written)]"]
  by (auto simp: written_def)

text \<open>
  An append that died with only its newline missing: a read returns the event, and the next append
  deletes it.
\<close>

lemma unended_event_vanishes:
  "read_ledger (write_all [(0, ''a'', Written), (1, ''b'', Cut_Newline)] []) = Inr [''a'', ''b'']
   \<and> read_ledger (write_all [(0, ''a'', Written), (1, ''b'', Cut_Newline), (2, ''c'', Written)] []) = Inr [''a'', ''c'']"
  by code_simp

end
