(* ===== verification/Claims.thy ===== *)
theory Claims
  imports Event_Ledger
begin

text \<open>
  Task claims with a lease, \<^verbatim>\<open>framework/missions/claims.py\<close>. A claim is read off the event
  ledger: the last started event of a task that carries a token, its renewals, a release, a terminal
  event. The operations run under one lock, so each is one step on the events it replayed; it returns
  its answer and the events it emitted, in order. Identifiers are texts; an expiry written with
  \<^verbatim>\<open>isoformat()\<close> is the moment it reads back as. Process ids and the error file are not
  modelled.
\<close>

section \<open>Constants and the clock\<close>

definition DEFAULT_LEASE_SECONDS :: int where "DEFAULT_LEASE_SECONDS = 900"
definition MIN_LEASE_SECONDS :: int where "MIN_LEASE_SECONDS = 60"
definition MAX_LEASE_SECONDS :: int where "MAX_LEASE_SECONDS = 86400"
definition ABSOLUTE_MIN_LEASE_SECONDS :: int where "ABSOLUTE_MIN_LEASE_SECONDS = 1"

definition STARTED :: string where "STARTED = ''work_item_started''"
definition RENEWED :: string where "RENEWED = ''work_item_claim_renewed''"
definition RELEASED :: string where "RELEASED = ''work_item_claim_released''"

definition TERMINAL_EVENT_TYPES :: "string list" where
  "TERMINAL_EVENT_TYPES = [''work_item_completed'', ''work_item_failed'', ''work_item_verified'']"

definition CLAIM_EVENT_TYPES :: "string list" where
  "CLAIM_EVENT_TYPES = [STARTED, RENEWED, RELEASED] @ TERMINAL_EVENT_TYPES"

definition RELEASE_REASONS :: "string list" where
  "RELEASE_REASONS = [''expired'', ''released'', ''superseded'']"

definition stamp_text :: "string \<Rightarrow> string" where
  "stamp_text s = (let t = strip s in if t \<noteq> [] \<and> last t = CHR ''Z'' then butlast t @ ''+00:00'' else t)"

definition parse_stamp :: "pyval \<Rightarrow> int option" where
  "parse_stamp v = (case v of
     PStr s \<Rightarrow> if s = [] then None else map_option instant (fromisoformat (stamp_text s))
   | PDatetime us off \<Rightarrow> Some (instant (us, off))
   | _ \<Rightarrow> None)"

definition moment :: "int \<Rightarrow> pyval" where
  "moment t = PDatetime t (Some 0)"

definition is_expired :: "pyval \<Rightarrow> int \<Rightarrow> bool" where
  "is_expired v now \<longleftrightarrow> (case parse_stamp v of None \<Rightarrow> False | Some t \<Rightarrow> t \<le> now)"

section \<open>The lease\<close>

text \<open>The two environment variables and the caller's argument.\<close>

record lease_env =
  le_lease :: "string option"
  le_floor :: "string option"

definition given :: "string option \<Rightarrow> string option" where
  "given raw = (case raw of None \<Rightarrow> None | Some s \<Rightarrow> if strip s = [] then None else Some (strip s))"

definition resolve_lease_floor :: "lease_env \<Rightarrow> int" where
  "resolve_lease_floor env = (case given (le_floor env) of
     None \<Rightarrow> MIN_LEASE_SECONDS
   | Some s \<Rightarrow> (case int_text s of None \<Rightarrow> MIN_LEASE_SECONDS
     | Some n \<Rightarrow> if n < ABSOLUTE_MIN_LEASE_SECONDS then ABSOLUTE_MIN_LEASE_SECONDS
         else if MIN_LEASE_SECONDS < n then MIN_LEASE_SECONDS else n))"

definition resolve_lease :: "lease_env \<Rightarrow> int option \<Rightarrow> int" where
  "resolve_lease env arg =
     (let lease = (case arg of Some n \<Rightarrow> n
        | None \<Rightarrow> (case given (le_lease env) of None \<Rightarrow> DEFAULT_LEASE_SECONDS
            | Some s \<Rightarrow> (case int_text s of None \<Rightarrow> DEFAULT_LEASE_SECONDS | Some n \<Rightarrow> n))) in
      if lease < resolve_lease_floor env then resolve_lease_floor env
      else if MAX_LEASE_SECONDS < lease then MAX_LEASE_SECONDS else lease)"

section \<open>State read off the ledger\<close>

record task_claim =
  cl_claim_id :: string
  cl_task_id :: string
  cl_outcome_id :: string
  cl_holder :: string
  cl_actor :: string
  cl_started_at :: pyval
  cl_lease_s :: pyval
  cl_expires_at :: pyval
  cl_renewals :: int

record task_state =
  ts_claim :: "task_claim option"
  ts_terminal :: bool
  ts_released :: bool

definition no_state :: task_state where
  "no_state = \<lparr>ts_claim = None, ts_terminal = False, ts_released = False\<rparr>"

definition field :: "org_event \<Rightarrow> string \<Rightarrow> string" where
  "field e k = str_of (dget (ev_payload e) k)"

definition claim_from_started :: "org_event \<Rightarrow> task_claim" where
  "claim_from_started e = (let p = ev_payload e in
     \<lparr>cl_claim_id = field e ''claim_id'', cl_task_id = field e ''task_id'', cl_outcome_id = field e ''outcome_id'',
      cl_holder = field e ''holder'', cl_actor = ev_actor e,
      cl_started_at = (if truthy (dget p ''started_at'') then dget p ''started_at'' else moment (ev_created e)),
      cl_lease_s = dget p ''lease_s'', cl_expires_at = dget p ''expires_at'', cl_renewals = 0\<rparr>)"

definition next_state :: "org_event \<Rightarrow> task_state \<Rightarrow> task_state" where
  "next_state e st =
     (let p = ev_payload e; cid = field e ''claim_id'' in
      if ev_type e = STARTED then
        (if cid = [] then st else \<lparr>ts_claim = Some (claim_from_started e), ts_terminal = False, ts_released = False\<rparr>)
      else if ev_type e = RENEWED then
        (case ts_claim st of None \<Rightarrow> st
         | Some c \<Rightarrow> if cl_claim_id c \<noteq> cid then st
             else st\<lparr>ts_claim := Some (c\<lparr>
               cl_expires_at := (if truthy (dget p ''expires_at'') then dget p ''expires_at'' else cl_expires_at c),
               cl_lease_s := (if dget p ''lease_s'' \<noteq> PNone then dget p ''lease_s'' else cl_lease_s c),
               cl_renewals := cl_renewals c + 1\<rparr>)\<rparr>)
      else if ev_type e = RELEASED then
        (case ts_claim st of None \<Rightarrow> st
         | Some c \<Rightarrow> if cl_claim_id c = cid then st\<lparr>ts_released := True\<rparr> else st)
      else st\<lparr>ts_terminal := True\<rparr>)"

type_synonym task_states = "(string \<times> task_state) list"

definition state_of :: "task_states \<Rightarrow> string \<Rightarrow> task_state" where
  "state_of states t = (case map_of states t of None \<Rightarrow> no_state | Some st \<Rightarrow> st)"

definition replay_event :: "task_states \<Rightarrow> org_event \<Rightarrow> task_states" where
  "replay_event states e = (let t = field e ''task_id'' in
     if t = [] then states else kv_put t (next_state e (state_of states t)) states)"

definition replay_states :: "org_event list \<Rightarrow> task_states" where
  "replay_states es = foldl replay_event [] (of_types CLAIM_EVENT_TYPES es)"

definition live_from_state :: "task_state \<Rightarrow> int \<Rightarrow> task_claim option" where
  "live_from_state st now = (case ts_claim st of None \<Rightarrow> None
     | Some c \<Rightarrow> if ts_terminal st \<or> ts_released st \<or> is_expired (cl_expires_at c) now then None else Some c)"

definition live_claim :: "string \<Rightarrow> int \<Rightarrow> org_event list \<Rightarrow> task_claim option" where
  "live_claim t now es = live_from_state (state_of (replay_states es) t) now"

definition live_claims :: "int \<Rightarrow> org_event list \<Rightarrow> (string \<times> task_claim) list" where
  "live_claims now es = List.map_filter (\<lambda>(t, st). map_option (Pair t) (live_from_state st now)) (replay_states es)"

definition latest_claim_id :: "string \<Rightarrow> org_event list \<Rightarrow> string option" where
  "latest_claim_id t es = map_option cl_claim_id (ts_claim (state_of (replay_states es) t))"

section \<open>The operations\<close>

definition released_payload :: "string \<Rightarrow> string \<Rightarrow> task_claim \<Rightarrow> string \<Rightarrow> pyval" where
  "released_payload t outcome c reason = PDict [(''task_id'', PStr t), (''outcome_id'', PStr outcome),
     (''claim_id'', PStr (cl_claim_id c)), (''holder'', PStr (cl_holder c)), (''reason'', PStr reason)]"

definition started_payload :: "string \<Rightarrow> string \<Rightarrow> string \<Rightarrow> string \<Rightarrow> string \<Rightarrow> int \<Rightarrow> int \<Rightarrow> pyval" where
  "started_payload t outcome cid holder actor now lease =
     PDict [(''task_id'', PStr t), (''outcome_id'', PStr outcome), (''claim_id'', PStr cid), (''holder'', PStr holder),
       (''actor'', PStr actor), (''started_at'', moment now), (''lease_s'', PInt lease),
       (''expires_at'', moment (now + lease * 1000000))]"

definition or_else :: "string \<Rightarrow> string \<Rightarrow> string" where
  "or_else a b = (if a = [] then b else a)"

text \<open>The ids a call mints: of the claim, and of the events it emits.\<close>

definition claim :: "lease_env \<Rightarrow> string \<Rightarrow> (nat \<Rightarrow> string) \<Rightarrow> string \<Rightarrow> string \<Rightarrow> string \<Rightarrow> string option \<Rightarrow> int option \<Rightarrow> int
    \<Rightarrow> org_event list \<Rightarrow> task_claim option \<times> org_event list" where
  "claim env cid ids t outcome holder actor lease_s now es =
     (let lease = resolve_lease env lease_s; st = state_of (replay_states es) t;
          who = (case actor of None \<Rightarrow> holder | Some a \<Rightarrow> or_else a holder) in
      (case live_from_state st now of
         Some existing \<Rightarrow> (if cl_holder existing = holder then Some existing else None, [])
       | None \<Rightarrow>
           if ts_terminal st then (None, [])
           else let gone = (case ts_claim st of
                  Some previous \<Rightarrow> if ts_released st then []
                    else [new_event (ids 0) now RELEASED who (released_payload t (or_else (cl_outcome_id previous) outcome) previous ''expired'') None]
                | None \<Rightarrow> []);
              expires = moment (now + lease * 1000000) in
            (Some \<lparr>cl_claim_id = cid, cl_task_id = t, cl_outcome_id = outcome, cl_holder = holder, cl_actor = who,
               cl_started_at = moment now, cl_lease_s = PInt lease, cl_expires_at = expires, cl_renewals = 0\<rparr>,
             gone @ [new_event (ids 1) now STARTED who (started_payload t outcome cid holder who now lease) None])))"

text \<open>The first task whose latest claim carries the token.\<close>

definition claimed_with :: "string \<Rightarrow> task_states \<Rightarrow> (string \<times> task_state \<times> task_claim) option" where
  "claimed_with cid states = (case find (\<lambda>(t, st). map_option cl_claim_id (ts_claim st) = Some cid) states of
     None \<Rightarrow> None | Some (t, st) \<Rightarrow> map_option (\<lambda>c. (t, st, c)) (ts_claim st))"

definition renewed_payload :: "string \<Rightarrow> task_claim \<Rightarrow> string \<Rightarrow> int \<Rightarrow> int \<Rightarrow> pyval" where
  "renewed_payload t c holder lease now = PDict [(''task_id'', PStr t), (''outcome_id'', PStr (cl_outcome_id c)),
     (''claim_id'', PStr (cl_claim_id c)), (''holder'', PStr holder), (''lease_s'', PInt lease),
     (''expires_at'', moment (now + lease * 1000000)), (''renewals'', PInt (cl_renewals c + 1))]"

definition renew :: "lease_env \<Rightarrow> (nat \<Rightarrow> string) \<Rightarrow> string \<Rightarrow> string \<Rightarrow> int option \<Rightarrow> int \<Rightarrow> org_event list
    \<Rightarrow> task_claim option \<times> org_event list" where
  "renew env ids cid holder lease_s now es =
     (let lease = resolve_lease env lease_s in
      case claimed_with cid (replay_states es) of None \<Rightarrow> (None, [])
      | Some (t, st, c) \<Rightarrow>
          if ts_terminal st \<or> ts_released st \<or> cl_holder c \<noteq> holder \<or> is_expired (cl_expires_at c) now then (None, [])
          else (Some (c\<lparr>cl_lease_s := PInt lease, cl_expires_at := moment (now + lease * 1000000),
                  cl_renewals := cl_renewals c + 1\<rparr>),
                [new_event (ids 0) now RENEWED (or_else (cl_actor c) holder) (renewed_payload t c holder lease now) None]))"

definition release :: "(nat \<Rightarrow> string) \<Rightarrow> string \<Rightarrow> string \<Rightarrow> string \<Rightarrow> int \<Rightarrow> org_event list \<Rightarrow> (py_exc + bool) \<times> org_event list" where
  "release ids cid holder reason now es =
     (if reason \<notin> set RELEASE_REASONS then (Inl (ValueError ''release reason''), [])
      else case claimed_with cid (replay_states es) of None \<Rightarrow> (Inr False, [])
      | Some (t, st, c) \<Rightarrow>
          if ts_terminal st \<or> ts_released st \<or> cl_holder c \<noteq> holder then (Inr False, [])
          else (Inr True, [new_event (ids 0) now RELEASED (or_else (cl_actor c) holder)
            (released_payload t (cl_outcome_id c) c reason) None]))"

datatype refusal = Already_Terminal | Stale_Claim | Not_Holder | No_Token | Bad_Status

record completion =
  co_task_id :: string
  co_outcome_id :: string
  co_holder :: "string option"
  co_claim_id :: "string option"
  co_status :: string
  co_evidence_text :: "string option"
  co_evidence_path :: "string option"
  co_task_index :: "int option"
  co_actor :: "string option"

definition text_or_none :: "string option \<Rightarrow> pyval" where
  "text_or_none v = (case v of None \<Rightarrow> PNone | Some s \<Rightarrow> if s = [] then PNone else PStr s)"

definition completed_payload :: "completion \<Rightarrow> task_claim option \<Rightarrow> pyval" where
  "completed_payload q current = PDict ([(''task_id'', PStr (co_task_id q)), (''outcome_id'', PStr (co_outcome_id q)),
     (''status'', PStr (co_status q)), (''claim_id'', case co_claim_id q of None \<Rightarrow> PNone | Some c \<Rightarrow> PStr c),
     (''holder'', if text_or_none (co_holder q) \<noteq> PNone then text_or_none (co_holder q)
        else case current of None \<Rightarrow> PNone | Some c \<Rightarrow> PStr (cl_holder c)),
     (''evidence_text'', text_or_none (co_evidence_text q)), (''evidence_path'', text_or_none (co_evidence_path q))]
   @ (case co_task_index q of None \<Rightarrow> [] | Some i \<Rightarrow> [(''task_index'', PInt i)]))"

definition fence :: "completion \<Rightarrow> task_state \<Rightarrow> int \<Rightarrow> refusal option" where
  "fence q st now =
     (if ts_terminal st then Some Already_Terminal
      else case co_claim_id q of
        Some cid \<Rightarrow>
          if map_option cl_claim_id (ts_claim st) \<noteq> Some cid then Some Stale_Claim
          else if co_holder q \<noteq> None \<and> map_option cl_holder (ts_claim st) \<noteq> co_holder q then Some Not_Holder
          else None
      | None \<Rightarrow> if live_from_state st now \<noteq> None then Some No_Token else None)"

definition complete :: "(nat \<Rightarrow> string) \<Rightarrow> completion \<Rightarrow> int \<Rightarrow> org_event list \<Rightarrow> (refusal + org_event) \<times> org_event list" where
  "complete ids q now es =
     (if co_status q \<notin> {''done'', ''failed''} then (Inl Bad_Status, [])
      else let st = state_of (replay_states es) (co_task_id q);
          who = (case co_actor q of Some a \<Rightarrow> or_else a (case co_holder q of Some h \<Rightarrow> or_else h ''system'' | None \<Rightarrow> ''system'')
            | None \<Rightarrow> (case co_holder q of Some h \<Rightarrow> or_else h ''system'' | None \<Rightarrow> ''system'')) in
        (case fence q st now of Some r \<Rightarrow> (Inl r, [])
         | None \<Rightarrow> let e = new_event (ids 0) now
              (if co_status q = ''done'' then ''work_item_completed'' else ''work_item_failed'') who (completed_payload q (ts_claim st)) None in
            (Inr e, [e])))"

end
