(* ===== verification/Missions.thy ===== *)
theory Missions
  imports Work_Graph Claims
begin

text \<open>
  The mission compiler and the session bridge, \<^verbatim>\<open>framework/missions/compiler.py\<close> and
  \<^verbatim>\<open>session_bridge.py\<close>: a declared outcome becomes a work graph, the ledger's events are
  laid over it, and a session pulls the next ready task of its role under a claim. The parsed file,
  the roster, the clock and the minted ids are arguments. Ids and role names are texts; a set of the
  source is iterated in the order \<^verbatim>\<open>ord\<close>. What Python's own
  \<^verbatim>\<open>str\<close> and \<^verbatim>\<open>float\<close> render is read from \<^verbatim>\<open>builtins\<close>.
\<close>

section \<open>Criteria\<close>

fun py_float :: "builtins \<Rightarrow> pyval \<Rightarrow> rat option" where
  "py_float b (PInt i) = Some (of_int i)"
| "py_float b (PFloat r) = Some r"
| "py_float b (PBool v) = Some (if v then 1 else 0)"
| "py_float b (PStr s) = bi_float b s"
| "py_float b _ = None"

definition and_then :: "py_exc + 'a \<Rightarrow> ('a \<Rightarrow> py_exc + 'b) \<Rightarrow> py_exc + 'b" where
  "and_then r f = (case r of Inl e \<Rightarrow> Inl e | Inr x \<Rightarrow> f x)"

fun collect :: "('a \<Rightarrow> py_exc + 'b) \<Rightarrow> 'a list \<Rightarrow> py_exc + 'b list" where
  "collect f [] = Inr []"
| "collect f (x # xs) = and_then (f x) (\<lambda>y. and_then (collect f xs) (\<lambda>ys. Inr (y # ys)))"

definition RICH_CRITERION_FIELDS :: "string list" where
  "RICH_CRITERION_FIELDS = [''title'', ''description'', ''owner_role'', ''assigned_role'', ''acceptance_criteria'',
     ''evidence_required'', ''verifier_role'', ''risk_level'', ''rollback_note'', ''budget_note'',
     ''captain_attention_estimate'', ''depends_on'', ''node_id'']"

definition or_val :: "pyval \<Rightarrow> pyval \<Rightarrow> pyval" where
  "or_val a b = (if truthy a then a else b)"

definition norm_attention :: "builtins \<Rightarrow> pyval \<Rightarrow> py_exc + pyval" where
  "norm_attention b d = (if \<not> has_key d ''captain_attention_estimate'' then Inr d
     else case py_float b (dget d ''captain_attention_estimate'') of
       None \<Rightarrow> Inl (ValueError ''captain_attention_estimate must be numeric'')
     | Some r \<Rightarrow> Inr (dput d ''captain_attention_estimate'' (PFloat r)))"

definition norm_depends :: "pyval \<Rightarrow> py_exc + pyval" where
  "norm_depends d = (if \<not> has_key d ''depends_on'' then Inr d
     else let ds = or_val (dget d ''depends_on'') (PList []) in
       if \<not> is_list ds \<or> \<not> list_all is_str (elems ds) then Inl (ValueError ''depends_on must be a list of strings'')
       else Inr (dput d ''depends_on'' (PList (map PStr (filter (\<lambda>s. s \<noteq> []) (map (\<lambda>v. strip (str_of v)) (elems ds)))))))"

definition norm_risk :: "builtins \<Rightarrow> pyval \<Rightarrow> py_exc + pyval" where
  "norm_risk b d = (if \<not> has_key d ''risk_level'' then Inr d
     else let risk = lower (strip (py_str b (dget d ''risk_level''))) in
       if risk \<noteq> [] \<and> risk \<notin> {''low'', ''medium'', ''high''} then Inl (ValueError ''risk_level'')
       else Inr (dput d ''risk_level'' (PStr risk)))"

definition normalize_criterion :: "builtins \<Rightarrow> pyval \<Rightarrow> py_exc + pyval" where
  "normalize_criterion b item =
     (if is_str item then Inr (PDict [(''title'', item)])
      else if \<not> is_dict item then Inl (ValueError ''measurable_criteria item must be a string or object'')
      else let title = or_val (dget item ''title'') (dget item ''description'') in
        if \<not> truthy title \<or> strip (py_str b title) = [] then Inl (ValueError ''measurable_criteria object missing title'')
        else let d = dput item ''title'' (PStr (strip (py_str b title))) in
          if \<not> set (keys d) \<subseteq> set RICH_CRITERION_FIELDS then Inl (ValueError ''measurable_criteria object has unknown fields'')
          else and_then (norm_attention b d) (\<lambda>d. and_then (norm_depends d) (norm_risk b)))"

section \<open>Owners\<close>

record role_row =
  rr_slug :: string
  rr_capabilities :: "string list"

definition CAPABILITY_KEYWORDS :: "(string \<times> string list) list" where
  "CAPABILITY_KEYWORDS = [
     (''deploys_code'', [''deploy'', ''production'', ''hosting'', ''ci'', ''cd'', ''infrastructure'']),
     (''reviews_implementations'', [''review'', ''code review'', ''implementation'']),
     (''reviews_specs'', [''spec'', ''specification'', ''requirements'', ''design'']),
     (''reviews_research'', [''research'', ''analysis'', ''competitive'', ''market'']),
     (''validates_deployments'', [''validate'', ''verification'', ''health check'', ''monitoring'']),
     (''logs_captain_decisions'', [''decision'', ''governance'', ''approval'']),
     (''engineering'', [''api'', ''endpoint'', ''database'', ''schema'', ''backend'', ''frontend'', ''code'', ''build'']),
     (''product'', [''user'', ''signup'', ''flow'', ''feature'', ''ux'', ''ui'', ''onboarding'']),
     (''research'', [''research'', ''analysis'', ''brief'', ''competitive'']),
     (''operations'', [''process'', ''coordination'', ''schedule'', ''budget''])]"

definition keywords_for :: "string \<Rightarrow> string list" where
  "keywords_for k = (case map_of CAPABILITY_KEYWORDS k of None \<Rightarrow> [] | Some ws \<Rightarrow> ws)"

definition hits :: "string \<Rightarrow> string list \<Rightarrow> nat" where
  "hits text ws = length (filter (\<lambda>w. sublist w text) ws)"

definition role_score :: "string \<Rightarrow> role_row \<Rightarrow> nat" where
  "role_score text r = sum_list (map (\<lambda>c. hits text (keywords_for c)) (rr_capabilities r)) + hits text (keywords_for (rr_slug r))"

definition match_role_for_task :: "string \<Rightarrow> role_row list \<Rightarrow> string option" where
  "match_role_for_task description roles = fst (foldl (\<lambda>(best, top) r. let score = role_score (lower description) r in
     if top < score then (Some (rr_slug r), score) else (best, top)) (None, 0) roles)"

definition sole_role_slug :: "role_row list \<Rightarrow> string option" where
  "sole_role_slug roles = (case filter (\<lambda>s. s \<noteq> []) (map rr_slug roles) of [s] \<Rightarrow> Some s | _ \<Rightarrow> None)"

definition or_role :: "string option \<Rightarrow> string option \<Rightarrow> string option" where
  "or_role a b = (if some_text a then a else b)"

section \<open>The order of the tasks\<close>

definition phase :: "string \<Rightarrow> nat" where
  "phase criterion = (let text = lower criterion in
     if list_ex (\<lambda>w. sublist w text) [''schema'', ''database'', ''setup'', ''config'', ''initialize''] then 0
     else if list_ex (\<lambda>w. sublist w text) [''deploy'', ''production'', ''launch'', ''release'', ''ship''] then 2 else 1)"

definition sorted_indices :: "string list \<Rightarrow> nat list" where
  "sorted_indices criteria = sort_key (\<lambda>i. (phase (criteria ! i), i)) [0..<length criteria]"

definition infer_dependencies :: "string list \<Rightarrow> (nat \<times> nat) list" where
  "infer_dependencies criteria = (if length criteria \<le> 1 then []
     else zip (sorted_indices criteria) (tl (sorted_indices criteria)))"

section \<open>The graph of an outcome\<close>

definition generate_task_id :: "string \<Rightarrow> nat \<Rightarrow> string" where
  "generate_task_id oid i = oid @ ''-task-'' @ fmt03 (int i)"

definition task_id_for :: "string \<Rightarrow> nat \<Rightarrow> pyval \<Rightarrow> string" where
  "task_id_for oid i crit = or_else (str_of (dget crit ''node_id'')) (generate_task_id oid i)"

definition acceptance :: "builtins \<Rightarrow> pyval \<Rightarrow> string \<Rightarrow> py_exc + string list" where
  "acceptance b ac title = (case ac of
     PNone \<Rightarrow> Inr [title]
   | PStr s \<Rightarrow> Inr (if strip s \<noteq> [] then [s] else [title])
   | PList xs \<Rightarrow> (let ls = filter (\<lambda>s. strip s \<noteq> []) (map (py_str b) xs) in Inr (if ls = [] then [title] else ls))
   | _ \<Rightarrow> Inl (ValueError ''acceptance_criteria must be a string or list''))"

definition node_for :: "builtins \<Rightarrow> string \<Rightarrow> role_row list \<Rightarrow> nat \<Rightarrow> pyval \<Rightarrow> py_exc + work_node" where
  "node_for b oid roles i crit =
     (let title = str_of (dget crit ''title'');
          owner = or_role (str_opt (or_val (dget crit ''owner_role'') (dget crit ''assigned_role'')))
                    (or_role (match_role_for_task title roles) (sole_role_slug roles));
          field_text = \<lambda>k. py_str b (dget_or crit k (PStr [])) in
      and_then (acceptance b (dget crit ''acceptance_criteria'') title) (\<lambda>checks_of.
        make_node \<lparr>wn_id = task_id_for oid i crit, wn_description = title, wn_assigned_role = owner, wn_status = PENDING,
          wn_verification_criteria = checks_of, wn_verification_passed = None,
          wn_evidence_required = field_text ''evidence_required'', wn_verifier_role = str_opt (dget crit ''verifier_role''),
          wn_risk_level = field_text ''risk_level'', wn_rollback_note = field_text ''rollback_note'',
          wn_budget_note = field_text ''budget_note'',
          wn_captain_attention_estimate = num_of (dget_or crit ''captain_attention_estimate'' (PFloat 0))\<rparr>))"

fun add_nodes :: "(nat \<Rightarrow> 'c \<Rightarrow> py_exc + work_node) \<Rightarrow> nat \<Rightarrow> 'c list \<Rightarrow> work_graph \<Rightarrow> py_exc + work_graph" where
  "add_nodes mk i [] g = Inr g"
| "add_nodes mk i (c # cs) g = and_then (mk i c) (\<lambda>n. and_then (add_node n g) (add_nodes mk (Suc i) cs))"

fun add_edges :: "(string \<times> string) list \<Rightarrow> work_graph \<Rightarrow> py_exc + work_graph" where
  "add_edges [] g = Inr g"
| "add_edges ((f, t) # es) g = and_then (add_edge f t g) (add_edges es)"

text \<open>The explicit ids, resolved; a reference to no node raises before its edge is tried.\<close>

definition explicit_id_map :: "string \<Rightarrow> pyval list \<Rightarrow> (string \<times> string) list" where
  "explicit_id_map oid crits = rev (map (\<lambda>(i, c). (str_of (dget c ''node_id''), task_id_for oid i c))
     (filter (\<lambda>(i, c). has_key c ''node_id'') (enumerate 0 crits)))"

definition explicit_edges :: "string \<Rightarrow> pyval list \<Rightarrow> (string \<times> string) list" where
  "explicit_edges oid crits = concat (map (\<lambda>(i, c). map (\<lambda>d. (case map_of (explicit_id_map oid crits) (str_of d) of
       Some f \<Rightarrow> f | None \<Rightarrow> str_of d, task_id_for oid i c)) (elems (dget c ''depends_on''))) (enumerate 0 crits))"

fun add_explicit :: "(string \<times> string) list \<Rightarrow> work_graph \<Rightarrow> py_exc + work_graph" where
  "add_explicit [] g = Inr g"
| "add_explicit ((f, t) # es) g =
     (if f \<notin> set (node_ids g) then Inl (ValueError ''depends_on references unknown node'')
      else and_then (add_edge f t g) (add_explicit es))"

definition inferred_edges :: "string \<Rightarrow> pyval list \<Rightarrow> (string \<times> string) list" where
  "inferred_edges oid crits = (let ids = map (\<lambda>(i, c). task_id_for oid i c) (enumerate 0 crits) in
     map (\<lambda>(f, t). (ids ! f, ids ! t)) (infer_dependencies (map (\<lambda>c. str_of (dget c ''title'')) crits)))"

definition build_graph :: "builtins \<Rightarrow> (string list \<Rightarrow> string list) \<Rightarrow> string \<Rightarrow> role_row list \<Rightarrow> pyval list \<Rightarrow> py_exc + work_graph" where
  "build_graph b ord oid roles criteria =
     and_then (collect (normalize_criterion b) criteria) (\<lambda>crits.
     and_then (add_nodes (node_for b oid roles) 0 crits empty_graph) (\<lambda>g.
     and_then (if list_ex (\<lambda>c. has_key c ''depends_on'') crits then add_explicit (explicit_edges oid crits) g
               else add_edges (inferred_edges oid crits) g) (\<lambda>g.
       if validate ord g = [] then Inr g else Inl (ValueError ''Work graph validation failed''))))"

section \<open>The ledger laid over the graph\<close>

definition event_status :: "string \<Rightarrow> node_status option" where
  "event_status ty = map_of [(STARTED, IN_PROGRESS), (RENEWED, IN_PROGRESS), (RELEASED, PENDING),
     (''work_item_completed'', DONE), (''work_item_failed'', FAILED), (''work_item_verified'', DONE)] ty"

record overlay =
  ov_graph :: work_graph
  ov_leases :: "(string \<times> pyval) list"
  ov_changed :: nat

text \<open>What an event says of the verification: a verification by someone independent, a failure.\<close>

definition verdict :: "work_node \<Rightarrow> org_event \<Rightarrow> bool option" where
  "verdict node e = (if ev_type e = ''work_item_verified'' \<and> verification_is_independent node (Some (ev_actor e)) then Some True
     else if ev_type e = ''work_item_failed'' then Some False else None)"

definition overlay_lease :: "org_event \<Rightarrow> string \<Rightarrow> (string \<times> pyval) list \<Rightarrow> (string \<times> pyval) list" where
  "overlay_lease e t leases = (let until = dget (ev_payload e) ''expires_at'' in
     if ev_type e = STARTED then kv_put t until leases
     else if ev_type e = RENEWED then (if truthy until then kv_put t until leases else leases)
     else filter (\<lambda>l. fst l \<noteq> t) leases)"

definition overlay_event :: "string \<Rightarrow> overlay \<Rightarrow> org_event \<Rightarrow> overlay" where
  "overlay_event oid ov e =
     (let t = field e ''task_id'' in
      case (if dget (ev_payload e) ''outcome_id'' \<noteq> PStr oid \<or> t = [] then None else node_of (ov_graph ov) t) of
        None \<Rightarrow> ov
      | Some node \<Rightarrow>
          if ev_type e = RENEWED \<and> t \<notin> fst ` set (ov_leases ov) then ov
          else (case event_status (ev_type e) of None \<Rightarrow> ov
            | Some st \<Rightarrow>
                let says = verdict node e; moved = wn_status node \<noteq> st;
                    judged = says \<noteq> None \<and> wn_verification_passed node \<noteq> says in
                \<lparr>ov_graph = update_node t (\<lambda>n. n\<lparr>wn_status := st,
                     wn_verification_passed := (if says \<noteq> None then says else wn_verification_passed n)\<rparr>) (ov_graph ov),
                 ov_leases = overlay_lease e t (ov_leases ov),
                 ov_changed = ov_changed ov + (if moved \<or> judged then 1 else 0)\<rparr>))"

definition expire_lease :: "int \<Rightarrow> overlay \<Rightarrow> string \<times> pyval \<Rightarrow> overlay" where
  "expire_lease now ov = (\<lambda>(t, until).
     if status_in (ov_graph ov) t = Some IN_PROGRESS \<and> until \<noteq> PNone \<and> is_expired until now
     then ov\<lparr>ov_graph := update_node t (\<lambda>n. n\<lparr>wn_status := PENDING\<rparr>) (ov_graph ov), ov_changed := ov_changed ov + 1\<rparr>
     else ov)"

definition apply_status_from_events :: "string \<Rightarrow> int \<Rightarrow> org_event list \<Rightarrow> work_graph \<Rightarrow> work_graph \<times> nat" where
  "apply_status_from_events oid now es g =
     (let ov = foldl (overlay_event oid) \<lparr>ov_graph = g, ov_leases = [], ov_changed = 0\<rparr> (of_types CLAIM_EVENT_TYPES es);
          ov' = foldl (expire_lease now) ov (ov_leases ov) in
      (ov_graph ov', ov_changed ov'))"

section \<open>Missions\<close>

record mission =
  mi_id :: string
  mi_outcome_id :: string
  mi_name :: string
  mi_graph :: work_graph
  mi_attention :: rat

definition compile_outcome :: "builtins \<Rightarrow> (string list \<Rightarrow> string list) \<Rightarrow> string \<Rightarrow> int \<Rightarrow> role_row list \<Rightarrow> org_event list
    \<Rightarrow> pyval \<Rightarrow> py_exc + mission" where
  "compile_outcome b ord hex now roles es outcome =
     (if \<not> has_key outcome ''id'' then Inl (KeyError ''id'')
      else if \<not> has_key outcome ''measurable_criteria'' then Inl (KeyError ''measurable_criteria'')
      else if \<not> truthy (dget outcome ''measurable_criteria'') then Inl (ValueError ''Outcome has no measurable_criteria'')
      else let oid = str_of (dget outcome ''id'') in
        and_then (build_graph b ord oid roles (elems (dget outcome ''measurable_criteria''))) (\<lambda>g.
          let g' = fst (apply_status_from_events oid now es g) in
          Inr \<lparr>mi_id = ''mission-'' @ oid @ ''-'' @ hex, mi_outcome_id = oid,
               mi_name = str_of (dget_or outcome ''name'' (PStr oid)), mi_graph = g',
               mi_attention = sum_list (map wn_captain_attention_estimate (wg_nodes g'))\<rparr>))"

text \<open>The event of a compile that is acted on.\<close>

definition mission_created :: "(string list \<Rightarrow> string list) \<Rightarrow> string \<Rightarrow> int \<Rightarrow> string \<Rightarrow> nat \<Rightarrow> mission \<Rightarrow> org_event" where
  "mission_created ord uuid now actor task_count m =
     (let texts = \<lambda>f. List.map_filter (\<lambda>n. if some_text (f n) then f n else None) (wg_nodes (mi_graph m)) in
      new_event uuid now ''mission_created'' actor (PDict [(''mission_id'', PStr (mi_id m)),
        (''outcome_id'', PStr (mi_outcome_id m)), (''name'', PStr (mi_name m)), (''task_count'', PInt (int task_count)),
        (''assigned_roles'', PList (map PStr (ord (remdups (texts wn_assigned_role))))),
        (''verifier_roles'', PList (map PStr (ord (remdups (texts wn_verifier_role))))),
        (''risk_levels'', PList (map PStr (filter (\<lambda>r. r \<noteq> []) (map wn_risk_level (wg_nodes (mi_graph m)))))),
        (''captain_attention_estimate'', PFloat (mi_attention m))]) None)"

text \<open>The parsed outcomes file; a file pinned to another deployment compiles to nothing. The minted
  texts are given per outcome.\<close>

definition compile_active :: "builtins \<Rightarrow> (string list \<Rightarrow> string list) \<Rightarrow> int \<Rightarrow> role_row list \<Rightarrow> org_event list
    \<Rightarrow> string \<times> pyval \<Rightarrow> py_exc + mission list" where
  "compile_active b ord now roles es = (\<lambda>(hex, outcome).
     if \<not> is_dict outcome then Inl (AttributeError ''get'')
     else if dget_or outcome ''status'' (PStr ''draft'') \<noteq> PStr ''active'' then Inr []
     else and_then (compile_outcome b ord hex now roles es outcome) (\<lambda>m. Inr [m]))"

definition compile_from_yaml :: "builtins \<Rightarrow> (string list \<Rightarrow> string list) \<Rightarrow> (nat \<Rightarrow> string) \<Rightarrow> int \<Rightarrow> string option \<Rightarrow> role_row list
    \<Rightarrow> org_event list \<Rightarrow> pyval \<Rightarrow> py_exc + mission list" where
  "compile_from_yaml b ord hexes now cabinet_id roles es d =
     (if \<not> truthy d \<or> \<not> has_key d ''outcomes'' then Inl (ValueError ''Invalid outcomes file'')
      else if dget d ''deployment'' \<noteq> PNone
        \<and> py_str b (dget d ''deployment'') \<noteq> (case cabinet_id of None \<Rightarrow> ''main'' | Some c \<Rightarrow> c) then Inr []
      else and_then (collect (compile_active b ord now roles es) (map (\<lambda>(i, x). (hexes i, x)) (enumerate 0 (elems (dget d ''outcomes'')))))
        (\<lambda>mss. Inr (concat mss)))"

section \<open>The pull of a session\<close>

record pulled =
  pu_mission_name :: string
  pu_outcome_id :: string
  pu_task_id :: string
  pu_description :: string
  pu_verification_criteria :: "string list"
  pu_dependencies_met :: "string list"
  pu_assigned_role :: "string option"
  pu_claim :: "task_claim option"

definition dependencies_met :: "(string list \<Rightarrow> string list) \<Rightarrow> work_graph \<Rightarrow> string \<Rightarrow> string list" where
  "dependencies_met ord g nid = List.map_filter (\<lambda>d. case node_of g d of
     Some n \<Rightarrow> if wn_status n = DONE then Some (wn_description n) else None | None \<Rightarrow> None) (ord (deps g nid))"

definition task_dict :: "(string list \<Rightarrow> string list) \<Rightarrow> mission \<Rightarrow> work_node \<Rightarrow> task_claim option \<Rightarrow> pulled" where
  "task_dict ord m n c = \<lparr>pu_mission_name = mi_name m, pu_outcome_id = mi_outcome_id m, pu_task_id = wn_id n,
     pu_description = wn_description n, pu_verification_criteria = wn_verification_criteria n,
     pu_dependencies_met = dependencies_met ord (mi_graph m) (wn_id n), pu_assigned_role = wn_assigned_role n, pu_claim = c\<rparr>"

definition ready_for_role :: "string \<Rightarrow> mission list \<Rightarrow> (mission \<times> work_node) list" where
  "ready_for_role role ms = concat (map (\<lambda>m. map (Pair m) (filter (\<lambda>n. wn_assigned_role n = Some role) (ready_tasks (mi_graph m)))) ms)"

definition nodes_for_role :: "string \<Rightarrow> mission list \<Rightarrow> (mission \<times> work_node) list" where
  "nodes_for_role role ms = concat (map (\<lambda>m. map (Pair m) (filter (\<lambda>n. wn_assigned_role n = Some role) (wg_nodes (mi_graph m)))) ms)"

definition first_ready_for_role :: "(string list \<Rightarrow> string list) \<Rightarrow> mission list \<Rightarrow> string \<Rightarrow> pulled option" where
  "first_ready_for_role ord ms role = (case ready_for_role role ms of [] \<Rightarrow> None | (m, n) # _ \<Rightarrow> Some (task_dict ord m n None))"

record session =
  se_lease_env :: lease_env
  se_order :: "string list \<Rightarrow> string list"
  se_role :: string
  se_holder :: string
  se_lease :: "int option"
  se_include_own :: bool

fun take_first :: "session \<Rightarrow> string \<Rightarrow> (nat \<Rightarrow> string) \<Rightarrow> int \<Rightarrow> org_event list \<Rightarrow> (mission \<times> work_node) list
    \<Rightarrow> pulled option \<times> org_event list" where
  "take_first s cid ids now es [] = (None, [])"
| "take_first s cid ids now es ((m, n) # rest) =
     (if wn_id n \<in> fst ` set (live_claims now es) then take_first s cid ids now es rest
      else case claim (se_lease_env s) cid ids (wn_id n) (mi_outcome_id m) (se_holder s) (Some (se_role s)) (se_lease s) now es of
          (None, _) \<Rightarrow> take_first s cid ids now es rest
        | (Some c, new) \<Rightarrow> (Some (task_dict (se_order s) m n (Some c)), new))"

definition own_claim :: "session \<Rightarrow> int \<Rightarrow> org_event list \<Rightarrow> mission \<times> work_node \<Rightarrow> task_claim option" where
  "own_claim s now es = (\<lambda>(m, n). case map_of (live_claims now es) (wn_id n) of None \<Rightarrow> None
     | Some c \<Rightarrow> if cl_holder c = se_holder s then Some c else None)"

definition pull_with_claim :: "session \<Rightarrow> string \<Rightarrow> (nat \<Rightarrow> string) \<Rightarrow> int \<Rightarrow> org_event list \<Rightarrow> mission list
    \<Rightarrow> pulled option \<times> org_event list" where
  "pull_with_claim s cid ids now es ms =
     (case find (\<lambda>x. own_claim s now es x \<noteq> None) (nodes_for_role (se_role s) ms) of
        Some (m, n) \<Rightarrow>
          (let held = the (own_claim s now es (m, n));
               (again, new) = renew (se_lease_env s) ids (cl_claim_id held) (se_holder s) (se_lease s) now es in
           (if se_include_own s then Some (task_dict (se_order s) m n (Some (case again of None \<Rightarrow> held | Some c \<Rightarrow> c))) else None, new))
      | None \<Rightarrow> take_first s cid ids now es (ready_for_role (se_role s) ms))"

text \<open>No file, or a file whose compile raises a ValueError, pulls nothing.\<close>

definition get_next_task :: "session \<Rightarrow> bool \<Rightarrow> string \<Rightarrow> (nat \<Rightarrow> string) \<Rightarrow> int \<Rightarrow> org_event list \<Rightarrow> (py_exc + mission list) option
    \<Rightarrow> py_exc + (pulled option \<times> org_event list)" where
  "get_next_task s taking cid ids now es compiled = (case compiled of
     None \<Rightarrow> Inr (None, [])
   | Some (Inl e) \<Rightarrow> (case e of ValueError _ \<Rightarrow> Inr (None, []) | _ \<Rightarrow> Inl e)
   | Some (Inr ms) \<Rightarrow> Inr (if \<not> taking then (first_ready_for_role (se_order s) ms (se_role s), [])
       else pull_with_claim s cid ids now es ms))"

end
