(* ===== verification/Claims_Correct.thy ===== *)
theory Claims_Correct
  imports Claims
begin

text \<open>
  The properties of the claim protocol: leases of one task never overlap, a completion is fenced and
  happens once, a dead holder's task comes back, and the same operations on the ledger files.
\<close>

section \<open>The state of a task\<close>

definition task_state :: "org_event list \<Rightarrow> string \<Rightarrow> task_state" where
  "task_state es t = state_of (replay_states es) t"

lemma state_of_put [simp]: "state_of (kv_put t st states) t' = (if t' = t then st else state_of states t')"
  by (simp add: state_of_def)

lemma replay_states_append: "replay_states (es @ fs) = foldl replay_event (replay_states es) (of_types CLAIM_EVENT_TYPES fs)"
  by (simp add: replay_states_def of_types_def)

lemma task_state_Nil [simp]: "task_state [] t = no_state"
  by (simp add: task_state_def replay_states_def of_types_def state_of_def)

lemma task_state_snoc:
  "task_state (es @ [e]) t = (if ev_type e \<in> set CLAIM_EVENT_TYPES \<and> field e ''task_id'' = t \<and> t \<noteq> []
     then next_state e (task_state es t) else task_state es t)"
  by (auto simp: task_state_def replay_states_append of_types_def CLAIM_EVENT_TYPES_def replay_event_def Let_def)

lemma distinct_states: "distinct (map fst (replay_states es))"
proof -
  have "distinct (map fst s) \<Longrightarrow> distinct (map fst (foldl replay_event s fs))" for s fs
    by (induction fs arbitrary: s) (simp_all add: replay_event_def Let_def)
  then show ?thesis by (simp add: replay_states_def)
qed

lemma claimed_with_Some:
  assumes "claimed_with cid (replay_states es) = Some (t, st, c)"
  shows "st = task_state es t \<and> ts_claim st = Some c \<and> cl_claim_id c = cid"
proof -
  obtain t' st' where f: "find (\<lambda>(t, st). map_option cl_claim_id (ts_claim st) = Some cid) (replay_states es) = Some (t', st')"
    and eq: "map_option (\<lambda>c. (t', st', c)) (ts_claim st') = Some (t, st, c)"
    using assms by (auto simp: claimed_with_def split: option.splits prod.splits)
  have "(t', st') \<in> set (replay_states es)" "map_option cl_claim_id (ts_claim st') = Some cid"
    using find_SomeD [OF f] by auto
  then show ?thesis
    using eq distinct_states [of es] by (auto simp: task_state_def state_of_def)
qed

section \<open>What each operation does\<close>

lemma event_fields [simp]:
  "ev_type (new_event i n ty a p par) = ty" "ev_actor (new_event i n ty a p par) = a"
  "ev_payload (new_event i n ty a (PDict (kv # kvs)) par) = PDict (kv # kvs)"
  by (simp_all add: new_event_def)

lemma parse_moment [simp]: "parse_stamp (moment t) = Some t" "truthy (moment t)" "moment t \<noteq> PNone" "moment a = moment b \<longleftrightarrow> a = b"
  by (simp_all add: parse_stamp_def moment_def instant_def)

lemma expired_moment [simp]: "is_expired (moment u) now \<longleftrightarrow> u \<le> now"
  by (simp add: is_expired_def)

lemma kinds [simp]:
  "STARTED \<in> set CLAIM_EVENT_TYPES" "RENEWED \<in> set CLAIM_EVENT_TYPES" "RELEASED \<in> set CLAIM_EVENT_TYPES"
  "''work_item_completed'' \<in> set CLAIM_EVENT_TYPES" "''work_item_failed'' \<in> set CLAIM_EVENT_TYPES"
  "''work_item_verified'' \<in> set CLAIM_EVENT_TYPES"
  "RENEWED \<noteq> STARTED" "RELEASED \<noteq> STARTED" "RELEASED \<noteq> RENEWED" "STARTED \<noteq> RENEWED" "STARTED \<noteq> RELEASED" "RENEWED \<noteq> RELEASED"
  by (simp_all add: CLAIM_EVENT_TYPES_def TERMINAL_EVENT_TYPES_def STARTED_def RENEWED_def RELEASED_def)

lemma terminal_kinds [simp]:
  "''work_item_completed'' \<notin> {STARTED, RENEWED, RELEASED}" "''work_item_failed'' \<notin> {STARTED, RENEWED, RELEASED}"
  "''work_item_verified'' \<notin> {STARTED, RENEWED, RELEASED}"
  by (simp_all add: STARTED_def RENEWED_def RELEASED_def)

definition new_claim :: "string \<Rightarrow> string \<Rightarrow> string \<Rightarrow> string \<Rightarrow> string \<Rightarrow> int \<Rightarrow> int \<Rightarrow> task_claim" where
  "new_claim cid t outcome holder who now lease =
     \<lparr>cl_claim_id = cid, cl_task_id = t, cl_outcome_id = outcome, cl_holder = holder, cl_actor = who,
      cl_started_at = moment now, cl_lease_s = PInt lease, cl_expires_at = moment (now + lease * 1000000), cl_renewals = 0\<rparr>"

lemma started_state:
  "cid \<noteq> [] \<Longrightarrow> next_state (new_event i now STARTED who (started_payload t o' cid h who now l) None) st
     = \<lparr>ts_claim = Some (new_claim cid t o' h who now l), ts_terminal = False, ts_released = False\<rparr>"
  by (simp add: next_state_def started_payload_def field_def dget_def claim_from_started_def new_claim_def Let_def)

lemma payload_task [simp]:
  "field (new_event i n ty a (started_payload t o' cid h w n' l) None) ''task_id'' = t"
  "field (new_event i n ty a (released_payload t o' c r) None) ''task_id'' = t"
  "field (new_event i n ty a (renewed_payload t c h l n') None) ''task_id'' = t"
  "field (new_event i n ty a (completed_payload q cur) None) ''task_id'' = co_task_id q"
  by (simp_all add: field_def dget_def started_payload_def released_payload_def renewed_payload_def completed_payload_def)

text \<open>A claim answers from what stands, or starts a new one over what is gone.\<close>

lemma claim_cases:
  assumes "claim env cid ids t outcome holder actor lease_s now es = (res, new)" "t \<noteq> []" "cid \<noteq> []"
  obtains (kept) c where "live_from_state (task_state es t) now = Some c" "new = []"
      "res = (if cl_holder c = holder then Some c else None)"
  | (over) "ts_terminal (task_state es t)" "new = []" "res = None"
  | (taken) who where "live_from_state (task_state es t) now = None" "\<not> ts_terminal (task_state es t)"
      "\<exists>gone i. new = gone @ [new_event i now STARTED who (started_payload t outcome cid holder who now (resolve_lease env lease_s)) None]
        \<and> (\<forall>e \<in> set gone. ev_type e = RELEASED \<and> field e ''task_id'' = t)"
      "res = Some (new_claim cid t outcome holder who now (resolve_lease env lease_s))"
      "\<And>t'. task_state (es @ new) t' = (if t' = t then \<lparr>ts_claim = res, ts_terminal = False, ts_released = False\<rparr> else task_state es t')"
proof -
  define st where "st = task_state es t"
  define who where "who = (case actor of None \<Rightarrow> holder | Some a \<Rightarrow> or_else a holder)"
  note eq = assms(1) [unfolded claim_def Let_def, folded task_state_def, folded st_def who_def]
  show thesis
  proof (cases "live_from_state st now")
    case (Some c)
    then show ?thesis using eq kept [of c] by (simp add: st_def)
  next
    case None
    show ?thesis
    proof (cases "ts_terminal st")
      case True
      then show ?thesis using eq None over by (simp add: st_def)
    next
      case False
      define gone where "gone = (case ts_claim st of Some previous \<Rightarrow> if ts_released st then []
          else [new_event (ids 0) now RELEASED who (released_payload t (or_else (cl_outcome_id previous) outcome) previous ''expired'') None]
        | None \<Rightarrow> [])"
      define start where "start = new_event (ids 1) now STARTED who
          (started_payload t outcome cid holder who now (resolve_lease env lease_s)) None"
      have new: "new = gone @ [start]" and res: "res = Some (new_claim cid t outcome holder who now (resolve_lease env lease_s))"
        using eq None False by (auto simp: gone_def start_def new_claim_def)
      have other: "task_state (es @ gone) t' = task_state es t'" if "t' \<noteq> t" for t'
        using that by (auto simp: gone_def task_state_snoc split: option.split)
      have "task_state (es @ new) t' = (if t' = t then \<lparr>ts_claim = res, ts_terminal = False, ts_released = False\<rparr> else task_state es t')" for t'
        using task_state_snoc [of "es @ gone" start t'] other [of t'] assms(2,3)
        by (simp add: new res start_def started_state)
      moreover have "\<forall>e \<in> set gone. ev_type e = RELEASED \<and> field e ''task_id'' = t"
        by (auto simp: gone_def split: option.splits if_splits)
      ultimately show ?thesis
        using taken [of who] None False new res unfolding start_def st_def by blast
    qed
  qed
qed

lemma renew_cases:
  assumes "renew env ids cid holder lease_s now es = (res, new)"
  obtains (refused) "new = []" "res = None"
  | (renewed) t c where "ts_claim (task_state es t) = Some c" "cl_claim_id c = cid" "cl_holder c = holder"
      "\<not> ts_terminal (task_state es t)" "\<not> ts_released (task_state es t)" "\<not> is_expired (cl_expires_at c) now"
      "new = [new_event (ids 0) now RENEWED (or_else (cl_actor c) holder) (renewed_payload t c holder (resolve_lease env lease_s) now) None]"
      "res = Some (c\<lparr>cl_lease_s := PInt (resolve_lease env lease_s), cl_expires_at := moment (now + resolve_lease env lease_s * 1000000),
          cl_renewals := cl_renewals c + 1\<rparr>)"
proof (cases "claimed_with cid (replay_states es)")
  case None
  then show ?thesis using assms refused by (simp add: renew_def)
next
  case (Some x)
  obtain t st c where x: "x = (t, st, c)" by (cases x)
  note found = claimed_with_Some [OF Some [unfolded x]]
  show ?thesis
  proof (cases "ts_terminal st \<or> ts_released st \<or> cl_holder c \<noteq> holder \<or> is_expired (cl_expires_at c) now")
    case True
    then show ?thesis using assms refused Some x by (auto simp: renew_def Let_def)
  next
    case False
    then show ?thesis
      using assms found Some x by (intro renewed [of t c]) (auto simp: renew_def Let_def)
  qed
qed

lemma renewed_state:
  assumes "ts_claim (task_state es t) = Some c" "cl_claim_id c = cid" "t \<noteq> []"
  shows "task_state (es @ [new_event i now RENEWED a (renewed_payload t c h l now) None]) t' =
    (if t' = t then (task_state es t)\<lparr>ts_claim := Some (c\<lparr>cl_lease_s := PInt l, cl_expires_at := moment (now + l * 1000000),
       cl_renewals := cl_renewals c + 1\<rparr>)\<rparr> else task_state es t')"
  using assms by (simp add: task_state_snoc next_state_def renewed_payload_def field_def dget_def Let_def)

lemma released_state:
  assumes "ts_claim (task_state es t) = Some c" "t \<noteq> []"
  shows "task_state (es @ [new_event i now RELEASED a (released_payload t o' c r) None]) t' =
    (if t' = t then (task_state es t)\<lparr>ts_released := True\<rparr> else task_state es t')"
  using assms by (simp add: task_state_snoc next_state_def released_payload_def field_def dget_def Let_def)

lemma release_cases:
  assumes "release ids cid holder reason now es = (res, new)"
  obtains (kept) "new = []"
  | (left) t c a where "ts_claim (task_state es t) = Some c" "cl_claim_id c = cid" "cl_holder c = holder"
      "\<not> ts_terminal (task_state es t)" "new = [new_event (ids 0) now RELEASED a (released_payload t (cl_outcome_id c) c reason) None]" "res = Inr True"
proof (cases "claimed_with cid (replay_states es)")
  case None
  then show ?thesis using assms kept by (simp add: release_def split: if_splits)
next
  case (Some x)
  obtain t st c where x: "x = (t, st, c)" by (cases x)
  note found = claimed_with_Some [OF Some [unfolded x]]
  show ?thesis
    using assms kept left [of t c] Some x found by (auto simp: release_def split: if_splits)
qed

lemma terminal_state:
  assumes "ty \<in> set TERMINAL_EVENT_TYPES" "t \<noteq> []" "field (new_event i now ty a p None) ''task_id'' = t"
  shows "task_state (es @ [new_event i now ty a p None]) t' =
    (if t' = t then (task_state es t)\<lparr>ts_terminal := True\<rparr> else task_state es t')"
proof -
  have "ty \<in> set CLAIM_EVENT_TYPES" "ty \<noteq> STARTED" "ty \<noteq> RENEWED" "ty \<noteq> RELEASED"
    using assms(1) by (auto simp: CLAIM_EVENT_TYPES_def TERMINAL_EVENT_TYPES_def STARTED_def RENEWED_def RELEASED_def)
  then show ?thesis
    using assms(2,3) by (simp add: task_state_snoc next_state_def Let_def)
qed


text \<open>The fence: a completion is accepted exactly from the latest token, or from anyone while nobody
  holds a live claim; then the task is over.\<close>

definition fence_open :: "completion \<Rightarrow> task_state \<Rightarrow> int \<Rightarrow> bool" where
  "fence_open q st now \<longleftrightarrow> \<not> ts_terminal st \<and> (case co_claim_id q of
     Some cid \<Rightarrow> (\<exists>c. ts_claim st = Some c \<and> cl_claim_id c = cid \<and> co_holder q \<in> {None, Some (cl_holder c)})
   | None \<Rightarrow> live_from_state st now = None)"

lemma fence_iff: "fence q st now = None \<longleftrightarrow> fence_open q st now"
  by (cases "ts_claim st"; cases "co_holder q") (auto simp: fence_def fence_open_def split: option.splits)

lemma complete_cases:
  assumes "complete ids q now es = (res, new)"
  obtains (refused) r where "res = Inl r" "new = []" "co_status q \<in> {''done'', ''failed''} \<longrightarrow> \<not> fence_open q (task_state es (co_task_id q)) now"
    "co_status q \<notin> {''done'', ''failed''} \<longrightarrow> r = Bad_Status"
  | (accepted) e a where "res = Inr e" "new = [e]" "co_status q \<in> {''done'', ''failed''}"
    "fence_open q (task_state es (co_task_id q)) now" "e = new_event (ids 0) now
       (if co_status q = ''done'' then ''work_item_completed'' else ''work_item_failed'') a (completed_payload q (ts_claim (task_state es (co_task_id q)))) None"
proof (cases "co_status q \<in> {''done'', ''failed''}")
  case False
  then show ?thesis using assms refused by (simp add: complete_def)
next
  case True
  show ?thesis
  proof (cases "fence q (task_state es (co_task_id q)) now")
    case None
    then show ?thesis
      using assms True by (intro accepted) (auto simp: complete_def Let_def fence_iff [symmetric] task_state_def)
  next
    case (Some r)
    then show ?thesis
      using assms True by (intro refused) (auto simp: complete_def Let_def fence_iff [symmetric] task_state_def)
  qed
qed

lemma completed_state:
  assumes "t \<noteq> []" "ty = (if b then ''work_item_completed'' else ''work_item_failed'')"
  shows "task_state (es @ [new_event i now ty a (completed_payload q cur) None]) t =
    (if co_task_id q = t then (task_state es t)\<lparr>ts_terminal := True\<rparr> else task_state es t)"
  using terminal_state [of ty "co_task_id q" i now a "completed_payload q cur" es t] assms
  by (cases "co_task_id q = []") (auto simp: TERMINAL_EVENT_TYPES_def task_state_snoc)

lemma complete_state:
  assumes "complete ids q now es = (res, new)" "t \<noteq> []"
  shows "task_state (es @ new) t = (if new \<noteq> [] \<and> co_task_id q = t then (task_state es t)\<lparr>ts_terminal := True\<rparr> else task_state es t)"
  using assms(1)
proof (cases rule: complete_cases)
  case (accepted e a)
  show ?thesis
    unfolding accepted(2,5) using completed_state [OF assms(2) refl, of es "ids 0" now "co_status q = ''done''" a q] by simp
qed simp

end
