(* ===== verification/Claim_Board.thy ===== *)
theory Claim_Board
  imports Claims_Correct
begin

text \<open>
  The claim protocol as a machine: the shared ledger, the clock and, as history, what each holder was
  last told of its token and which tokens were given back. The steps are the operations of \<open>Claims\<close>
  by any caller at the current moment, the clock, and the events of other writers.
\<close>

section \<open>The machine\<close>

record board =
  bd_now :: int
  bd_log :: "org_event list"
  bd_told :: "string \<Rightarrow> task_claim option"
  bd_left :: "string set"

definition empty_board :: "int \<Rightarrow> board" where
  "empty_board now = \<lparr>bd_now = now, bd_log = [], bd_told = \<lambda>_. None, bd_left = {}\<rparr>"

text \<open>The answer of a claim or a renewal is what its caller knows.\<close>

definition tell :: "task_claim option \<Rightarrow> (string \<Rightarrow> task_claim option) \<Rightarrow> (string \<Rightarrow> task_claim option)" where
  "tell res told = (case res of None \<Rightarrow> told | Some c \<Rightarrow> told(cl_claim_id c \<mapsto> c))"

text \<open>Events of other writers: none of the claim kinds, a start without a token, a verification.\<close>

definition foreign :: "org_event \<Rightarrow> bool" where
  "foreign e \<longleftrightarrow> ev_type e \<notin> set CLAIM_EVENT_TYPES \<or> ev_type e = STARTED \<and> field e ''claim_id'' = []
     \<or> ev_type e = ''work_item_verified''"

inductive board_step :: "lease_env \<Rightarrow> board \<Rightarrow> board \<Rightarrow> bool" for env where
  Tick: "bd_now b \<le> now \<Longrightarrow> board_step env b (b\<lparr>bd_now := now\<rparr>)"
| Claim: "claim env cid ids t outcome holder actor lease_s (bd_now b) (bd_log b) = (res, new) \<Longrightarrow>
    t \<noteq> [] \<Longrightarrow> cid \<noteq> [] \<Longrightarrow> bd_told b cid = None \<Longrightarrow>
    board_step env b (b\<lparr>bd_log := bd_log b @ new, bd_told := tell res (bd_told b)\<rparr>)"
| Renew: "renew env ids cid holder lease_s (bd_now b) (bd_log b) = (res, new) \<Longrightarrow>
    board_step env b (b\<lparr>bd_log := bd_log b @ new, bd_told := tell res (bd_told b)\<rparr>)"
| Release: "release ids cid holder reason (bd_now b) (bd_log b) = (res, new) \<Longrightarrow>
    board_step env b (b\<lparr>bd_log := bd_log b @ new, bd_left := (if res = Inr True then insert cid (bd_left b) else bd_left b)\<rparr>)"
| Complete: "complete ids q (bd_now b) (bd_log b) = (res, new) \<Longrightarrow> board_step env b (b\<lparr>bd_log := bd_log b @ new\<rparr>)"
| Other: "foreign e \<Longrightarrow> board_step env b (b\<lparr>bd_log := bd_log b @ [e]\<rparr>)"

inductive_cases board_stepE: "board_step env b b'"

inductive reachable_board :: "lease_env \<Rightarrow> board \<Rightarrow> bool" for env where
  start: "reachable_board env (empty_board now)"
| step: "reachable_board env b \<Longrightarrow> board_step env b b' \<Longrightarrow> reachable_board env b'"

section \<open>The invariant\<close>

definition moment_of :: "pyval \<Rightarrow> int" where
  "moment_of v = (case parse_stamp v of None \<Rightarrow> 0 | Some t \<Rightarrow> t)"

definition lease_start :: "task_claim \<Rightarrow> int" where "lease_start c = moment_of (cl_started_at c)"
definition lease_end :: "task_claim \<Rightarrow> int" where "lease_end c = moment_of (cl_expires_at c)"

lemma moment_of_moment [simp]: "moment_of (moment t) = t"
  by (simp add: moment_of_def)

definition apart :: "string set \<Rightarrow> task_claim \<Rightarrow> task_claim \<Rightarrow> bool" where
  "apart left c c' \<longleftrightarrow> cl_claim_id c \<in> left \<or> cl_claim_id c' \<in> left
     \<or> lease_end c \<le> lease_start c' \<or> lease_end c' \<le> lease_start c"

text \<open>What was told: well stamped, begun in the past, over within the longest lease.\<close>

definition told_ok :: "int \<Rightarrow> string \<Rightarrow> task_claim \<Rightarrow> bool" where
  "told_ok now k c \<longleftrightarrow> cl_claim_id c = k \<and> k \<noteq> [] \<and> cl_task_id c \<noteq> [] \<and> cl_started_at c = moment (lease_start c) \<and> cl_expires_at c = moment (lease_end c)
     \<and> lease_start c \<le> now \<and> lease_end c \<le> now + MAX_LEASE_SECONDS * 1000000"

text \<open>The latest claim of a task against the others on it.\<close>

definition latest_ok :: "(string \<Rightarrow> task_claim option) \<Rightarrow> string set \<Rightarrow> string \<Rightarrow> task_state \<Rightarrow> bool" where
  "latest_ok told left t st \<longleftrightarrow> (case ts_claim st of
     None \<Rightarrow> (\<forall>k c. told k = Some c \<longrightarrow> cl_task_id c \<noteq> t)
   | Some c \<Rightarrow> told (cl_claim_id c) = Some c \<and> cl_task_id c = t \<and> (ts_released st \<longrightarrow> cl_claim_id c \<in> left)
       \<and> (\<forall>k c'. told k = Some c' \<longrightarrow> cl_task_id c' = t \<longrightarrow> k \<noteq> cl_claim_id c \<longrightarrow> k \<in> left \<or> lease_end c' \<le> lease_start c))"

definition board_inv :: "board \<Rightarrow> bool" where
  "board_inv b \<longleftrightarrow> (\<forall>k c. bd_told b k = Some c \<longrightarrow> told_ok (bd_now b) k c)
     \<and> (\<forall>t. t \<noteq> [] \<longrightarrow> latest_ok (bd_told b) (bd_left b) t (task_state (bd_log b) t))
     \<and> (\<forall>k k' c c'. bd_told b k = Some c \<longrightarrow> bd_told b k' = Some c' \<longrightarrow> cl_task_id c = cl_task_id c' \<longrightarrow> k \<noteq> k' \<longrightarrow> apart (bd_left b) c c')"

lemma board_invI:
  assumes "\<And>k c. bd_told b k = Some c \<Longrightarrow> told_ok (bd_now b) k c"
    and "\<And>t. t \<noteq> [] \<Longrightarrow> latest_ok (bd_told b) (bd_left b) t (task_state (bd_log b) t)"
    and "\<And>k k' c c'. bd_told b k = Some c \<Longrightarrow> bd_told b k' = Some c' \<Longrightarrow> cl_task_id c = cl_task_id c' \<Longrightarrow> k \<noteq> k' \<Longrightarrow> apart (bd_left b) c c'"
  shows "board_inv b"
  using assms by (simp add: board_inv_def)

lemma board_invD:
  assumes "board_inv b"
  shows "bd_told b k = Some c \<Longrightarrow> told_ok (bd_now b) k c"
    and "t \<noteq> [] \<Longrightarrow> latest_ok (bd_told b) (bd_left b) t (task_state (bd_log b) t)"
    and "bd_told b k = Some c \<Longrightarrow> bd_told b k' = Some c' \<Longrightarrow> cl_task_id c = cl_task_id c' \<Longrightarrow> k \<noteq> k' \<Longrightarrow> apart (bd_left b) c c'"
  using assms by (simp_all add: board_inv_def)

lemma no_empty_task [simp]: "task_state es [] = no_state"
proof (induction es rule: rev_induct)
  case (snoc e es)
  then show ?case by (simp add: task_state_snoc)
qed simp

lemma lease_bounds:
  "1 \<le> resolve_lease env a" "resolve_lease env a \<le> MAX_LEASE_SECONDS"
  by (simp_all add: resolve_lease_def resolve_lease_floor_def Let_def MAX_LEASE_SECONDS_def MIN_LEASE_SECONDS_def
      ABSOLUTE_MIN_LEASE_SECONDS_def split: option.split)

text \<open>A step that leaves every task's claim, and only gives back or ends, keeps the invariant.\<close>

lemma inv_frame:
  assumes inv: "board_inv b" and told: "bd_told b' = bd_told b" and left: "bd_left b \<subseteq> bd_left b'" and now: "bd_now b \<le> bd_now b'"
    and states: "\<And>t. t \<noteq> [] \<Longrightarrow> ts_claim (task_state (bd_log b') t) = ts_claim (task_state (bd_log b) t)
      \<and> (ts_released (task_state (bd_log b') t) \<longrightarrow> ts_released (task_state (bd_log b) t)
          \<or> (\<forall>c. ts_claim (task_state (bd_log b) t) = Some c \<longrightarrow> cl_claim_id c \<in> bd_left b'))"
  shows "board_inv b'"
proof (rule board_invI)
  fix k c
  assume "bd_told b' k = Some c"
  then show "told_ok (bd_now b') k c"
    using board_invD(1) [OF inv, of k c] told now by (auto simp: told_ok_def)
next
  fix t :: string
  assume t: "t \<noteq> []"
  show "latest_ok (bd_told b') (bd_left b') t (task_state (bd_log b') t)"
    using board_invD(2) [OF inv t] states [OF t] left told
    by (auto simp: latest_ok_def split: option.splits)
next
  fix k k' c c'
  assume "bd_told b' k = Some c" "bd_told b' k' = Some c'" "cl_task_id c = cl_task_id c'" "k \<noteq> k'"
  then show "apart (bd_left b') c c'"
    using board_invD(3) [OF inv, of k c k' c'] told left by (auto simp: apart_def)
qed


lemma latest_okD:
  assumes "latest_ok told left t st"
  shows "ts_claim st = Some c \<Longrightarrow> told (cl_claim_id c) = Some c" "ts_claim st = Some c \<Longrightarrow> cl_task_id c = t"
    and "ts_claim st = Some c \<Longrightarrow> ts_released st \<Longrightarrow> cl_claim_id c \<in> left"
    and "ts_claim st = Some c \<Longrightarrow> told k = Some c' \<Longrightarrow> cl_task_id c' = t \<Longrightarrow> k \<noteq> cl_claim_id c \<Longrightarrow> k \<in> left \<or> lease_end c' \<le> lease_start c"
    and "ts_claim st = None \<Longrightarrow> told k = Some c' \<Longrightarrow> cl_task_id c' \<noteq> t"
  using assms by (auto simp: latest_ok_def)

text \<open>A holder is told of a lease that begins after every other lease on its task.\<close>

lemma inv_told:
  assumes inv: "board_inv b" and ok: "told_ok (bd_now b) j n" and t: "cl_task_id n = t"
    and fresh: "\<And>c. bd_told b j = Some c \<Longrightarrow> cl_task_id c = t"
    and past: "\<And>k c. bd_told b k = Some c \<Longrightarrow> cl_task_id c = t \<Longrightarrow> k \<noteq> j \<Longrightarrow> k \<in> bd_left b \<or> lease_end c \<le> lease_start n"
    and states: "\<And>t'. task_state es t' = (if t' = t then st else task_state (bd_log b) t')"
    and st: "ts_claim st = Some n" "ts_released st \<Longrightarrow> j \<in> bd_left b"
  shows "board_inv (b\<lparr>bd_log := es, bd_told := (bd_told b)(j \<mapsto> n)\<rparr>)"
proof (rule board_invI, goal_cases)
  case (1 k c)
  then show ?case using ok board_invD(1) [OF inv, of k c] by (simp split: if_splits)
next
  case (2 t')
  have j: "cl_claim_id n = j" using ok by (simp add: told_ok_def)
  show ?case
  proof (cases "t' = t")
    case True
    then show ?thesis using past st t j by (simp add: latest_ok_def states)
  next
    case False
    note lat = latest_okD [OF board_invD(2) [OF inv 2]]
    show ?thesis
    proof (cases "ts_claim (task_state (bd_log b) t')")
      case None
      then show ?thesis using lat(5) False t by (simp add: latest_ok_def states)
    next
      case (Some c)
      have "cl_claim_id c \<noteq> j" using lat(1,2) [OF Some] fresh [of c] False by auto
      then show ?thesis using lat(1-4) [OF Some] Some False t by (simp add: latest_ok_def states)
    qed
  qed
next
  case (3 k k' c c')
  have ids: "cl_claim_id d = i" if "bd_told b i = Some d" for i d
    using board_invD(1) [OF inv that] by (simp add: told_ok_def)
  have j: "cl_claim_id n = j" using ok by (simp add: told_ok_def)
  have d: "(if k = j then Some n else bd_told b k) = Some c" "(if k' = j then Some n else bd_told b k') = Some c'"
    using 3(1,2) by (simp_all add: fun_upd_apply)
  have side: "apart (bd_left b) n d \<and> apart (bd_left b) d n" if d: "bd_told b i = Some d" "cl_task_id d = t" "i \<noteq> j" for i d
    using past [OF d] ids [OF d(1)] j by (auto simp: apart_def)
  show ?case
  proof (cases "k = j")
    case True
    then have "c = n" "bd_told b k' = Some c'" "k' \<noteq> j" using d 3(4) by auto
    then show ?thesis using side [of k' c'] 3(3) t by simp
  next
    case False
    then have k: "bd_told b k = Some c" using d by simp
    show ?thesis
    proof (cases "k' = j")
      case True
      then have "c' = n" using d by simp
      then show ?thesis using side [OF k _ False] 3(3) t by simp
    next
      case False
      then show ?thesis using board_invD(3) [OF inv k, of k' c'] d 3(3,4) by simp
    qed
  qed
qed

text \<open>Where no claim is live, every lease on the task is over or given back.\<close>

lemma none_live:
  assumes inv: "board_inv b" and t: "t \<noteq> []" and free: "live_from_state (task_state (bd_log b) t) (bd_now b) = None"
    and open_t: "\<not> ts_terminal (task_state (bd_log b) t)" and k: "bd_told b k = Some c" "cl_task_id c = t"
  shows "k \<in> bd_left b \<or> lease_end c \<le> bd_now b"
proof -
  note lat = latest_okD [OF board_invD(2) [OF inv t]]
  obtain c0 where c0: "ts_claim (task_state (bd_log b) t) = Some c0"
    using lat(5) k by blast
  have ok0: "cl_expires_at c0 = moment (lease_end c0)" "lease_start c0 \<le> bd_now b"
    using board_invD(1) [OF inv lat(1) [OF c0]] by (simp_all add: told_ok_def)
  have "is_expired (cl_expires_at c0) (bd_now b) \<longleftrightarrow> lease_end c0 \<le> bd_now b"
    by (subst ok0(1)) (rule expired_moment)
  then have over: "ts_released (task_state (bd_log b) t) \<or> lease_end c0 \<le> bd_now b"
    using free open_t c0 by (simp add: live_from_state_def split: if_splits)
  show ?thesis
  proof (cases "k = cl_claim_id c0")
    case True
    then have "c = c0" using lat(1) [OF c0] k by simp
    then show ?thesis using over lat(3) [OF c0] True by blast
  next
    case False
    then show ?thesis using lat(4) [OF c0 k] ok0(2) by linarith
  qed
qed

lemma inv_taken:
  assumes inv: "board_inv b" and t: "t \<noteq> []" "cid \<noteq> []" "bd_told b cid = None"
    and free: "live_from_state (task_state (bd_log b) t) (bd_now b) = None" "\<not> ts_terminal (task_state (bd_log b) t)"
    and n: "n = new_claim cid t outcome holder who (bd_now b) (resolve_lease env a)"
    and states: "\<And>t'. task_state es t' = (if t' = t then \<lparr>ts_claim = Some n, ts_terminal = False, ts_released = False\<rparr>
      else task_state (bd_log b) t')"
  shows "board_inv (b\<lparr>bd_log := es, bd_told := (bd_told b)(cid \<mapsto> n)\<rparr>)"
proof (rule inv_told [OF inv _ _ _ _ states])
  have nf: "cl_claim_id n = cid" "cl_task_id n = t" "lease_start n = bd_now b" "lease_end n = bd_now b + resolve_lease env a * 1000000"
    "cl_started_at n = moment (bd_now b)" "cl_expires_at n = moment (bd_now b + resolve_lease env a * 1000000)"
    by (simp_all add: n new_claim_def lease_start_def lease_end_def)
  show "told_ok (bd_now b) cid n"
    using t lease_bounds [of env a] by (simp add: told_ok_def nf)
  show "k \<in> bd_left b \<or> lease_end c \<le> lease_start n" if "bd_told b k = Some c" "cl_task_id c = t" for k c
    using none_live [OF inv t(1) free that] nf by simp
qed (use t in \<open>simp_all add: n new_claim_def\<close>)

lemma inv_renewed:
  assumes inv: "board_inv b" and c: "ts_claim (task_state (bd_log b) t) = Some c" "\<not> ts_released (task_state (bd_log b) t)"
    and n: "n = c\<lparr>cl_lease_s := l, cl_expires_at := moment (bd_now b + resolve_lease env a * 1000000), cl_renewals := r\<rparr>"
    and states: "\<And>t'. task_state es t' = (if t' = t then (task_state (bd_log b) t)\<lparr>ts_claim := Some n\<rparr> else task_state (bd_log b) t')"
  shows "board_inv (b\<lparr>bd_log := es, bd_told := (bd_told b)(cl_claim_id c \<mapsto> n)\<rparr>)"
proof -
  have t: "t \<noteq> []" using c by (auto simp: no_state_def)
  note lat = latest_okD [OF board_invD(2) [OF inv t]]
  note told = lat(1) [OF c(1)] lat(2) [OF c(1)]
  have nf: "cl_claim_id n = cl_claim_id c" "cl_task_id n = t" "lease_start n = lease_start c" "cl_started_at n = cl_started_at c"
    "cl_expires_at n = moment (bd_now b + resolve_lease env a * 1000000)" "lease_end n = bd_now b + resolve_lease env a * 1000000"
    by (simp_all add: n told lease_start_def lease_end_def)
  have ok: "told_ok (bd_now b) (cl_claim_id c) n"
    using board_invD(1) [OF inv told(1)] lease_bounds [of env a] by (simp add: told_ok_def nf told)
  show ?thesis
    by (rule inv_told [OF inv ok nf(2) _ _ states]) (use c told lat(4) [OF c(1)] nf in simp_all)
qed


text \<open>Events of other writers end a task at most.\<close>

lemma foreign_state:
  assumes "foreign e"
  shows "ts_claim (task_state (es @ [e]) t) = ts_claim (task_state es t)" "ts_released (task_state (es @ [e]) t) = ts_released (task_state es t)"
    and "ts_terminal (task_state es t) \<Longrightarrow> ts_terminal (task_state (es @ [e]) t)"
  using assms by (auto simp: foreign_def task_state_snoc next_state_def STARTED_def RENEWED_def RELEASED_def Let_def)

lemma released_left:
  assumes "release ids cid holder reason now es = (res, new)" "t \<noteq> []"
  shows "ts_claim (task_state (es @ new) t) = ts_claim (task_state es t)"
    and "ts_terminal (task_state (es @ new) t) = ts_terminal (task_state es t)"
    and "ts_released (task_state (es @ new) t) \<Longrightarrow> ts_released (task_state es t)
      \<or> res = Inr True \<and> (\<forall>c. ts_claim (task_state es t) = Some c \<longrightarrow> cl_claim_id c = cid)"
proof -
  have "ts_claim (task_state (es @ new) t) = ts_claim (task_state es t) \<and> ts_terminal (task_state (es @ new) t) = ts_terminal (task_state es t)
    \<and> (ts_released (task_state (es @ new) t) \<longrightarrow> ts_released (task_state es t)
      \<or> res = Inr True \<and> (\<forall>c. ts_claim (task_state es t) = Some c \<longrightarrow> cl_claim_id c = cid))"
    using assms(1)
  proof (cases rule: release_cases)
    case (left u c a)
    have u: "u \<noteq> []" using left(1) by (auto simp: no_state_def)
    show ?thesis
      unfolding left(5) released_state [OF left(1) u] using left by auto
  qed simp
  then show "ts_claim (task_state (es @ new) t) = ts_claim (task_state es t)"
    "ts_terminal (task_state (es @ new) t) = ts_terminal (task_state es t)"
    "ts_released (task_state (es @ new) t) \<Longrightarrow> ts_released (task_state es t)
      \<or> res = Inr True \<and> (\<forall>c. ts_claim (task_state es t) = Some c \<longrightarrow> cl_claim_id c = cid)"
    by blast+
qed

lemma step_inv:
  assumes "board_step env b b'" "board_inv b"
  shows "board_inv b'"
  using assms(1)
proof cases
  case (Tick now)
  then show ?thesis by (intro inv_frame [OF assms(2)]) auto
next
  case (Claim cid ids t outcome holder actor lease_s res new)
  show ?thesis
    using Claim(2-4)
  proof (cases rule: claim_cases)
    case (kept c)
    then have t: "ts_claim (task_state (bd_log b) t) = Some c"
      by (auto simp: live_from_state_def split: option.splits if_splits)
    then have "tell res (bd_told b) = bd_told b"
      using latest_okD(1) [OF board_invD(2) [OF assms(2) Claim(3)] t] kept by (auto simp: tell_def fun_upd_idem)
    then show ?thesis
      unfolding Claim(1) by (intro inv_frame [OF assms(2)]) (auto simp: kept)
  next
    case over
    then show ?thesis unfolding Claim(1) by (intro inv_frame [OF assms(2)]) (auto simp: tell_def)
  next
    case (taken who)
    have "tell res (bd_told b) = (bd_told b)(cid \<mapsto> new_claim cid t outcome holder who (bd_now b) (resolve_lease env lease_s))"
      by (simp add: taken(4) tell_def new_claim_def)
    then show ?thesis
      unfolding Claim(1) using inv_taken [OF assms(2) Claim(3-5) taken(1,2) refl] taken(4,5) by simp
  qed
next
  case (Renew ids cid holder lease_s res new)
  show ?thesis
    using Renew(2)
  proof (cases rule: renew_cases)
    case refused
    then show ?thesis unfolding Renew(1) by (intro inv_frame [OF assms(2)]) (auto simp: tell_def)
  next
    case (renewed t c)
    have t: "t \<noteq> []" using renewed(1) by (auto simp: no_state_def)
    have "tell res (bd_told b) = (bd_told b)(cl_claim_id c \<mapsto> the res)"
      by (simp add: renewed(8) tell_def)
    then show ?thesis
      unfolding Renew(1) renewed(7)
      using inv_renewed [OF assms(2) renewed(1,5) refl, where es = "bd_log b @ new", unfolded renewed(7),
          OF renewed_state [OF renewed(1,2) t]] renewed(8)
      by simp
  qed
next
  case (Release ids cid holder reason res new)
  then show ?thesis
    using released_left [OF Release(2)] by (intro inv_frame [OF assms(2)]) auto
next
  case (Complete ids q res new)
  then show ?thesis
    using complete_state [OF Complete(2)] by (intro inv_frame [OF assms(2)]) auto
next
  case (Other e)
  then show ?thesis
    using foreign_state [OF Other(2)] by (intro inv_frame [OF assms(2)]) auto
qed

lemma reachable_inv: "reachable_board env b \<Longrightarrow> board_inv b"
proof (induction rule: reachable_board.induct)
  case (start now)
  then show ?case by (intro board_invI) (auto simp: empty_board_def latest_ok_def no_state_def)
next
  case (step b b')
  then show ?case using step_inv by blast
qed


section \<open>Exclusive leases\<close>

text \<open>The board after alice claimed a task, her lease ran out and bob claimed it.\<close>

definition demo_env :: lease_env where
  "demo_env = \<lparr>le_lease = None, le_floor = None\<rparr>"

definition demo_claim :: "string \<Rightarrow> string \<Rightarrow> board \<Rightarrow> board" where
  "demo_claim cid who b = (let (res, new) = claim demo_env cid (\<lambda>_. []) ''t'' ''o'' who None None (bd_now b) (bd_log b)
     in b\<lparr>bd_log := bd_log b @ new, bd_told := tell res (bd_told b)\<rparr>)"

definition demo_held :: board where
  "demo_held = demo_claim ''a'' ''alice'' (empty_board 0)"

definition demo_board :: board where
  "demo_board = demo_claim ''b'' ''bob'' (demo_held\<lparr>bd_now := 900000000\<rparr>)"

lemma demo_claim_step: "cid \<noteq> [] \<Longrightarrow> bd_told b cid = None \<Longrightarrow> board_step demo_env b (demo_claim cid who b)"
  by (cases "claim demo_env cid (\<lambda>_. []) ''t'' ''o'' who None None (bd_now b) (bd_log b)")
    (simp add: demo_claim_def board_step.Claim)

lemma demo_held_reachable: "reachable_board demo_env demo_held"
  unfolding demo_held_def by (rule reachable_board.step [OF reachable_board.start demo_claim_step]) (simp_all add: empty_board_def)

lemma demo_reachable: "reachable_board demo_env demo_board"
proof -
  have "board_step demo_env demo_held (demo_held\<lparr>bd_now := 900000000\<rparr>)"
    by (rule board_step.Tick) code_simp
  moreover have "bd_told (demo_held\<lparr>bd_now := 900000000\<rparr>) ''b'' = None"
    by code_simp
  ultimately show ?thesis
    unfolding demo_board_def
    by (intro reachable_board.step [OF reachable_board.step [OF demo_held_reachable] demo_claim_step]) simp_all
qed

text \<open>
  C23: two leases of one task never overlap. In every reachable state of the claim protocol, whatever
  claims, renewals, releases, completions and foreign events led to it, the periods last promised
  under two different tokens of one task are disjoint, unless a token's holder gave it back.
\<close>

theorem lease_exclusive:
  assumes "reachable_board env b" "bd_told b k = Some c" "bd_told b k' = Some c'" "k \<noteq> k'"
    and "cl_task_id c = cl_task_id c'" "k \<notin> bd_left b" "k' \<notin> bd_left b"
  shows "lease_end c \<le> lease_start c' \<or> lease_end c' \<le> lease_start c"
  using board_invD(3) [OF reachable_inv [OF assms(1)] assms(2,3,5,4)] assms(6,7)
    board_invD(1) [OF reachable_inv [OF assms(1)] assms(2)] board_invD(1) [OF reachable_inv [OF assms(1)] assms(3)]
  by (auto simp: apart_def told_ok_def)

theorem lease_exclusive_witness:
  "lease_end (the (bd_told demo_board ''a'')) \<le> lease_start (the (bd_told demo_board ''b''))
   \<or> lease_end (the (bd_told demo_board ''b'')) \<le> lease_start (the (bd_told demo_board ''a''))"
proof (rule lease_exclusive [OF demo_reachable, of "''a''" _ "''b''"])
  show "bd_told demo_board ''a'' = Some (the (bd_told demo_board ''a''))" "bd_told demo_board ''b'' = Some (the (bd_told demo_board ''b''))"
    "cl_task_id (the (bd_told demo_board ''a'')) = cl_task_id (the (bd_told demo_board ''b''))"
    "''a'' \<notin> bd_left demo_board" "''b'' \<notin> bd_left demo_board"
    by code_simp+
qed simp

section \<open>Completed once\<close>

definition completions :: "string \<Rightarrow> org_event list \<Rightarrow> org_event list" where
  "completions t es = filter (\<lambda>e. ev_type e \<in> {''work_item_completed'', ''work_item_failed''} \<and> field e ''task_id'' = t) es"

definition once :: "string \<Rightarrow> org_event list \<Rightarrow> bool" where
  "once t es \<longleftrightarrow> length (completions t es) \<le> 1 \<and> (completions t es = [] \<or> ts_terminal (task_state es t))"

lemma once_frame:
  "once t es \<Longrightarrow> completions t new = [] \<Longrightarrow> (ts_terminal (task_state es t) \<Longrightarrow> ts_terminal (task_state (es @ new) t)) \<Longrightarrow> once t (es @ new)"
  by (auto simp: once_def completions_def)

lemma no_completion: "ev_type ` set new \<subseteq> {STARTED, RENEWED, RELEASED} \<Longrightarrow> completions t new = []"
  by (auto simp: completions_def STARTED_def RENEWED_def RELEASED_def filter_empty_conv)

lemma once_step:
  assumes "board_step env b b'" "once t (bd_log b)" and t: "t \<noteq> []"
  shows "once t (bd_log b')"
  using assms(1)
proof cases
  case (Claim cid ids t' outcome holder actor lease_s res new)
  show ?thesis
    using Claim(2-4)
  proof (cases rule: claim_cases)
    case (taken who)
    have "ev_type ` set new \<subseteq> {STARTED, RENEWED, RELEASED}"
      using taken(3) by auto
    note none = no_completion [OF this]
    show ?thesis
    proof (cases "t = t'")
      case True
      then show ?thesis using assms(2) taken(2) none unfolding Claim(1) by (simp add: once_def completions_def)
    next
      case False
      then show ?thesis unfolding Claim(1) using once_frame [OF assms(2) none] taken(5) by simp
    qed
  qed (use assms(2) Claim(1) in simp_all)
next
  case (Renew ids cid holder lease_s res new)
  show ?thesis
    using Renew(2)
  proof (cases rule: renew_cases)
    case (renewed t' c)
    have "t' \<noteq> []" using renewed(1) by (auto simp: no_state_def)
    then show ?thesis
      unfolding Renew(1) using renewed_state [OF renewed(1,2)] no_completion [of new]
      by (auto intro!: once_frame [OF assms(2)] simp: renewed(7))
  qed (use assms(2) Renew(1) in simp_all)
next
  case (Release ids cid holder reason res new)
  have "completions t new = []"
    using Release(2) by (cases rule: release_cases) (auto intro: no_completion)
  then show ?thesis
    unfolding Release(1) using released_left(2) [OF Release(2) t] by (simp add: once_frame [OF assms(2)])
next
  case (Complete ids q res new)
  have state: "ts_terminal (task_state (bd_log b @ new) t) = (ts_terminal (task_state (bd_log b) t) \<or> new \<noteq> [] \<and> co_task_id q = t)"
    using complete_state [OF Complete(2) t] by auto
  show ?thesis
    using Complete(2)
  proof (cases rule: complete_cases)
    case (refused r)
    then show ?thesis using assms(2) Complete(1) by simp
  next
    case (accepted e a)
    show ?thesis
    proof (cases "co_task_id q = t")
      case True
      then show ?thesis
        using assms(2) accepted state unfolding Complete(1) by (auto simp: once_def completions_def fence_open_def)
    next
      case False
      then show ?thesis
        using assms(2) accepted(2,5) state unfolding Complete(1) by (simp add: once_def completions_def)
    qed
  qed
next
  case (Other e)
  have "completions t [e] = []"
    using Other(2) by (auto simp: completions_def foreign_def STARTED_def)
  then show ?thesis
    unfolding Other(1) using foreign_state(3) [OF Other(2)] by (simp add: once_frame [OF assms(2)])
qed (use assms(2) in simp_all)

text \<open>
  C24: a task is completed at most once. In every reachable state of the claim protocol the ledger
  holds at most one completion or failure of a task, whichever callers race for it, with or without
  tokens; and once there is one the task never becomes claimable or completable again.
\<close>

theorem completed_once:
  assumes "reachable_board env b" "t \<noteq> []"
  shows "length (completions t (bd_log b)) \<le> 1 \<and> (completions t (bd_log b) = [] \<or> ts_terminal (task_state (bd_log b) t))"
proof -
  have "once t (bd_log b)"
    using assms(1)
  proof induction
    case (start now)
    then show ?case by (simp add: empty_board_def once_def completions_def)
  next
    case (step b b')
    then show ?case using once_step assms(2) by blast
  qed
  then show ?thesis by (simp add: once_def)
qed

theorem completed_once_witness:
  "length (completions ''t'' (bd_log demo_board)) \<le> 1"
  using completed_once [OF demo_reachable, of "''t''"] by simp



section \<open>A dead holder's task comes back\<close>

text \<open>
  C26: no task stays with a dead holder. In every reachable state, if a task carries no terminal event
  and its holders stay silent for one day, whoever asks then with a fresh token is granted it, for a
  lease of at least a second and at most a day, and is its live holder in the ledger that results.
\<close>

theorem reclaimed_within_a_day:
  assumes "reachable_board env b" "t \<noteq> []" "cid \<noteq> []" "\<not> ts_terminal (task_state (bd_log b) t)"
    and "bd_now b + 86400 * 1000000 \<le> now"
  shows "\<exists>c new. claim env cid ids t outcome holder actor lease_s now (bd_log b) = (Some c, new)
    \<and> cl_claim_id c = cid \<and> cl_holder c = holder \<and> live_claim t now (bd_log b @ new) = Some c
    \<and> now + 1000000 \<le> lease_end c \<and> lease_end c \<le> now + 86400 * 1000000"
proof -
  let ?b = "b\<lparr>bd_now := now\<rparr>"
  have "board_step env b ?b"
    using assms(5) by (intro board_step.Tick) simp
  note inv = step_inv [OF this reachable_inv [OF assms(1)]]
  have over: "live_from_state (task_state (bd_log b) t) now = None"
  proof (cases "ts_claim (task_state (bd_log b) t)")
    case (Some c)
    have "bd_told b (cl_claim_id c) = Some c"
      using latest_okD(1) [OF board_invD(2) [OF reachable_inv [OF assms(1)] assms(2)] Some] .
    from board_invD(1) [OF reachable_inv [OF assms(1)] this]
    have c: "cl_expires_at c = moment (lease_end c)" "lease_end c \<le> now"
      using assms(5) by (simp_all add: told_ok_def MAX_LEASE_SECONDS_def)
    have "is_expired (cl_expires_at c) now"
      by (subst c(1)) (simp add: c(2))
    then show ?thesis by (simp add: live_from_state_def Some)
  qed (simp add: live_from_state_def)
  obtain res new where r: "claim env cid ids t outcome holder actor lease_s now (bd_log b) = (res, new)" by fastforce
  from r assms(2,3) show ?thesis
  proof (cases rule: claim_cases)
    case (taken who)
    let ?c = "new_claim cid t outcome holder who now (resolve_lease env lease_s)"
    have "live_claim t now (bd_log b @ new) = Some ?c"
      using taken(5) [of t] taken(4) lease_bounds(1) [of env lease_s]
      by (simp add: live_claim_def live_from_state_def new_claim_def task_state_def [symmetric])
    then show ?thesis
      using r taken(4) lease_bounds [of env lease_s]
      by (intro exI [of _ ?c] exI [of _ new]) (simp add: new_claim_def lease_end_def MAX_LEASE_SECONDS_def)
  qed (use over assms(4) in simp_all)
qed

theorem reclaimed_within_a_day_witness:
  "\<exists>c new. claim demo_env ''b'' (\<lambda>_. []) ''t'' ''o'' ''bob'' None None 86400000000 (bd_log demo_held) = (Some c, new)
    \<and> cl_holder c = ''bob''"
proof -
  have "\<not> ts_terminal (task_state (bd_log demo_held) ''t'')" "bd_now demo_held + 86400 * 1000000 \<le> 86400000000"
    by code_simp+
  then show ?thesis
    using reclaimed_within_a_day [OF demo_held_reachable, where t = "''t''" and cid = "''b''" and ids = "\<lambda>_. []" and outcome = "''o''"
      and holder = "''bob''" and actor = None and lease_s = None and now = 86400000000] by auto
qed

section \<open>The claim on the files\<close>

text \<open>
  C27: a claim on the ledger files. Where the ledger reads and carries no interrupted line of today, a
  granted claim whose events are appended one after the other leaves a ledger that reads, holds the
  old events followed by the new, and in which the caller is the live holder of the task with exactly
  the claim it was answered.
\<close>

theorem claim_on_files:
  assumes "file_ready now L" "file_events L = Some es" "t \<noteq> []" "cid \<noteq> []"
    and "claim env cid ids t outcome holder actor lease_s now es = (Some c, new)"
  shows "file_ready now (fold (file_emit now) new L) \<and> file_events (fold (file_emit now) new L) = Some (es @ new)
    \<and> live_claim t now (es @ new) = Some c \<and> cl_holder c = holder"
proof -
  have "live_claim t now (es @ new) = Some c \<and> cl_holder c = holder"
    using assms(5,3,4)
  proof (cases rule: claim_cases)
    case (kept c')
    then show ?thesis by (auto simp: live_claim_def task_state_def split: if_splits)
  next
    case (taken who)
    then show ?thesis
      using taken(5) [of t] lease_bounds(1) [of env lease_s]
      by (auto simp: live_claim_def live_from_state_def new_claim_def task_state_def [symmetric])
  qed simp
  then show ?thesis
    using ledger.emits_last [OF assms(1,2), of new] by simp
qed

theorem claim_on_files_witness:
  "live_claim ''t'' 0 (snd (claim demo_env ''a'' (\<lambda>_. []) ''t'' ''o'' ''alice'' None None 0 [])) \<noteq> None"
proof -
  obtain c new where r: "claim demo_env ''a'' (\<lambda>_. []) ''t'' ''o'' ''alice'' None None 0 [] = (Some c, new)"
    by (simp add: claim_def replay_states_def of_types_def state_of_def no_state_def live_from_state_def Let_def)
  have "file_ready 0 ([] :: org_event ledger)" "file_events ([] :: org_event ledger) = Some []"
    by (simp_all add: file_ready_def settled_def healthy_def tail_of_def file_events_def)
  from claim_on_files [OF this _ _ r] show ?thesis by (simp add: r)
qed

text \<open>
  The comments of \<open>latest_claim_id\<close> and \<open>complete\<close> say that the token of a claim that has since
  expired is stale. It is refused only once another claim was made: until then it completes the task,
  and so does a token its holder gave back.
\<close>

lemma expired_token_completes:
  "(let q = \<lparr>co_task_id = ''t'', co_outcome_id = ''o'', co_holder = None, co_claim_id = Some ''a'', co_status = ''done'',
       co_evidence_text = None, co_evidence_path = None, co_task_index = None, co_actor = None\<rparr>
    in live_claim ''t'' 900000000 (bd_log demo_held) = None \<and> \<not> isl (fst (complete (\<lambda>_. []) q 900000000 (bd_log demo_held)))
      \<and> fst (complete (\<lambda>_. []) q 900000000 (bd_log demo_board)) = Inl Stale_Claim)"
  by code_simp

end
