(* ===== verification/Work_Graph_Correct.thy ===== *)
theory Work_Graph_Correct
  imports Work_Graph
begin

text \<open>
  The properties of the work graph: validation is exactly freedom from cycles and from unowned
  dependent tasks, the topological order is a permutation that respects every dependency, a valid
  mission always has a ready task until it is finished, and the serialised form round-trips.
\<close>

section \<open>Well-formed graphs\<close>

definition graph_ok :: "work_graph \<Rightarrow> bool" where
  "graph_ok g \<longleftrightarrow> distinct (node_ids g) \<and> distinct (wg_edges g)
     \<and> (\<forall>(f, t) \<in> set (wg_edges g). f \<in> set (node_ids g) \<and> t \<in> set (node_ids g) \<and> f \<noteq> t)"

lemma empty_graph_ok [simp]: "graph_ok empty_graph"
  by (simp add: graph_ok_def empty_graph_def node_ids_def)

lemma add_node_ok: "graph_ok g \<Longrightarrow> add_node n g = Inr g' \<Longrightarrow> graph_ok g'"
  by (auto simp: graph_ok_def add_node_def node_ids_def split: if_splits)

lemma add_edge_ok: "graph_ok g \<Longrightarrow> add_edge f t g = Inr g' \<Longrightarrow> graph_ok g'"
  by (auto simp: graph_ok_def add_edge_def node_ids_def split: if_splits)

lemma update_node_edges [simp]: "wg_edges (update_node nid f g) = wg_edges g"
  by (simp add: update_node_def)

lemma update_node_ids: "(\<And>n. wn_id (f n) = wn_id n) \<Longrightarrow> node_ids (update_node nid f g) = node_ids g"
  by (simp add: update_node_def node_ids_def)

lemma set_deps: "set (deps g t) = {f. (f, t) \<in> set (wg_edges g)}"
  by (force simp: deps_def)

lemma set_rdeps: "set (rdeps g f) = {t. (f, t) \<in> set (wg_edges g)}"
  by (force simp: rdeps_def)

lemma distinct_rdeps: "graph_ok g \<Longrightarrow> distinct (rdeps g f)"
  by (auto simp: graph_ok_def rdeps_def distinct_map inj_on_def)

lemma distinct_deps: "graph_ok g \<Longrightarrow> distinct (deps g t)"
  by (auto simp: graph_ok_def deps_def distinct_map inj_on_def)

lemma in_degree_deps: "in_degree g nid = int (length (deps g nid))"
  by (simp add: in_degree_def deps_def)

section \<open>Kahn's algorithm\<close>

lemma relax_spec:
  "distinct ts \<Longrightarrow> relax ts (deg, queue) =
     ((\<lambda>n. deg n - (if n \<in> set ts then 1 else 0)), queue @ filter (\<lambda>t. deg t = 1) ts)"
proof (induction ts arbitrary: deg queue)
  case (Cons t ts)
  let ?deg = "deg(t := deg t - 1)"
  have "relax (t # ts) (deg, queue) = relax ts (?deg, if deg t = 1 then queue @ [t] else queue)"
    by (simp add: relax_def)
  also have "\<dots> = ((\<lambda>n. ?deg n - (if n \<in> set ts then 1 else 0)),
      (if deg t = 1 then queue @ [t] else queue) @ filter (\<lambda>x. ?deg x = 1) ts)"
    using Cons by simp
  also have "filter (\<lambda>x. ?deg x = 1) ts = filter (\<lambda>x. deg x = 1) ts"
    using Cons.prems by (auto intro: filter_cong)
  finally show ?case
    using Cons.prems by (auto simp: fun_eq_iff)
qed (simp add: relax_def)

text \<open>Every element of a list comes after all its predecessors.\<close>

definition preds :: "('a \<times> 'a) set \<Rightarrow> 'a \<Rightarrow> 'a set" where
  "preds E x = {p. (p, x) \<in> E}"

lemma in_preds [simp]: "p \<in> preds E x \<longleftrightarrow> (p, x) \<in> E"
  by (simp add: preds_def)

definition ordered_by :: "('a \<times> 'a) set \<Rightarrow> 'a list \<Rightarrow> bool" where
  "ordered_by E xs \<longleftrightarrow> (\<forall>us x vs. xs = us @ x # vs \<longrightarrow> preds E x \<subseteq> set us)"

lemma ordered_Nil [simp]: "ordered_by E []"
  by (simp add: ordered_by_def)

lemma ordered_snoc: "ordered_by E (xs @ [x]) \<longleftrightarrow> ordered_by E xs \<and> preds E x \<subseteq> set xs"
proof
  assume r: "ordered_by E (xs @ [x])"
  then have "ordered_by E xs"
    unfolding ordered_by_def by (metis append.assoc append_Cons)
  with r show "ordered_by E xs \<and> preds E x \<subseteq> set xs"
    unfolding ordered_by_def by blast
next
  assume r: "ordered_by E xs \<and> preds E x \<subseteq> set xs"
  show "ordered_by E (xs @ [x])"
    unfolding ordered_by_def
  proof (intro allI impI)
    fix us y vs
    assume eq: "xs @ [x] = us @ y # vs"
    show "preds E y \<subseteq> set us"
    proof (cases vs rule: rev_cases)
      case Nil
      then show ?thesis using eq r by simp
    next
      case (snoc ws w)
      then have "xs = us @ y # ws" using eq by simp
      then show ?thesis using r unfolding ordered_by_def by blast
    qed
  qed
qed

lemma ordered_path:
  "(a, b) \<in> E\<^sup>+ \<Longrightarrow> ordered_by E xs \<Longrightarrow> xs = us @ b # vs \<Longrightarrow> a \<in> set us"
proof (induction arbitrary: us vs rule: trancl_induct)
  case (base b)
  then show ?case
    using base.prems(1) [unfolded ordered_by_def, rule_format, OF base.prems(2)] by auto
next
  case (step b c)
  then have "b \<in> set us"
    using step.prems(1) [unfolded ordered_by_def, rule_format, OF step.prems(2)] by auto
  then obtain us' ws where us: "us = us' @ b # ws" by (meson split_list)
  then have "xs = us' @ b # (ws @ c # vs)" using step.prems(2) by simp
  from step.IH [OF step.prems(1) this] show ?case using us by simp
qed

lemma ordered_acyclic:
  assumes "ordered_by E xs" "distinct xs" "E \<subseteq> set xs \<times> set xs"
  shows "acyclic E"
proof (rule acyclicI, rule allI, rule notI)
  fix x
  assume x: "(x, x) \<in> E\<^sup>+"
  then have "x \<in> set xs"
    using assms(3) by (metis mem_Sigma_iff subsetD tranclD)
  then obtain us vs where xs: "xs = us @ x # vs"
    by (meson split_list)
  with ordered_path [OF x assms(1)] have "x \<in> set us" by blast
  then show False using assms(2) xs by simp
qed

text \<open>The state of the search, on a graph given by its nodes, its edges and its degrees.\<close>

definition kahn_ok :: "'a set \<Rightarrow> ('a \<times> 'a) set \<Rightarrow> ('a \<Rightarrow> int) \<Rightarrow> 'a list \<Rightarrow> 'a list \<Rightarrow> bool" where
  "kahn_ok N E deg queue out \<longleftrightarrow> distinct (out @ queue) \<and> set (out @ queue) = {n \<in> N. deg n = 0}
     \<and> (\<forall>n \<in> N. deg n = int (card (preds E n - set out))) \<and> ordered_by E out"

lemma kahn_ok_step:
  assumes ok: "kahn_ok N E deg (nid # queue) out" and N: "finite N" "E \<subseteq> N \<times> N"
    and ts: "distinct ts" "set ts = E `` {nid}"
  shows "kahn_ok N E (\<lambda>n. deg n - (if n \<in> set ts then 1 else 0)) (queue @ filter (\<lambda>t. deg t = 1) ts) (out @ [nid])"
proof -
  let ?deg = "\<lambda>n. deg n - (if n \<in> set ts then 1 else 0)"
  note ok' = ok [unfolded kahn_ok_def]
  have nid: "nid \<in> N" "deg nid = 0" "nid \<notin> set out" "nid \<notin> set queue"
    using ok' by auto
  have fin: "finite (preds E n)" for n
    by (rule finite_subset [OF _ N(1)]) (use N(2) in auto)
  have "preds E nid - set out = {}"
    using ok' nid(1,2) fin [of nid] by simp
  then have pre: "preds E nid \<subseteq> set out" by blast
  have deg: "?deg n = int (card (preds E n - set (out @ [nid])))" if n: "n \<in> N" for n
  proof (cases "n \<in> set ts")
    case True
    then have mem: "nid \<in> preds E n - set out" using ts(2) nid(3) by auto
    have "preds E n - set (out @ [nid]) = (preds E n - set out) - {nid}" by auto
    moreover have "0 < card (preds E n - set out)"
      using mem fin [of n] by (auto simp: card_gt_0_iff)
    ultimately show ?thesis
      using ok' n True mem fin [of n] by (simp add: card_Diff_singleton)
  next
    case False
    then have "preds E n - set (out @ [nid]) = preds E n - set out" using ts(2) by auto
    then show ?thesis using ok' n False by simp
  qed
  have pos: "1 \<le> deg t" if t: "t \<in> set ts" for t
  proof -
    have "nid \<in> preds E t - set out" "t \<in> N" using t ts(2) nid(3) N(2) by auto
    then have "0 < card (preds E t - set out)" using fin [of t] by (auto simp: card_gt_0_iff)
    then show ?thesis using ok' \<open>t \<in> N\<close> by simp
  qed
  have tsN: "set ts \<subseteq> N" using ts(2) N(2) by blast
  have "set (out @ [nid] @ queue @ filter (\<lambda>t. deg t = 1) ts) = {n \<in> N. ?deg n = 0}"
  proof -
    have "{n \<in> N. ?deg n = 0} = {n \<in> N. deg n = 0} \<union> {t \<in> set ts. deg t = 1}"
    proof (rule set_eqI)
      fix x
      show "x \<in> {n \<in> N. ?deg n = 0} \<longleftrightarrow> x \<in> {n \<in> N. deg n = 0} \<union> {t \<in> set ts. deg t = 1}"
        using pos [of x] tsN by (cases "x \<in> set ts") auto
    qed
    moreover have "set (out @ nid # queue) = {n \<in> N. deg n = 0}" using ok' by blast
    ultimately show ?thesis by auto
  qed
  moreover have "distinct (out @ [nid] @ queue @ filter (\<lambda>t. deg t = 1) ts)"
    using ok' ts(1) by (auto simp: set_eq_iff)
  ultimately show ?thesis
    unfolding kahn_ok_def using deg ok' pre by (simp add: ordered_snoc)
qed

lemma kahn_enough:
  assumes "kahn_ok N E deg queue out" "finite N" "E \<subseteq> N \<times> N"
    "\<And>n. distinct (succ n) \<and> set (succ n) = E `` {n}" "card N < length out + f"
  shows "\<exists>deg' out'. kahn f succ deg queue out = Some (deg', out') \<and> kahn_ok N E deg' [] out'"
  using assms(1,5)
proof (induction f arbitrary: deg queue out)
  case 0
  have "set out \<subseteq> N" "distinct out" using 0 by (auto simp: kahn_ok_def)
  then have "length out \<le> card N" using assms(2) by (metis card_mono distinct_card)
  then show ?case using 0 by simp
next
  case (Suc f)
  show ?case
  proof (cases queue)
    case (Cons nid rest)
    have "kahn_ok N E (\<lambda>n. deg n - (if n \<in> set (succ nid) then 1 else 0)) (rest @ filter (\<lambda>t. deg t = 1) (succ nid)) (out @ [nid])"
      using kahn_ok_step [OF Suc.prems(1) [unfolded Cons] assms(2,3)] assms(4) [of nid] by blast
    from Suc.IH [OF this] show ?thesis
      using Suc.prems(2) assms(4) [of nid] by (simp add: Cons relax_spec)
  qed (use Suc.prems(1) in simp)
qed

lemma kahn_final:
  assumes "kahn_ok N E deg [] out" "finite N" "E \<subseteq> N \<times> N"
  shows "set out = N \<longleftrightarrow> acyclic E"
proof
  assume "set out = N"
  then show "acyclic E"
    using ordered_acyclic [of E out] assms by (simp add: kahn_ok_def)
next
  assume ac: "acyclic E"
  have "finite E" using assms(2,3) finite_subset by blast
  then have wf: "wf E" using ac by (simp add: finite_acyclic_wf)
  have "N - set out = {}"
  proof (rule ccontr)
    assume "N - set out \<noteq> {}"
    then obtain n where n: "n \<in> N - set out" and min: "\<And>m. (m, n) \<in> E \<Longrightarrow> m \<notin> N - set out"
      using wf_eq_minimal [THEN iffD1, OF wf] by (metis ex_in_conv)
    have "preds E n \<subseteq> set out" using min assms(3) by auto
    then have "preds E n - set out = {}" by blast
    moreover have "deg n = int (card (preds E n - set out))"
      using assms(1) n unfolding kahn_ok_def by blast
    ultimately have "deg n = 0" by (simp only: card.empty of_nat_0)
    then show False using assms(1) n by (auto simp: kahn_ok_def)
  qed
  then show "set out = N" using assms(1) by (auto simp: kahn_ok_def)
qed

section \<open>The topological order\<close>

abbreviation edge_set :: "work_graph \<Rightarrow> (string \<times> string) set" where
  "edge_set g \<equiv> set (wg_edges g)"

abbreviation id_set :: "work_graph \<Rightarrow> string set" where
  "id_set g \<equiv> set (node_ids g)"

lemma graph_ok_edges: "graph_ok g \<Longrightarrow> edge_set g \<subseteq> id_set g \<times> id_set g"
  by (auto simp: graph_ok_def)

lemma kahn_start:
  assumes "graph_ok g" "distinct queue" "set queue = {nid \<in> id_set g. in_degree g nid = 0}"
  shows "kahn_ok (id_set g) (edge_set g) (in_degree g) queue []"
proof -
  have "length (deps g n) = card (preds (edge_set g) n)" for n
    using distinct_card [OF distinct_deps [OF assms(1), of n]] by (simp add: set_deps preds_def)
  then show ?thesis
    using assms by (simp add: kahn_ok_def in_degree_deps)
qed

definition set_order :: "(string list \<Rightarrow> string list) \<Rightarrow> bool" where
  "set_order ord \<longleftrightarrow> (\<forall>xs. distinct xs \<longrightarrow> distinct (ord xs) \<and> set (ord xs) = set xs)"

lemma kahn_result:
  assumes g: "graph_ok g" and ord: "set_order ord"
    and q: "distinct queue" "set queue = {nid \<in> id_set g. in_degree g nid = 0}"
  obtains deg out where
    "kahn (kahn_fuel g) (\<lambda>nid. ord (rdeps g nid)) (in_degree g) queue [] = Some (deg, out)"
    "kahn_ok (id_set g) (edge_set g) deg [] out" "length out = length (wg_nodes g) \<longleftrightarrow> acyclic (edge_set g)"
proof -
  have card: "card (id_set g) = length (wg_nodes g)"
    using g distinct_card [of "node_ids g"] by (simp add: graph_ok_def node_ids_def)
  have succ: "distinct (ord (rdeps g n)) \<and> set (ord (rdeps g n)) = edge_set g `` {n}" for n
    using ord distinct_rdeps [OF g, of n] set_rdeps [of g n] by (auto simp: set_order_def)
  obtain deg out where run: "kahn (kahn_fuel g) (\<lambda>nid. ord (rdeps g nid)) (in_degree g) queue [] = Some (deg, out)"
      and ok: "kahn_ok (id_set g) (edge_set g) deg [] out"
    using kahn_enough [OF kahn_start [OF g q] _ graph_ok_edges [OF g] succ, of "kahn_fuel g"]
    by (auto simp: kahn_fuel_def card)
  have "length out = length (wg_nodes g) \<longleftrightarrow> set out = id_set g"
  proof -
    have "set out \<subseteq> id_set g" "distinct out" using ok by (auto simp: kahn_ok_def)
    then show ?thesis
      using card by (metis List.finite_set card_subset_eq distinct_card)
  qed
  then show thesis
    using that [OF run ok] kahn_final [OF ok _ graph_ok_edges [OF g]] by simp
qed

lemma set_order_sort [simp]: "set_order sort"
  by (simp add: set_order_def)

text \<open>
  C39: the topological order is right and complete. On a graph without a cycle the sort returns an
  order of all nodes, each once, in which every dependency comes before what depends on it; on a
  graph with a cycle, and only there, it raises.
\<close>

theorem topological_sort_correct:
  assumes "graph_ok g"
  shows "(if acyclic (set (wg_edges g))
     then \<exists>xs. topological_sort g = Inr xs \<and> distinct xs \<and> set xs = set (node_ids g)
       \<and> (\<forall>us x vs f. xs = us @ x # vs \<and> (f, x) \<in> set (wg_edges g) \<longrightarrow> f \<in> set us)
     else topological_sort g = Inl (ValueError ''Graph contains a cycle''))"
proof -
  let ?q = "sort (filter (\<lambda>nid. in_degree g nid = 0) (node_ids g))"
  have "distinct ?q" "set ?q = {nid \<in> id_set g. in_degree g nid = 0}"
    using assms by (auto simp: graph_ok_def)
  from kahn_result [OF assms set_order_sort this] obtain deg out where
    run: "kahn (kahn_fuel g) (\<lambda>nid. sort (rdeps g nid)) (in_degree g) ?q [] = Some (deg, out)"
    and ok: "kahn_ok (id_set g) (edge_set g) deg [] out"
    and len: "length out = length (wg_nodes g) \<longleftrightarrow> acyclic (edge_set g)" .
  show ?thesis
  proof (cases "acyclic (edge_set g)")
    case True
    then have "set out = id_set g"
      using kahn_final [OF ok _ graph_ok_edges [OF assms]] by simp
    moreover have "f \<in> set us" if "out = us @ x # vs" "(f, x) \<in> edge_set g" for us x vs f
      using ok that unfolding kahn_ok_def ordered_by_def by (metis in_preds subsetD)
    ultimately show ?thesis
      using True len run ok by (auto simp: topological_sort_def kahn_ok_def)
  qed (use run len in \<open>simp add: topological_sort_def\<close>)
qed

definition diamond :: work_graph where
  "diamond = (let n = \<lambda>i r. \<lparr>wn_id = i, wn_description = i, wn_assigned_role = Some r, wn_status = PENDING,
       wn_verification_criteria = [], wn_verification_passed = None, wn_evidence_required = [],
       wn_verifier_role = Some ''qa'', wn_risk_level = [], wn_rollback_note = [], wn_budget_note = [],
       wn_captain_attention_estimate = 1/2\<rparr> in
     \<lparr>wg_nodes = [n ''d'' ''ops'', n ''b'' ''eng'', n ''c'' ''eng'', n ''a'' ''eng''],
      wg_edges = [(''a'', ''b''), (''a'', ''c''), (''b'', ''d''), (''c'', ''d'')]\<rparr>)"

lemma diamond_ok [simp]: "graph_ok diamond"
  by (simp add: graph_ok_def diamond_def node_ids_def Let_def)

lemma diamond_acyclic: "acyclic (edge_set diamond)"
proof -
  have "list_all (\<lambda>(x, y). x < y) (wg_edges diamond)"
    by code_simp
  then have step: "(x, y) \<in> edge_set diamond \<Longrightarrow> x < y" for x y
    by (auto simp: list_all_iff)
  have "(x, y) \<in> (edge_set diamond)\<^sup>+ \<Longrightarrow> x < y" for x y
    by (induction rule: trancl_induct) (auto dest: step)
  then show ?thesis
    by (auto intro: acyclicI)
qed

theorem topological_sort_correct_witness:
  "\<exists>xs. topological_sort diamond = Inr xs \<and> distinct xs \<and> set xs = {''a'', ''b'', ''c'', ''d''}"
proof -
  have "set (node_ids diamond) = {''a'', ''b'', ''c'', ''d''}"
    by (auto simp: node_ids_def diamond_def Let_def)
  then show ?thesis
    using topological_sort_correct [OF diamond_ok] diamond_acyclic by auto
qed

section \<open>Validation\<close>

definition bfs_ok :: "'a set \<Rightarrow> ('a \<times> 'a) set \<Rightarrow> 'a set \<Rightarrow> 'a list \<Rightarrow> 'a list \<Rightarrow> bool" where
  "bfs_ok N E R queue seen \<longleftrightarrow> distinct seen \<and> set seen \<subseteq> N \<and> set queue \<subseteq> N \<and> R \<subseteq> set seen \<union> set queue
     \<and> E `` set seen \<subseteq> set seen \<union> set queue"

lemma bfs_enough:
  assumes "bfs_ok N E R queue seen" "finite N" "E \<subseteq> N \<times> N" "\<And>n. set (succ n) = E `` {n}"
    "length queue + (\<Sum>n \<in> N - set seen. length (succ n)) < f"
  shows "\<exists>seen'. bfs f succ queue seen = Some seen' \<and> bfs_ok N E R [] seen'"
  using assms(1,5)
proof (induction f arbitrary: queue seen)
  case (Suc f)
  show ?case
  proof (cases queue)
    case (Cons n rest)
    note ok = Suc.prems(1) [unfolded bfs_ok_def Cons]
    show ?thesis
    proof (cases "n \<in> set seen")
      case True
      then have "bfs_ok N E R rest seen" using ok unfolding bfs_ok_def by auto
      from Suc.IH [OF this] show ?thesis using Suc.prems(2) Cons True by simp
    next
      case False
      let ?new = "filter (\<lambda>t. t \<notin> set (n # seen)) (succ n)"
      have n: "n \<in> N - set seen" using ok False by simp
      have "bfs_ok N E R (rest @ ?new) (n # seen)"
        using ok n assms(3) assms(4) [of n] unfolding bfs_ok_def by auto
      moreover have "length (rest @ ?new) + (\<Sum>m \<in> N - set (n # seen). length (succ m)) < f"
      proof -
        have "N - set (n # seen) = (N - set seen) - {n}" by auto
        then have "(\<Sum>m \<in> N - set seen. length (succ m)) = length (succ n) + (\<Sum>m \<in> N - set (n # seen). length (succ m))"
          using sum.remove [of "N - set seen" n "\<lambda>m. length (succ m)"] assms(2) n by simp
        moreover have "length (rest @ ?new) + (\<Sum>m \<in> N - set (n # seen). length (succ m))
            \<le> length rest + (length (succ n) + (\<Sum>m \<in> N - set (n # seen). length (succ m)))"
          by simp
        moreover have "length queue = Suc (length rest)"
          using Cons by simp
        ultimately show ?thesis
          using Suc.prems(2) by linarith
      qed
      ultimately show ?thesis
        using Suc.IH [of "rest @ ?new" "n # seen"] Cons False by simp
    qed
  qed (use Suc.prems(1) in simp)
qed simp

lemma sum_rdeps:
  assumes "graph_ok g" "set_order ord"
  shows "(\<Sum>n \<in> id_set g. length (ord (rdeps g n))) = length (wg_edges g)"
proof -
  have "length (ord (rdeps g n)) = length (filter (\<lambda>e. fst e = n) (wg_edges g))" for n
    using assms distinct_rdeps [OF assms(1), of n] distinct_card [of "ord (rdeps g n)"] distinct_card [of "rdeps g n"]
    by (simp add: set_order_def) (simp add: rdeps_def)
  moreover have "(\<Sum>n \<in> id_set g. length (filter (\<lambda>e. fst e = n) es)) = length es"
    if "\<forall>(f, t) \<in> set es. f \<in> id_set g" for es
    using that
  proof (induction es)
    case (Cons e es)
    have "(\<Sum>n \<in> id_set g. length (filter (\<lambda>e. fst e = n) (e # es)))
        = (\<Sum>n \<in> id_set g. (if fst e = n then 1 else 0) + length (filter (\<lambda>e. fst e = n) es))"
      by (intro sum.cong) simp_all
    then show ?case
      using Cons by (auto simp: sum.distrib)
  qed simp
  ultimately show ?thesis
    using graph_ok_edges [OF assms(1)] by auto
qed

lemma reached_all:
  assumes "acyclic (edge_set g)" "graph_ok g" "bfs_ok (id_set g) (edge_set g) (set (roots g)) [] seen"
  shows "set seen = id_set g"
proof -
  have "wf (edge_set g)"
    using assms(1) by (simp add: finite_acyclic_wf)
  then have "n \<in> id_set g \<longrightarrow> n \<in> set seen" for n
  proof (induction n rule: wf_induct_rule)
    case (less n)
    show ?case
    proof
      assume n: "n \<in> id_set g"
      show "n \<in> set seen"
      proof (cases "deps g n = []")
        case True
        then show ?thesis using n assms(3) by (auto simp: roots_def bfs_ok_def)
      next
        case False
        then obtain f where f: "(f, n) \<in> edge_set g"
          using set_deps [of g n] by (metis (mono_tags) CollectD list.set_sel(1))
        then have "f \<in> set seen" using less graph_ok_edges [OF assms(2)] by blast
        then show ?thesis using f assms(3) by (auto simp: bfs_ok_def)
      qed
    qed
  qed
  then show ?thesis using assms(3) by (auto simp: bfs_ok_def)
qed

text \<open>
  Validation accepts exactly the graphs a mission can run. Whatever order the sets are iterated
  in, a graph built by adding nodes and edges has no error iff it has no cycle and every task with a
  dependency has an owner; the searches end within their fuel on every graph.
\<close>

theorem validate_iff:
  assumes g: "graph_ok g" and ord: "set_order ord"
  shows "validate ord g = [] \<longleftrightarrow> acyclic (set (wg_edges g))
    \<and> (\<forall>n \<in> set (wg_nodes g). deps g (wn_id n) \<noteq> [] \<longrightarrow> wn_assigned_role n \<noteq> None)"
proof (cases "wg_nodes g = []")
  case True
  then have "wg_edges g = []"
    using graph_ok_edges [OF g] by (cases "wg_edges g") (auto simp: node_ids_def)
  then show ?thesis using True by (simp add: validate_def acyclic_def)
next
  case False
  let ?succ = "\<lambda>nid. ord (rdeps g nid)" and ?q = "filter (\<lambda>nid. in_degree g nid = 0) (node_ids g)"
  have "distinct ?q" "set ?q = {nid \<in> id_set g. in_degree g nid = 0}"
    using g by (auto simp: graph_ok_def)
  from kahn_result [OF g ord this] obtain deg out where
    run: "kahn (kahn_fuel g) ?succ (in_degree g) ?q [] = Some (deg, out)"
    and len: "length out = length (wg_nodes g) \<longleftrightarrow> acyclic (edge_set g)" .
  have succ: "set (?succ n) = edge_set g `` {n}" for n
    using ord distinct_rdeps [OF g, of n] set_rdeps [of g n] by (auto simp: set_order_def)
  have roots: "distinct (roots g)" "set (roots g) \<subseteq> id_set g"
    using g by (auto simp: roots_def graph_ok_def)
  then have oroots: "set (ord (roots g)) = set (roots g)" "length (ord (roots g)) \<le> length (wg_nodes g)"
    using ord distinct_card [of "ord (roots g)"] card_mono [of "id_set g" "set (roots g)"] distinct_card [of "node_ids g"] g
    by (auto simp: set_order_def graph_ok_def node_ids_def)
  have "bfs_ok (id_set g) (edge_set g) (set (roots g)) (ord (roots g)) []"
    using roots oroots(1) by (simp add: bfs_ok_def)
  from bfs_enough [OF this _ graph_ok_edges [OF g] succ, of "bfs_fuel g"] obtain seen where
    bfs: "bfs (bfs_fuel g) ?succ (ord (roots g)) [] = Some seen"
    and seen: "bfs_ok (id_set g) (edge_set g) (set (roots g)) [] seen"
    using sum_rdeps [OF g ord] oroots(2) by (auto simp: bfs_fuel_def)
  have reach: "filter (\<lambda>nid. nid \<notin> set seen) (node_ids g) = [] \<and> roots g \<noteq> []" if ac: "acyclic (edge_set g)"
  proof -
    have all: "set seen = id_set g"
      by (rule reached_all [OF ac g seen])
    have "seen \<noteq> []" using all False by (auto simp: node_ids_def)
    moreover have "ord [] = []" using ord [unfolded set_order_def, rule_format, of "[]"] by simp
    moreover have "bfs (bfs_fuel g) ?succ [] [] = Some []" by (simp add: bfs_fuel_def)
    ultimately have "roots g \<noteq> []"
      using bfs by (metis option.inject)
    then show ?thesis using all by (simp add: filter_empty_conv)
  qed
  have roles: "List.map_filter (\<lambda>n. if deps g (wn_id n) \<noteq> [] \<and> wn_assigned_role n = None then Some (No_Role (wn_id n)) else None)
      (wg_nodes g) = [] \<longleftrightarrow> (\<forall>n \<in> set (wg_nodes g). deps g (wn_id n) \<noteq> [] \<longrightarrow> wn_assigned_role n \<noteq> None)"
    by (auto simp: List.map_filter_def filter_empty_conv)
  show ?thesis
    using run len bfs reach roles False by (auto simp: validate_def Let_def)
qed

theorem validate_iff_witness:
  "validate (\<lambda>xs. xs) diamond = [] \<and> acyclic (set (wg_edges diamond))"
proof -
  have "validate (\<lambda>xs. xs) diamond = []"
    by code_simp
  moreover have "set_order (\<lambda>xs. xs)"
    by (simp add: set_order_def)
  ultimately show ?thesis
    using validate_iff [OF diamond_ok, of "\<lambda>xs. xs"] by blast
qed

section \<open>Progress\<close>

lemma node_of_member: "graph_ok g \<Longrightarrow> n \<in> set (wg_nodes g) \<Longrightarrow> node_of g (wn_id n) = Some n"
proof -
  assume g: "graph_ok g" and n: "n \<in> set (wg_nodes g)"
  have "distinct (map wn_id ns) \<Longrightarrow> n \<in> set ns \<Longrightarrow> find (\<lambda>m. wn_id m = wn_id n) ns = Some n" for ns
    by (induction ns) (auto simp: rev_image_eqI)
  then show ?thesis
    using g n by (simp add: graph_ok_def node_ids_def node_of_def)
qed

lemma find_update:
  "(\<And>n. wn_id (f n) = wn_id n) \<Longrightarrow> find (\<lambda>n. wn_id n = d) (map (\<lambda>n. if wn_id n = nid then f n else n) ns)
     = map_option (\<lambda>n. if d = nid then f n else n) (find (\<lambda>n. wn_id n = d) ns)"
  by (induction ns) auto

lemma status_in_update:
  "(\<And>n. wn_id (f n) = wn_id n) \<Longrightarrow> status_in (update_node nid f g) d =
     (if d = nid then map_option (wn_status \<circ> f) (node_of g d) else status_in g d)"
  by (simp add: status_in_def node_of_def update_node_def find_update option.map_comp o_def)

definition open_ids :: "work_graph \<Rightarrow> string set" where
  "open_ids g = set (map wn_id (filter (\<lambda>n. wn_status n \<noteq> DONE) (wg_nodes g)))"

definition runnable :: "work_graph \<Rightarrow> bool" where
  "runnable g \<longleftrightarrow> graph_ok g \<and> acyclic (edge_set g) \<and> (\<forall>n \<in> set (wg_nodes g). wn_status n \<in> {PENDING, READY, DONE})"

lemma done_iff: "graph_ok g \<Longrightarrow> d \<in> id_set g \<Longrightarrow> status_in g d = Some DONE \<longleftrightarrow> d \<notin> open_ids g"
proof -
  assume g: "graph_ok g" and d: "d \<in> id_set g"
  then obtain m where m: "m \<in> set (wg_nodes g)" "wn_id m = d"
    by (auto simp: node_ids_def)
  have only: "m' = m" if "m' \<in> set (wg_nodes g)" "wn_id m' = d" for m'
    using node_of_member [OF g m(1)] node_of_member [OF g that(1)] m(2) that(2) by simp
  have "status_in g d = Some (wn_status m)"
    using node_of_member [OF g m(1)] m(2) by (simp add: status_in_def)
  moreover have "d \<in> open_ids g \<longleftrightarrow> wn_status m \<noteq> DONE"
    using m only unfolding open_ids_def set_map set_filter by blast
  ultimately show ?thesis by simp
qed

lemma some_task_ready:
  assumes "runnable g" "open_ids g \<noteq> {}"
  shows "ready_tasks g \<noteq> []"
proof -
  have "wf (edge_set g)"
    using assms(1) by (simp add: runnable_def finite_acyclic_wf)
  with assms(2) obtain a where a: "a \<in> open_ids g" and min: "\<And>f. (f, a) \<in> edge_set g \<Longrightarrow> f \<notin> open_ids g"
    by (metis ex_in_conv wf_eq_minimal)
  obtain n where n: "n \<in> set (wg_nodes g)" "wn_status n \<noteq> DONE" "wn_id n = a"
    using a by (auto simp: open_ids_def)
  have "status_in g d = Some DONE" if d: "d \<in> set (deps g a)" for d
  proof -
    have "(d, a) \<in> edge_set g" using d by (simp add: set_deps)
    then show ?thesis
      using min graph_ok_edges [of g] assms(1) done_iff [of g d] by (auto simp: runnable_def)
  qed
  then have "n \<in> set (ready_tasks g)"
    using n assms(1) by (auto simp: ready_tasks_def list_all_iff runnable_def)
  then show ?thesis by force
qed

lemma complete_ready:
  assumes g: "runnable g" and n: "n \<in> set (ready_tasks g)"
  obtains r g' where "complete_task (wn_id n) True g = Inr (r, g')" "runnable g'"
    "wn_id n \<in> open_ids g" "open_ids g' = open_ids g - {wn_id n}" "wg_edges g' = wg_edges g"
    "node_ids g' = node_ids g"
proof -
  define f where "f = (\<lambda>n :: work_node. n\<lparr>wn_verification_passed := Some True, wn_status := DONE\<rparr>)"
  define g' where "g' = update_node (wn_id n) f g"
  have nn: "n \<in> set (wg_nodes g)" "wn_status n \<noteq> DONE"
    using n by (auto simp: ready_tasks_def)
  have id: "wn_id (f m) = wn_id m" for m by (simp add: f_def)
  have ids: "node_ids g' = node_ids g" unfolding g'_def by (rule update_node_ids) (rule id)
  have edges: "wg_edges g' = wg_edges g" by (simp add: g'_def)
  have run: "complete_task (wn_id n) True g = Inr (ready_tasks g', g')"
    using nn(1) by (simp add: complete_task_def g'_def f_def node_ids_def Let_def)
  have ok: "runnable g'"
    using g ids edges by (auto simp: runnable_def graph_ok_def g'_def update_node_def f_def)
  have "open_ids g' = open_ids g - {wn_id n}"
  proof -
    have "set (wg_nodes g') = (\<lambda>m. if wn_id m = wn_id n then f m else m) ` set (wg_nodes g)"
      by (simp add: g'_def update_node_def)
    then show ?thesis
      by (force simp: open_ids_def f_def split: if_splits)
  qed
  moreover have "wn_id n \<in> open_ids g"
    using nn by (auto simp: open_ids_def)
  ultimately show thesis
    using that run ok ids edges by blast
qed

lemma ready_deps_done: "runnable g \<Longrightarrow> n \<in> set (ready_tasks g) \<Longrightarrow> (f, wn_id n) \<in> edge_set g \<Longrightarrow> f \<notin> open_ids g"
proof -
  assume g: "runnable g" and n: "n \<in> set (ready_tasks g)" and f: "(f, wn_id n) \<in> edge_set g"
  have ok: "graph_ok g" using g by (simp add: runnable_def)
  have "f \<in> set (deps g (wn_id n))" using f by (simp add: set_deps)
  then have "status_in g f = Some DONE" using n by (auto simp: ready_tasks_def list_all_iff)
  moreover have "f \<in> id_set g" using f graph_ok_edges [OF ok] by blast
  ultimately show ?thesis using done_iff [OF ok] by blast
qed

text \<open>A worker that completes whichever ready task it picks, one after the other.\<close>

primrec work_off :: "(work_node list \<Rightarrow> work_node) \<Rightarrow> nat \<Rightarrow> work_graph \<Rightarrow> string list \<Rightarrow> string list \<times> work_graph" where
  "work_off pick 0 g done = (done, g)"
| "work_off pick (Suc k) g done = (if ready_tasks g = [] then (done, g)
     else let nid = wn_id (pick (ready_tasks g)) in
       case complete_task nid True g of Inl _ \<Rightarrow> (done, g) | Inr (_, g') \<Rightarrow> work_off pick k g' (done @ [nid]))"

lemma work_off_runs:
  assumes "runnable g" "card (open_ids g) \<le> k" "\<And>xs. xs \<noteq> [] \<Longrightarrow> pick xs \<in> set xs"
  shows "\<exists>ds g'. work_off pick k g done = (done @ ds, g') \<and> open_ids g' = {} \<and> node_ids g' = node_ids g
    \<and> distinct ds \<and> set ds = open_ids g
    \<and> (\<forall>us x vs f. ds = us @ x # vs \<longrightarrow> (f, x) \<in> edge_set g \<longrightarrow> f \<in> set us \<or> f \<notin> open_ids g)"
  using assms(1,2)
proof (induction k arbitrary: g "done")
  case 0
  moreover have "finite (open_ids g)" by (simp add: open_ids_def)
  ultimately show ?case by simp
next
  case (Suc k)
  have fin: "finite (open_ids g)" by (simp add: open_ids_def)
  show ?case
  proof (cases "ready_tasks g = []")
    case True
    then have "open_ids g = {}" using some_task_ready [OF Suc.prems(1)] by blast
    then show ?thesis using True by simp
  next
    case False
    let ?n = "pick (ready_tasks g)"
    have n: "?n \<in> set (ready_tasks g)" using assms(3) False by blast
    obtain r g' where c: "complete_task (wn_id ?n) True g = Inr (r, g')" "runnable g'" "wn_id ?n \<in> open_ids g"
        "open_ids g' = open_ids g - {wn_id ?n}" "wg_edges g' = wg_edges g" "node_ids g' = node_ids g"
      by (rule complete_ready [OF Suc.prems(1) n])
    have "card (open_ids g') \<le> k"
      using Suc.prems(2) c(3,4) fin by simp
    from Suc.IH [OF c(2) this, of "done @ [wn_id ?n]"] obtain ds g'' where
      ds: "work_off pick k g' (done @ [wn_id ?n]) = (done @ [wn_id ?n] @ ds, g'')" "open_ids g'' = {}"
        "node_ids g'' = node_ids g" "distinct ds" "set ds = open_ids g - {wn_id ?n}"
      and ord: "\<And>us x vs f. ds = us @ x # vs \<Longrightarrow> (f, x) \<in> edge_set g \<Longrightarrow> f \<in> set us \<or> f \<notin> open_ids g - {wn_id ?n}"
      using c(4-6) by auto
    have "f \<in> set us \<or> f \<notin> open_ids g" if eq: "wn_id ?n # ds = us @ x # vs" and f: "(f, x) \<in> edge_set g" for us x vs f
    proof (cases us)
      case Nil
      then show ?thesis using eq f ready_deps_done [OF Suc.prems(1) n] by simp
    next
      case (Cons u us')
      then show ?thesis using eq ord [of us' x vs f] f by auto
    qed
    then show ?thesis
      using ds c(1,3) False by (intro exI [of _ "wn_id ?n # ds"] exI [of _ g'']) (auto simp: Let_def)
  qed
qed

text \<open>
  C38: a valid mission can always be finished. In a graph without a cycle whose tasks are open or
  done, whichever ready task a worker completes next, it never gets stuck: after at most one
  completion per node every task is done, each open task was completed exactly once, and none before
  the tasks it depends on.
\<close>

theorem mission_finishes:
  assumes "runnable g" "\<And>xs. xs \<noteq> [] \<Longrightarrow> pick xs \<in> set xs"
  shows "\<exists>ds g'. work_off pick (length (wg_nodes g)) g [] = (ds, g')
    \<and> list_all (\<lambda>n. wn_status n = DONE) (wg_nodes g') \<and> node_ids g' = node_ids g
    \<and> distinct ds \<and> set ds = open_ids g
    \<and> (\<forall>us x vs f. \<not> (ds = us @ x # vs \<and> (f, x) \<in> set (wg_edges g) \<and> f \<in> open_ids g \<and> f \<notin> set us))"
proof -
  have "card (open_ids g) \<le> card (set (wg_nodes g))"
    unfolding open_ids_def set_map by (rule order_trans [OF card_image_le card_mono]) auto
  then have "card (open_ids g) \<le> length (wg_nodes g)"
    using card_length order_trans by blast
  from work_off_runs [OF assms(1) this assms(2), of "[]"] obtain ds g' where
    w: "work_off pick (length (wg_nodes g)) g [] = (ds, g')" "open_ids g' = {}" "node_ids g' = node_ids g"
      "distinct ds" "set ds = open_ids g"
    and ord: "\<And>us x vs f. ds = us @ x # vs \<Longrightarrow> (f, x) \<in> edge_set g \<Longrightarrow> f \<in> set us \<or> f \<notin> open_ids g"
    by auto
  have "list_all (\<lambda>n. wn_status n = DONE) (wg_nodes g')"
    using w(2) by (auto simp: open_ids_def list_all_iff)
  then show ?thesis
    using w ord by blast
qed

theorem mission_finishes_witness:
  "\<exists>ds g'. work_off last 4 diamond [] = (ds, g') \<and> set ds = {''a'', ''b'', ''c'', ''d''}"
proof -
  have "acyclic (edge_set diamond)"
    by (rule diamond_acyclic)
  then have "runnable diamond"
    by (simp add: runnable_def) (simp add: diamond_def Let_def)
  moreover have "open_ids diamond = {''a'', ''b'', ''c'', ''d''}" "length (wg_nodes diamond) = 4"
    by (simp_all add: open_ids_def diamond_def Let_def insert_commute)
  ultimately show ?thesis
    using mission_finishes [of diamond last] by auto
qed

section \<open>Round trip\<close>

lemma node_status_round: "node_status_of (status_value st) = Some st"
  by (cases st) (simp_all add: node_status_of_def)

lemma field_round [simp]: "str_opt (opt_str v) = v" "bool_opt (opt_bool b) = b"
  by (simp_all add: str_opt_def opt_str_def bool_opt_def opt_bool_def split: option.split)

lemma parse_node_json: "\<not> self_verified n \<Longrightarrow> parse_node (node_json n) = Inr n"
  by (cases n) (simp add: parse_node_def node_json_def make_node_def has_key_def dget_def node_status_round comp_def)

lemma parse_nodes_json:
  "\<forall>n \<in> set ns. \<not> self_verified n \<Longrightarrow> distinct (node_ids g @ map wn_id ns) \<Longrightarrow>
     parse_nodes (map node_json ns) g = Inr (g\<lparr>wg_nodes := wg_nodes g @ ns\<rparr>)"
proof (induction ns arbitrary: g)
  case (Cons n ns)
  have "add_node n g = Inr (g\<lparr>wg_nodes := wg_nodes g @ [n]\<rparr>)"
    using Cons.prems(2) by (simp add: add_node_def)
  then show ?case
    using Cons.IH [of "g\<lparr>wg_nodes := wg_nodes g @ [n]\<rparr>"] Cons.prems by (simp add: parse_node_json node_ids_def)
qed simp

lemma parse_edges_json:
  assumes "\<forall>(f, t) \<in> set es. f \<in> id_set g \<and> t \<in> id_set g \<and> f \<noteq> t" "distinct (wg_edges g @ es)"
  shows "parse_edges (map (\<lambda>(f, t). PDict [(''from'', PStr f), (''to'', PStr t)]) es) g = Inr (g\<lparr>wg_edges := wg_edges g @ es\<rparr>)"
  using assms
proof (induction es arbitrary: g)
  case (Cons e es)
  obtain f t where e: "e = (f, t)" by (cases e)
  have "add_edge f t g = Inr (g\<lparr>wg_edges := wg_edges g @ [e]\<rparr>)"
    using Cons.prems e by (simp add: add_edge_def)
  then show ?case
    using Cons.IH [of "g\<lparr>wg_edges := wg_edges g @ [e]\<rparr>"] Cons.prems e
    by (simp add: node_ids_def has_key_def dget_def)
qed simp

text \<open>
  C40: a work graph survives its serialised form. For every graph whose nodes were constructed by the
  source's constructor and whose edges were added to it, parsing what was written gives back the same
  nodes with all their fields, in the same order, with the same edges.
\<close>

theorem graph_json_roundtrip:
  assumes "graph_ok g" "list_all (\<lambda>n. make_node n = Inr n) (wg_nodes g)"
  shows "from_json (to_json g) = Inr g"
proof -
  have valid: "\<forall>n \<in> set (wg_nodes g). \<not> self_verified n"
    using assms(2) by (auto simp: list_all_iff make_node_def split: if_splits)
  have "parse_nodes (map node_json (wg_nodes g)) empty_graph = Inr (g\<lparr>wg_edges := []\<rparr>)"
    using parse_nodes_json [OF valid, of empty_graph] assms(1)
    by (cases g) (simp add: graph_ok_def node_ids_def empty_graph_def)
  moreover have "parse_edges (map (\<lambda>(f, t). PDict [(''from'', PStr f), (''to'', PStr t)]) (wg_edges g)) (g\<lparr>wg_edges := []\<rparr>) = Inr g"
    using parse_edges_json [of "wg_edges g" "g\<lparr>wg_edges := []\<rparr>"] assms(1)
    by (auto simp: graph_ok_def node_ids_def)
  ultimately show ?thesis
    by (simp add: from_json_def to_json_def has_key_def dget_def)
qed

theorem graph_json_roundtrip_witness: "from_json (to_json diamond) = Inr diamond"
proof (rule graph_json_roundtrip [OF diamond_ok])
  show "list_all (\<lambda>n. make_node n = Inr n) (wg_nodes diamond)"
    by code_simp
qed

end
