(* ===== verification/Mission_Overlay.thy ===== *)
theory Mission_Overlay
  imports Missions Claim_Board Work_Graph_Correct
begin

text \<open>
  The overlay against the claim protocol: on every ledger the protocol writes, the status the compiler
  lays over a task says of it what the claim machine says.
\<close>

section \<open>The overlay of one task\<close>

definition view_event :: "string \<Rightarrow> string \<Rightarrow> node_status \<times> pyval option \<Rightarrow> org_event \<Rightarrow> node_status \<times> pyval option" where
  "view_event oid t v e = (let until = dget (ev_payload e) ''expires_at'' in
     if dget (ev_payload e) ''outcome_id'' \<noteq> PStr oid \<or> field e ''task_id'' \<noteq> t then v
     else if ev_type e = RENEWED \<and> snd v = None then v
     else case event_status (ev_type e) of None \<Rightarrow> v
       | Some st \<Rightarrow> (st, if ev_type e = STARTED then Some until
           else if ev_type e = RENEWED then (if truthy until then Some until else snd v) else None))"

definition sees :: "string \<Rightarrow> overlay \<Rightarrow> node_status \<times> pyval option \<Rightarrow> bool" where
  "sees t ov v \<longleftrightarrow> status_in (ov_graph ov) t = Some (fst v) \<and> map_of (ov_leases ov) t = snd v \<and> distinct (map fst (ov_leases ov))"

lemma node_update:
  "(\<And>n. wn_id (f n) = wn_id n) \<Longrightarrow> node_of (update_node nid f g) d = map_option (\<lambda>n. if d = nid then f n else n) (node_of g d)"
  by (simp add: node_of_def update_node_def find_update)

lemma filter_key: "map_of (filter (\<lambda>l. fst l \<noteq> k) xs) t = (if t = k then None else map_of xs t)"
  by (induction xs) auto

lemma lease_key: "t \<in> fst ` set xs \<longleftrightarrow> map_of xs t \<noteq> None"
  by (metis map_of_eq_None_iff)

lemma status_node: "status_in g t = Some st \<longleftrightarrow> (\<exists>n. node_of g t = Some n \<and> wn_status n = st)"
  by (auto simp: status_in_def)

lemma distinct_leases: "distinct (map fst xs) \<Longrightarrow> distinct (map fst (overlay_lease e t xs))"
  by (simp add: overlay_lease_def Let_def distinct_map_filter)

lemma overlay_event_sees:
  assumes "sees t ov v" "t \<noteq> []"
  shows "sees t (overlay_event oid ov e) (view_event oid t v e)"
proof (cases "dget (ev_payload e) ''outcome_id'' \<noteq> PStr oid \<or> field e ''task_id'' = [] \<or> node_of (ov_graph ov) (field e ''task_id'') = None")
  case True
  have "node_of (ov_graph ov) t \<noteq> None" using assms(1) by (auto simp: sees_def status_node)
  then have "view_event oid t v e = v" using True assms(2) by (auto simp: view_event_def Let_def)
  moreover have "overlay_event oid ov e = ov" using True by (auto simp: overlay_event_def Let_def)
  ultimately show ?thesis using assms(1) by simp
next
  case False
  let ?k = "field e ''task_id''"
  from False obtain node where node: "node_of (ov_graph ov) ?k = Some node" by blast
  show ?thesis
  proof (cases "(ev_type e = RENEWED \<and> ?k \<notin> fst ` set (ov_leases ov)) \<or> event_status (ev_type e) = None")
    case True
    then have "overlay_event oid ov e = ov" using False node by (auto simp: overlay_event_def Let_def)
    moreover have "view_event oid t v e = v"
      using True assms(1) by (auto simp: view_event_def sees_def lease_key Let_def)
    ultimately show ?thesis using assms(1) by simp
  next
    case False2: False
    then obtain st where st: "event_status (ev_type e) = Some st" by blast
    define f where "f = (\<lambda>n :: work_node. n\<lparr>wn_status := st,
        wn_verification_passed := (if verdict node e \<noteq> None then verdict node e else wn_verification_passed n)\<rparr>)"
    have ov: "ov_graph (overlay_event oid ov e) = update_node ?k f (ov_graph ov)"
      "ov_leases (overlay_event oid ov e) = overlay_lease e ?k (ov_leases ov)"
      using False False2 node st by (auto simp: overlay_event_def f_def Let_def)
    have f: "wn_id (f n) = wn_id n" "wn_status (f n) = st" for n by (simp_all add: f_def)
    have status: "status_in (ov_graph (overlay_event oid ov e)) t = Some (if t = ?k then st else fst v)"
      using assms(1) node unfolding ov status_in_update [OF f(1)] by (auto simp: sees_def f)
    have lease: "map_of (overlay_lease e ?k (ov_leases ov)) t = snd (view_event oid t v e)"
      using assms(1) False False2 st by (auto simp: overlay_lease_def view_event_def sees_def filter_key lease_key Let_def)
    have "fst (view_event oid t v e) = (if t = ?k then st else fst v)"
      using assms(1) False False2 st by (auto simp: view_event_def sees_def lease_key Let_def)
    then show ?thesis
      using status lease assms(1) ov by (simp add: sees_def distinct_leases)
  qed
qed

lemma overlay_fold_sees:
  "sees t ov v \<Longrightarrow> t \<noteq> [] \<Longrightarrow> sees t (foldl (overlay_event oid) ov es) (foldl (view_event oid t) v es)"
  by (induction es arbitrary: ov v) (simp_all add: overlay_event_sees)

definition lapsed :: "int \<Rightarrow> node_status \<times> pyval option \<Rightarrow> bool" where
  "lapsed now v \<longleftrightarrow> fst v = IN_PROGRESS \<and> (case snd v of None \<Rightarrow> False | Some until \<Rightarrow> until \<noteq> PNone \<and> is_expired until now)"

lemma expire_status:
  "status_in (ov_graph (expire_lease now ov (k, until))) t =
     (if t = k \<and> status_in (ov_graph ov) t = Some IN_PROGRESS \<and> until \<noteq> PNone \<and> is_expired until now then Some PENDING
      else status_in (ov_graph ov) t)"
  by (simp add: expire_lease_def status_in_update comp_def) (auto simp: status_node)

lemma expire_fold:
  "distinct (map fst ls) \<Longrightarrow> status_in (ov_graph (foldl (expire_lease now) ov ls)) t =
     (if \<exists>until. map_of ls t = Some until \<and> status_in (ov_graph ov) t = Some IN_PROGRESS \<and> until \<noteq> PNone \<and> is_expired until now
      then Some PENDING else status_in (ov_graph ov) t)"
proof (induction ls arbitrary: ov)
  case (Cons l ls)
  obtain k until where l: "l = (k, until)" by (cases l)
  show ?case
  proof (cases "t = k")
    case True
    then have "map_of ls t = None" using Cons.prems l by (auto simp: map_of_eq_None_iff)
    then show ?thesis using Cons True l by (simp add: expire_status)
  next
    case False
    then show ?thesis using Cons l by (auto simp: expire_status)
  qed
qed simp

definition task_view :: "string \<Rightarrow> string \<Rightarrow> org_event list \<Rightarrow> node_status \<times> pyval option" where
  "task_view oid t es = foldl (view_event oid t) (PENDING, None) (of_types CLAIM_EVENT_TYPES es)"

lemma overlay_status:
  assumes "status_in g t = Some PENDING" "t \<noteq> []"
  shows "status_in (fst (apply_status_from_events oid now es g)) t =
    Some (if lapsed now (task_view oid t es) then PENDING else fst (task_view oid t es))"
proof -
  let ?ov = "foldl (overlay_event oid) \<lparr>ov_graph = g, ov_leases = [], ov_changed = 0\<rparr> (of_types CLAIM_EVENT_TYPES es)"
  have s: "sees t ?ov (task_view oid t es)"
    unfolding task_view_def using assms by (intro overlay_fold_sees) (simp_all add: sees_def)
  then have d: "distinct (map fst (ov_leases ?ov))" by (simp add: sees_def)
  show ?thesis
    using s unfolding apply_status_from_events_def Let_def fst_conv expire_fold [OF d]
    by (auto simp: sees_def lapsed_def split: option.splits)
qed

section \<open>The claim machine and the overlay\<close>

text \<open>The events of a task name its outcome, and none is a start without a token.\<close>

definition own_events :: "string \<Rightarrow> string \<Rightarrow> org_event list \<Rightarrow> bool" where
  "own_events oid t es \<longleftrightarrow> (\<forall>e \<in> set es. field e ''task_id'' \<noteq> t
     \<or> dget (ev_payload e) ''outcome_id'' = PStr oid \<and> \<not> (ev_type e = STARTED \<and> field e ''claim_id'' = []))"

definition agrees :: "task_state \<Rightarrow> node_status \<times> pyval option \<Rightarrow> bool" where
  "agrees st v \<longleftrightarrow> (if ts_terminal st then fst v \<in> {DONE, FAILED} \<and> snd v = None
     else case ts_claim st of None \<Rightarrow> v = (PENDING, None)
       | Some c \<Rightarrow> v = (if ts_released st then (PENDING, None) else (IN_PROGRESS, Some (cl_expires_at c))))"

lemma task_view_snoc:
  "task_view oid t (es @ [e]) = (if ev_type e \<in> set CLAIM_EVENT_TYPES then view_event oid t (task_view oid t es) e else task_view oid t es)"
  by (simp add: task_view_def of_types_def CLAIM_EVENT_TYPES_def)

lemma view_other: "\<forall>e \<in> set new. field e ''task_id'' \<noteq> t \<Longrightarrow> task_view oid t (es @ new) = task_view oid t es"
proof (induction new rule: rev_induct)
  case (snoc e new)
  then show ?case
    using task_view_snoc [of oid t "es @ new" e] by (simp add: view_event_def Let_def)
qed simp

lemma status_of_kind:
  "event_status STARTED = Some IN_PROGRESS" "event_status RENEWED = Some IN_PROGRESS" "event_status RELEASED = Some PENDING"
  "event_status ''work_item_completed'' = Some DONE" "event_status ''work_item_failed'' = Some FAILED"
  "event_status ''work_item_verified'' = Some DONE"
  by (simp_all add: event_status_def STARTED_def RENEWED_def RELEASED_def)

lemma view_terminal:
  assumes "ev_type e \<in> set TERMINAL_EVENT_TYPES" "field e ''task_id'' = t" "dget (ev_payload e) ''outcome_id'' = PStr oid"
  shows "fst (view_event oid t v e) \<in> {DONE, FAILED} \<and> snd (view_event oid t v e) = None"
proof -
  have "ev_type e \<noteq> STARTED" "ev_type e \<noteq> RENEWED"
    using assms(1) by (auto simp: TERMINAL_EVENT_TYPES_def STARTED_def RENEWED_def)
  moreover have "event_status (ev_type e) \<in> {Some DONE, Some FAILED}"
    using assms(1) by (auto simp: TERMINAL_EVENT_TYPES_def status_of_kind)
  ultimately show ?thesis
    using assms by (auto simp: view_event_def Let_def)
qed

lemma agrees_terminal:
  assumes "ev_type e \<in> set TERMINAL_EVENT_TYPES" "t \<noteq> []" "own_events oid t [e]"
    and "agrees (task_state es t) (task_view oid t es)"
  shows "agrees (task_state (es @ [e]) t) (task_view oid t (es @ [e]))"
proof (cases "field e ''task_id'' = t")
  case True
  have kinds: "ev_type e \<in> set CLAIM_EVENT_TYPES" "ev_type e \<noteq> STARTED" "ev_type e \<noteq> RENEWED" "ev_type e \<noteq> RELEASED"
    using assms(1) by (auto simp: CLAIM_EVENT_TYPES_def TERMINAL_EVENT_TYPES_def STARTED_def RENEWED_def RELEASED_def)
  then have "ts_terminal (task_state (es @ [e]) t)"
    using True assms(2) by (simp add: task_state_snoc next_state_def Let_def)
  then show ?thesis
    using view_terminal [OF assms(1) True, of oid "task_view oid t es"] assms(3) True kinds(1)
    by (simp add: agrees_def task_view_snoc own_events_def)
next
  case False
  then show ?thesis
    using assms(4) view_other [of "[e]" t oid es] by (simp add: task_state_snoc)
qed

lemma own_events_append: "own_events oid t (es @ fs) \<longleftrightarrow> own_events oid t es \<and> own_events oid t fs"
  by (auto simp: own_events_def)

lemma view_started:
  assumes "t \<noteq> []" "own_events oid t [new_event i now STARTED who (started_payload t o' cid h who now l) None]"
  shows "task_view oid t (es @ [new_event i now STARTED who (started_payload t o' cid h who now l) None])
    = (IN_PROGRESS, Some (moment (now + l * 1000000)))"
  using assms by (simp add: task_view_snoc view_event_def status_of_kind own_events_def Let_def)
    (simp add: started_payload_def dget_def)

lemma agrees_step:
  assumes "board_step env b b'" "t \<noteq> []" "agrees (task_state (bd_log b) t) (task_view oid t (bd_log b))"
    and "own_events oid t (bd_log b')"
  shows "agrees (task_state (bd_log b') t) (task_view oid t (bd_log b'))"
  using assms(1)
proof cases
  case (Claim cid ids t' outcome holder actor lease_s res new)
  show ?thesis
    using Claim(2-4)
  proof (cases rule: claim_cases)
    case (taken who)
    from taken(3) obtain gone i where new: "new = gone @ [new_event i (bd_now b) STARTED who
        (started_payload t' outcome cid holder who (bd_now b) (resolve_lease env lease_s)) None]"
      and gone: "\<forall>e \<in> set gone. ev_type e = RELEASED \<and> field e ''task_id'' = t'" by blast
    show ?thesis
    proof (cases "t = t'")
      case True
      have "task_view oid t (bd_log b @ new) = (IN_PROGRESS, Some (moment (bd_now b + resolve_lease env lease_s * 1000000)))"
        unfolding new append_assoc [symmetric] True
        using assms(4) Claim(1,3) True by (intro view_started) (simp_all add: new own_events_append)
      then show ?thesis
        using taken(4,5) True unfolding Claim(1) by (simp add: agrees_def new_claim_def)
    next
      case False
      then have "task_view oid t (bd_log b @ new) = task_view oid t (bd_log b)"
        using gone by (intro view_other) (auto simp: new)
      then show ?thesis
        using taken(5) False assms(3) unfolding Claim(1) by simp
    qed
  qed (use assms(3) Claim(1) in simp_all)
next
  case (Renew ids cid holder lease_s res new)
  show ?thesis
    using Renew(2)
  proof (cases rule: renew_cases)
    case (renewed t' c)
    have t': "t' \<noteq> []" using renewed(1) by (auto simp: no_state_def)
    show ?thesis
    proof (cases "t = t'")
      case True
      have old: "task_view oid t (bd_log b) = (IN_PROGRESS, Some (cl_expires_at c))"
        using assms(3) renewed(1,4,5) True by (simp add: agrees_def)
      have own: "own_events oid t new" using assms(4) Renew(1) by (simp add: own_events_append)
      have "task_view oid t (bd_log b @ new) = (IN_PROGRESS, Some (moment (bd_now b + resolve_lease env lease_s * 1000000)))"
        using own True unfolding renewed(7)
        by (simp add: task_view_snoc view_event_def old [unfolded True] status_of_kind own_events_def Let_def)
          (simp add: renewed_payload_def dget_def)
      then show ?thesis
        using renewed_state [OF renewed(1,2) t', folded True] renewed(4,5) True unfolding Renew(1) renewed(7) by (simp add: agrees_def)
    next
      case False
      then show ?thesis
        using renewed_state [OF renewed(1,2) t'] view_other [of new t oid "bd_log b"] assms(3)
        unfolding Renew(1) by (simp add: renewed(7))
    qed
  qed (use assms(3) Renew(1) in simp_all)
next
  case (Release ids cid holder reason res new)
  show ?thesis
    using Release(2)
  proof (cases rule: release_cases)
    case (left t' c a)
    have t': "t' \<noteq> []" using left(1) by (auto simp: no_state_def)
    show ?thesis
    proof (cases "t = t'")
      case True
      have own: "own_events oid t new" using assms(4) Release(1) by (simp add: own_events_append)
      have "task_view oid t (bd_log b @ new) = (PENDING, None)"
        using own True unfolding left(5) by (simp add: task_view_snoc view_event_def status_of_kind own_events_def Let_def)
      then show ?thesis
        using released_state [OF left(1) t'] left(1,4) True unfolding Release(1) left(5) by (simp add: agrees_def)
    next
      case False
      then show ?thesis
        using released_state [OF left(1) t'] view_other [of new t oid "bd_log b"] assms(3)
        unfolding Release(1) by (simp add: left(5))
    qed
  qed (use assms(3) Release(1) in simp_all)
next
  case (Complete ids q res new)
  show ?thesis
    using Complete(2)
  proof (cases rule: complete_cases)
    case (accepted e a)
    show ?thesis
      unfolding Complete(1) using accepted(2,5) assms(2-4) Complete(1)
      by (auto intro!: agrees_terminal simp: own_events_append TERMINAL_EVENT_TYPES_def)
  qed (use assms(3) Complete(1) in simp_all)
next
  case (Other e)
  have own: "own_events oid t [e]" using assms(4) Other(1) by (simp add: own_events_append)
  consider (verified) "ev_type e = ''work_item_verified''" | (no) "ev_type e \<notin> set CLAIM_EVENT_TYPES"
    | (legacy) "ev_type e = STARTED" "field e ''claim_id'' = []"
    using Other(2) by (auto simp: foreign_def)
  then show ?thesis
  proof cases
    case verified
    then show ?thesis
      unfolding Other(1) using own assms(2,3) by (simp add: agrees_terminal TERMINAL_EVENT_TYPES_def)
  next
    case no
    then show ?thesis unfolding Other(1) using assms(3) by (simp add: task_state_snoc task_view_snoc)
  next
    case legacy
    then have "field e ''task_id'' \<noteq> t" using own by (auto simp: own_events_def)
    then show ?thesis unfolding Other(1) using assms(3) view_other [of "[e]" t oid "bd_log b"] by (simp add: task_state_snoc)
  qed
qed (use assms(3) in simp_all)

lemma step_log: "board_step env b b' \<Longrightarrow> \<exists>new. bd_log b' = bd_log b @ new"
  by (induction rule: board_step.induct) auto

lemma reachable_agrees:
  assumes "reachable_board env b" "t \<noteq> []" "own_events oid t (bd_log b)"
  shows "agrees (task_state (bd_log b) t) (task_view oid t (bd_log b))"
  using assms(1,3)
proof induction
  case (start now)
  then show ?case by (simp add: empty_board_def agrees_def no_state_def task_view_def of_types_def)
next
  case (step b b')
  then have "own_events oid t (bd_log b)"
    using step_log [OF step.hyps(2)] by (auto simp: own_events_append)
  then show ?case
    using agrees_step [OF step.hyps(2) assms(2) step.IH step.prems] by simp
qed

lemma agrees_live:
  assumes "agrees st v"
  shows "ts_terminal st \<Longrightarrow> fst v \<in> {DONE, FAILED} \<and> \<not> lapsed now v"
    and "\<not> ts_terminal st \<Longrightarrow> live_from_state st now \<noteq> None \<Longrightarrow> fst v = IN_PROGRESS \<and> \<not> lapsed now v"
    and "\<not> ts_terminal st \<Longrightarrow> live_from_state st now = None \<Longrightarrow> fst v = PENDING \<or> lapsed now v"
  using assms by (auto simp: agrees_def lapsed_def live_from_state_def is_expired_def parse_stamp_def split: option.splits if_splits)

text \<open>
  C35: the compiler and the claim protocol agree. On every ledger the protocol can reach, for a task
  whose events name its outcome, the status laid over its pending node is done or failed exactly when
  the task carries a terminal event, in progress exactly when somebody holds a live claim on it, and
  pending otherwise.
\<close>

theorem overlay_agrees:
  assumes "reachable_board env b" "t \<noteq> []" "own_events oid t (bd_log b)" "status_in g t = Some PENDING"
  shows "\<exists>st. status_in (fst (apply_status_from_events oid (bd_now b) (bd_log b) g)) t = Some st
    \<and> (st \<in> {DONE, FAILED} \<longleftrightarrow> ts_terminal (task_state (bd_log b) t))
    \<and> (st = IN_PROGRESS \<longleftrightarrow> live_claim t (bd_now b) (bd_log b) \<noteq> None)
    \<and> (st = PENDING \<longleftrightarrow> \<not> ts_terminal (task_state (bd_log b) t) \<and> live_claim t (bd_now b) (bd_log b) = None)"
proof -
  let ?st = "task_state (bd_log b) t" and ?v = "task_view oid t (bd_log b)"
  note agrees_live [OF reachable_agrees [OF assms(1-3)], of "bd_now b"]
  moreover have "ts_terminal ?st \<Longrightarrow> live_from_state ?st (bd_now b) = None"
    by (simp add: live_from_state_def split: option.split)
  ultimately show ?thesis
    unfolding overlay_status [OF assms(4,2)] live_claim_def task_state_def [symmetric]
    by (cases "ts_terminal ?st"; cases "live_from_state ?st (bd_now b)") auto
qed

text \<open>A graph of one task, over the board on which bob holds it.\<close>

definition demo_graph :: work_graph where
  "demo_graph = \<lparr>wg_nodes = [\<lparr>wn_id = ''t'', wn_description = ''t'', wn_assigned_role = Some ''eng'', wn_status = PENDING,
     wn_verification_criteria = [], wn_verification_passed = None, wn_evidence_required = [], wn_verifier_role = None,
     wn_risk_level = [], wn_rollback_note = [], wn_budget_note = [], wn_captain_attention_estimate = 0\<rparr>], wg_edges = []\<rparr>"

lemma demo_own: "own_events ''o'' ''t'' (bd_log demo_board)"
  unfolding own_events_def list_all_iff [symmetric] by code_simp

theorem overlay_agrees_witness:
  "status_in (fst (apply_status_from_events ''o'' (bd_now demo_board) (bd_log demo_board) demo_graph)) ''t'' = Some IN_PROGRESS"
proof -
  have "status_in demo_graph ''t'' = Some PENDING" by code_simp
  moreover have "live_claim ''t'' (bd_now demo_board) (bd_log demo_board) \<noteq> None"
    unfolding not_None_eq [symmetric] by code_simp
  ultimately show ?thesis
    using overlay_agrees [OF demo_reachable _ demo_own, of demo_graph] by auto
qed

end
