(* ===== verification/Missions_Correct.thy ===== *)
theory Missions_Correct
  imports Mission_Overlay
begin

text \<open>
  The properties of the mission compiler and of the pull: a compiled mission is a graph that can be
  worked off, plain criteria always compile and in which order, and what a session is handed.
\<close>

section \<open>What the overlay leaves alone\<close>

definition plan :: "work_graph \<Rightarrow> work_node list" where
  "plan g = map (\<lambda>n. n\<lparr>wn_status := PENDING, wn_verification_passed := None\<rparr>) (wg_nodes g)"

lemma plan_update:
  assumes "\<And>n. (f n)\<lparr>wn_status := PENDING, wn_verification_passed := None\<rparr> = n\<lparr>wn_status := PENDING, wn_verification_passed := None\<rparr>"
  shows "plan (update_node k f g) = plan g"
  using assms by (auto simp: plan_def update_node_def)

lemma plan_overlay: "plan (fst (apply_status_from_events oid now es g)) = plan g \<and> wg_edges (fst (apply_status_from_events oid now es g)) = wg_edges g"
proof -
  have e: "plan (ov_graph (overlay_event oid ov e)) = plan (ov_graph ov) \<and> wg_edges (ov_graph (overlay_event oid ov e)) = wg_edges (ov_graph ov)" for ov e
    by (auto simp: overlay_event_def Let_def plan_update split: option.split)
  have l: "plan (ov_graph (expire_lease now ov l)) = plan (ov_graph ov) \<and> wg_edges (ov_graph (expire_lease now ov l)) = wg_edges (ov_graph ov)" for ov l
    by (auto simp: expire_lease_def plan_update split: prod.split)
  have es: "plan (ov_graph (foldl (overlay_event oid) ov es)) = plan (ov_graph ov)
      \<and> wg_edges (ov_graph (foldl (overlay_event oid) ov es)) = wg_edges (ov_graph ov)" for ov es
    by (induction es arbitrary: ov) (simp_all add: e)
  have ls: "plan (ov_graph (foldl (expire_lease now) ov ls)) = plan (ov_graph ov)
      \<and> wg_edges (ov_graph (foldl (expire_lease now) ov ls)) = wg_edges (ov_graph ov)" for ov ls
    by (induction ls arbitrary: ov) (simp_all add: l)
  show ?thesis
    by (simp add: apply_status_from_events_def es ls Let_def)
qed

lemma plan_map: "(\<And>n. f (n\<lparr>wn_status := PENDING, wn_verification_passed := None\<rparr>) = f n) \<Longrightarrow> map f (wg_nodes g) = map f (plan g)"
  by (simp add: plan_def)

lemma overlay_map:
  assumes "\<And>n. f (n\<lparr>wn_status := PENDING, wn_verification_passed := None\<rparr>) = f n"
  shows "map f (wg_nodes (fst (apply_status_from_events oid now es g))) = map f (wg_nodes g)"
  using plan_overlay [of oid now es g] plan_map [of f, OF assms] by metis

lemma overlay_ids: "node_ids (fst (apply_status_from_events oid now es g)) = node_ids g"
  unfolding node_ids_def by (rule overlay_map) simp

lemma overlay_ok: "graph_ok (fst (apply_status_from_events oid now es g)) = graph_ok g"
  using plan_overlay [of oid now es g] by (simp add: graph_ok_def overlay_ids)

lemma overlay_all:
  assumes "\<And>n. P (n\<lparr>wn_status := PENDING, wn_verification_passed := None\<rparr>) = P n"
  shows "(\<forall>n \<in> set (wg_nodes (fst (apply_status_from_events oid now es g))). P n) = (\<forall>n \<in> set (wg_nodes g). P n)"
proof -
  have "list_all id (map P (wg_nodes (fst (apply_status_from_events oid now es g)))) = list_all id (map P (wg_nodes g))"
    by (subst overlay_map) (simp_all add: assms)
  then show ?thesis by (simp add: list_all_iff)
qed

section \<open>Building the graph\<close>

lemma and_then_Inr [simp]: "and_then r f = Inr y \<longleftrightarrow> (\<exists>x. r = Inr x \<and> f x = Inr y)"
  by (cases r) (simp_all add: and_then_def)

lemma make_node_Inr: "make_node n = Inr n' \<longleftrightarrow> n' = n \<and> \<not> self_verified n"
  by (auto simp: make_node_def)

lemma self_verified_cong: "self_verified (n\<lparr>wn_status := a, wn_verification_passed := v\<rparr>) = self_verified n"
  by (simp add: self_verified_def)

lemma node_for_facts:
  assumes "node_for b oid roles i crit = Inr n"
  shows "wn_id n = task_id_for oid i crit" "wn_status n = PENDING" "\<not> self_verified n"
  using assms by (auto simp: node_for_def make_node_Inr Let_def)

lemma task_id_nonempty: "task_id_for oid i crit \<noteq> []"
  by (simp add: task_id_for_def or_else_def generate_task_id_def)

lemma add_nodes_facts:
  "add_nodes mk i cs g = Inr g' \<Longrightarrow> \<exists>ns. wg_nodes g' = wg_nodes g @ ns \<and> wg_edges g' = wg_edges g \<and> length ns = length cs
    \<and> (\<forall>k < length cs. mk (i + k) (cs ! k) = Inr (ns ! k)) \<and> (graph_ok g \<longrightarrow> graph_ok g')"
proof (induction mk i cs g arbitrary: g' rule: add_nodes.induct)
  case (2 mk i c cs g)
  from 2(2) obtain n g1 where n: "mk i c = Inr n" and g1: "add_node n g = Inr g1" and rest: "add_nodes mk (Suc i) cs g1 = Inr g'"
    by auto
  from 2(1) [OF rest] obtain ns where ns: "wg_nodes g' = wg_nodes g1 @ ns" "wg_edges g' = wg_edges g1" "length ns = length cs"
      "\<forall>k < length cs. mk (Suc i + k) (cs ! k) = Inr (ns ! k)" "graph_ok g1 \<longrightarrow> graph_ok g'"
    by blast
  have "wg_nodes g1 = wg_nodes g @ [n]" "wg_edges g1 = wg_edges g"
    using g1 by (auto simp: add_node_def split: if_splits)
  moreover have "\<forall>k < Suc (length cs). mk (i + k) ((c # cs) ! k) = Inr ((n # ns) ! k)"
    using n ns(4) by (auto simp: less_Suc_eq_0_disj)
  ultimately show ?case
    using ns add_node_ok [OF _ g1] by (intro exI [of _ "n # ns"]) auto
qed simp

lemma add_edge_facts: "add_edge f t g = Inr g' \<Longrightarrow> wg_nodes g' = wg_nodes g"
  by (auto simp: add_edge_def split: if_splits)

lemma edges_cons:
  assumes "and_then (add_edge f t g) h = Inr g'" "\<And>g1. h g1 = Inr g' \<Longrightarrow> wg_nodes g' = wg_nodes g1 \<and> (graph_ok g1 \<longrightarrow> graph_ok g')"
  shows "wg_nodes g' = wg_nodes g \<and> (graph_ok g \<longrightarrow> graph_ok g')"
proof -
  obtain g1 where g1: "add_edge f t g = Inr g1" "h g1 = Inr g'" using assms(1) by auto
  then show ?thesis using assms(2) [OF g1(2)] add_edge_facts [OF g1(1)] add_edge_ok [OF _ g1(1)] by simp
qed

lemma add_edges_facts: "add_edges es g = Inr g' \<Longrightarrow> wg_nodes g' = wg_nodes g \<and> (graph_ok g \<longrightarrow> graph_ok g')"
proof (induction es g arbitrary: g' rule: add_edges.induct)
  case (2 f t es g)
  show ?case by (rule edges_cons [OF 2(2) [unfolded add_edges.simps]]) (rule 2(1))
qed simp

lemma add_explicit_facts: "add_explicit es g = Inr g' \<Longrightarrow> wg_nodes g' = wg_nodes g \<and> (graph_ok g \<longrightarrow> graph_ok g')"
proof (induction es g arbitrary: g' rule: add_explicit.induct)
  case (2 f t es g)
  show ?case
  proof (cases "f \<in> set (node_ids g)")
    case True
    then have "and_then (add_edge f t g) (add_explicit es) = Inr g'" using 2(2) by simp
    then show ?thesis by (rule edges_cons) (rule 2(1) [simplified, OF True])
  qed (use 2(2) in simp)
qed simp

lemma collect_length: "collect f xs = Inr ys \<Longrightarrow> length ys = length xs"
  by (induction xs arbitrary: ys) auto

lemma build_graph_facts:
  assumes "build_graph b ord oid roles criteria = Inr g"
  shows "graph_ok g" "validate ord g = []" "length (wg_nodes g) = length criteria"
    and "\<forall>n \<in> set (wg_nodes g). wn_status n = PENDING \<and> wn_id n \<noteq> [] \<and> \<not> self_verified n"
proof -
  obtain crits g0 where crits: "collect (normalize_criterion b) criteria = Inr crits"
    and g0: "add_nodes (node_for b oid roles) 0 crits empty_graph = Inr g0"
    and g: "(if list_ex (\<lambda>c. has_key c ''depends_on'') crits then add_explicit (explicit_edges oid crits) g0
               else add_edges (inferred_edges oid crits) g0) = Inr g" and v: "validate ord g = []"
    using assms by (auto simp: build_graph_def split: if_splits)
  from add_nodes_facts [OF g0] obtain ns where ns0: "wg_nodes g0 = wg_nodes empty_graph @ ns" "length ns = length crits"
      "\<forall>k < length crits. node_for b oid roles (0 + k) (crits ! k) = Inr (ns ! k)" "graph_ok empty_graph \<longrightarrow> graph_ok g0"
    by blast
  moreover have "graph_ok g0" using ns0(4) by simp
  ultimately have ns: "wg_nodes g0 = ns" "length ns = length crits" "graph_ok g0"
      "\<And>k. k < length crits \<Longrightarrow> node_for b oid roles k (crits ! k) = Inr (ns ! k)"
    by (simp_all add: empty_graph_def)
  have keep: "wg_nodes g = wg_nodes g0 \<and> (graph_ok g0 \<longrightarrow> graph_ok g)"
    using g by (cases "list_ex (\<lambda>c. has_key c ''depends_on'') crits")
      (simp_all only: if_True if_False, rule add_explicit_facts, assumption, rule add_edges_facts, assumption)
  show "graph_ok g" "validate ord g = []" using keep ns v by simp_all
  show "length (wg_nodes g) = length criteria"
    using keep ns collect_length [OF crits] by simp
  show "\<forall>n \<in> set (wg_nodes g). wn_status n = PENDING \<and> wn_id n \<noteq> [] \<and> \<not> self_verified n"
  proof
    fix n
    assume "n \<in> set (wg_nodes g)"
    then obtain k where k: "k < length crits" "n = ns ! k"
      using keep ns by (auto simp: in_set_conv_nth)
    then have "node_for b oid roles k (crits ! k) = Inr n" using ns(4) by simp
    from node_for_facts [OF this] show "wn_status n = PENDING \<and> wn_id n \<noteq> [] \<and> \<not> self_verified n"
      by (simp add: task_id_nonempty)
  qed
qed

text \<open>A mission compiled at a moment from a ledger: a valid pending graph, the ledger laid over it.\<close>

lemma compile_facts:
  assumes "compile_outcome b ord hex now roles es outcome = Inr m"
  obtains g where "mi_graph m = fst (apply_status_from_events (mi_outcome_id m) now es g)"
    "build_graph b ord (mi_outcome_id m) roles (elems (dget outcome ''measurable_criteria'')) = Inr g"
    "mi_outcome_id m = str_of (dget outcome ''id'')"
  using assms by (auto simp: compile_outcome_def Let_def split: if_splits)

section \<open>Plain criteria\<close>

lemma generate_task_id_inj: "generate_task_id oid i = generate_task_id oid j \<longleftrightarrow> i = j"
proof
  assume "generate_task_id oid i = generate_task_id oid j"
  then have "fmt03 (int i) = fmt03 (int j)"
    by (simp only: generate_task_id_def same_append_eq)
  then have "Some (int i) = Some (int j)"
    using int_text_fmt03 [of "int i"] int_text_fmt03 [of "int j"] by (simp only: of_nat_0_le_iff simp_thms)
  then show "i = j" by simp
qed simp

definition plain :: "string \<Rightarrow> pyval" where
  "plain t = PDict [(''title'', PStr t)]"

definition owner_of :: "role_row list \<Rightarrow> string \<Rightarrow> string option" where
  "owner_of roles t = or_role (match_role_for_task t roles) (sole_role_slug roles)"

definition plain_node :: "string \<Rightarrow> role_row list \<Rightarrow> nat \<Rightarrow> string \<Rightarrow> work_node" where
  "plain_node oid roles i t = \<lparr>wn_id = generate_task_id oid i, wn_description = t, wn_assigned_role = owner_of roles t, wn_status = PENDING,
     wn_verification_criteria = [t], wn_verification_passed = None, wn_evidence_required = [], wn_verifier_role = None,
     wn_risk_level = [], wn_rollback_note = [], wn_budget_note = [], wn_captain_attention_estimate = 0\<rparr>"

lemma plain_facts [simp]:
  "dget (plain t) ''title'' = PStr t" "k \<noteq> ''title'' \<Longrightarrow> dget (plain t) k = PNone" "k \<noteq> ''title'' \<Longrightarrow> dget_or (plain t) k d = d"
  "k \<noteq> ''title'' \<Longrightarrow> \<not> has_key (plain t) k"
  by (simp_all add: plain_def dget_def dget_or_def has_key_def)

lemma plain_node_for [simp]:
  "task_id_for oid i (plain t) = generate_task_id oid i" "node_for b oid roles i (plain t) = Inr (plain_node oid roles i t)"
  by (simp_all add: task_id_for_def or_else_def node_for_def acceptance_def or_val_def
      or_role_def some_text_def str_opt_def make_node_def self_verified_def plain_node_def owner_of_def and_then_def)

lemma collect_plain: "collect (normalize_criterion b) (map PStr titles) = Inr (map plain titles)"
  by (induction titles) (simp_all add: normalize_criterion_def plain_def)

lemma add_plain:
  "\<forall>n \<in> set (wg_nodes g). \<forall>k < length titles. wn_id n \<noteq> generate_task_id oid (i + k) \<Longrightarrow>
   add_nodes (node_for b oid roles) i (map plain titles) g
     = Inr (g\<lparr>wg_nodes := wg_nodes g @ map (\<lambda>k. plain_node oid roles (i + k) (titles ! k)) [0..<length titles]\<rparr>)"
proof (induction titles arbitrary: i g)
  case (Cons t titles)
  let ?n = "plain_node oid roles i t" and ?g = "g\<lparr>wg_nodes := wg_nodes g @ [plain_node oid roles i t]\<rparr>"
  have "generate_task_id oid i \<notin> wn_id ` set (wg_nodes g)"
    using Cons.prems by force
  then have "add_node ?n g = Inr ?g"
    by (simp add: add_node_def node_ids_def plain_node_def)
  moreover have "\<forall>n \<in> set (wg_nodes ?g). \<forall>k < length titles. wn_id n \<noteq> generate_task_id oid (Suc i + k)"
    using Cons.prems by (force simp: plain_node_def generate_task_id_inj)
  moreover have "map (\<lambda>k. plain_node oid roles (i + k) ((t # titles) ! k)) [0..<length (t # titles)]
      = ?n # map (\<lambda>k. plain_node oid roles (Suc i + k) (titles ! k)) [0..<length titles]"
    by (simp add: map_upt_Suc del: upt_Suc)
  ultimately show ?case
    using Cons.IH [of ?g "Suc i"] by simp
qed simp

lemma add_edges_ok:
  assumes "\<forall>(f, t) \<in> set es. f \<in> id_set g \<and> t \<in> id_set g \<and> f \<noteq> t" "distinct (wg_edges g @ es)"
  shows "add_edges es g = Inr (g\<lparr>wg_edges := wg_edges g @ es\<rparr>)"
  using assms
proof (induction es arbitrary: g)
  case (Cons e es)
  obtain f t where e: "e = (f, t)" by (cases e)
  have "add_edge f t g = Inr (g\<lparr>wg_edges := wg_edges g @ [e]\<rparr>)"
    using Cons.prems e by (simp add: add_edge_def)
  then show ?case
    using Cons.IH [of "g\<lparr>wg_edges := wg_edges g @ [e]\<rparr>"] Cons.prems e by (simp add: node_ids_def)
qed simp

lemma sorted_indices_facts:
  "set (sorted_indices titles) = {..<length titles}" "distinct (sorted_indices titles)" "length (sorted_indices titles) = length titles"
  "sorted_wrt (\<lambda>i j. phase (titles ! i) < phase (titles ! j) \<or> phase (titles ! i) = phase (titles ! j) \<and> i < j) (sorted_indices titles)"
proof -
  let ?k = "\<lambda>i. (phase (titles ! i), i)"
  show s: "set (sorted_indices titles) = {..<length titles}" "distinct (sorted_indices titles)" "length (sorted_indices titles) = length titles"
    by (auto simp: sorted_indices_def distinct_sort)
  have "sorted (map ?k (sorted_indices titles))" by (simp add: sorted_indices_def)
  then have "sorted_wrt (\<lambda>i j. ?k i \<le> ?k j \<and> i \<noteq> j) (sorted_indices titles)"
    using s(2) by (simp add: sorted_wrt_map sorted_wrt_iff_nth_less distinct_conv_nth nth_eq_iff_index_eq)
  then show "sorted_wrt (\<lambda>i j. phase (titles ! i) < phase (titles ! j) \<or> phase (titles ! i) = phase (titles ! j) \<and> i < j) (sorted_indices titles)"
    by (rule sorted_wrt_mono_rel [rotated]) (auto simp: less_eq_prod_def)
qed

text \<open>Consecutive pairs of a list without duplicates form a chain.\<close>

lemma pairs_nth: "(f, t) \<in> set (zip xs (tl xs)) \<longleftrightarrow> (\<exists>k. Suc k < length xs \<and> f = xs ! k \<and> t = xs ! Suc k)"
proof
  assume "(f, t) \<in> set (zip xs (tl xs))"
  then obtain k where k: "xs ! k = f" "tl xs ! k = t" "k < length xs" "k < length (tl xs)"
    by (auto simp: in_set_zip)
  then have "Suc k < length xs" by simp
  then show "\<exists>k. Suc k < length xs \<and> f = xs ! k \<and> t = xs ! Suc k"
    using k by (intro exI [of _ k]) (simp add: nth_tl)
next
  assume "\<exists>k. Suc k < length xs \<and> f = xs ! k \<and> t = xs ! Suc k"
  then obtain k where k: "Suc k < length xs" "f = xs ! k" "t = xs ! Suc k" by blast
  then have "k < length xs" "k < length (tl xs)" "tl xs ! k = t" by (simp_all add: nth_tl)
  then show "(f, t) \<in> set (zip xs (tl xs))"
    using k(2) unfolding in_set_zip by (intro exI [of _ k]) simp
qed

lemma chain_facts:
  assumes "distinct xs"
  shows "(f, t) \<in> set (zip xs (tl xs)) \<Longrightarrow> f \<in> set xs \<and> t \<in> set xs \<and> f \<noteq> t"
    and "distinct (zip xs (tl xs))" and "acyclic (set (zip xs (tl xs)))"
proof -
  show facts: "(f, t) \<in> set (zip xs (tl xs)) \<Longrightarrow> f \<in> set xs \<and> t \<in> set xs \<and> f \<noteq> t" for f t
    using assms by (auto simp: pairs_nth nth_eq_iff_index_eq)
  show "distinct (zip xs (tl xs))" using assms by (simp add: distinct_zipI1)
  show "acyclic (set (zip xs (tl xs)))"
  proof (rule ordered_acyclic [OF _ assms])
    show "ordered_by (set (zip xs (tl xs))) xs"
      unfolding ordered_by_def
    proof (intro allI impI subsetI)
      fix us x vs p
      assume eq: "xs = us @ x # vs" and p: "p \<in> preds (set (zip xs (tl xs))) x"
      from p obtain k where k: "Suc k < length xs" "p = xs ! k" "x = xs ! Suc k"
        unfolding in_preds pairs_nth by blast
      have "xs ! length us = x" "length us < length xs" using eq by simp_all
      then have "Suc k = length us" using k assms nth_eq_iff_index_eq by metis
      then have "k < length us" by simp
      then have "xs ! k = us ! k" using eq by (simp add: nth_append)
      then show "p \<in> set us" using k(2) nth_mem [OF \<open>k < length us\<close>] by simp
    qed
    show "set (zip xs (tl xs)) \<subseteq> set xs \<times> set xs" using facts by auto
  qed
qed

definition plain_ids :: "string \<Rightarrow> string list \<Rightarrow> string list" where
  "plain_ids oid titles = map (generate_task_id oid) (sorted_indices titles)"

lemma inferred_plain:
  "inferred_edges oid (map plain titles) = zip (plain_ids oid titles) (tl (plain_ids oid titles))"
proof -
  have ids: "map (\<lambda>(i, c). task_id_for oid i c) (enumerate 0 (map plain titles)) = map (generate_task_id oid) [0..<length titles]"
    by (rule nth_equalityI) (simp_all add: nth_enumerate_eq)
  have titles: "map (\<lambda>c. str_of (dget c ''title'')) (map plain titles) = titles"
    by (simp add: comp_def)
  let ?xs = "sorted_indices titles" and ?ids = "map (generate_task_id oid) [0..<length titles]"
  have "map (\<lambda>(f, t). (?ids ! f, ?ids ! t)) (zip ?xs (tl ?xs)) = zip (plain_ids oid titles) (tl (plain_ids oid titles))"
  proof -
    have "(?ids ! f, ?ids ! t) = (generate_task_id oid f, generate_task_id oid t)" if "(f, t) \<in> set (zip ?xs (tl ?xs))" for f t
      using chain_facts(1) [OF sorted_indices_facts(2) that] sorted_indices_facts(1) [of titles] by auto
    then have "map (\<lambda>(f, t). (?ids ! f, ?ids ! t)) (zip ?xs (tl ?xs))
        = map (\<lambda>(f, t). (generate_task_id oid f, generate_task_id oid t)) (zip ?xs (tl ?xs))"
      by (intro map_cong) auto
    also have "\<dots> = zip (plain_ids oid titles) (tl (plain_ids oid titles))"
      by (simp add: plain_ids_def zip_map_map map_tl [symmetric])
    finally show ?thesis .
  qed
  moreover have "zip (plain_ids oid titles) (tl (plain_ids oid titles)) = []" if short: "length titles \<le> 1"
  proof -
    have "tl (plain_ids oid titles) = []"
      using short sorted_indices_facts(3) [of titles]
      by (cases "sorted_indices titles"; cases "tl (sorted_indices titles)") (simp_all add: plain_ids_def)
    then show ?thesis by simp
  qed
  ultimately show ?thesis
    unfolding inferred_edges_def Let_def ids titles infer_dependencies_def by simp
qed

text \<open>The graph of plain criteria: one node each, chained in the order of the phases.\<close>

definition plain_graph :: "string \<Rightarrow> role_row list \<Rightarrow> string list \<Rightarrow> work_graph" where
  "plain_graph oid roles titles = \<lparr>wg_nodes = map (\<lambda>k. plain_node oid roles k (titles ! k)) [0..<length titles],
     wg_edges = zip (plain_ids oid titles) (tl (plain_ids oid titles))\<rparr>"

lemma plain_ids_facts: "distinct (plain_ids oid titles)" "set (plain_ids oid titles) = set (node_ids (plain_graph oid roles titles))"
proof -
  show "distinct (plain_ids oid titles)"
    using sorted_indices_facts(2) [of titles] by (simp add: plain_ids_def distinct_map inj_on_def generate_task_id_inj)
  show "set (plain_ids oid titles) = set (node_ids (plain_graph oid roles titles))"
    by (auto simp: plain_ids_def sorted_indices_facts plain_graph_def node_ids_def plain_node_def)
qed

lemma plain_build:
  assumes "set_order ord" "\<forall>t \<in> set titles. owner_of roles t \<noteq> None"
  shows "build_graph b ord oid roles (map PStr titles) = Inr (plain_graph oid roles titles)"
proof -
  let ?ns = "map (\<lambda>k. plain_node oid roles k (titles ! k)) [0..<length titles]" and ?es = "wg_edges (plain_graph oid roles titles)"
  let ?g = "\<lparr>wg_nodes = ?ns, wg_edges = []\<rparr>"
  have nodes: "add_nodes (node_for b oid roles) 0 (map plain titles) empty_graph = Inr ?g"
    using add_plain [of empty_graph titles oid 0] by (simp add: empty_graph_def)
  have chain: "f \<in> id_set ?g \<and> t \<in> id_set ?g \<and> f \<noteq> t" if "(f, t) \<in> set ?es" for f t
    using chain_facts(1) [OF plain_ids_facts(1) that [unfolded plain_graph_def, simplified]] plain_ids_facts(2) [of oid titles roles]
    by (simp add: plain_graph_def node_ids_def)
  have dist: "distinct ?es"
    using chain_facts(2) [OF plain_ids_facts(1)] by (simp add: plain_graph_def)
  have edges: "add_edges (inferred_edges oid (map plain titles)) ?g = Inr (plain_graph oid roles titles)"
    using add_edges_ok [of ?es ?g] chain dist by (auto simp: inferred_plain plain_graph_def)
  have "graph_ok (plain_graph oid roles titles)"
    using chain dist by (auto simp: graph_ok_def plain_graph_def node_ids_def plain_node_def distinct_map inj_on_def generate_task_id_inj comp_def)
  moreover have "acyclic (edge_set (plain_graph oid roles titles))"
    using chain_facts(3) [OF plain_ids_facts(1)] by (simp add: plain_graph_def)
  moreover have "wn_assigned_role n \<noteq> None" if "n \<in> set (wg_nodes (plain_graph oid roles titles))" for n
    using that assms(2) by (auto simp: plain_graph_def plain_node_def)
  ultimately have "validate ord (plain_graph oid roles titles) = []"
    using validate_iff [OF _ assms(1)] by blast
  moreover have "\<not> list_ex (\<lambda>c. has_key c ''depends_on'') (map plain titles)"
    by (simp add: list_ex_iff)
  ultimately show ?thesis
    by (simp add: build_graph_def collect_plain nodes edges and_then_def)
qed

lemma plain_compiles:
  assumes "set_order ord" "dget outcome ''id'' = PStr oid" "dget outcome ''measurable_criteria'' = PList (map PStr titles)"
    and "titles \<noteq> []" "\<forall>t \<in> set titles. owner_of roles t \<noteq> None"
  shows "\<exists>m. compile_outcome b ord hex now roles es outcome = Inr m
    \<and> mi_graph m = fst (apply_status_from_events oid now es (plain_graph oid roles titles))"
proof -
  have "has_key outcome ''id''" "has_key outcome ''measurable_criteria''"
    using assms(2,3) by (auto simp: dget_def has_key_def split: option.splits)
  then show ?thesis
    using assms by (simp add: compile_outcome_def plain_build and_then_def Let_def)
qed

definition demo_builtins :: builtins where
  "demo_builtins = \<lparr>bi_repr = \<lambda>_. [], bi_float = \<lambda>_. None\<rparr>"

definition demo_outcome :: "string list \<Rightarrow> pyval" where
  "demo_outcome titles = PDict [(''id'', PStr ''o''), (''measurable_criteria'', PList (map PStr titles))]"

definition demo_roster :: "role_row list" where
  "demo_roster = [\<lparr>rr_slug = ''eng'', rr_capabilities = []\<rparr>]"

lemma demo_facts:
  "dget (demo_outcome titles) ''id'' = PStr ''o''" "dget (demo_outcome titles) ''measurable_criteria'' = PList (map PStr titles)"
  "\<forall>t \<in> set titles. owner_of demo_roster t \<noteq> None" "set_order (\<lambda>xs. xs)"
  by (simp_all add: demo_outcome_def demo_roster_def dget_def owner_of_def or_role_def sole_role_slug_def set_order_def some_text_def
      split: option.split)

lemma demo_compiles:
  assumes "titles \<noteq> []"
  obtains m where "compile_outcome b (\<lambda>xs. xs) hex now demo_roster es (demo_outcome titles) = Inr m"
  using plain_compiles [OF demo_facts(4,1,2) assms demo_facts(3)] by blast

text \<open>
  C37: a mission that compiles can be worked off. Whatever the criteria, the roster and the ledger, a
  mission that the compiler returns has one node per criterion, each id once and none empty; its
  edges have no cycle; every task that waits for another has an owner; and no task names its owner as
  its verifier. Otherwise the compiler raises.
\<close>

theorem compiled_mission_valid:
  assumes "compile_outcome b ord hex now roles es outcome = Inr m" "set_order ord"
  shows "length (wg_nodes (mi_graph m)) = length (elems (dget outcome ''measurable_criteria''))
    \<and> distinct (node_ids (mi_graph m)) \<and> [] \<notin> set (node_ids (mi_graph m)) \<and> acyclic (set (wg_edges (mi_graph m)))
    \<and> list_all (\<lambda>n. (deps (mi_graph m) (wn_id n) = [] \<or> wn_assigned_role n \<noteq> None) \<and> make_node n = Inr n) (wg_nodes (mi_graph m))"
proof -
  obtain g where g: "mi_graph m = fst (apply_status_from_events (mi_outcome_id m) now es g)"
    and built: "build_graph b ord (mi_outcome_id m) roles (elems (dget outcome ''measurable_criteria'')) = Inr g"
    by (rule compile_facts [OF assms(1)])
  note facts = build_graph_facts [OF built]
  note valid = validate_iff [OF facts(1) assms(2), THEN iffD1, OF facts(2)]
  have edges: "wg_edges (mi_graph m) = wg_edges g"
    using plan_overlay [of "mi_outcome_id m" now es g] g by simp
  have "length (wg_nodes (mi_graph m)) = length (wg_nodes g)"
    using overlay_ids [of "mi_outcome_id m" now es g] g by (metis length_map node_ids_def)
  moreover have "deps (mi_graph m) = deps g"
    by (rule ext) (simp add: deps_def edges)
  moreover have "\<forall>n \<in> set (wg_nodes (mi_graph m)). (deps g (wn_id n) = [] \<or> wn_assigned_role n \<noteq> None) \<and> \<not> self_verified n"
    unfolding g by (subst overlay_all) (use valid facts(4) in \<open>auto simp: self_verified_cong\<close>)
  moreover have "[] \<notin> set (node_ids (mi_graph m))" "distinct (node_ids (mi_graph m))"
    using facts(1,4) unfolding g overlay_ids by (auto simp: node_ids_def graph_ok_def)
  ultimately show ?thesis
    using valid facts(3) edges by (simp add: list_all_iff make_node_Inr)
qed

theorem compiled_mission_valid_witness:
  "\<exists>m. compile_outcome demo_builtins (\<lambda>xs. xs) [] 0 demo_roster [] (demo_outcome [''ship it'', ''set up ci'']) = Inr m
    \<and> acyclic (set (wg_edges (mi_graph m)))"
proof -
  obtain m where m: "compile_outcome demo_builtins (\<lambda>xs. xs) [] 0 demo_roster [] (demo_outcome [''ship it'', ''set up ci'']) = Inr m"
    by (rule demo_compiles [of "[''ship it'', ''set up ci'']" demo_builtins "[]" 0 "[]"]) simp_all
  from compiled_mission_valid [OF m demo_facts(4)] m show ?thesis by blast
qed

text \<open>
  Plain criteria always compile, into one chain. An outcome whose criteria are plain sentences,
  each matched by a role or answered by a roster of one, compiles; its tasks are the sentences in
  order; and they run one after the other, those of the early phase first and those of the late phase
  last, in the declared order within a phase.
\<close>

theorem plain_criteria_compile:
  assumes "set_order ord" "dget outcome ''id'' = PStr oid" "dget outcome ''measurable_criteria'' = PList (map PStr titles)"
    and "titles \<noteq> []" "\<forall>t \<in> set titles. owner_of roles t \<noteq> None"
  shows "\<exists>m order. compile_outcome b ord hex now roles es outcome = Inr m
    \<and> map wn_description (wg_nodes (mi_graph m)) = titles \<and> node_ids (mi_graph m) = map (generate_task_id oid) [0..<length titles]
    \<and> distinct order \<and> set order = {..<length titles}
    \<and> sorted_wrt (\<lambda>i j. phase (titles ! i) < phase (titles ! j) \<or> phase (titles ! i) = phase (titles ! j) \<and> i < j) order
    \<and> wg_edges (mi_graph m) = map (\<lambda>(i, j). (generate_task_id oid i, generate_task_id oid j)) (zip order (tl order))"
proof -
  obtain m where m: "compile_outcome b ord hex now roles es outcome = Inr m"
      "mi_graph m = fst (apply_status_from_events oid now es (plain_graph oid roles titles))"
    using plain_compiles [OF assms] by blast
  have "map wn_description (wg_nodes (mi_graph m)) = titles"
    unfolding m(2) by (subst overlay_map) (simp_all add: plain_graph_def plain_node_def comp_def map_nth)
  moreover have "node_ids (mi_graph m) = map (generate_task_id oid) [0..<length titles]"
    unfolding m(2) overlay_ids by (simp add: plain_graph_def plain_node_def node_ids_def comp_def)
  moreover have "wg_edges (mi_graph m) = map (\<lambda>(i, j). (generate_task_id oid i, generate_task_id oid j))
      (zip (sorted_indices titles) (tl (sorted_indices titles)))"
    using plan_overlay [of oid now es "plain_graph oid roles titles"] unfolding m(2)
    by (simp add: plain_graph_def plain_ids_def zip_map_map map_tl [symmetric])
  ultimately show ?thesis
    using m(1) sorted_indices_facts [of titles] by blast
qed

theorem plain_criteria_compile_witness:
  "\<exists>m. compile_outcome demo_builtins (\<lambda>xs. xs) [] 0 demo_roster [] (demo_outcome [''ship it'', ''set up ci'']) = Inr m
    \<and> map wn_description (wg_nodes (mi_graph m)) = [''ship it'', ''set up ci'']"
proof -
  have "[''ship it'', ''set up ci''] \<noteq> []" by simp
  from plain_criteria_compile [OF demo_facts(4,1,2) this demo_facts(3), where b = demo_builtins and hex = "[]" and now = 0 and es = "[]"]
  show ?thesis by (elim exE conjE) (intro exI conjI)
qed

end
