(* ===== verification/Mission_Pull.thy ===== *)
theory Mission_Pull
  imports Missions_Correct
begin

text \<open>
  What a session is handed by a pull, on the missions compiled from the ledger it claims on: the
  composition of the work graph, the overlay and the claim protocol.
\<close>

section \<open>Ready work is free\<close>

text \<open>A mission compiled at this moment from this ledger; its tasks' events name its outcome.\<close>

definition compiled_at :: "int \<Rightarrow> org_event list \<Rightarrow> mission \<Rightarrow> bool" where
  "compiled_at now es m \<longleftrightarrow> (\<exists>b ord hex roles outcome. compile_outcome b ord hex now roles es outcome = Inr m)"

definition own_mission :: "org_event list \<Rightarrow> mission \<Rightarrow> bool" where
  "own_mission es m \<longleftrightarrow> list_all (\<lambda>t. own_events (mi_outcome_id m) t es) (node_ids (mi_graph m))"

lemma live_claims_map: "map_of (live_claims now es) t = live_claim t now es"
proof -
  have d: "distinct (map fst ss) \<Longrightarrow> map_of (List.map_filter (\<lambda>(t, st). map_option (Pair t) (live_from_state st now)) ss) t
      = (case map_of ss t of None \<Rightarrow> None | Some st \<Rightarrow> live_from_state st now)" for ss :: task_states
  proof (induction ss)
    case (Cons s ss)
    obtain k st where s: "s = (k, st)" by (cases s)
    have "k \<notin> fst ` set ss" using Cons.prems s by simp
    then have "map_of ss k = None" by (simp add: map_of_eq_None_iff)
    then show ?case
      using Cons s by (cases "live_from_state st now") (auto simp: map_filter_simps)
  qed (simp add: map_filter_simps)
  show ?thesis
    unfolding live_claims_def d [OF distinct_states] live_claim_def state_of_def
    by (simp add: no_state_def live_from_state_def split: option.split)
qed

lemma live_key: "t \<in> fst ` set (live_claims now es) \<longleftrightarrow> live_claim t now es \<noteq> None"
  by (metis live_claims_map map_of_eq_None_iff)

lemma compiled_graph:
  assumes "compiled_at now es m"
  obtains g where "mi_graph m = fst (apply_status_from_events (mi_outcome_id m) now es g)" "graph_ok g" "graph_ok (mi_graph m)"
    "\<forall>n \<in> set (wg_nodes g). wn_status n = PENDING \<and> wn_id n \<noteq> []" "node_ids (mi_graph m) = node_ids g"
proof -
  obtain b ord hex roles outcome where "compile_outcome b ord hex now roles es outcome = Inr m"
    using assms by (auto simp: compiled_at_def)
  then obtain g where g: "mi_graph m = fst (apply_status_from_events (mi_outcome_id m) now es g)"
    "build_graph b ord (mi_outcome_id m) roles (elems (dget outcome ''measurable_criteria'')) = Inr g"
    by (rule compile_facts)
  show thesis
    using that [of g] g(1) build_graph_facts(1,4) [OF g(2)] by (simp add: overlay_ok overlay_ids)
qed

text \<open>A node that is not in progress, done or failed carries no live claim and no terminal event.\<close>

lemma pending_free:
  assumes "reachable_board env b" "compiled_at (bd_now b) (bd_log b) m" "own_mission (bd_log b) m"
    and "n \<in> set (wg_nodes (mi_graph m))" "wn_status n \<in> {PENDING, READY}"
  shows "wn_id n \<noteq> [] \<and> live_from_state (task_state (bd_log b) (wn_id n)) (bd_now b) = None \<and> \<not> ts_terminal (task_state (bd_log b) (wn_id n))"
proof -
  obtain g where g: "mi_graph m = fst (apply_status_from_events (mi_outcome_id m) (bd_now b) (bd_log b) g)" "graph_ok g" "graph_ok (mi_graph m)"
    "\<forall>n \<in> set (wg_nodes g). wn_status n = PENDING \<and> wn_id n \<noteq> []" "node_ids (mi_graph m) = node_ids g"
    by (rule compiled_graph [OF assms(2)])
  let ?t = "wn_id n" and ?oid = "mi_outcome_id m"
  have "?t \<in> set (node_ids g)" using assms(4) unfolding g(5) [symmetric] by (simp add: node_ids_def)
  then obtain n0 where n0: "n0 \<in> set (wg_nodes g)" "wn_id n0 = ?t"
    unfolding node_ids_def by auto
  have t: "?t \<noteq> []" using n0 g(4) by metis
  have pend: "status_in g ?t = Some PENDING"
    using node_of_member [OF g(2) n0(1)] n0 g(4) by (simp add: status_in_def)
  have own: "own_events ?oid ?t (bd_log b)"
    using assms(3,4) by (auto simp: own_mission_def list_all_iff node_ids_def)
  have "status_in (mi_graph m) ?t = Some (wn_status n)"
    using node_of_member [OF g(3) assms(4)] by (simp add: status_in_def)
  then have "(if lapsed (bd_now b) (task_view ?oid ?t (bd_log b)) then PENDING else fst (task_view ?oid ?t (bd_log b))) = wn_status n"
    using overlay_status [OF pend t, of ?oid "bd_now b" "bd_log b"] g(1) by simp
  with agrees_live [OF reachable_agrees [OF assms(1) t own], of "bd_now b"] assms(5) t show ?thesis
    by (cases "ts_terminal (task_state (bd_log b) ?t)"; cases "live_from_state (task_state (bd_log b) ?t) (bd_now b)")
      (auto simp: live_from_state_def split: if_splits)
qed

section \<open>The pull\<close>

lemma ready_for_role_iff:
  "(m, n) \<in> set (ready_for_role role ms) \<longleftrightarrow> m \<in> set ms \<and> n \<in> set (ready_tasks (mi_graph m)) \<and> wn_assigned_role n = Some role"
  by (auto simp: ready_for_role_def)

text \<open>A ready task that is free is granted to whoever asks.\<close>

lemma free_is_granted:
  assumes "live_from_state (task_state es t) now = None" "\<not> ts_terminal (task_state es t)" "t \<noteq> []" "cid \<noteq> []"
  shows "\<exists>c new. claim env cid ids t outcome holder actor lease_s now es = (Some c, new) \<and> cl_claim_id c = cid
    \<and> cl_holder c = holder \<and> live_claim t now (es @ new) = Some c"
proof -
  obtain res new where r: "claim env cid ids t outcome holder actor lease_s now es = (res, new)" by fastforce
  from r assms(3,4) show ?thesis
  proof (cases rule: claim_cases)
    case (taken who)
    then show ?thesis
      using taken(5) [of t] r lease_bounds(1) [of env lease_s]
      by (auto simp: live_claim_def live_from_state_def new_claim_def task_state_def [symmetric])
  qed (use assms(1,2) in simp_all)
qed


definition demo_session :: session where
  "demo_session = \<lparr>se_lease_env = demo_env, se_order = \<lambda>xs. xs, se_role = ''eng'', se_holder = ''alice'', se_lease = None, se_include_own = False\<rparr>"


text \<open>
  One unowned task silences every pull: two plain criteria that no role of a roster of two matches do
  not compile, because the second would wait for the first without an owner, so the whole outcomes
  file raises and the pull answers nothing. The comment of \<open>_sole_role_slug\<close> says the unowned node
  stays unowned, as a recorded gap.
\<close>

lemma unowned_criterion_raises:
  "compile_outcome demo_builtins (\<lambda>xs. xs) [] 0 [\<lparr>rr_slug = ''a'', rr_capabilities = []\<rparr>, \<lparr>rr_slug = ''b'', rr_capabilities = []\<rparr>] []
     (demo_outcome [''x'', ''y'']) = Inl (ValueError ''Work graph validation failed'')"
  by code_simp

lemma raised_compile_pulls_nothing:
  "get_next_task s taking cid ids now es (Some (Inl (ValueError x))) = Inr (None, [])"
  by (simp add: get_next_task_def)

end
