(* ===== verification/Schema_Registry.thy ===== *)
theory Schema_Registry
  imports Py_Text
begin

text \<open>
  The registry of payload schemas, \<^verbatim>\<open>framework/triggers/schema_registry.py\<close>: the discipline of
  identifiers, the resolution of a registered file with the check that it stays in the closed subset,
  and the interpreter of that subset. What a file holds is an argument; the text of an issue is its
  validator and its path.
\<close>

section \<open>Identifiers\<close>

definition EVENT_TYPES_KEY :: string where "EVENT_TYPES_KEY = ''x-cabinet-event-types''"

definition lower_letter :: "char \<Rightarrow> bool" where
  "lower_letter c \<longleftrightarrow> (let n = of_char c :: nat in 97 \<le> n \<and> n \<le> 122)"

definition segment :: "string \<Rightarrow> bool" where
  "segment s \<longleftrightarrow> s \<noteq> [] \<and> lower_letter (hd s) \<and> length s \<le> 64
     \<and> list_all (\<lambda>c. lower_letter c \<or> is_digit c \<or> c = CHR ''_'' \<or> c = CHR ''-'') (tl s)"

definition event_name :: "string \<Rightarrow> bool" where
  "event_name s \<longleftrightarrow> s \<noteq> [] \<and> lower_letter (hd s) \<and> length s \<le> 64
     \<and> list_all (\<lambda>c. lower_letter c \<or> is_digit c \<or> c = CHR ''_'') (tl s)"

text \<open>\<^verbatim>\<open><domain>.<name>\<close>; neither part admits a dot.\<close>

definition before :: "char \<Rightarrow> string \<Rightarrow> string" where
  "before d s = takeWhile (\<lambda>c. c \<noteq> d) s"

definition behind :: "char \<Rightarrow> string \<Rightarrow> string" where
  "behind d s = tl (dropWhile (\<lambda>c. c \<noteq> d) s)"

definition event_type_shape :: "string \<Rightarrow> bool" where
  "event_type_shape s \<longleftrightarrow> CHR ''.'' \<in> set s \<and> segment (before (CHR ''.'') s) \<and> event_name (behind (CHR ''.'') s)"

definition version_of :: "string \<Rightarrow> int option" where
  "version_of s = (if s \<noteq> [] \<and> length s \<le> 4 \<and> hd s \<noteq> CHR ''0'' then digits (length s) s else None)"

definition parse_schema_id :: "pyval \<Rightarrow> (string \<times> string \<times> int) option" where
  "parse_schema_id v = (let s = str_of v; rest = behind (CHR ''/'') s in
     if \<not> is_str v \<or> CHR ''/'' \<notin> set s \<or> CHR ''@'' \<notin> set rest
        \<or> \<not> segment (before (CHR ''/'') s) \<or> \<not> segment (before (CHR ''@'') rest) then None
     else map_option (\<lambda>n. (before (CHR ''/'') s, before (CHR ''@'') rest, n)) (version_of (behind (CHR ''@'') rest)))"

section \<open>The closed subset\<close>

definition ANNOTATION_KEYWORDS :: "string list" where
  "ANNOTATION_KEYWORDS = [''$schema'', ''title'', ''description'', EVENT_TYPES_KEY]"

definition VALIDATION_KEYWORDS :: "string list" where
  "VALIDATION_KEYWORDS = [''type'', ''enum'', ''const'', ''required'', ''properties'', ''additionalProperties'',
     ''minLength'', ''maxLength'', ''minimum'', ''maximum'']"

definition JSON_TYPES :: "string list" where
  "JSON_TYPES = [''object'', ''array'', ''string'', ''integer'', ''number'', ''boolean'', ''null'']"

datatype registry_error = Id_Error | Not_Found | File_Error | Raised

definition type_names :: "pyval \<Rightarrow> pyval list" where
  "type_names v = (if is_list v then elems v else [v])"

text \<open>\<^verbatim>\<open>all(t in _JSON_TYPES)\<close>: a list or mapping among the names raises.\<close>

fun types_error :: "pyval list \<Rightarrow> registry_error option" where
  "types_error [] = None"
| "types_error (t # ts) = (if \<not> hashable t then Some Raised
     else if is_str t \<and> str_of t \<in> set JSON_TYPES then types_error ts else Some File_Error)"

definition keyword_error :: "string \<Rightarrow> pyval \<Rightarrow> registry_error option" where
  "keyword_error k v =
     (if k \<notin> set (ANNOTATION_KEYWORDS @ VALIDATION_KEYWORDS) then Some File_Error
      else if k = ''type'' then (if type_names v = [] then Some File_Error else types_error (type_names v))
      else if k = ''required'' then raise_if (\<not> is_list v \<or> \<not> list_all is_str (elems v)) File_Error
      else if k = ''additionalProperties'' then raise_if (\<not> is_bool v) File_Error
      else if k \<in> {''minLength'', ''maxLength''} then raise_if (\<not> is_int v \<or> int_of v < 0) File_Error
      else if k \<in> {''minimum'', ''maximum''} then raise_if (\<not> is_number v) File_Error
      else if k = ''properties'' then raise_if (\<not> is_dict v) File_Error
      else if k = ''enum'' then raise_if (\<not> is_list v \<or> elems v = []) File_Error
      else None)"

lemma size_items: "(k, v) \<in> set (items s) \<Longrightarrow> size v < size s"
proof (cases s)
  case (PDict kvs)
  moreover assume "(k, v) \<in> set (items s)"
  ultimately show ?thesis
    by (auto simp: less_Suc_eq_le intro!: size_list_estimation' [of "(k, v)"])
qed simp_all

lemma for_each_cong [fundef_cong]:
  "xs = ys \<Longrightarrow> (\<And>x. x \<in> set ys \<Longrightarrow> f x = g x) \<Longrightarrow> for_each f xs = for_each g ys"
  by (induction xs arbitrary: ys) (auto simp: for_each.simps(2) split: option.splits)

function assert_supported :: "pyval \<Rightarrow> registry_error option" where
  "assert_supported s = (if \<not> is_dict s then Some File_Error
     else for_each (\<lambda>(k, v). case keyword_error k v of Some e \<Rightarrow> Some e
       | None \<Rightarrow> if k = ''properties'' then for_each (\<lambda>(_, sub). assert_supported sub) (items v) else None) (items s))"
  by pat_completeness auto
termination
  by (relation "measure size") (auto dest!: size_items)

declare assert_supported.simps [simp del]

definition declared_types_error :: "pyval \<Rightarrow> string \<Rightarrow> registry_error option" where
  "declared_types_error s domain = (let declared = dget s EVENT_TYPES_KEY in
     if declared = PNone then None
     else raise_if (\<not> is_list declared \<or> \<not> list_all (\<lambda>e. is_str e \<and> event_type_shape (str_of e)
         \<and> starts_with (domain @ ''.'') (str_of e)) (elems declared)) File_Error)"

text \<open>The registered file: absent, unusable before its content is looked at, or a JSON value.\<close>

datatype schema_file = No_Schema | Unusable | Schema pyval

type_synonym registry = "string \<Rightarrow> string \<Rightarrow> int \<Rightarrow> schema_file"

definition resolve :: "registry \<Rightarrow> string \<Rightarrow> string \<Rightarrow> int \<Rightarrow> registry_error + pyval" where
  "resolve files domain name version =
     (if \<not> segment domain \<or> \<not> segment name \<or> \<not> (1 \<le> version \<and> version \<le> 9999) then Inl Id_Error
      else case files domain name version of
          No_Schema \<Rightarrow> Inl Not_Found
        | Unusable \<Rightarrow> Inl File_Error
        | Schema s \<Rightarrow> if \<not> is_dict s then Inl File_Error
            else case run_checks [assert_supported s, declared_types_error s domain] of Some e \<Rightarrow> Inl e | None \<Rightarrow> Inr s)"

section \<open>The interpreter\<close>

definition json_type_matches :: "pyval \<Rightarrow> string \<Rightarrow> bool" where
  "json_type_matches v t =
     (if t = ''object'' then is_dict v else if t = ''array'' then is_list v else if t = ''string'' then is_str v
      else if t = ''boolean'' then is_bool v
      else if t = ''integer'' then is_int v \<or> (case v of PFloat r \<Rightarrow> of_int \<lfloor>r\<rfloor> = r | _ \<Rightarrow> False)
      else if t = ''number'' then is_number v
      else t = ''null'' \<and> v = PNone)"

lemma size_elems: "v \<in> set (elems s) \<Longrightarrow> size v < size s"
  by (cases s) (auto simp: less_Suc_eq_le intro!: size_list_estimation' [of v])

text \<open>\<^verbatim>\<open>==\<close> inside containers; mappings compare without order.\<close>

function py_deep_eq :: "pyval \<Rightarrow> pyval \<Rightarrow> bool" where
  "py_deep_eq a b =
     (if is_list a then is_list b \<and> length (elems a) = length (elems b)
        \<and> list_all (\<lambda>(x, y). py_deep_eq x y) (zip (elems a) (elems b))
      else if is_dict a then is_dict b \<and> length (items a) = length (items b)
        \<and> list_all (\<lambda>(k, x). case dget_opt b k of None \<Rightarrow> False | Some y \<Rightarrow> py_deep_eq x y) (items a)
      else py_eq a b)"
  by pat_completeness auto
termination
  by (relation "measure (size \<circ> fst)") (auto dest!: size_items size_elems set_zip_leftD)

declare py_deep_eq.simps [simp del]

definition same_type :: "pyval \<Rightarrow> pyval \<Rightarrow> bool" where
  "same_type a b \<longleftrightarrow> (is_str a \<and> is_str b) \<or> (is_list a \<and> is_list b) \<or> (is_dict a \<and> is_dict b) \<or> (a = PNone \<and> b = PNone)"

definition json_equal :: "pyval \<Rightarrow> pyval \<Rightarrow> bool" where
  "json_equal a b =
     (if is_bool a \<or> is_bool b then a = b
      else if is_number a \<and> is_number b then num_of a = num_of b
      else same_type a b \<and> py_deep_eq a b)"

type_synonym schema_issue = "string \<times> string"

definition issue_if :: "bool \<Rightarrow> 'a \<Rightarrow> 'a list" where
  "issue_if b i = (if b then [i] else [])"

definition length_issues :: "pyval \<Rightarrow> pyval \<Rightarrow> string \<Rightarrow> schema_issue list" where
  "length_issues v s path = (if \<not> is_str v then [] else
     issue_if (has_key s ''minLength'' \<and> int (length (str_of v)) < int_of (dget s ''minLength'')) (''minLength'', path)
     @ issue_if (has_key s ''maxLength'' \<and> int_of (dget s ''maxLength'') < int (length (str_of v))) (''maxLength'', path))"

definition bound_issues :: "pyval \<Rightarrow> pyval \<Rightarrow> string \<Rightarrow> schema_issue list" where
  "bound_issues v s path = (if \<not> is_number v then [] else
     issue_if (has_key s ''minimum'' \<and> num_of v < num_of (dget s ''minimum'')) (''minimum'', path)
     @ issue_if (has_key s ''maximum'' \<and> num_of (dget s ''maximum'') < num_of v) (''maximum'', path))"

definition key_issues :: "pyval \<Rightarrow> pyval \<Rightarrow> string \<Rightarrow> schema_issue list" where
  "key_issues v s path =
     map (\<lambda>r. (''required'', path @ ''.'' @ r)) (filter (\<lambda>r. \<not> has_key v r) (map str_of (elems (dget s ''required''))))
     @ (if dget s ''additionalProperties'' = PBool False
        then map (\<lambda>k. (''additionalProperties'', path @ ''.'' @ take 24 k))
          (take 8 (sort (filter (\<lambda>k. \<not> has_key (dget s ''properties'') k) (keys v)))) else [])"

lemma size_properties: "(k, sub) \<in> set (items (dget s p)) \<Longrightarrow> size sub < size s"
proof -
  assume sub: "(k, sub) \<in> set (items (dget s p))"
  then have "dget_opt s p = Some (dget s p)"
    by (auto simp: dget_def split: option.splits)
  then have "(p, dget s p) \<in> set (items s)"
    by (auto simp: dget_opt_def dest: map_of_SomeD)
  then show ?thesis
    using size_items [OF sub] size_items [of p "dget s p" s] by simp
qed

function collect_issues :: "pyval \<Rightarrow> pyval \<Rightarrow> string \<Rightarrow> schema_issue list" where
  "collect_issues v s path =
     (let declared = dget s ''type'' in
      if declared \<noteq> PNone \<and> \<not> list_ex (\<lambda>t. json_type_matches v (str_of t)) (type_names declared) then [(''type'', path)]
      else issue_if (has_key s ''enum'' \<and> \<not> list_ex (json_equal v) (elems (dget s ''enum''))) (''enum'', path)
        @ issue_if (has_key s ''const'' \<and> \<not> json_equal v (dget s ''const'')) (''const'', path)
        @ length_issues v s path @ bound_issues v s path
        @ (if \<not> is_dict v then [] else key_issues v s path
           @ concat (map (\<lambda>(k, sub). if has_key v k then collect_issues (dget v k) sub (path @ ''.'' @ k) else [])
               (items (dget s ''properties'')))))"
  by pat_completeness auto
termination
  by (relation "measure (\<lambda>(_, s, _). size s)") (auto dest: size_properties)

declare collect_issues.simps [simp del]

definition structural_issues :: "pyval \<Rightarrow> pyval \<Rightarrow> schema_issue list" where
  "structural_issues payload s = collect_issues payload s ''$''"

definition event_types_for :: "registry \<Rightarrow> string \<Rightarrow> string \<Rightarrow> int \<Rightarrow> registry_error + pyval set" where
  "event_types_for files domain name version = (case resolve files domain name version of Inl e \<Rightarrow> Inl e
     | Inr s \<Rightarrow> if has_key s EVENT_TYPES_KEY \<and> dget s EVENT_TYPES_KEY = PNone then Inl Raised
         else Inr (set (elems (dget s EVENT_TYPES_KEY))))"

text \<open>The list holds the well-named files of the domain's directory, in order; whatever is raised
  beside a registry error ends the search.\<close>

fun known_in :: "registry \<Rightarrow> pyval \<Rightarrow> string \<Rightarrow> (string \<times> int) list \<Rightarrow> bool" where
  "known_in files v domain [] \<longleftrightarrow> False"
| "known_in files v domain ((name, version) # rest) \<longleftrightarrow> (case event_types_for files domain name version of
     Inl Raised \<Rightarrow> False
   | Inl _ \<Rightarrow> known_in files v domain rest
   | Inr declared \<Rightarrow> v \<in> declared \<or> known_in files v domain rest)"

definition event_type_known :: "registry \<Rightarrow> (string \<Rightarrow> (string \<times> int) list) \<Rightarrow> pyval \<Rightarrow> bool" where
  "event_type_known files entries v = (let domain = before (CHR ''.'') (str_of v) in
     is_str v \<and> event_type_shape (str_of v) \<and> known_in files v domain (entries domain))"

datatype payload_issue = Semantic string | Structural schema_issue

definition validate_payload :: "registry \<Rightarrow> pyval \<Rightarrow> pyval \<Rightarrow> payload_issue list" where
  "validate_payload files payload schema_id = (case parse_schema_id schema_id of
     None \<Rightarrow> [Semantic ''registry.bad_id'']
   | Some (domain, name, version) \<Rightarrow> (case resolve files domain name version of
       Inl Not_Found \<Rightarrow> [Semantic ''registry.not_found'']
     | Inl Raised \<Rightarrow> [Semantic ''registry.internal_error'']
     | Inl _ \<Rightarrow> [Semantic ''registry.file_error'']
     | Inr s \<Rightarrow> map Structural (structural_issues payload s)))"

end
