(* ===== verification/Envelope.thy ===== *)
theory Envelope
  imports Schema_Registry Event_Ledger
begin

text \<open>
  The envelopes of the message bus, \<^verbatim>\<open>framework/triggers/envelope.py\<close>: both validators, the
  join of trust tiers, the replay window of a consumer, and the two doors of a producer, the census
  that only reports and the gate that refuses. A reason is a value here, its text is not modelled; a
  field that carries an envelope is what its text decodes to. The counters of the process and the
  text of a report line are left out.
\<close>

section \<open>Sizes\<close>

definition utf8_len :: "string \<Rightarrow> nat" where
  "utf8_len s = sum_list (map (\<lambda>c. if (of_char c :: nat) < 128 then 1 else 2) s)"

definition escaped_len :: "char \<Rightarrow> nat" where
  "escaped_len c = (let n = of_char c :: nat in
     if n \<in> {8, 9, 10, 12, 13, 34, 92} then 2 else if n < 32 then 6 else if n < 128 then 1 else 2)"

definition json_str_len :: "string \<Rightarrow> nat" where
  "json_str_len s = 2 + sum_list (map escaped_len s)"

text \<open>Elements with a separator of two characters between them; None where one has no JSON text.\<close>

fun joined_len :: "nat option list \<Rightarrow> nat option" where
  "joined_len [] = Some 0"
| "joined_len [x] = x"
| "joined_len (x # xs) = (case x of None \<Rightarrow> None | Some n \<Rightarrow> map_option (\<lambda>m. n + 2 + m) (joined_len xs))"

function json_len :: "builtins \<Rightarrow> pyval \<Rightarrow> nat option" where
  "json_len b v = (case v of
     PNone \<Rightarrow> Some 4 | PBool t \<Rightarrow> Some (if t then 4 else 5) | PStr s \<Rightarrow> Some (json_str_len s)
   | PInt i \<Rightarrow> Some (length (py_str b v)) | PFloat r \<Rightarrow> Some (length (bi_repr b v))
   | PList xs \<Rightarrow> map_option (\<lambda>n. n + 2) (joined_len (map (json_len b) (elems v)))
   | PDict kvs \<Rightarrow> map_option (\<lambda>n. n + 2)
       (joined_len (map (\<lambda>(k, x). map_option (\<lambda>n. json_str_len k + 2 + n) (json_len b x)) (items v)))
   | _ \<Rightarrow> None)"
  by pat_completeness auto
termination
  using size_items [of _ _ "PDict kvs" for kvs] size_elems [of _ "PList xs" for xs]
  by (relation "measure (size \<circ> snd)") fastforce+

declare json_len.simps [simp del]

definition blen :: "builtins \<Rightarrow> pyval \<Rightarrow> nat" where
  "blen b v = (if is_str v then utf8_len (str_of v)
     else case json_len b v of Some n \<Rightarrow> n | None \<Rightarrow> utf8_len (bi_repr b v))"

definition envelope_bytes :: "builtins \<Rightarrow> pyval \<Rightarrow> nat" where
  "envelope_bytes b p = (if is_dict p then sum_list (map (\<lambda>(k, v). utf8_len k + blen b v) (items p)) else blen b p)"

section \<open>Version one\<close>

definition KINDS :: "string list" where
  "KINDS = [''intent'', ''evidence'', ''verdict'', ''need'', ''grant_request'', ''heartbeat'']"

definition TAINT_TIERS :: "string list" where
  "TAINT_TIERS = [''captain'', ''officer'', ''system'', ''cross_cabinet'', ''external'']"

definition ENVELOPE_KEYS :: "string list" where
  "ENVELOPE_KEYS = [''id'', ''from'', ''to'', ''kind'', ''provenance'', ''taint'', ''budget'', ''reply_to'']"

definition CROCKFORD :: string where "CROCKFORD = ''0123456789ABCDEFGHJKMNPQRSTVWXYZ''"

definition ulid_shaped :: "string \<Rightarrow> bool" where
  "ulid_shaped s \<longleftrightarrow> length s = 26 \<and> list_all (\<lambda>c. c \<in> set CROCKFORD) s"

definition MAX_ENVELOPE_BYTES :: nat where "MAX_ENVELOPE_BYTES = 16384"
definition MAX_FIELD_CHARS :: nat where "MAX_FIELD_CHARS = 256"
definition MAX_PROVENANCE_CHARS :: nat where "MAX_PROVENANCE_CHARS = 1024"
definition MAX_SOURCES :: nat where "MAX_SOURCES = 64"
definition MAX_BUDGET :: int where "MAX_BUDGET = 1000000000"
definition MAX_REASONS :: nat where "MAX_REASONS = 32"

datatype reason =
    Not_A_Dict | Unknown_Keys | Missing string | Wrong_Type string | Empty string | Too_Long string
  | Not_Ulid string | Not_Member string | Out_Of_Range string | Kind_Rule string | Too_Big
  | Bad_Stamp string | Sentinel string | Must_Be_Absent string | Exactly_One_Payload | Central_Type
  | Bad_Shape string | Unresolved | Undeclared_Type | Payload_Issue schema_issue | Internal_Error | Not_Text | Not_Json

definition check_str :: "pyval \<Rightarrow> string \<Rightarrow> nat \<Rightarrow> bool \<Rightarrow> reason list" where
  "check_str p key max_chars required =
     (let v = dget p key in
      if \<not> has_key p key then issue_if required (Missing key)
      else if \<not> is_str v then [Wrong_Type key]
      else if strip (str_of v) = [] then [Empty key]
      else issue_if (max_chars < length (str_of v)) (Too_Long key))"

definition unknown_keys :: "string list \<Rightarrow> pyval \<Rightarrow> reason list" where
  "unknown_keys known p = issue_if (\<not> set (keys p) \<subseteq> set known) Unknown_Keys"

definition source_reason :: "pyval \<Rightarrow> reason option" where
  "source_reason s = (if \<not> is_str s \<or> strip (str_of s) = [] then Some (Wrong_Type ''taint.sources'')
     else if MAX_FIELD_CHARS < length (str_of s) then Some (Too_Long ''taint.sources'') else None)"

definition member_reasons :: "string \<Rightarrow> string list \<Rightarrow> pyval \<Rightarrow> reason list" where
  "member_reasons key allowed p = (let v = dget p key in
     if \<not> has_key p key then [Missing key]
     else if \<not> is_str v then [Wrong_Type key]
     else issue_if (str_of v \<notin> set allowed) (Not_Member key))"

definition validate_taint :: "pyval \<Rightarrow> reason list" where
  "validate_taint t = (if \<not> is_dict t then [Wrong_Type ''taint''] else
     unknown_keys [''tier'', ''sources''] t @ member_reasons ''tier'' TAINT_TIERS t
     @ (let sources = dget t ''sources'' in
        if \<not> has_key t ''sources'' then [Missing ''sources'']
        else if \<not> is_list sources then [Wrong_Type ''taint.sources'']
        else issue_if (MAX_SOURCES < length (elems sources)) (Too_Long ''taint.sources'')
          @ (case for_each source_reason (take MAX_SOURCES (elems sources)) of None \<Rightarrow> [] | Some r \<Rightarrow> [r])))"

definition check_ulid :: "pyval \<Rightarrow> string \<Rightarrow> bool \<Rightarrow> reason list" where
  "check_ulid p key required =
     (if \<not> has_key p key then issue_if required (Missing key)
      else if \<not> is_str (dget p key) then [Wrong_Type key]
      else issue_if (\<not> ulid_shaped (str_of (dget p key))) (Not_Ulid key))"

definition budget_reasons :: "pyval \<Rightarrow> reason list" where
  "budget_reasons p = (let v = dget p ''budget'' in
     if \<not> has_key p ''budget'' then [Missing ''budget'']
     else if \<not> is_int v then [Wrong_Type ''budget'']
     else issue_if (int_of v < 0 \<or> MAX_BUDGET < int_of v) (Out_Of_Range ''budget''))"

definition kind_reasons :: "pyval \<Rightarrow> reason list" where
  "kind_reasons p = (let kind = dget p ''kind''; k = str_of kind in if \<not> is_str kind then [] else
     issue_if (k = ''verdict'' \<and> \<not> truthy (dget p ''reply_to'')) (Kind_Rule ''verdict'')
     @ issue_if (k = ''heartbeat'' \<and> has_key p ''reply_to'') (Kind_Rule ''heartbeat'')
     @ issue_if (k = ''evidence'' \<and> is_dict (dget p ''taint'') \<and> dget (dget p ''taint'') ''sources'' = PList []) (Kind_Rule ''evidence''))"

text \<open>The reasons; none means valid.\<close>

definition validate :: "builtins \<Rightarrow> pyval \<Rightarrow> reason list" where
  "validate b p = (if \<not> is_dict p then [Not_A_Dict] else take MAX_REASONS (
     unknown_keys ENVELOPE_KEYS p @ check_ulid p ''id'' True
     @ check_str p ''from'' MAX_FIELD_CHARS True @ check_str p ''to'' MAX_FIELD_CHARS True
     @ check_str p ''provenance'' MAX_PROVENANCE_CHARS True @ check_str p ''reply_to'' MAX_FIELD_CHARS False
     @ member_reasons ''kind'' KINDS p
     @ (if has_key p ''taint'' then validate_taint (dget p ''taint'') else [Missing ''taint''])
     @ budget_reasons p @ kind_reasons p
     @ issue_if (MAX_ENVELOPE_BYTES < envelope_bytes b p) Too_Big))"

section \<open>Trust tiers\<close>

definition tier_rank :: "string \<Rightarrow> nat option" where
  "tier_rank t = map_option fst (find (\<lambda>(i, u). u = t) (enumerate 0 TAINT_TIERS))"

fun join_from :: "nat \<Rightarrow> string list \<Rightarrow> string" where
  "join_from worst [] = TAINT_TIERS ! worst"
| "join_from worst (t # ts) = (case tier_rank t of None \<Rightarrow> last TAINT_TIERS | Some i \<Rightarrow> join_from (max worst i) ts)"

definition taint_join :: "string list \<Rightarrow> string" where
  "taint_join tiers = (if tiers = [] then last TAINT_TIERS else join_from 0 tiers)"

definition check_taint_join :: "string \<Rightarrow> string list \<Rightarrow> bool" where
  "check_taint_join claimed sources = (case tier_rank claimed of None \<Rightarrow> False
     | Some i \<Rightarrow> (case tier_rank (taint_join sources) of None \<Rightarrow> False | Some j \<Rightarrow> j \<le> i))"

section \<open>The replay window\<close>

text \<open>The identifiers a consumer remembers, the most recent last.\<close>

definition seen :: "nat \<Rightarrow> string list \<Rightarrow> string \<Rightarrow> bool \<times> string list" where
  "seen capacity w i =
     (if i \<in> set w then (True, removeAll i w @ [i])
      else (False, if capacity < length (w @ [i]) then tl (w @ [i]) else w @ [i]))"

section \<open>Version two\<close>

definition V2_SCHEMA_VERSION :: string where "V2_SCHEMA_VERSION = ''cabinet-envelope/v2''"

definition V2_ENVELOPE_KEYS :: "string list" where
  "V2_ENVELOPE_KEYS = [''schema_version'', ''event_id'', ''event_type'', ''occurred_at'', ''recorded_at'', ''cabinet_id'',
     ''scope_kind'', ''producer'', ''correlation_id'', ''idempotency_key'', ''classification'', ''payload_schema'',
     ''lane_id'', ''project_id'', ''payload'', ''payload_ref'', ''causation_id'']"

definition SCOPE_LEVELS :: "(string \<times> string list) list" where
  "SCOPE_LEVELS = [(''cabinet'', []), (''lane'', [''lane_id'']), (''project'', [''lane_id'', ''project_id''])]"

definition V2_SENTINEL_IDS :: "string list" where
  "V2_SENTINEL_IDS = [''*'', ''default'', ''global'', ''none'', ''null'', ''unknown'']"

definition MAX_V2_ENVELOPE_BYTES :: nat where "MAX_V2_ENVELOPE_BYTES = 32768"
definition MAX_PAYLOAD_REF_CHARS :: nat where "MAX_PAYLOAD_REF_CHARS = 1024"

text \<open>\<^verbatim>\<open>YYYY-MM-DDTHH:MM:SSZ\<close>: the places that hold no digit.\<close>

definition stamp_marks :: "(nat \<times> char) list" where
  "stamp_marks = [(4, CHR ''-''), (7, CHR ''-''), (10, CHR ''T''), (13, CHR '':''), (16, CHR '':''), (19, CHR ''Z'')]"

definition utc_second_shaped :: "string \<Rightarrow> bool" where
  "utc_second_shaped s \<longleftrightarrow> length s = 20
     \<and> list_all (\<lambda>(i, c). case map_of stamp_marks i of None \<Rightarrow> is_digit c | Some d \<Rightarrow> c = d) (enumerate 0 s)"

definition check_utc_second :: "pyval \<Rightarrow> string \<Rightarrow> reason list" where
  "check_utc_second p key = (let v = dget p key; s = str_of v in
     if \<not> has_key p key then [Missing key]
     else if \<not> is_str v then [Wrong_Type key]
     else if \<not> utc_second_shaped s then [Bad_Shape key]
     else issue_if (fromisoformat (butlast s @ ''+00:00'') = None) (Bad_Stamp key))"

definition correlation_shaped :: "string \<Rightarrow> bool" where
  "correlation_shaped s \<longleftrightarrow> length s = 32 \<and> list_all (\<lambda>c. c \<in> set ''0123456789abcdef'') s"

definition correlation_reasons :: "pyval \<Rightarrow> reason list" where
  "correlation_reasons p = (let k = ''correlation_id''; v = dget p k in
     if \<not> has_key p k then [Missing k]
     else if \<not> is_str v then [Wrong_Type k]
     else issue_if (\<not> correlation_shaped (str_of v)) (Bad_Shape k))"

definition sentinel_reasons :: "pyval \<Rightarrow> reason list" where
  "sentinel_reasons p = concat (map (\<lambda>k. issue_if (is_str (dget p k) \<and> str_of (dget p k) \<in> set V2_SENTINEL_IDS) (Sentinel k))
     [''cabinet_id'', ''lane_id'', ''project_id''])"

definition scope_reasons :: "pyval \<Rightarrow> reason list" where
  "scope_reasons p = (let scope = dget p ''scope_kind'' in
     if \<not> has_key p ''scope_kind'' then [Missing ''scope_kind'']
     else if \<not> is_str scope then [Wrong_Type ''scope_kind'']
     else (case map_of SCOPE_LEVELS (str_of scope) of None \<Rightarrow> [Not_Member ''scope_kind'']
       | Some levels \<Rightarrow> concat (map (\<lambda>k. if k \<in> set levels then check_str p k MAX_FIELD_CHARS True
           else issue_if (has_key p k) (Must_Be_Absent k)) [''lane_id'', ''project_id''])))"

definition payload_reasons :: "pyval \<Rightarrow> reason list" where
  "payload_reasons p =
     issue_if (has_key p ''payload'' = has_key p ''payload_ref'') Exactly_One_Payload
     @ (if has_key p ''payload_ref'' then check_str p ''payload_ref'' MAX_PAYLOAD_REF_CHARS True else [])
     @ issue_if (has_key p ''payload'' \<and> \<not> is_dict (dget p ''payload'')) (Wrong_Type ''payload'')"

definition event_type_reasons :: "pyval \<Rightarrow> reason list" where
  "event_type_reasons p = (let k = ''event_type''; v = dget p k in
     if \<not> has_key p k then [Missing k]
     else if \<not> is_str v then [Wrong_Type k]
     else if \<not> event_type_shape (str_of v) then [Bad_Shape k]
     else issue_if (str_of v \<in> set VALID_EVENT_TYPES) Central_Type)"

text \<open>None where it raises: a schema whose type names cannot be looked up, or whose declared event
  types are null.\<close>

definition check_vocabulary :: "registry \<Rightarrow> pyval \<Rightarrow> reason list option" where
  "check_vocabulary files p = (let et = event_type_reasons p; k = ''payload_schema'' in
     if \<not> has_key p k then Some (et @ [Missing k])
     else if \<not> is_str (dget p k) then Some (et @ [Wrong_Type k])
     else (case parse_schema_id (dget p k) of None \<Rightarrow> Some (et @ [Bad_Shape k])
       | Some (domain, name, version) \<Rightarrow> (case resolve files domain name version of
           Inl Raised \<Rightarrow> None
         | Inl _ \<Rightarrow> Some (et @ [Unresolved])
         | Inr s \<Rightarrow>
             let declared = dget_or s EVENT_TYPES_KEY (PList []); inline = dget p ''payload'' in
             if et = [] \<and> declared = PNone then None
             else Some (et @ issue_if (et = [] \<and> dget p ''event_type'' \<notin> set (elems declared)) Undeclared_Type
               @ (if is_dict inline then map Payload_Issue (take 8 (structural_issues inline s)) else [])))))"

definition validate_v2 :: "builtins \<Rightarrow> registry \<Rightarrow> pyval \<Rightarrow> reason list" where
  "validate_v2 b files p = (if \<not> is_dict p then [Not_A_Dict] else
     let early = unknown_keys V2_ENVELOPE_KEYS p
       @ issue_if (dget p ''schema_version'' \<noteq> PStr V2_SCHEMA_VERSION) (Not_Member ''schema_version'')
       @ check_ulid p ''event_id'' True @ check_ulid p ''causation_id'' False @ correlation_reasons p
       @ check_utc_second p ''occurred_at'' @ check_utc_second p ''recorded_at''
       @ check_str p ''cabinet_id'' MAX_FIELD_CHARS True @ check_str p ''producer'' MAX_FIELD_CHARS True
       @ check_str p ''idempotency_key'' MAX_FIELD_CHARS True @ sentinel_reasons p @ scope_reasons p
       @ member_reasons ''classification'' TAINT_TIERS p @ payload_reasons p in
     if MAX_V2_ENVELOPE_BYTES < envelope_bytes b p then take MAX_REASONS (early @ [Too_Big])
     else (case check_vocabulary files p of None \<Rightarrow> [Internal_Error] | Some rs \<Rightarrow> take MAX_REASONS (early @ rs)))"

definition validate_any :: "builtins \<Rightarrow> registry \<Rightarrow> pyval \<Rightarrow> reason list" where
  "validate_any b files p = (if is_dict p \<and> has_key p ''schema_version'' then validate_v2 b files p else validate b p)"

section \<open>The doors of a producer\<close>

text \<open>What the entry's envelope field holds.\<close>

datatype wire = No_Envelope | Odd_Value | Odd_Text | Decodes pyval

datatype wire_verdict = Legacy_Untyped | Valid | Invalid "reason list"

definition classify_fields :: "builtins \<Rightarrow> registry \<Rightarrow> wire \<Rightarrow> wire_verdict" where
  "classify_fields b files w = (case w of
     No_Envelope \<Rightarrow> Legacy_Untyped
   | Odd_Value \<Rightarrow> Invalid [Not_Text]
   | Odd_Text \<Rightarrow> Invalid [Not_Json]
   | Decodes p \<Rightarrow> if validate_any b files p = [] then Valid else Invalid (validate_any b files p))"

definition MAX_VIOLATIONS_BYTES :: int where "MAX_VIOLATIONS_BYTES = 33554432"

text \<open>\<open>bytes\<close> is the violation file's, None when it is absent; the answer is whether a line is written.\<close>

definition report_only :: "builtins \<Rightarrow> registry \<Rightarrow> bool \<Rightarrow> int option \<Rightarrow> wire \<Rightarrow> bool" where
  "report_only b files enabled bytes w \<longleftrightarrow> enabled \<and> classify_fields b files w \<noteq> Valid
     \<and> (case bytes of None \<Rightarrow> True | Some n \<Rightarrow> n < MAX_VIOLATIONS_BYTES)"

text \<open>\<open>switch\<close> is the environment's; an entry that is not a mapping has no envelope.\<close>

definition enforcement_enabled :: "string option \<Rightarrow> bool" where
  "enforcement_enabled switch \<longleftrightarrow> switch \<noteq> Some ''0''"

definition enforce :: "builtins \<Rightarrow> registry \<Rightarrow> string option \<Rightarrow> wire \<Rightarrow> bool \<times> wire_verdict" where
  "enforce b files switch w = (let v = classify_fields b files w in
     (case v of Invalid _ \<Rightarrow> enforcement_enabled switch | _ \<Rightarrow> False, v))"

end
