(* ===== verification/Outbox.thy ===== *)
theory Outbox
  imports Envelope
begin

text \<open>
  The outbox relay, \<^verbatim>\<open>framework/outbox/relay.py\<close>: the drain of the table
  \<^verbatim>\<open>officer_tasks_outbox\<close> and the older drain of the event ledger. A row's columns have the
  types the table gives them; a time is a number of microseconds. What lies outside the program is an
  argument: the moments, the random bits of an identifier, which rows other transactions hold, and
  how a call of an adapter went. The text of an error is left out.
\<close>

section \<open>Rows\<close>

text \<open>The columns fixed when the mutation committed, and the row with the relay's bookkeeping.\<close>

record content =
  oc_key :: string
  oc_task_id :: int
  oc_old_status :: "string option"
  oc_new_status :: string
  oc_old_blocked :: "bool option"
  oc_new_blocked :: "bool option"
  oc_blocked_reason :: "string option"
  oc_actor :: string
  oc_context :: "string option"
  oc_cabinet :: string
  oc_correlation :: string
  oc_causation :: "string option"
  oc_occurred :: int
  oc_destination :: string

datatype failure_class = Validation_Class | Transport_Class

record outbox_row =
  ob_id :: nat
  ob_content :: content
  ob_event_id :: "string option"
  ob_claimed :: "int option"
  ob_attempts :: int
  ob_dispatched :: "int option"
  ob_terminal :: "int option"
  ob_error :: "failure_class option"

definition fresh_row :: "nat \<Rightarrow> content \<Rightarrow> outbox_row" where
  "fresh_row i c = \<lparr>ob_id = i, ob_content = c, ob_event_id = None, ob_claimed = None, ob_attempts = 0,
     ob_dispatched = None, ob_terminal = None, ob_error = None\<rparr>"

section \<open>Identifiers and stamps\<close>

definition mint_ulid :: "int \<Rightarrow> int \<Rightarrow> string" where
  "mint_ulid ms random = (let n = (ms mod 2 ^ 48) * 2 ^ 80 + random in
     map (\<lambda>i. CROCKFORD ! nat ((n div 2 ^ (5 * i)) mod 32)) (rev [0..<26]))"

lemma div_step: "0 < k \<Longrightarrow> y div k = (y - 1) div k + (if k dvd y then 1 else 0)" for y k :: int
proof (cases "k dvd y")
  case True
  assume k: "0 < k"
  obtain q where q: "y = k * q" using True by (auto elim: dvdE)
  have "y - 1 = k * (q - 1) + (k - 1)" unfolding q by (simp add: right_diff_distrib)
  then have "(y - 1) div k = q - 1" by (rule int_div_pos_eq) (use k in simp_all)
  then show ?thesis using q k True by simp
next
  case False
  assume k: "0 < k"
  have "y mod k \<noteq> 0" using False by (simp add: mod_eq_0_iff_dvd)
  then have r: "0 \<le> y mod k - 1" "y mod k - 1 < k" using k pos_mod_sign [of k y] pos_mod_bound [of k y] by linarith+
  have "y - 1 = k * (y div k) + (y mod k - 1)" using mult_div_mod_eq [of k y] by linarith
  then have "(y - 1) div k = y div k" using r by (rule int_div_pos_eq)
  then show ?thesis using False by simp
qed

lemma days_before_next_year: "days_before_year (y + 1) = days_before_year y + (if leap y then 366 else 365)"
proof -
  have "100 dvd y" if "(400 :: int) dvd y" using that by (rule dvd_trans [rotated]) simp
  moreover have "4 dvd y" if "(100 :: int) dvd y" using that by (rule dvd_trans [rotated]) simp
  moreover have "leap y \<longleftrightarrow> 4 dvd y \<and> (\<not> 100 dvd y \<or> 400 dvd y)"
    by (simp only: leap_def mod_eq_0_iff_dvd)
  ultimately consider "\<not> 4 dvd y" "\<not> 100 dvd y" "\<not> 400 dvd y" "\<not> leap y" | "4 dvd y" "\<not> 100 dvd y" "\<not> 400 dvd y" "leap y"
      | "4 dvd y" "100 dvd y" "\<not> 400 dvd y" "\<not> leap y" | "4 dvd y" "100 dvd y" "400 dvd y" "leap y"
    by blast
  moreover have "\<exists>a b c. days_before_year y = (y - 1) * 365 + a - b + c \<and> days_before_year (y + 1) = y * 365
      + (a + (if 4 dvd y then 1 else 0)) - (b + (if 100 dvd y then 1 else 0)) + (c + (if 400 dvd y then 1 else 0))"
    by (intro exI [of _ "(y - 1) div 4"] exI [of _ "(y - 1) div 100"] exI [of _ "(y - 1) div 400"])
      (simp only: days_before_year_def add_diff_cancel_right' div_step [of 4 y, simplified, symmetric]
        div_step [of 100 y, simplified, symmetric] div_step [of 400 y, simplified, symmetric] simp_thms)
  ultimately show ?thesis by cases auto
qed

lemma days_before_year_less: "days_before_year y < days_before_year (y + 1)"
  by (simp add: days_before_next_year)

text \<open>\<^verbatim>\<open>strftime("%Y-%m-%dT%H:%M:%SZ")\<close> of a moment in UTC.\<close>

function year_from :: "int \<Rightarrow> int \<Rightarrow> int" where
  "year_from y n = (if days_before_year (y + 1) \<le> n then year_from (y + 1) n else y)"
  by pat_completeness auto
termination
proof (relation "measure (\<lambda>(y, n). nat (n - days_before_year y))")
  fix y n :: int
  assume "days_before_year (y + 1) \<le> n"
  then show "((y + 1, n), y, n) \<in> measure (\<lambda>(y, n). nat (n - days_before_year y))"
    using days_before_year_less [of y] by simp
qed simp

declare year_from.simps [simp del]

definition month_at :: "int \<Rightarrow> int \<Rightarrow> int" where
  "month_at y n = int (length (filter (\<lambda>m. days_before_month y m \<le> n) [1..12]))"

definition padded :: "nat \<Rightarrow> int \<Rightarrow> string" where
  "padded w i = map (\<lambda>k. digit_char (nat (i div 10 ^ k mod 10))) (rev [0..<w])"

definition date_text :: "int \<Rightarrow> string" where
  "date_text days = (let n = days + 719162; y = year_from (if 719162 \<le> n then 1970 else 1) n;
      m = month_at y (n - days_before_year y) in
     padded 4 y @ ''-'' @ padded 2 m @ ''-'' @ padded 2 (n - days_before_year y - days_before_month y m + 1))"

definition utc_second :: "int \<Rightarrow> string" where
  "utc_second t = (let s = t div 1000000 in
     date_text (s div 86400) @ ''T'' @ padded 2 (s mod 86400 div 3600) @ '':'' @ padded 2 (s mod 3600 div 60)
     @ '':'' @ padded 2 (s mod 60) @ ''Z'')"

section \<open>What is dispatched\<close>

definition effective_old_status :: "string option \<Rightarrow> bool option \<Rightarrow> string" where
  "effective_old_status old blocked =
     (if blocked = Some True then ''blocked'' else case old of None \<Rightarrow> '''' | Some s \<Rightarrow> s)"

definition effective_new_status :: "string \<Rightarrow> bool option \<Rightarrow> string" where
  "effective_new_status new blocked = (if blocked = Some True then ''blocked'' else new)"

definition V2_PRODUCER :: string where "V2_PRODUCER = ''officer_tasks/outbox-relay''"
definition TASKS_EVENT_TYPE :: string where "TASKS_EVENT_TYPE = ''tasks.status_changed''"
definition TASKS_PAYLOAD_SCHEMA :: string where "TASKS_PAYLOAD_SCHEMA = ''tasks/task-event@1''"
definition SHADOW_STREAM :: string where "SHADOW_STREAM = ''cabinet:tasks:events:shadow''"
definition MAX_ATTEMPTS :: int where "MAX_ATTEMPTS = 5"

fun opt_str :: "string option \<Rightarrow> pyval" where
  "opt_str None = PNone"
| "opt_str (Some s) = PStr s"

fun opt_bool :: "bool option \<Rightarrow> pyval" where
  "opt_bool None = PNone"
| "opt_bool (Some b) = PBool b"

definition inner_payload :: "content \<Rightarrow> pyval" where
  "inner_payload c = PDict [
     (''task_id'', PInt (oc_task_id c)),
     (''old_status'', PStr (effective_old_status (oc_old_status c) (oc_old_blocked c))),
     (''new_status'', PStr (effective_new_status (oc_new_status c) (oc_new_blocked c))),
     (''old_blocked'', opt_bool (oc_old_blocked c)),
     (''new_blocked'', opt_bool (oc_new_blocked c)),
     (''blocked_reason'', opt_str (oc_blocked_reason c)),
     (''actor'', PStr (oc_actor c)),
     (''context_slug'', opt_str (oc_context c))]"

text \<open>The fields of the stream entry; the envelope field is the envelope its text encodes.\<close>

record message =
  ms_envelope :: pyval
  ms_task_id :: string
  ms_old_status :: string
  ms_new_status :: string
  ms_actor :: string
  ms_context :: string
  ms_ts :: string

definition int_dec :: "int \<Rightarrow> string" where
  "int_dec i = (if i < 0 then ''-'' @ dec (nat (- i)) else dec (nat i))"

definition build_envelope :: "content \<Rightarrow> string \<Rightarrow> string \<Rightarrow> pyval" where
  "build_envelope c event_id recorded_at = PDict ([
     (''schema_version'', PStr V2_SCHEMA_VERSION),
     (''event_id'', PStr event_id),
     (''event_type'', PStr TASKS_EVENT_TYPE),
     (''occurred_at'', PStr (utc_second (oc_occurred c))),
     (''recorded_at'', PStr recorded_at),
     (''cabinet_id'', PStr (oc_cabinet c)),
     (''scope_kind'', PStr ''cabinet''),
     (''producer'', PStr V2_PRODUCER),
     (''correlation_id'', PStr (oc_correlation c)),
     (''idempotency_key'', PStr (oc_key c)),
     (''classification'', PStr ''officer''),
     (''payload_schema'', PStr TASKS_PAYLOAD_SCHEMA),
     (''payload'', inner_payload c)]
     @ (case oc_causation c of None \<Rightarrow> [] | Some s \<Rightarrow> if s = [] then [] else [(''causation_id'', PStr s)]))"

definition build_dispatch_fields :: "content \<Rightarrow> string \<Rightarrow> string \<Rightarrow> message" where
  "build_dispatch_fields c event_id recorded_at =
     \<lparr>ms_envelope = build_envelope c event_id recorded_at, ms_task_id = int_dec (oc_task_id c),
      ms_old_status = effective_old_status (oc_old_status c) (oc_old_blocked c),
      ms_new_status = effective_new_status (oc_new_status c) (oc_new_blocked c),
      ms_actor = oc_actor c, ms_context = (case oc_context c of None \<Rightarrow> '''' | Some s \<Rightarrow> s), ms_ts = recorded_at\<rparr>"

section \<open>Adapters\<close>

datatype raised = Relay_Validation | Relay_Transport | Other_Exception

definition classify_failure :: "raised \<Rightarrow> failure_class" where
  "classify_failure e = (if e = Relay_Validation then Validation_Class else Transport_Class)"

text \<open>A run of \<^verbatim>\<open>redis-cli XADD\<close>: it could not run or timed out, or its exit code, errors and output.\<close>

datatype xadd = Not_Run | Exited int string string

definition entry_id :: "string \<Rightarrow> bool" where
  "entry_id s \<longleftrightarrow> (let rest = dropWhile is_digit s in
     s \<noteq> [] \<and> is_digit (hd s) \<and> rest \<noteq> [] \<and> hd rest = CHR ''-'' \<and> tl rest \<noteq> [] \<and> list_all is_digit (tl rest))"

definition stream_argv :: "string \<Rightarrow> string \<Rightarrow> string \<Rightarrow> message \<Rightarrow> (pyval \<Rightarrow> string) \<Rightarrow> string list" where
  "stream_argv host port target m dumps =
     [''redis-cli'', ''-h'', host, ''-p'', port, ''XADD'', target, ''*'', ''envelope'', dumps (ms_envelope m),
      ''task_id'', ms_task_id m, ''old_status'', ms_old_status m, ''new_status'', ms_new_status m,
      ''actor'', ms_actor m, ''context_slug'', ms_context m, ''ts'', ms_ts m]"

definition stream_adapter :: "xadd \<Rightarrow> raised option" where
  "stream_adapter run = (case run of
     Not_Run \<Rightarrow> Some Relay_Transport
   | Exited code err out \<Rightarrow> if code \<noteq> 0 \<or> strip err \<noteq> [] then Some Relay_Transport
       else if \<not> entry_id (strip out) then Some Relay_Transport else None)"

text \<open>One call of an adapter: whether its write happened, and what it raised. A write may have
  happened although the reply was lost; it has happened when the call returned.\<close>

record call =
  ca_happened :: bool
  ca_raised :: "raised option"

record effect =
  ef_destination :: string
  ef_message :: message
  ef_token :: string

section \<open>The table\<close>

record world =
  wd_rows :: "outbox_row list"     \<comment> \<open>in the order of their ids\<close>
  wd_effects :: "effect list"      \<comment> \<open>what the destinations received, oldest first\<close>

definition row_at :: "nat \<Rightarrow> world \<Rightarrow> outbox_row option" where
  "row_at i W = find (\<lambda>r. ob_id r = i) (wd_rows W)"

definition update_row :: "nat \<Rightarrow> (outbox_row \<Rightarrow> outbox_row) \<Rightarrow> world \<Rightarrow> world" where
  "update_row i f W = W\<lparr>wd_rows := map (\<lambda>r. if ob_id r = i then f r else r) (wd_rows W)\<rparr>"

text \<open>The trigger's insert; a key that is there already changes nothing.\<close>

definition capture :: "content \<Rightarrow> world \<Rightarrow> world" where
  "capture c W = (if oc_key c \<in> set (map (\<lambda>r. oc_key (ob_content r)) (wd_rows W)) then W
     else W\<lparr>wd_rows := wd_rows W @ [fresh_row (length (wd_rows W)) c]\<rparr>)"

definition pending :: "outbox_row \<Rightarrow> bool" where
  "pending r \<longleftrightarrow> ob_dispatched r = None \<and> ob_terminal r = None"

definition claimable :: "int \<Rightarrow> int \<Rightarrow> outbox_row \<Rightarrow> bool" where
  "claimable now ttl r \<longleftrightarrow> pending r \<and> (case ob_claimed r of None \<Rightarrow> True | Some t \<Rightarrow> t < now - ttl)"

definition chosen :: "int \<Rightarrow> int \<Rightarrow> nat \<Rightarrow> nat list \<Rightarrow> world \<Rightarrow> nat list" where
  "chosen now ttl batch locked W =
     take batch (map ob_id (filter (\<lambda>r. claimable now ttl r \<and> ob_id r \<notin> set locked) (wd_rows W)))"

definition claimed :: "int \<Rightarrow> outbox_row \<Rightarrow> outbox_row" where
  "claimed now r = r\<lparr>ob_claimed := Some now, ob_attempts := ob_attempts r + 1\<rparr>"

text \<open>One statement and its commit: rows other transactions have locked are skipped.\<close>

definition claim_rows :: "int \<Rightarrow> int \<Rightarrow> nat \<Rightarrow> nat list \<Rightarrow> world \<Rightarrow> outbox_row list \<times> world" where
  "claim_rows now ttl batch locked W =
     (let ids = chosen now ttl batch locked W;
          W' = W\<lparr>wd_rows := map (\<lambda>r. if ob_id r \<in> set ids then claimed now r else r) (wd_rows W)\<rparr> in
      (filter (\<lambda>r. ob_id r \<in> set ids) (wd_rows W'), W'))"

text \<open>The identifier of a row, committed before any effect; \<open>r\<close> is the relay's copy. The column is
  unique, so a minted identifier that another row has makes the update raise.\<close>

definition backfill_event_id :: "string \<Rightarrow> outbox_row \<Rightarrow> world \<Rightarrow> (raised + string) \<times> world" where
  "backfill_event_id new_id r W = (case ob_event_id r of
     Some (c # cs) \<Rightarrow> (Inr (c # cs), W)
   | _ \<Rightarrow> (case row_at (ob_id r) W of
       None \<Rightarrow> (Inl Other_Exception, W)
     | Some row \<Rightarrow> (case ob_event_id row of
         Some e \<Rightarrow> (Inr e, W)
       | None \<Rightarrow> if Some new_id \<in> set (map ob_event_id (wd_rows W)) then (Inl Other_Exception, W)
           else (Inr new_id, update_row (ob_id r) (\<lambda>x. x\<lparr>ob_event_id := Some new_id\<rparr>) W))))"

record drain_ctx =
  dc_host :: string
  dc_adapters :: "string list"     \<comment> \<open>the destinations that have an adapter\<close>
  dc_max :: int
  dc_registry :: registry
  dc_builtins :: builtins

definition cabinet_backstop :: "content \<Rightarrow> string \<Rightarrow> raised option" where
  "cabinet_backstop c host = raise_if (oc_cabinet c \<noteq> host) Relay_Validation"

definition destination_of :: "content \<Rightarrow> string" where
  "destination_of c = (if oc_destination c = [] then ''stream'' else oc_destination c)"

definition prepare :: "drain_ctx \<Rightarrow> content \<Rightarrow> string \<Rightarrow> int \<Rightarrow> raised + (string \<times> message)" where
  "prepare ctx c event_id now =
     (let m = build_dispatch_fields c event_id (utc_second now) in
      case run_checks [raise_if (validate_v2 (dc_builtins ctx) (dc_registry ctx) (ms_envelope m) \<noteq> []) Relay_Validation,
          cabinet_backstop c (dc_host ctx),
          raise_if (destination_of c \<notin> set (dc_adapters ctx)) Relay_Validation] of
        Some e \<Rightarrow> Inl e | None \<Rightarrow> Inr (destination_of c, m))"

definition perform :: "call \<Rightarrow> string \<Rightarrow> message \<Rightarrow> string \<Rightarrow> world \<Rightarrow> world" where
  "perform ca destination m token W =
     (if ca_happened ca \<or> ca_raised ca = None
      then W\<lparr>wd_effects := wd_effects W @ [\<lparr>ef_destination = destination, ef_message = m, ef_token = token\<rparr>]\<rparr> else W)"

definition record_dispatched :: "int \<Rightarrow> outbox_row \<Rightarrow> world \<Rightarrow> world" where
  "record_dispatched now r W = update_row (ob_id r) (\<lambda>x. x\<lparr>ob_dispatched := Some now\<rparr>) W"

definition mark_failure :: "int \<Rightarrow> int \<Rightarrow> failure_class \<Rightarrow> outbox_row \<Rightarrow> world \<Rightarrow> bool \<times> world" where
  "mark_failure now max_attempts cls r W =
     (let terminal = (cls = Validation_Class \<and> max_attempts < ob_attempts r) in
      (terminal, update_row (ob_id r) (\<lambda>x. if terminal then x\<lparr>ob_terminal := Some now, ob_error := Some cls\<rparr>
         else x\<lparr>ob_error := Some cls\<rparr>) W))"

section \<open>One drain\<close>

text \<open>What one row meets: the bits of its identifier, the moment, and its adapter call.\<close>

record fate =
  ft_ms :: int
  ft_random :: int
  ft_now :: int
  ft_call :: call

definition process_row :: "drain_ctx \<Rightarrow> fate \<Rightarrow> outbox_row \<Rightarrow> world \<Rightarrow> raised option \<times> world" where
  "process_row ctx ft r W = (case backfill_event_id (mint_ulid (ft_ms ft) (ft_random ft)) r W of
     (Inl e, W1) \<Rightarrow> (Some e, W1)
   | (Inr event_id, W1) \<Rightarrow> (case prepare ctx (ob_content r) event_id (ft_now ft) of
       Inl e \<Rightarrow> (Some e, W1)
     | Inr (destination, m) \<Rightarrow>
         let W2 = perform (ft_call ft) destination m (oc_key (ob_content r)) W1 in
         (case ca_raised (ft_call ft) of Some e \<Rightarrow> (Some e, W2) | None \<Rightarrow> (None, record_dispatched (ft_now ft) r W2))))"

datatype outcome = Dispatched | Terminal | Transient

definition safe_process :: "drain_ctx \<Rightarrow> fate \<Rightarrow> outbox_row \<Rightarrow> world \<Rightarrow> outcome \<times> world" where
  "safe_process ctx ft r W = (case process_row ctx ft r W of
     (None, W1) \<Rightarrow> (Dispatched, W1)
   | (Some e, W1) \<Rightarrow> (case mark_failure (ft_now ft) (dc_max ctx) (classify_failure e) r W1 of
       (terminal, W2) \<Rightarrow> (if terminal then Terminal else Transient, W2)))"

fun process_all :: "drain_ctx \<Rightarrow> (nat \<Rightarrow> fate) \<Rightarrow> outbox_row list \<Rightarrow> world \<Rightarrow> outcome list \<times> world" where
  "process_all ctx fates [] W = ([], W)"
| "process_all ctx fates (r # rs) W = (case safe_process ctx (fates (ob_id r)) r W of
     (x, W1) \<Rightarrow> (case process_all ctx fates rs W1 of (xs, W2) \<Rightarrow> (x # xs, W2)))"

text \<open>The identity of the host: the argument, the environment, the database; None is the preflight error.\<close>

definition host_identity :: "string option \<Rightarrow> string option \<Rightarrow> string option \<Rightarrow> string option" where
  "host_identity arg env db = (case filter (\<lambda>v. v \<noteq> None \<and> v \<noteq> Some []) [arg, env, db] of [] \<Rightarrow> None | v # _ \<Rightarrow> v)"

text \<open>The outcomes of the rows it claimed; their numbers are the counts.\<close>

definition drain_tasks_outbox :: "drain_ctx \<Rightarrow> int \<Rightarrow> int \<Rightarrow> nat \<Rightarrow> nat list \<Rightarrow> (nat \<Rightarrow> fate) \<Rightarrow> world \<Rightarrow> outcome list \<times> world" where
  "drain_tasks_outbox ctx now ttl batch locked fates W =
     (case claim_rows now ttl batch locked W of (rows, W1) \<Rightarrow> process_all ctx fates rows W1)"

section \<open>Many relays\<close>

text \<open>
  Relays share the table, and each commit is a step of its own: a relay may die between any two, and
  another may claim the same rows once the time to live has run out. \<open>stage\<close> is where a relay stands
  with its first row.
\<close>

datatype stage = Claimed | Has_Id string | Sent | Failed failure_class

record relay =
  rl_todo :: "outbox_row list"
  rl_stage :: stage

definition idle :: relay where "idle = \<lparr>rl_todo = [], rl_stage = Claimed\<rparr>"

datatype action =
    Capture content
  | Claim nat int int nat "nat list"
  | Backfill nat int int
  | Call nat int call
  | Settle nat int
  | Crash nat

type_synonym system = "world \<times> (nat \<Rightarrow> relay)"

text \<open>A step that its relay is not ready for changes nothing.\<close>

definition backfill_step :: "string \<Rightarrow> relay \<Rightarrow> world \<Rightarrow> relay \<times> world" where
  "backfill_step new_id l W = (case (rl_todo l, rl_stage l) of
     (r # rs, Claimed) \<Rightarrow> (case backfill_event_id new_id r W of
         (Inl e, W1) \<Rightarrow> (l\<lparr>rl_stage := Failed (classify_failure e)\<rparr>, W1)
       | (Inr i, W1) \<Rightarrow> (l\<lparr>rl_stage := Has_Id i\<rparr>, W1))
   | _ \<Rightarrow> (l, W))"

definition call_step :: "drain_ctx \<Rightarrow> int \<Rightarrow> call \<Rightarrow> relay \<Rightarrow> world \<Rightarrow> relay \<times> world" where
  "call_step ctx now ca l W = (case (rl_todo l, rl_stage l) of
     (r # rs, Has_Id i) \<Rightarrow> (case prepare ctx (ob_content r) i now of
         Inl e \<Rightarrow> (l\<lparr>rl_stage := Failed (classify_failure e)\<rparr>, W)
       | Inr (destination, m) \<Rightarrow>
           (l\<lparr>rl_stage := (case ca_raised ca of Some e \<Rightarrow> Failed (classify_failure e) | None \<Rightarrow> Sent)\<rparr>,
            perform ca destination m (oc_key (ob_content r)) W))
   | _ \<Rightarrow> (l, W))"

definition settle_step :: "drain_ctx \<Rightarrow> int \<Rightarrow> relay \<Rightarrow> world \<Rightarrow> relay \<times> world" where
  "settle_step ctx now l W = (case (rl_todo l, rl_stage l) of
     (r # rs, Sent) \<Rightarrow> (\<lparr>rl_todo = rs, rl_stage = Claimed\<rparr>, record_dispatched now r W)
   | (r # rs, Failed cls) \<Rightarrow> (\<lparr>rl_todo = rs, rl_stage = Claimed\<rparr>, snd (mark_failure now (dc_max ctx) cls r W))
   | _ \<Rightarrow> (l, W))"

definition on_relay :: "nat \<Rightarrow> (relay \<Rightarrow> world \<Rightarrow> relay \<times> world) \<Rightarrow> system \<Rightarrow> system" where
  "on_relay w f s = (case f (snd s w) (fst s) of (l, W) \<Rightarrow> (W, (snd s)(w := l)))"

fun outbox_step :: "drain_ctx \<Rightarrow> action \<Rightarrow> system \<Rightarrow> system" where
  "outbox_step ctx (Capture c) s = (capture c (fst s), snd s)"
| "outbox_step ctx (Claim w now ttl batch locked) s = on_relay w (\<lambda>l W.
     if rl_todo l \<noteq> [] then (l, W)
     else (case claim_rows now ttl batch locked W of (rows, W1) \<Rightarrow> (\<lparr>rl_todo = rows, rl_stage = Claimed\<rparr>, W1))) s"
| "outbox_step ctx (Backfill w ms random) s = on_relay w (backfill_step (mint_ulid ms random)) s"
| "outbox_step ctx (Call w now ca) s = on_relay w (call_step ctx now ca) s"
| "outbox_step ctx (Settle w now) s = on_relay w (settle_step ctx now) s"
| "outbox_step ctx (Crash w) s = on_relay w (\<lambda>l W. (idle, W)) s"

definition run :: "drain_ctx \<Rightarrow> action list \<Rightarrow> system" where
  "run ctx acts = fold (outbox_step ctx) acts (\<lparr>wd_rows = [], wd_effects = []\<rparr>, \<lambda>_. idle)"

end
