(* ===== verification/Outbox_Stamp.thy ===== *)
theory Outbox_Stamp
  imports Outbox
begin

text \<open>
  The calendar of the relay's stamps: the second a stamp names is the second it was made from.
\<close>

section \<open>Digits\<close>

lemma padded_two: "padded 2 i = [digit_char (nat (i div 10 mod 10)), digit_char (nat (i mod 10))]"
  by (simp add: padded_def numeral_eq_Suc)

lemma padded_four: "padded 4 i = [digit_char (nat (i div 1000 mod 10)), digit_char (nat (i div 100 mod 10)),
    digit_char (nat (i div 10 mod 10)), digit_char (nat (i mod 10))]"
  by (simp add: padded_def numeral_eq_Suc)

lemma digit_in: "0 \<le> d \<Longrightarrow> d < 10 \<Longrightarrow> is_digit (digit_char (nat d)) \<and> digit_val (digit_char (nat d)) = d"
proof -
  assume "0 \<le> d" "d < 10"
  then have "nat d < 10" by simp
  from digit_char_digit [OF this] show ?thesis using \<open>0 \<le> d\<close> by simp
qed

lemma digits_list:
  "0 \<le> p \<Longrightarrow> p < 10 \<Longrightarrow> 0 \<le> q \<Longrightarrow> q < 10 \<Longrightarrow> digits 2 [digit_char (nat p), digit_char (nat q)] = Some (10 * p + q)"
  "0 \<le> p \<Longrightarrow> p < 10 \<Longrightarrow> 0 \<le> q \<Longrightarrow> q < 10 \<Longrightarrow> 0 \<le> r \<Longrightarrow> r < 10 \<Longrightarrow> 0 \<le> t \<Longrightarrow> t < 10 \<Longrightarrow>
     digits 4 [digit_char (nat p), digit_char (nat q), digit_char (nat r), digit_char (nat t)] = Some (10 * (10 * (10 * p + q) + r) + t)"
  by (simp_all add: digits_def digit_in)

lemma digits_two: "0 \<le> i \<Longrightarrow> i < 100 \<Longrightarrow> digits 2 (padded 2 i) = Some i"
proof -
  assume i: "0 \<le> i" "i < 100"
  have "i div 10 mod 10 = i div 10" using i by (intro mod_pos_pos_trivial) linarith+
  moreover have "10 * (i div 10) + i mod 10 = i" by (rule mult_div_mod_eq)
  ultimately have "10 * (i div 10 mod 10) + i mod 10 = i" by (simp only:)
  then show ?thesis
    unfolding padded_two by (subst digits_list) (simp_all only: pos_mod_sign pos_mod_bound zero_less_numeral)
qed

lemma digits_four: "0 \<le> i \<Longrightarrow> i < 10000 \<Longrightarrow> digits 4 (padded 4 i) = Some i"
proof -
  assume i: "0 \<le> i" "i < 10000"
  have four: "10 * (10 * (10 * c + r2) + r1) + r0 = j" if "10 * a + r0 = j" "10 * b + r1 = a" "10 * c + r2 = b" for a b c r0 r1 r2 j :: int
    using that by simp
  have hundred: "k div 100 = k div 10 div 10" for k :: int
  proof -
    have "k div (10 * 10) = k div 10 div 10" by (rule zdiv_zmult2_eq) simp
    then show ?thesis by (simp only: mult_num_simps numeral_times_numeral arith_simps)
  qed
  have "i div (10 * 100) = i div 10 div 100" by (rule zdiv_zmult2_eq) simp
  then have "i div 1000 = i div 10 div 10 div 10" by (simp only: numeral_times_numeral arith_simps hundred)
  note this hundred [of i]
  then have "10 * (10 * (10 * (i div 1000) + i div 100 mod 10) + i div 10 mod 10) + i mod 10 = i"
    by (simp only:) (rule four [OF mult_div_mod_eq mult_div_mod_eq mult_div_mod_eq])
  moreover have "i div 1000 mod 10 = i div 1000" using i by (intro mod_pos_pos_trivial) linarith+
  ultimately have "10 * (10 * (10 * (i div 1000 mod 10) + i div 100 mod 10) + i div 10 mod 10) + i mod 10 = i" by (simp only:)
  then show ?thesis
    unfolding padded_four by (subst digits_list) (simp_all only: pos_mod_sign pos_mod_bound zero_less_numeral)
qed

section \<open>Days\<close>

lemma days_before_year_mono: "y \<le> z \<Longrightarrow> days_before_year y \<le> days_before_year z"
proof (induction z rule: int_ge_induct)
  case (step z)
  then show ?case using days_before_year_less [of z] by simp
qed simp

lemma year_from_bounds:
  "days_before_year y \<le> n \<Longrightarrow> y \<le> year_from y n \<and> days_before_year (year_from y n) \<le> n \<and> n < days_before_year (year_from y n + 1)"
proof (induction y n rule: year_from.induct)
  case (1 y n)
  then show ?case by (cases "days_before_year (y + 1) \<le> n") (fastforce simp: year_from.simps [of y n])+
qed

definition month_starts :: "int \<Rightarrow> int list" where
  "month_starts y = (let l = (if leap y then 1 else 0) in
     [0, 31, 59 + l, 90 + l, 120 + l, 151 + l, 181 + l, 212 + l, 243 + l, 273 + l, 304 + l, 334 + l])"

lemma days_before_month_starts: "map (days_before_month y) [1..12] = month_starts y"
  by (simp add: upto.simps days_before_month_def days_in_month_def month_starts_def Let_def)

lemma month_at_starts: "month_at y n = int (length (filter (\<lambda>s. s \<le> n) (month_starts y)))"
  by (simp add: month_at_def flip: days_before_month_starts) (simp add: filter_map comp_def)

lemma month_bounds:
  assumes "0 \<le> n" "n < (if leap y then 366 else 365)"
  shows "1 \<le> month_at y n \<and> month_at y n \<le> 12 \<and> days_before_month y (month_at y n) \<le> n
    \<and> n < days_before_month y (month_at y n) + days_in_month y (month_at y n)"
proof -
  let ?l = "(if leap y then 1 else 0) :: int"
  have dbm: "days_before_month y 1 = 0" "days_before_month y 2 = 31" "days_before_month y 3 = 59 + ?l" "days_before_month y 4 = 90 + ?l"
    "days_before_month y 5 = 120 + ?l" "days_before_month y 6 = 151 + ?l" "days_before_month y 7 = 181 + ?l" "days_before_month y 8 = 212 + ?l"
    "days_before_month y 9 = 243 + ?l" "days_before_month y 10 = 273 + ?l" "days_before_month y 11 = 304 + ?l" "days_before_month y 12 = 334 + ?l"
    by (simp_all add: days_before_month_def days_in_month_def upto.simps)
  consider "n < 31" | "31 \<le> n" "n < 59 + ?l" | "59 + ?l \<le> n" "n < 90 + ?l" | "90 + ?l \<le> n" "n < 120 + ?l" | "120 + ?l \<le> n" "n < 151 + ?l"
    | "151 + ?l \<le> n" "n < 181 + ?l" | "181 + ?l \<le> n" "n < 212 + ?l" | "212 + ?l \<le> n" "n < 243 + ?l" | "243 + ?l \<le> n" "n < 273 + ?l"
    | "273 + ?l \<le> n" "n < 304 + ?l" | "304 + ?l \<le> n" "n < 334 + ?l" | "334 + ?l \<le> n" by linarith
  then show ?thesis
    using assms by cases (cases "leap y"; simp add: month_at_starts month_starts_def Let_def dbm days_in_month_def)+
qed

text \<open>The days whose years have four digits, from 0001 to 9999.\<close>

definition four_digit_day :: "int \<Rightarrow> bool" where
  "four_digit_day d \<longleftrightarrow> 0 \<le> d + 719162 \<and> d + 719162 < days_before_year 10000"

lemma date_text_reads:
  assumes "four_digit_day d"
  shows "\<exists>y m k. date_text d = padded 4 y @ ''-'' @ padded 2 m @ ''-'' @ padded 2 k \<and> civil_days y m k = Some d
    \<and> 1 \<le> y \<and> y < 10000 \<and> 1 \<le> m \<and> m \<le> 12 \<and> 1 \<le> k \<and> k \<le> 31"
proof -
  let ?n = "d + 719162" and ?y0 = "(if 719162 \<le> d + 719162 then 1970 else 1) :: int"
  define y where "y = year_from ?y0 ?n"
  define m where "m = month_at y (?n - days_before_year y)"
  define k where "k = ?n - days_before_year y - days_before_month y m + 1"
  have "days_before_year 1970 = 719162" "days_before_year 1 = 0" by (simp_all add: days_before_year_def)
  then have "days_before_year ?y0 \<le> ?n" using assms by (simp add: four_digit_day_def)
  from year_from_bounds [OF this] have y: "?y0 \<le> y" "days_before_year y \<le> ?n" "?n < days_before_year (y + 1)"
    by (simp_all only: y_def)
  have "y < 10000"
  proof (rule ccontr)
    assume "\<not> y < 10000"
    then have "days_before_year 10000 \<le> days_before_year y" by (intro days_before_year_mono) simp
    then show False using y(2) assms by (simp add: four_digit_day_def)
  qed
  have "0 \<le> ?n - days_before_year y" "?n - days_before_year y < (if leap y then 366 else 365)"
    using y(2,3) days_before_next_year [of y] by (simp_all split: if_splits)
  from month_bounds [OF this] have m: "1 \<le> m" "m \<le> 12" "days_before_month y m \<le> ?n - days_before_year y"
    "?n - days_before_year y < days_before_month y m + days_in_month y m"
    by (simp_all only: m_def)
  have k: "1 \<le> k" "k \<le> days_in_month y m" using m(3,4) by (simp_all add: k_def)
  moreover have "days_in_month y m \<le> 31" by (simp add: days_in_month_def)
  moreover have "1 \<le> y" using y(1) by (simp split: if_splits)
  moreover have "days_before_year y + days_before_month y m + k - 719163 = d" by (simp add: k_def)
  ultimately have "civil_days y m k = Some d" "k \<le> 31" "1 \<le> y"
    using m(1,2) by (simp_all add: civil_days_def)
  moreover have "date_text d = padded 4 y @ ''-'' @ padded 2 m @ ''-'' @ padded 2 k"
    by (simp only: date_text_def Let_def y_def m_def k_def)
  ultimately show ?thesis using \<open>y < 10000\<close> m(1,2) k(1) by blast
qed

section \<open>Stamps\<close>

lemma padded_length: "length (padded w i) = w"
  by (simp add: padded_def)

lemma padded_digits: "list_all is_digit (padded w i)"
  by (simp add: padded_def list_all_iff digit_in)

lemma not_sign: "is_digit c \<Longrightarrow> \<not> is_sign c"
  by (auto simp: is_sign_def is_digit_def)

text \<open>The eighteen characters of a stamp that vary are digits, the others are the marks.\<close>

lemma split_text:
  assumes "length a = 4" "length b = 2" "length c = 2" "length e = 2" "length f = 2" "length g = 2"
    and digs: "list_all is_digit (a @ b @ c @ e @ f @ g)"
    and vals: "digits 4 a = Some y" "digits 2 b = Some m" "digits 2 c = Some d" "digits 2 e = Some h" "digits 2 f = Some n" "digits 2 g = Some s"
    and civil: "civil_days y m d = Some days" and clock: "h \<le> 23" "n \<le> 59" "s \<le> 59"
  shows "utc_second_shaped (a @ ''-'' @ b @ ''-'' @ c @ ''T'' @ e @ '':'' @ f @ '':'' @ g @ ''Z'')
    \<and> fromisoformat (a @ ''-'' @ b @ ''-'' @ c @ ''T'' @ e @ '':'' @ f @ '':'' @ g @ ''+00:00'')
      = Some (days * day_us + us_of_hms (h, n, s, 0), Some 0)"
proof -
  obtain a1 a2 a3 a4 where a: "a = [a1, a2, a3, a4]" using assms(1) by (auto simp: numeral_eq_Suc length_Suc_conv)
  obtain b1 b2 c1 c2 e1 e2 f1 f2 g1 g2 where b: "b = [b1, b2]" "c = [c1, c2]" "e = [e1, e2]" "f = [f1, f2]" "g = [g1, g2]"
    using assms(2-6) by (auto simp: numeral_eq_Suc length_Suc_conv)
  have ns: "\<not> is_sign e1" "\<not> is_sign e2" "\<not> is_sign f1" "\<not> is_sign f2" "\<not> is_sign g1" "\<not> is_sign g2"
    using digs not_sign by (simp_all add: a b)
  have zone: "iso_offset ''+00:00'' = Some (Some 0)" by code_simp
  have shape: "utc_second_shaped (a @ ''-'' @ b @ ''-'' @ c @ ''T'' @ e @ '':'' @ f @ '':'' @ g @ ''Z'')"
    using digs by (simp add: a b utc_second_shaped_def stamp_marks_def)
  have colon: "\<not> is_sign (CHR '':'')" "is_sign (CHR ''+'')" by code_simp+
  have time: "iso_time (e @ '':'' @ f @ '':'' @ g @ ''+00:00'') = Some (us_of_hms (h, n, s, 0), Some 0)"
    using ns colon zone vals clock by (simp add: b iso_time_def iso_hms_def iso_frac_def)
  have date: "iso_date (a @ ''-'' @ b @ ''-'' @ c @ x) = Some days" for x
    using vals civil by (simp add: a b iso_date_def)
  have "drop 11 (a @ ''-'' @ b @ ''-'' @ c @ ''T'' @ e @ '':'' @ f @ '':'' @ g @ ''+00:00'') = e @ '':'' @ f @ '':'' @ g @ ''+00:00''"
    "length (a @ ''-'' @ b @ ''-'' @ c @ ''T'' @ e @ '':'' @ f @ '':'' @ g @ ''+00:00'') \<noteq> 10"
    by (simp_all add: a b)
  then show ?thesis
    using shape by (simp only: fromisoformat_def date time option.case prod.case if_False simp_thms)
qed

lemma utc_second_reads:
  assumes "four_digit_day (t div 1000000 div 86400)"
  shows "utc_second_shaped (utc_second t)"
    "fromisoformat (butlast (utc_second t) @ ''+00:00'') = Some (t div 1000000 * 1000000, Some 0)"
proof -
  let ?s = "t div 1000000"
  obtain y m k where d: "date_text (?s div 86400) = padded 4 y @ ''-'' @ padded 2 m @ ''-'' @ padded 2 k"
      "civil_days y m k = Some (?s div 86400)" "1 \<le> y" "y < 10000" "1 \<le> m" "m \<le> 12" "1 \<le> k" "k \<le> 31"
    using date_text_reads [OF assms] by blast
  define h where "h = ?s mod 86400 div 3600"
  define mi where "mi = ?s mod 3600 div 60"
  define s where "s = ?s mod 60"
  have b: "0 \<le> h" "h \<le> 23" "0 \<le> mi" "mi \<le> 59" "0 \<le> s" "s \<le> 59"
    by (simp_all add: h_def mi_def s_def)
  have whole: "utc_second t = padded 4 y @ ''-'' @ padded 2 m @ ''-'' @ padded 2 k @ ''T'' @ padded 2 h @ '':'' @ padded 2 mi @ '':'' @ padded 2 s @ ''Z''"
    by (simp add: utc_second_def Let_def d h_def mi_def s_def)
  then have cut: "butlast (utc_second t) @ ''+00:00''
      = padded 4 y @ ''-'' @ padded 2 m @ ''-'' @ padded 2 k @ ''T'' @ padded 2 h @ '':'' @ padded 2 mi @ '':'' @ padded 2 s @ ''+00:00''"
    by (simp add: butlast_append)
  have us: "(?s div 86400) * day_us + us_of_hms (h, mi, s, 0) = ?s * 1000000"
  proof -
    have "?s mod 86400 mod 3600 = ?s mod 3600" "?s mod 3600 mod 60 = ?s mod 60"
      by (rule mod_mod_cancel, simp)+
    then have "86400 * (?s div 86400) + ?s mod 86400 = ?s" "3600 * h + ?s mod 3600 = ?s mod 86400" "60 * mi + s = ?s mod 3600"
      using mult_div_mod_eq [of 86400 ?s] mult_div_mod_eq [of 3600 "?s mod 86400"] mult_div_mod_eq [of 60 "?s mod 3600"]
      by (simp_all only: h_def mi_def s_def)
    moreover have "q * day_us + us_of_hms (h, mi, s, 0) = w * 1000000"
      if "86400 * q + r = w" "3600 * h + r' = r" "60 * mi + s = r'" for q r r' w
      using that by (simp add: us_of_hms_def day_us_def)
    ultimately show ?thesis by blast
  qed
  have "utc_second_shaped (utc_second t) \<and> fromisoformat (butlast (utc_second t) @ ''+00:00'')
      = Some ((?s div 86400) * day_us + us_of_hms (h, mi, s, 0), Some 0)"
    unfolding cut unfolding whole
    by (rule split_text) (use padded_digits b d(2-) in \<open>simp_all add: padded_length digits_two digits_four\<close>)
  then show "utc_second_shaped (utc_second t)" "fromisoformat (butlast (utc_second t) @ ''+00:00'') = Some (?s * 1000000, Some 0)"
    using us by simp_all
qed

end
