(* ===== verification/Outbox_Valid.thy ===== *)
theory Outbox_Valid
  imports Outbox_Stamp
begin

text \<open>
  The payload schema of the task events and the rows whose envelope passes it:
  \<^verbatim>\<open>framework/schemas/domains/tasks/task-event.v1.json\<close> without its annotations.
\<close>

section \<open>The schema\<close>

definition status_names :: "string list" where
  "status_names = [''queue'', ''wip'', ''done'', ''cancelled'', ''blocked'']"

definition task_event_schema :: pyval where
  "task_event_schema = PDict [
     (EVENT_TYPES_KEY, PList [PStr ''tasks.status_changed'']),
     (''type'', PStr ''object''),
     (''additionalProperties'', PBool False),
     (''required'', PList [PStr ''task_id'', PStr ''new_status'', PStr ''actor'']),
     (''properties'', PDict [
        (''task_id'', PDict [(''type'', PStr ''integer''), (''minimum'', PInt 1)]),
        (''old_status'', PDict [(''enum'', PList (map PStr status_names @ [PStr '''', PNone]))]),
        (''new_status'', PDict [(''enum'', PList (map PStr status_names))]),
        (''old_blocked'', PDict [(''type'', PList [PStr ''boolean'', PStr ''null''])]),
        (''new_blocked'', PDict [(''type'', PList [PStr ''boolean'', PStr ''null''])]),
        (''blocked_reason'', PDict [(''type'', PList [PStr ''string'', PStr ''null'']), (''maxLength'', PInt 1024)]),
        (''actor'', PDict [(''type'', PStr ''string''), (''minLength'', PInt 1), (''maxLength'', PInt 256)]),
        (''context_slug'', PDict [(''type'', PList [PStr ''string'', PStr ''null'']), (''maxLength'', PInt 256)])])]"

text \<open>The rows the check admits.\<close>

definition admitted :: "content \<Rightarrow> bool" where
  "admitted c \<longleftrightarrow> 1 \<le> oc_task_id c \<and> oc_task_id c < 2 ^ 63
     \<and> (case oc_old_status c of None \<Rightarrow> True | Some s \<Rightarrow> s \<in> set (status_names @ ['''']))
     \<and> oc_new_status c \<in> set status_names
     \<and> (case oc_blocked_reason c of None \<Rightarrow> True | Some s \<Rightarrow> length s \<le> 1024)
     \<and> oc_actor c \<noteq> [] \<and> length (oc_actor c) \<le> 256
     \<and> (case oc_context c of None \<Rightarrow> True | Some s \<Rightarrow> length s \<le> 256)
     \<and> strip (oc_cabinet c) \<noteq> [] \<and> length (oc_cabinet c) \<le> 256 \<and> oc_cabinet c \<notin> set V2_SENTINEL_IDS
     \<and> correlation_shaped (oc_correlation c)
     \<and> (case oc_causation c of None \<Rightarrow> True | Some s \<Rightarrow> s = [] \<or> ulid_shaped s)
     \<and> strip (oc_key c) \<noteq> [] \<and> length (oc_key c) \<le> 256
     \<and> four_digit_day (oc_occurred c div 1000000 div 86400)"

section \<open>The schema resolves\<close>

lemma schema_resolves:
  assumes "files ''tasks'' ''task-event'' 1 = Schema task_event_schema"
  shows "resolve files ''tasks'' ''task-event'' 1 = Inr task_event_schema"
proof -
  have "segment ''tasks''" "segment ''task-event''" "is_dict task_event_schema" "assert_supported task_event_schema = None"
    "declared_types_error task_event_schema ''tasks'' = None"
    by code_simp+
  then show ?thesis using assms by (simp add: resolve_def)
qed

section \<open>The payload passes\<close>

lemma leaf_issues: "\<not> is_dict v \<Longrightarrow> collect_issues v s path =
     (if dget s ''type'' \<noteq> PNone \<and> \<not> list_ex (\<lambda>t. json_type_matches v (str_of t)) (type_names (dget s ''type'')) then [(''type'', path)]
      else issue_if (has_key s ''enum'' \<and> \<not> list_ex (json_equal v) (elems (dget s ''enum''))) (''enum'', path)
        @ issue_if (has_key s ''const'' \<and> \<not> json_equal v (dget s ''const'')) (''const'', path)
        @ length_issues v s path @ bound_issues v s path)"
  by (simp add: collect_issues.simps [of v s path] Let_def)

lemmas schema_eval = leaf_issues dget_def dget_opt_def has_key_def issue_if_def length_issues_def bound_issues_def
  type_names_def json_type_matches_def

lemma enum_strings: "list_ex (json_equal (PStr s)) (map PStr xs) \<longleftrightarrow> s \<in> set xs"
  by (induction xs) (auto simp: json_equal_def same_type_def py_deep_eq.simps [of "PStr s"] py_eq_def)

lemma effective_old: "case old of None \<Rightarrow> True | Some s \<Rightarrow> s \<in> set (status_names @ ['''']) \<Longrightarrow>
    effective_old_status old blocked \<in> set (status_names @ [''''])"
  by (auto simp: effective_old_status_def status_names_def split: option.splits)

lemma effective_new: "new \<in> set status_names \<Longrightarrow> effective_new_status new blocked \<in> set status_names"
  by (auto simp: effective_new_status_def status_names_def)

lemma payload_passes:
  assumes "admitted c"
  shows "structural_issues (inner_payload c) task_event_schema = []"
proof -
  let ?p = "inner_payload c"
  have "collect_issues (PInt (oc_task_id c)) (PDict [(''type'', PStr ''integer''), (''minimum'', PInt 1)]) path = []" for path
    using assms by (simp add: schema_eval admitted_def)
  moreover have "collect_issues (PStr (effective_old_status (oc_old_status c) (oc_old_blocked c)))
      (PDict [(''enum'', PList (map PStr status_names @ [PStr '''', PNone]))]) path = []" for path
  proof -
    have "effective_old_status (oc_old_status c) (oc_old_blocked c) \<in> set (status_names @ [''''])"
      using effective_old assms by (simp add: admitted_def)
    then have "list_ex (json_equal (PStr (effective_old_status (oc_old_status c) (oc_old_blocked c)))) (map PStr (status_names @ ['''']))"
      by (simp only: enum_strings)
    then show ?thesis by (auto simp: schema_eval)
  qed
  moreover have "collect_issues (PStr (effective_new_status (oc_new_status c) (oc_new_blocked c)))
      (PDict [(''enum'', PList (map PStr status_names))]) path = []" for path
    using effective_new assms enum_strings [of _ status_names] by (simp add: schema_eval admitted_def)
  moreover have "collect_issues (opt_bool b) (PDict [(''type'', PList [PStr ''boolean'', PStr ''null''])]) path = []" for b path
    by (cases b) (simp_all add: schema_eval)
  moreover have "collect_issues (opt_str s) (PDict [(''type'', PList [PStr ''string'', PStr ''null'']), (''maxLength'', PInt n)]) path = []"
    if "case s of None \<Rightarrow> True | Some t \<Rightarrow> int (length t) \<le> n" for s n path
    using that by (cases s) (simp_all add: schema_eval)
  moreover have "collect_issues (PStr (oc_actor c)) (PDict [(''type'', PStr ''string''), (''minLength'', PInt 1), (''maxLength'', PInt 256)]) path = []" for path
    using assms by (cases "oc_actor c") (simp_all add: schema_eval admitted_def)
  moreover have "key_issues ?p task_event_schema ''$'' = []"
    by (simp add: key_issues_def inner_payload_def task_event_schema_def EVENT_TYPES_KEY_def dget_def dget_opt_def has_key_def keys_def)
  moreover have "dget task_event_schema ''type'' = PStr ''object''" "\<not> has_key task_event_schema ''enum''" "\<not> has_key task_event_schema ''const''"
    "\<not> is_str ?p" "\<not> is_number ?p" "is_dict ?p"
    by (simp_all add: inner_payload_def task_event_schema_def EVENT_TYPES_KEY_def dget_def dget_opt_def has_key_def)
  moreover have "case oc_blocked_reason c of None \<Rightarrow> True | Some t \<Rightarrow> int (length t) \<le> 1024"
    "case oc_context c of None \<Rightarrow> True | Some t \<Rightarrow> int (length t) \<le> 256"
    using assms by (auto simp: admitted_def split: option.splits)
  ultimately show ?thesis
    unfolding structural_issues_def collect_issues.simps [of ?p]
    by (simp add: type_names_def json_type_matches_def issue_if_def length_issues_def bound_issues_def)
      (simp add: inner_payload_def task_event_schema_def EVENT_TYPES_KEY_def dget_def dget_opt_def)
qed

section \<open>Sizes\<close>

lemma utf8_len_le: "utf8_len s \<le> 2 * length s"
  by (induction s) (auto simp: utf8_len_def)

lemma json_str_len_le: "json_str_len s \<le> 2 + 6 * length s"
proof -
  have "sum_list (map escaped_len s) \<le> 6 * length s"
    by (induction s) (auto simp: escaped_len_def Let_def)
  then show ?thesis by (simp add: json_str_len_def)
qed

lemma dec_length: "n < 10 ^ Suc k \<Longrightarrow> length (dec n) \<le> Suc k"
proof (induction k arbitrary: n)
  case (Suc k)
  have "n div 10 < 10 ^ Suc k" using Suc.prems by (intro less_mult_imp_div_less) (simp add: mult.commute)
  from Suc.IH [OF this] show ?case by (simp add: dec.simps [of n])
qed (simp add: dec.simps)

lemma json_len_simps:
  "json_len b PNone = Some 4" "json_len b (PBool t) = Some (if t then 4 else 5)" "json_len b (PStr s) = Some (json_str_len s)"
  "json_len b (PInt n) = Some (length (py_str b (PInt n)))"
  by (simp_all add: json_len.simps)

lemma json_len_opt_str: "case s of None \<Rightarrow> True | Some t \<Rightarrow> length t \<le> n \<Longrightarrow> \<exists>k \<le> 4 + 6 * n. json_len b (opt_str s) = Some k"
  using json_str_len_le by (cases s) (fastforce simp: json_len_simps intro: order_trans)+

lemma json_len_opt_bool: "\<exists>k \<le> 5. json_len b (opt_bool s) = Some k"
  by (cases s) (simp_all add: json_len_simps)

lemma payload_size:
  assumes "admitted c"
  shows "blen b (inner_payload c) \<le> 10000"
proof -
  let ?old = "effective_old_status (oc_old_status c) (oc_old_blocked c)" and ?new = "effective_new_status (oc_new_status c) (oc_new_blocked c)"
  have "0 \<le> oc_task_id c" "oc_task_id c < 9223372036854775808"
    using assms by (simp_all add: admitted_def)
  then have "oc_task_id c < 10000000000000000000" "0 \<le> oc_task_id c" by linarith+
  then have "nat (oc_task_id c) < 10 ^ Suc 18"
    by (simp add: nat_less_iff)
  from dec_length [OF this] have id: "json_len b (PInt (oc_task_id c)) = Some (length (dec (nat (oc_task_id c))))" "length (dec (nat (oc_task_id c))) \<le> 19"
    using assms by (simp_all add: json_len_simps admitted_def)
  have "?old \<in> set (status_names @ [''''])" "?new \<in> set status_names"
    using effective_old effective_new assms by (simp_all add: admitted_def)
  then have st: "length ?old \<le> 9" "length ?new \<le> 9" by (auto simp: status_names_def)
  obtain n1 n2 where b: "json_len b (opt_bool (oc_old_blocked c)) = Some n1" "n1 \<le> 5" "json_len b (opt_bool (oc_new_blocked c)) = Some n2" "n2 \<le> 5"
    using json_len_opt_bool by blast
  have "case oc_blocked_reason c of None \<Rightarrow> True | Some t \<Rightarrow> length t \<le> 1024" "case oc_context c of None \<Rightarrow> True | Some t \<Rightarrow> length t \<le> 256"
    "length (oc_actor c) \<le> 256"
    using assms by (simp_all add: admitted_def)
  from json_len_opt_str [OF this(1)] json_len_opt_str [OF this(2)] this(3) obtain n3 n4 where
    s: "json_len b (opt_str (oc_blocked_reason c)) = Some n3" "n3 \<le> 6148" "json_len b (opt_str (oc_context c)) = Some n4" "n4 \<le> 1540"
    and a: "length (oc_actor c) \<le> 256" by fastforce
  have "json_str_len ?old \<le> 56" "json_str_len ?new \<le> 56" "json_str_len (oc_actor c) \<le> 1538"
    using json_str_len_le [of ?old] json_str_len_le [of ?new] json_str_len_le [of "oc_actor c"] st a by linarith+
  moreover have "json_str_len ''task_id'' = 9" "json_str_len ''old_status'' = 12" "json_str_len ''new_status'' = 12" "json_str_len ''old_blocked'' = 13"
    "json_str_len ''new_blocked'' = 13" "json_str_len ''blocked_reason'' = 16" "json_str_len ''actor'' = 7" "json_str_len ''context_slug'' = 14"
    by code_simp+
  ultimately have "\<exists>n \<le> 10000. json_len b (inner_payload c) = Some n"
    using id b s unfolding json_len.simps [of b "inner_payload c"]
    by (simp add: inner_payload_def json_len_simps)
  then show ?thesis by (auto simp: blen_def inner_payload_def)
qed

section \<open>The envelope passes\<close>

lemma mint_ulid_shaped: "ulid_shaped (mint_ulid ms random)"
proof -
  have "CROCKFORD ! nat (k mod 32) \<in> set CROCKFORD" for k :: int
  proof (rule nth_mem)
    have "nat (k mod 32) < 32" by (simp add: nat_less_iff)
    moreover have "length CROCKFORD = 32" by (simp add: CROCKFORD_def)
    ultimately show "nat (k mod 32) < length CROCKFORD" by simp
  qed
  then show ?thesis by (simp add: ulid_shaped_def mint_ulid_def Let_def list_all_iff)
qed

definition env_base :: "content \<Rightarrow> string \<Rightarrow> string \<Rightarrow> pydict" where
  "env_base c i r = items (build_envelope (c\<lparr>oc_causation := None\<rparr>) i r)"

definition causes :: "content \<Rightarrow> pydict" where
  "causes c = (case oc_causation c of None \<Rightarrow> [] | Some s \<Rightarrow> if s = [] then [] else [(''causation_id'', PStr s)])"

lemma env_split: "build_envelope c i r = PDict (env_base c i r @ causes c)"
  by (simp add: env_base_def causes_def build_envelope_def inner_payload_def split: option.split)

lemma causes_get: "k \<noteq> ''causation_id'' \<Longrightarrow> map_of (causes c) k = None"
  by (auto simp: causes_def split: option.split)

lemma env_get: "k \<noteq> ''causation_id'' \<Longrightarrow> dget_opt (build_envelope c i r) k = map_of (env_base c i r) k"
  by (simp add: env_split dget_opt_def causes_get map_add_def split: option.split)

lemma env_base_items: "env_base c i r = [
     (''schema_version'', PStr V2_SCHEMA_VERSION), (''event_id'', PStr i), (''event_type'', PStr TASKS_EVENT_TYPE),
     (''occurred_at'', PStr (utc_second (oc_occurred c))), (''recorded_at'', PStr r), (''cabinet_id'', PStr (oc_cabinet c)),
     (''scope_kind'', PStr ''cabinet''), (''producer'', PStr V2_PRODUCER), (''correlation_id'', PStr (oc_correlation c)),
     (''idempotency_key'', PStr (oc_key c)), (''classification'', PStr ''officer''), (''payload_schema'', PStr TASKS_PAYLOAD_SCHEMA),
     (''payload'', inner_payload c)]"
  by (simp add: env_base_def build_envelope_def inner_payload_def)

lemmas envelope_eval = has_key_def dget_def env_get env_base_items

lemma envelope_size:
  assumes "admitted c" "length i = 26" "length r = 20" "length (utc_second (oc_occurred c)) = 20"
  shows "envelope_bytes b (build_envelope c i r) \<le> 32768"
proof -
  have str: "blen b (PStr s) \<le> 2 * length s" for s using utf8_len_le by (simp add: blen_def)
  have "case oc_causation c of None \<Rightarrow> True | Some s \<Rightarrow> s = [] \<or> length s = 26"
    using assms(1) by (auto simp: admitted_def ulid_shaped_def split: option.splits)
  then have "sum_list (map (\<lambda>(k, v). utf8_len k + blen b v) (causes c)) \<le> 76"
  proof (cases "oc_causation c")
    case (Some x)
    then show ?thesis
      using \<open>case oc_causation c of None \<Rightarrow> True | Some s \<Rightarrow> s = [] \<or> length s = 26\<close> str [of x] utf8_len_le [of "''causation_id''"]
      by (cases "x = []") (simp_all add: causes_def)
  qed (simp add: causes_def)
  moreover have "length (oc_correlation c) = 32" "length (oc_cabinet c) \<le> 256" "length (oc_key c) \<le> 256"
    using assms(1) by (simp_all add: admitted_def correlation_shaped_def)
  moreover have lens: "utf8_len ''schema_version'' = 14" "utf8_len ''event_id'' = 8" "utf8_len ''event_type'' = 10" "utf8_len ''occurred_at'' = 11" "utf8_len ''recorded_at'' = 11" "utf8_len ''cabinet_id'' = 10" "utf8_len ''scope_kind'' = 10" "utf8_len ''producer'' = 8" "utf8_len ''correlation_id'' = 14" "utf8_len ''idempotency_key'' = 15" "utf8_len ''classification'' = 14" "utf8_len ''payload_schema'' = 14" "utf8_len ''payload'' = 7"
    by code_simp+
  have constants: "length V2_SCHEMA_VERSION = 19" "length V2_PRODUCER = 26" "length TASKS_EVENT_TYPE = 20" "length TASKS_PAYLOAD_SCHEMA = 18"
    by code_simp+
  ultimately show ?thesis
    using assms(2-4) payload_size [OF assms(1), of b] str [of i] str [of r] str [of "utc_second (oc_occurred c)"]
      str [of "oc_correlation c"] str [of "oc_cabinet c"] str [of "oc_key c"]
      str [of V2_SCHEMA_VERSION] str [of V2_PRODUCER] str [of TASKS_EVENT_TYPE] str [of TASKS_PAYLOAD_SCHEMA] str [of "''officer''"] str [of "''cabinet''"] lens
    by (simp add: envelope_bytes_def env_split env_base_items constants)
qed

lemma envelope_keys: "unknown_keys V2_ENVELOPE_KEYS (build_envelope c i r) = []"
proof -
  have "set (keys (build_envelope c i r)) \<subseteq> set (map fst (env_base c i r)) \<union> {''causation_id''}"
    by (auto simp: keys_def env_split causes_def split: option.splits if_splits)
  moreover have "set (map fst (env_base c i r)) \<union> {''causation_id''} \<subseteq> set V2_ENVELOPE_KEYS"
    by (simp add: env_base_items V2_ENVELOPE_KEYS_def)
  ultimately have "set (keys (build_envelope c i r)) \<subseteq> set V2_ENVELOPE_KEYS" by (rule subset_trans)
  then show ?thesis by (simp add: unknown_keys_def issue_if_def)
qed

lemma causation_passes: "admitted c \<Longrightarrow> check_ulid (build_envelope c i r) ''causation_id'' False = []"
  by (auto simp: check_ulid_def has_key_def dget_def dget_opt_def env_split env_base_items causes_def admitted_def issue_if_def
      split: option.splits)

lemma stamp_passes: "four_digit_day (t div 1000000 div 86400) \<Longrightarrow> dget_opt p k = Some (PStr (utc_second t)) \<Longrightarrow> check_utc_second p k = []"
  by (simp add: check_utc_second_def has_key_def dget_def issue_if_def utc_second_reads)

lemma vocabulary_passes:
  assumes "admitted c" "files ''tasks'' ''task-event'' 1 = Schema task_event_schema"
  shows "check_vocabulary files (build_envelope c i r) = Some []"
proof -
  let ?p = "build_envelope c i r"
  have get: "dget ?p ''event_type'' = PStr TASKS_EVENT_TYPE" "dget ?p ''payload_schema'' = PStr TASKS_PAYLOAD_SCHEMA"
    "dget ?p ''payload'' = inner_payload c" "has_key ?p ''event_type''" "has_key ?p ''payload_schema''"
    by (simp_all add: envelope_eval)
  have "event_type_shape TASKS_EVENT_TYPE" "TASKS_EVENT_TYPE \<notin> set VALID_EVENT_TYPES" by code_simp+
  then have et: "event_type_reasons ?p = []" by (simp add: event_type_reasons_def get issue_if_def)
  have parse: "parse_schema_id (PStr TASKS_PAYLOAD_SCHEMA) = Some (''tasks'', ''task-event'', 1)" by code_simp
  have declared: "dget_or task_event_schema EVENT_TYPES_KEY (PList []) = PList [PStr TASKS_EVENT_TYPE]" by code_simp
  show ?thesis
    using payload_passes [OF assms(1)]
    by (simp add: check_vocabulary_def Let_def et get parse schema_resolves [where files = files, OF assms(2)] declared issue_if_def)
qed

lemma envelope_valid:
  assumes c: "admitted c" and files: "files ''tasks'' ''task-event'' 1 = Schema task_event_schema"
    and i: "ulid_shaped i" and now: "four_digit_day (now div 1000000 div 86400)"
  shows "validate_v2 b files (build_envelope c i (utc_second now)) = []"
proof -
  let ?p = "build_envelope c i (utc_second now)"
  have occurred: "four_digit_day (oc_occurred c div 1000000 div 86400)" using c by (simp add: admitted_def)
  have len: "length (utc_second now) = 20" "length (utc_second (oc_occurred c)) = 20"
    using utc_second_reads(1) [OF now] utc_second_reads(1) [OF occurred] by (simp_all add: utc_second_shaped_def)
  have "length i = 26" using i by (simp add: ulid_shaped_def)
  from envelope_size [OF c this len] have big: "\<not> MAX_V2_ENVELOPE_BYTES < envelope_bytes b ?p"
    by (simp add: MAX_V2_ENVELOPE_BYTES_def not_less)
  have d: "is_dict ?p" by (simp add: env_split)
  have version: "dget ?p ''schema_version'' = PStr V2_SCHEMA_VERSION" by (simp add: envelope_eval)
  have ids: "check_ulid ?p ''event_id'' True = []" "correlation_reasons ?p = []"
    using i c by (simp_all add: check_ulid_def correlation_reasons_def envelope_eval issue_if_def admitted_def)
  have stamps: "check_utc_second ?p ''occurred_at'' = []" "check_utc_second ?p ''recorded_at'' = []"
    by (rule stamp_passes [OF occurred], simp add: env_get env_base_items)
      (rule stamp_passes [OF now], simp add: env_get env_base_items)
  have "strip V2_PRODUCER \<noteq> []" "length V2_PRODUCER \<le> MAX_FIELD_CHARS" by code_simp+
  moreover have "strip (oc_cabinet c) \<noteq> []" "length (oc_cabinet c) \<le> MAX_FIELD_CHARS" "strip (oc_key c) \<noteq> []" "length (oc_key c) \<le> MAX_FIELD_CHARS"
    using c by (simp_all add: admitted_def MAX_FIELD_CHARS_def)
  moreover have "dget_opt ?p ''cabinet_id'' = Some (PStr (oc_cabinet c))" "dget_opt ?p ''producer'' = Some (PStr V2_PRODUCER)"
    "dget_opt ?p ''idempotency_key'' = Some (PStr (oc_key c))"
    by (simp_all add: env_get env_base_items)
  ultimately have texts: "check_str ?p ''cabinet_id'' MAX_FIELD_CHARS True = []" "check_str ?p ''producer'' MAX_FIELD_CHARS True = []"
    "check_str ?p ''idempotency_key'' MAX_FIELD_CHARS True = []"
    by (simp_all add: check_str_def has_key_def dget_def issue_if_def)
  have sentinels: "sentinel_reasons ?p = []"
    using c by (simp add: sentinel_reasons_def envelope_eval issue_if_def admitted_def)
  have scope: "scope_reasons ?p = []"
    by (simp add: scope_reasons_def envelope_eval SCOPE_LEVELS_def issue_if_def)
  have tier: "member_reasons ''classification'' TAINT_TIERS ?p = []"
    by (simp add: member_reasons_def envelope_eval TAINT_TIERS_def issue_if_def)
  have payload: "payload_reasons ?p = []"
    by (simp add: payload_reasons_def envelope_eval issue_if_def inner_payload_def)
  show ?thesis
    unfolding validate_v2_def Let_def
    by (simp only: d big envelope_keys version ids causation_passes [OF c] stamps texts sentinels scope tier payload
        vocabulary_passes [where files = files, OF c files] issue_if_def if_False if_True simp_thms append.simps option.case take_Nil)
qed

text \<open>
  C32: an admitted row is sent. The envelope built from a row that satisfies the bounds, with a minted
  identifier and at a moment of the four-digit years, passes the validator of the bus under the
  registered schema of the tasks domain; so before its adapter such a row meets no failure.
\<close>

theorem admitted_row_prepares:
  assumes "admitted c" "oc_cabinet c = dc_host ctx" "destination_of c \<in> set (dc_adapters ctx)"
    and "dc_registry ctx ''tasks'' ''task-event'' 1 = Schema task_event_schema"
    and "four_digit_day (now div 1000000 div 86400)"
  shows "prepare ctx c (mint_ulid ms random) now
     = Inr (destination_of c, build_dispatch_fields c (mint_ulid ms random) (utc_second now))"
  using envelope_valid [where files = "dc_registry ctx", OF assms(1,4) mint_ulid_shaped assms(5)] assms(2,3)
  by (simp add: prepare_def build_dispatch_fields_def cabinet_backstop_def raise_if_def)

definition sample_content :: content where
  "sample_content = \<lparr>oc_key = ''task:7:9001:queue:true'', oc_task_id = 7, oc_old_status = Some ''queue'', oc_new_status = ''queue'',
     oc_old_blocked = Some False, oc_new_blocked = Some True, oc_blocked_reason = Some ''no quota'', oc_actor = ''cto'',
     oc_context = None, oc_cabinet = ''main'', oc_correlation = replicate 32 (CHR ''0''), oc_causation = None,
     oc_occurred = 1784536800000000, oc_destination = ''stream''\<rparr>"

definition sample_ctx :: drain_ctx where
  "sample_ctx = \<lparr>dc_host = ''main'', dc_adapters = [''stream''], dc_max = MAX_ATTEMPTS,
     dc_registry = (\<lambda>d n v. if d = ''tasks'' \<and> n = ''task-event'' \<and> v = 1 then Schema task_event_schema else No_Schema),
     dc_builtins = \<lparr>bi_repr = \<lambda>_. [], bi_float = \<lambda>_. None\<rparr>\<rparr>"

lemma sample_admitted: "admitted sample_content"
  by code_simp

theorem admitted_row_prepares_witness:
  "ms_new_status (snd (projr (prepare sample_ctx sample_content (mint_ulid 1784536800123 5) 1784536860000000))) = ''blocked''"
proof -
  have "oc_cabinet sample_content = dc_host sample_ctx" "destination_of sample_content \<in> set (dc_adapters sample_ctx)"
    "dc_registry sample_ctx ''tasks'' ''task-event'' 1 = Schema task_event_schema"
    by (simp_all add: sample_content_def sample_ctx_def destination_of_def)
  moreover have "four_digit_day (1784536860000000 div 1000000 div 86400)" by code_simp
  ultimately show ?thesis
    using admitted_row_prepares [OF sample_admitted, of sample_ctx 1784536860000000 1784536800123 5]
    by (simp add: build_dispatch_fields_def sample_content_def effective_new_status_def)
qed

end
