(* ===== verification/Envelope_Correct.thy ===== *)
theory Envelope_Correct
  imports Envelope
begin

text \<open>
  The replay window is the last distinct identifiers, trust never rises through joins, and what the
  doors of a producer let through.
\<close>

section \<open>The replay window\<close>

text \<open>The identifiers of a history, each at its last occurrence, and a window after the history.\<close>

definition latest :: "nat \<Rightarrow> string list \<Rightarrow> string list" where
  "latest n ids = drop (length (remdups ids) - n) (remdups ids)"

definition remember :: "nat \<Rightarrow> string list \<Rightarrow> string list" where
  "remember capacity ids = foldl (\<lambda>w i. snd (seen capacity w i)) [] ids"

lemma remember_snoc [simp]: "remember c (ids @ [i]) = snd (seen c (remember c ids) i)"
  by (simp add: remember_def)

lemma remdups_snoc: "remdups (ids @ [i]) = removeAll i (remdups ids) @ [i]"
  by (induction ids) auto

lemma removeAll_drop: "distinct xs \<Longrightarrow> i \<notin> set (take n xs) \<Longrightarrow> drop n (removeAll i xs) = removeAll i (drop n xs)"
proof (induction xs arbitrary: n)
  case (Cons x xs)
  then show ?case by (cases n) auto
qed simp

lemma removeAll_take: "distinct xs \<Longrightarrow> i \<in> set (take n xs) \<Longrightarrow> drop (n - 1) (removeAll i xs) = drop n xs"
proof (induction xs arbitrary: n)
  case (Cons x xs)
  then show ?case
  proof (cases "x = i")
    case True
    then have "removeAll i xs = xs" using Cons.prems(1) by simp
    then show ?thesis using True Cons.prems by (cases n) auto
  next
    case False
    then obtain m where m: "n = Suc m" "i \<in> set (take m xs)" using Cons.prems by (cases n) auto
    then obtain k where "m = Suc k" by (cases m) auto
    then show ?thesis using m False Cons.IH [of m] Cons.prems(1) by simp
  qed
qed simp

lemma length_removeAll_distinct: "distinct xs \<Longrightarrow> length (removeAll i xs) = (if i \<in> set xs then length xs - 1 else length xs)"
  by (simp add: distinct_remove1_removeAll [symmetric] length_remove1)

lemma distinct_take_drop: "distinct xs \<Longrightarrow> i \<in> set (drop n xs) \<Longrightarrow> i \<notin> set (take n xs)"
  by (metis append_take_drop_id disjoint_iff distinct_append)

lemma remember_latest: "1 \<le> c \<Longrightarrow> remember c ids = latest c ids"
proof (induction ids rule: rev_induct)
  case Nil
  show ?case by (simp add: remember_def latest_def)
next
  case (snoc i ids)
  let ?r = "remdups ids" and ?n = "length (remdups ids)"
  have IH: "remember c ids = drop (?n - c) ?r" using snoc by (simp add: latest_def)
  have d: "distinct ?r" by simp
  consider "i \<in> set (drop (?n - c) ?r)" | "i \<in> set (take (?n - c) ?r)" | "i \<notin> set ?r"
    by (metis Un_iff append_take_drop_id set_append)
  then show ?case
  proof cases
    case 1
    then have r: "i \<in> set ?r" by (rule in_set_dropD)
    have n: "length (remdups (ids @ [i])) = ?n"
      using length_removeAll_distinct [OF d, of i] r length_pos_if_in_set [OF r] by (simp add: remdups_snoc)
    have "drop (?n - c) (removeAll i ?r @ [i]) = drop (?n - c) (removeAll i ?r) @ [i]"
      using length_removeAll_distinct [OF d, of i] r length_pos_if_in_set [OF r] snoc.prems by simp
    then show ?thesis
      using 1 IH n removeAll_drop [OF d distinct_take_drop [OF d 1]] by (simp add: latest_def remdups_snoc seen_def)
  next
    case 2
    then have r: "i \<in> set ?r" by (rule in_set_takeD)
    have nw: "i \<notin> set (drop (?n - c) ?r)" using 2 distinct_take_drop [OF d, of i "?n - c"] by blast
    have k: "c < ?n" using 2 by (cases "c < ?n") simp_all
    have n: "length (remdups (ids @ [i])) = ?n"
      using length_removeAll_distinct [OF d, of i] r length_pos_if_in_set [OF r] by (simp add: remdups_snoc)
    have "drop (?n - c - 1) (removeAll i ?r) = drop (?n - c) ?r"
      by (rule removeAll_take [OF d 2])
    then have "drop (?n - c) (removeAll i ?r) = tl (drop (?n - c) ?r)"
    proof -
      assume a: "drop (?n - c - 1) (removeAll i ?r) = drop (?n - c) ?r"
      obtain m where m: "?n - c = Suc m" using k by (cases "?n - c") simp_all
      have "drop (Suc m) (removeAll i ?r) = tl (drop m (removeAll i ?r))"
        by (simp add: drop_Suc tl_drop)
      then show ?thesis using a unfolding m by simp
    qed
    moreover have "drop (?n - c) (removeAll i ?r @ [i]) = drop (?n - c) (removeAll i ?r) @ [i]"
      using length_removeAll_distinct [OF d, of i] r k snoc.prems by simp
    moreover have "drop (?n - c) ?r \<noteq> []" using k snoc.prems by simp
    ultimately show ?thesis
      using IH n nw k by (simp add: latest_def remdups_snoc seen_def)
  next
    case 3
    then have n: "remdups (ids @ [i]) = ?r @ [i]" by (simp add: remdups_snoc)
    have nw: "i \<notin> set (drop (?n - c) ?r)" using 3 by (meson in_set_dropD)
    show ?thesis
    proof (cases "?n < c")
      case True
      then show ?thesis using IH n nw by (simp add: latest_def seen_def)
    next
      case False
      then have "drop (Suc ?n - c) (?r @ [i]) = tl (drop (?n - c) ?r) @ [i]"
        using snoc.prems by (simp add: Suc_diff_le drop_Suc tl_drop)
      moreover have "drop (?n - c) ?r \<noteq> []" using False snoc.prems by simp
      ultimately show ?thesis using False IH n nw by (simp add: latest_def seen_def)
    qed
  qed
qed

text \<open>
  C1: the replay window flags exactly the identifiers among the last distinct ones. After any
  history of a consumer, an identifier is reported as seen when and only when fewer than capacity
  distinct other identifiers came after its last occurrence, and the window never holds more than
  its capacity.
\<close>

theorem replay_window_exact:
  assumes "1 \<le> capacity"
  shows "(fst (seen capacity (remember capacity ids) i) \<longleftrightarrow> i \<in> set (latest capacity ids))
     \<and> length (remember capacity ids) \<le> capacity"
  using remember_latest [OF assms, of ids] by (simp_all add: seen_def latest_def)

theorem replay_window_exact_witness:
  "fst (seen 2 (remember 2 [''a'', ''b'', ''a'']) ''b'') \<and> length (remember 2 [''a'', ''b'', ''a'']) \<le> 2"
  using replay_window_exact [of 2 "[''a'', ''b'', ''a'']" "''b''"] by (simp add: latest_def)

section \<open>Trust\<close>

lemma tier_rank_iff: "tier_rank t = Some i \<longleftrightarrow> i < length TAINT_TIERS \<and> TAINT_TIERS ! i = t"
  by (auto simp: tier_rank_def TAINT_TIERS_def less_Suc_eq nth_Cons' numeral_eq_Suc split: if_splits)

lemma tier_rank_bound: "tier_rank t = Some i \<Longrightarrow> i \<le> 4"
  by (simp add: tier_rank_iff TAINT_TIERS_def)

lemma rank_of_tier [simp]: "i \<le> 4 \<Longrightarrow> tier_rank (TAINT_TIERS ! i) = Some i"
  by (simp add: tier_rank_iff) (simp add: TAINT_TIERS_def)

lemma last_tier: "last TAINT_TIERS = TAINT_TIERS ! 4"
  by (simp add: TAINT_TIERS_def)

text \<open>The rank of a join: the largest rank, or the last one when a tier is not known.\<close>

definition worst_rank :: "string list \<Rightarrow> nat" where
  "worst_rank ts = (if \<exists>t \<in> set ts. tier_rank t = None then 4 else Max (set (map (\<lambda>t. the (tier_rank t)) ts)))"

lemma join_from_rank:
  "w \<le> 4 \<Longrightarrow> tier_rank (join_from w ts) = Some (if \<exists>t \<in> set ts. tier_rank t = None then 4
     else Max (insert w (set (map (\<lambda>t. the (tier_rank t)) ts))))"
proof (induction ts arbitrary: w)
  case (Cons t ts)
  show ?case
  proof (cases "tier_rank t")
    case None
    then show ?thesis by (simp add: last_tier)
  next
    case (Some i)
    have "max w i \<le> 4" using Cons.prems tier_rank_bound [OF Some] by simp
    moreover have "Max (insert (max w i) A) = Max (insert w (insert i A))" if "finite A" for A
      using that by (cases "A = {}") (simp_all add: max.assoc)
    ultimately show ?thesis using Some Cons.IH
      by (cases "\<exists>t \<in> set ts. tier_rank t = None") auto
  qed
qed simp

lemma taint_join_rank: "ts \<noteq> [] \<Longrightarrow> tier_rank (taint_join ts) = Some (worst_rank ts)"
proof -
  assume ts: "ts \<noteq> []"
  have "Max (insert 0 A) = Max A" if "finite A" "A \<noteq> {}" for A :: "nat set"
    using that by (simp add: Max_insert)
  then have "Max (insert 0 (set (map (\<lambda>t. the (tier_rank t)) ts))) = Max (set (map (\<lambda>t. the (tier_rank t)) ts))"
    using ts by simp
  then show ?thesis
    using ts join_from_rank [of 0 ts] by (simp only: taint_join_def worst_rank_def if_False)
qed

lemma worst_rank_le: "ts \<noteq> [] \<Longrightarrow> worst_rank ts \<le> i \<longleftrightarrow> 4 \<le> i \<or> (\<forall>t \<in> set ts. \<exists>j \<le> i. tier_rank t = Some j)"
proof -
  assume ts: "ts \<noteq> []"
  show ?thesis
  proof (cases "\<exists>t \<in> set ts. tier_rank t = None")
    case True
    then obtain t where t: "t \<in> set ts" "tier_rank t = None" by blast
    have "worst_rank ts = 4" using True by (simp only: worst_rank_def if_True)
    moreover have "\<not> (\<forall>t \<in> set ts. \<exists>j \<le> i. tier_rank t = Some j)"
    proof
      assume "\<forall>t \<in> set ts. \<exists>j \<le> i. tier_rank t = Some j"
      then have "\<exists>j \<le> i. tier_rank t = Some j" using t(1) by (rule bspec)
      then show False using t(2) by simp
    qed
    ultimately show ?thesis by (simp only: simp_thms)
  next
    case False
    then have k: "\<And>t. t \<in> set ts \<Longrightarrow> \<exists>j. tier_rank t = Some j" by auto
    have "worst_rank ts = Max (set (map (\<lambda>t. the (tier_rank t)) ts))"
      using False by (simp only: worst_rank_def if_False)
    then have "worst_rank ts \<le> i \<longleftrightarrow> (\<forall>t \<in> set ts. the (tier_rank t) \<le> i)"
      using ts by simp
    also have "\<dots> \<longleftrightarrow> (\<forall>t \<in> set ts. \<exists>j \<le> i. tier_rank t = Some j)"
    proof (rule ball_cong [OF refl])
      fix t assume "t \<in> set ts"
      then obtain j where "tier_rank t = Some j" using k by blast
      then show "the (tier_rank t) \<le> i \<longleftrightarrow> (\<exists>j \<le> i. tier_rank t = Some j)" by simp
    qed
    finally have r: "worst_rank ts \<le> i \<longleftrightarrow> (\<forall>t \<in> set ts. \<exists>j \<le> i. tier_rank t = Some j)" .
    have "\<forall>t \<in> set ts. \<exists>j \<le> i. tier_rank t = Some j" if "4 \<le> i"
    proof
      fix t assume "t \<in> set ts"
      then obtain j where j: "tier_rank t = Some j" using k by blast
      then show "\<exists>j \<le> i. tier_rank t = Some j" using tier_rank_bound [OF j] that by auto
    qed
    then show ?thesis using r by blast
  qed
qed

lemma check_taint_join_iff:
  assumes "ts \<noteq> []"
  shows "check_taint_join claimed ts \<longleftrightarrow> (\<exists>i. tier_rank claimed = Some i \<and> (i = 4 \<or> (\<forall>t \<in> set ts. \<exists>j \<le> i. tier_rank t = Some j)))"
proof (cases "tier_rank claimed")
  case (Some i)
  have "i \<le> 4" by (rule tier_rank_bound [OF Some])
  then have "4 \<le> i \<longleftrightarrow> i = 4" by arith
  then have "worst_rank ts \<le> i \<longleftrightarrow> i = 4 \<or> (\<forall>t \<in> set ts. \<exists>j \<le> i. tier_rank t = Some j)"
    using worst_rank_le [OF assms, of i] by (simp only:)
  moreover have "check_taint_join claimed ts \<longleftrightarrow> worst_rank ts \<le> i"
    using Some taint_join_rank [OF assms] by (simp add: check_taint_join_def)
  ultimately show ?thesis using Some by (simp only: option.inject) blast
qed (simp add: check_taint_join_def)

text \<open>
  C33: trust never rises through joins. If a forwarded envelope claims a tier that its sources
  support, and an envelope built from it and other sources claims a tier that those support, then
  the last claim is supported by all the original sources: it names a tier no more trusted than any
  of them, whatever was in between. So no chain of joins launders an untrusted source, and an
  unknown tier anywhere leaves nothing but the least trusted one.
\<close>

theorem joins_never_launder:
  assumes "check_taint_join middle sources" "check_taint_join claimed (middle # others)" "sources \<noteq> []"
  shows "check_taint_join claimed (sources @ others)
     \<and> (\<exists>i. tier_rank claimed = Some i \<and> (claimed = ''external'' \<or> (\<forall>t \<in> set (sources @ others). \<exists>j \<le> i. tier_rank t = Some j)))"
proof -
  obtain m where m: "tier_rank middle = Some m" "m = 4 \<or> (\<forall>t \<in> set sources. \<exists>j \<le> m. tier_rank t = Some j)"
    using assms(1) check_taint_join_iff [OF assms(3)] by blast
  obtain i where i: "tier_rank claimed = Some i" "i = 4 \<or> (\<forall>t \<in> set (middle # others). \<exists>j \<le> i. tier_rank t = Some j)"
    using assms(2) check_taint_join_iff [of "middle # others"] by blast
  have all: "i = 4 \<or> (\<forall>t \<in> set (sources @ others). \<exists>j \<le> i. tier_rank t = Some j)"
  proof (cases "i = 4")
    case False
    then have "m \<le> i" "\<forall>t \<in> set others. \<exists>j \<le> i. tier_rank t = Some j" using i m(1) by auto
    moreover from this(1) False tier_rank_bound [OF i(1)] have "m \<noteq> 4" by simp
    ultimately show ?thesis using m(2) by (auto intro: order_trans)
  qed simp
  have "i = 4 \<Longrightarrow> claimed = ''external''"
    using i(1) by (simp add: tier_rank_iff TAINT_TIERS_def)
  then show ?thesis
    using all i(1) check_taint_join_iff [of "sources @ others" claimed] assms(3) by auto
qed

theorem joins_never_launder_witness:
  "check_taint_join ''external'' [''officer'', ''external'', ''captain''] \<and> \<not> check_taint_join ''officer'' [''officer'', ''external'', ''captain'']"
proof -
  have "check_taint_join ''external'' [''officer'', ''external'']" "check_taint_join ''external'' [''external'', ''captain'']"
      "\<not> check_taint_join ''officer'' [''officer'', ''external'', ''captain'']"
    by code_simp+
  then show ?thesis using joins_never_launder [of "''external''" "[''officer'', ''external'']" "''external''" "[''captain'']"] by simp
qed

end
