(* ===== verification/Outbox_Correct.thy ===== *)
theory Outbox_Correct
  imports Outbox Envelope_Correct
begin

text \<open>
  The relay under crashes and concurrent relays: one identifier per row, nothing recorded as
  dispatched that was not sent; and what a consumer with a replay window makes of the stream.
\<close>

section \<open>The table grows\<close>

lemma update_row_sel [simp]: "wd_rows (update_row i f W) = map (\<lambda>r. if ob_id r = i then f r else r) (wd_rows W)"
  "wd_effects (update_row i f W) = wd_effects W"
  by (simp_all add: update_row_def)

lemma perform_rows [simp]: "wd_rows (perform ca d m t W) = wd_rows W"
  by (simp add: perform_def)

lemma row_at_Some: "row_at i W = Some x \<Longrightarrow> x \<in> set (wd_rows W) \<and> ob_id x = i"
  by (auto simp: row_at_def find_Some_iff)

text \<open>A copy of a row, or an earlier state of it: its content stays, an identifier once set stays.\<close>

definition copy_of :: "outbox_row \<Rightarrow> outbox_row \<Rightarrow> bool" where
  "copy_of r x \<longleftrightarrow> ob_id r = ob_id x \<and> ob_content r = ob_content x \<and> (ob_event_id r \<noteq> None \<longrightarrow> ob_event_id r = ob_event_id x)"

lemma copy_refl [simp]: "copy_of x x"
  by (simp add: copy_of_def)

lemma copy_trans: "copy_of x y \<Longrightarrow> copy_of y z \<Longrightarrow> copy_of x z"
  by (auto simp: copy_of_def)

text \<open>An effect that carries the identifier its row has.\<close>

definition sent_for :: "outbox_row \<Rightarrow> effect \<Rightarrow> bool" where
  "sent_for x ef \<longleftrightarrow> ef_token ef = oc_key (ob_content x) \<and> ef_destination ef = destination_of (ob_content x)
     \<and> (\<exists>i now. ob_event_id x = Some i \<and> ef_message ef = build_dispatch_fields (ob_content x) i (utc_second now))"

lemma sent_for_later: "sent_for x ef \<Longrightarrow> copy_of x y \<Longrightarrow> sent_for y ef"
  by (auto simp: sent_for_def copy_of_def)

definition grows :: "world \<Rightarrow> world \<Rightarrow> bool" where
  "grows W W' \<longleftrightarrow> (\<forall>x \<in> set (wd_rows W). \<exists>y \<in> set (wd_rows W'). copy_of x y) \<and> set (wd_effects W) \<subseteq> set (wd_effects W')"

lemma grows_update: "(\<And>x. ob_id x = i \<Longrightarrow> x \<in> set (wd_rows W) \<Longrightarrow> copy_of x (f x)) \<Longrightarrow> grows W (update_row i f W)"
proof -
  assume a: "\<And>x. ob_id x = i \<Longrightarrow> x \<in> set (wd_rows W) \<Longrightarrow> copy_of x (f x)"
  have "\<exists>y \<in> set (wd_rows (update_row i f W)). copy_of x y" if "x \<in> set (wd_rows W)" for x
    using that a [of x] by (intro bexI [of _ "if ob_id x = i then f x else x"]) auto
  then show ?thesis by (simp add: grows_def)
qed

lemma grows_refl [simp]: "grows W W"
  by (auto simp: grows_def intro: copy_refl)

lemma grows_perform: "grows W (perform ca d m t W)"
  by (auto simp: grows_def perform_def intro: copy_refl)

lemma grows_capture: "grows W (capture c W)"
  by (auto simp: grows_def capture_def intro: copy_refl)

section \<open>The invariant\<close>

definition unique_ids :: "outbox_row list \<Rightarrow> bool" where
  "unique_ids rows \<longleftrightarrow> distinct (filter (\<lambda>e. e \<noteq> None) (map ob_event_id rows))"

lemma unique_ids_eq:
  "unique_ids rows \<Longrightarrow> x \<in> set rows \<Longrightarrow> y \<in> set rows \<Longrightarrow> ob_event_id x = Some i \<Longrightarrow> ob_event_id y = Some i \<Longrightarrow> x = y"
proof (rule ccontr)
  assume a: "unique_ids rows" "x \<in> set rows" "y \<in> set rows" "ob_event_id x = Some i" "ob_event_id y = Some i" "x \<noteq> y"
  obtain xs ys where rows: "rows = xs @ x # ys" using split_list [OF a(2)] by blast
  have "Some i \<notin> set (filter (\<lambda>e. e \<noteq> None) (map ob_event_id xs)) \<union> set (filter (\<lambda>e. e \<noteq> None) (map ob_event_id ys))"
    using a(1,4) unfolding unique_ids_def rows by simp
  moreover have "y \<in> set xs \<or> y \<in> set ys" using a(3,6) rows by auto
  ultimately show False using a(5) by force
qed

definition table_ok :: "world \<Rightarrow> bool" where
  "table_ok W \<longleftrightarrow> map ob_id (wd_rows W) = [0..<length (wd_rows W)]
     \<and> distinct (map (\<lambda>r. oc_key (ob_content r)) (wd_rows W))
     \<and> unique_ids (wd_rows W)
     \<and> (\<forall>ef \<in> set (wd_effects W). \<exists>x \<in> set (wd_rows W). sent_for x ef)
     \<and> (\<forall>x \<in> set (wd_rows W). ob_dispatched x \<noteq> None \<longrightarrow> (\<exists>ef \<in> set (wd_effects W). sent_for x ef))"

lemma effect_row: "table_ok W \<Longrightarrow> ef \<in> set (wd_effects W) \<Longrightarrow> \<exists>x \<in> set (wd_rows W). sent_for x ef"
  by (simp add: table_ok_def)

lemma dispatched_sent: "table_ok W \<Longrightarrow> x \<in> set (wd_rows W) \<Longrightarrow> ob_dispatched x \<noteq> None \<Longrightarrow> \<exists>ef \<in> set (wd_effects W). sent_for x ef"
  unfolding table_ok_def by blast

definition relay_ok :: "world \<Rightarrow> relay \<Rightarrow> bool" where
  "relay_ok W l \<longleftrightarrow> (\<forall>r \<in> set (rl_todo l). \<exists>x \<in> set (wd_rows W). copy_of r x)
     \<and> (\<forall>i. rl_stage l = Has_Id i \<longrightarrow> rl_todo l \<noteq> [] \<longrightarrow> (\<exists>x \<in> set (wd_rows W). copy_of (hd (rl_todo l)) x \<and> ob_event_id x = Some i))
     \<and> (rl_stage l = Sent \<longrightarrow> rl_todo l \<noteq> [] \<longrightarrow>
         (\<exists>x \<in> set (wd_rows W). copy_of (hd (rl_todo l)) x \<and> (\<exists>ef \<in> set (wd_effects W). sent_for x ef)))"

lemma relay_ok_grows: "relay_ok W l \<Longrightarrow> grows W W' \<Longrightarrow> relay_ok W' l"
  unfolding relay_ok_def
proof (intro conjI ballI allI impI, goal_cases)
  case (1 r)
  then show ?case unfolding grows_def by (meson copy_trans)
next
  case (2 i)
  then obtain x y where "x \<in> set (wd_rows W)" "copy_of (hd (rl_todo l)) x" "ob_event_id x = Some i"
    "y \<in> set (wd_rows W')" "copy_of x y" unfolding grows_def by blast
  then show ?case using copy_trans by (auto simp: copy_of_def intro!: bexI [of _ y])
next
  case 3
  then obtain x y ef where "x \<in> set (wd_rows W)" "copy_of (hd (rl_todo l)) x" "ef \<in> set (wd_effects W)" "sent_for x ef"
    "y \<in> set (wd_rows W')" "copy_of x y" "set (wd_effects W) \<subseteq> set (wd_effects W')" unfolding grows_def by blast
  then show ?case using copy_trans sent_for_later by blast
qed

lemma relay_ok_idle [simp]: "relay_ok W idle"
  by (simp add: relay_ok_def idle_def)

lemma relay_ok_pop: "relay_ok W l \<Longrightarrow> rl_todo l = r # rs \<Longrightarrow> relay_ok W \<lparr>rl_todo = rs, rl_stage = Claimed\<rparr>"
  by (simp add: relay_ok_def)

lemma relay_ok_failed: "relay_ok W l \<Longrightarrow> relay_ok W (l\<lparr>rl_stage := Failed c\<rparr>)"
  by (simp add: relay_ok_def)

lemma same_row: "table_ok W \<Longrightarrow> x \<in> set (wd_rows W) \<Longrightarrow> y \<in> set (wd_rows W) \<Longrightarrow> ob_id x = ob_id y \<Longrightarrow> x = y"
  by (metis (no_types, lifting) distinct_upt inj_on_eq_iff table_ok_def distinct_map)

lemma same_key: "table_ok W \<Longrightarrow> x \<in> set (wd_rows W) \<Longrightarrow> y \<in> set (wd_rows W) \<Longrightarrow>
    oc_key (ob_content x) = oc_key (ob_content y) \<Longrightarrow> x = y"
  by (metis (mono_tags, lifting) inj_on_eq_iff table_ok_def distinct_map)

text \<open>An update that keeps the content and the identifiers keeps the table.\<close>

lemma table_ok_map:
  assumes t: "table_ok W"
    and f: "\<And>x. x \<in> set (wd_rows W) \<Longrightarrow> copy_of x (f x)" "\<And>x. x \<in> set (wd_rows W) \<Longrightarrow> ob_event_id (f x) = ob_event_id x"
    and d: "\<And>x. x \<in> set (wd_rows W) \<Longrightarrow> ob_dispatched (f x) \<noteq> None \<Longrightarrow> \<exists>ef \<in> set (wd_effects W). sent_for x ef"
  shows "table_ok (W\<lparr>wd_rows := map f (wd_rows W)\<rparr>)"
proof -
  let ?key = "\<lambda>r. oc_key (ob_content r)"
  have "map ob_id (map f (wd_rows W)) = map ob_id (wd_rows W)" "map ?key (map f (wd_rows W)) = map ?key (wd_rows W)"
    using f(1) by (auto simp: copy_of_def)
  then have "map ob_id (map f (wd_rows W)) = [0..<length (map f (wd_rows W))]" "distinct (map ?key (map f (wd_rows W)))"
    using t by (simp_all only: table_ok_def length_map)
  moreover have "unique_ids (map f (wd_rows W))"
  proof -
    have "map ob_event_id (map f (wd_rows W)) = map ob_event_id (wd_rows W)" using f(2) by simp
    then show ?thesis using t unfolding table_ok_def unique_ids_def by (simp only:)
  qed
  moreover have "\<exists>x \<in> set (map f (wd_rows W)). sent_for x ef" if e: "ef \<in> set (wd_effects W)" for ef
  proof -
    obtain x where x: "x \<in> set (wd_rows W)" "sent_for x ef" using effect_row [OF t e] by blast
    from sent_for_later [OF x(2) f(1) [OF x(1)]] show ?thesis using x(1) by (intro bexI [of _ "f x"]) simp_all
  qed
  moreover have "\<exists>ef \<in> set (wd_effects W). sent_for x ef" if x: "x \<in> set (map f (wd_rows W))" "ob_dispatched x \<noteq> None" for x
  proof -
    obtain z where z: "z \<in> set (wd_rows W)" "x = f z" using x(1) by auto
    then obtain ef where "ef \<in> set (wd_effects W)" "sent_for z ef" using d x(2) by blast
    then show ?thesis using sent_for_later [OF _ f(1) [OF z(1)]] z(2) by blast
  qed
  ultimately show ?thesis unfolding table_ok_def by simp
qed

lemma update_split:
  assumes "table_ok W" "x \<in> set (wd_rows W)"
  obtains xs ys where "wd_rows W = xs @ x # ys" "wd_rows (update_row (ob_id x) f W) = xs @ f x # ys"
proof -
  obtain xs ys where rows: "wd_rows W = xs @ x # ys" using split_list [OF assms(2)] by blast
  have "distinct (map ob_id (wd_rows W))" using assms(1) by (metis distinct_upt table_ok_def)
  then have "ob_id x \<notin> ob_id ` set xs" "ob_id x \<notin> ob_id ` set ys" using rows by auto
  moreover have "map (\<lambda>r. if ob_id r = i then f r else r) zs = zs" if "i \<notin> ob_id ` set zs" for i zs
    using that by (intro map_idI) force
  ultimately have "map (\<lambda>r. if ob_id r = ob_id x then f r else r) xs = xs" "map (\<lambda>r. if ob_id r = ob_id x then f r else r) ys = ys"
    by simp_all
  then show ?thesis using that [of xs ys] rows by simp
qed

lemma table_ok_update:
  assumes "table_ok W" "\<And>x. copy_of x (f x)" "\<And>x. ob_event_id (f x) = ob_event_id x"
    "\<And>x. x \<in> set (wd_rows W) \<Longrightarrow> ob_id x = i \<Longrightarrow> ob_dispatched (f x) \<noteq> None \<Longrightarrow> \<exists>ef \<in> set (wd_effects W). sent_for x ef"
  shows "table_ok (update_row i f W)"
  unfolding update_row_def
proof (rule table_ok_map [OF assms(1)])
  fix x assume x: "x \<in> set (wd_rows W)" "ob_dispatched (if ob_id x = i then f x else x) \<noteq> None"
  show "\<exists>ef \<in> set (wd_effects W). sent_for x ef"
  proof (cases "ob_id x = i")
    case True
    then show ?thesis using assms(4) x by simp
  next
    case False
    then show ?thesis using assms(1) x by (simp add: table_ok_def)
  qed
qed (use assms in auto)

section \<open>The steps keep it\<close>

lemma capture_ok:
  assumes "table_ok W"
  shows "table_ok (capture c W)"
proof (cases "oc_key c \<in> set (map (\<lambda>r. oc_key (ob_content r)) (wd_rows W))")
  case False
  then have "wd_rows (capture c W) = wd_rows W @ [fresh_row (length (wd_rows W)) c]" "wd_effects (capture c W) = wd_effects W"
    by (simp_all add: capture_def)
  then show ?thesis
    using assms False unfolding table_ok_def unique_ids_def by (simp add: fresh_row_def)
qed (use assms in \<open>simp add: capture_def\<close>)

lemma claim_ok:
  assumes "table_ok W" "claim_rows now ttl batch locked W = (rows, W')"
  shows "table_ok W' \<and> grows W W' \<and> relay_ok W' \<lparr>rl_todo = rows, rl_stage = Claimed\<rparr>"
proof -
  let ?f = "\<lambda>r. if ob_id r \<in> set (chosen now ttl batch locked W) then claimed now r else r"
  have W': "W' = W\<lparr>wd_rows := map ?f (wd_rows W)\<rparr>" and rows: "set rows \<subseteq> set (wd_rows W')"
    using assms(2) by (auto simp: claim_rows_def Let_def)
  have f: "copy_of x (?f x)" "ob_event_id (?f x) = ob_event_id x" "ob_dispatched (?f x) = ob_dispatched x" for x
    by (simp_all add: claimed_def copy_of_def)
  have "table_ok W'"
    unfolding W' by (rule table_ok_map) (use assms(1) f in \<open>auto simp: table_ok_def\<close>)
  moreover have "grows W W'"
  proof -
    have "\<exists>y \<in> set (wd_rows W'). copy_of x y" if "x \<in> set (wd_rows W)" for x
      using that f(1) [of x] unfolding W' by (intro bexI [of _ "?f x"]) simp_all
    then show ?thesis by (simp add: grows_def W')
  qed
  moreover have "relay_ok W' \<lparr>rl_todo = rows, rl_stage = Claimed\<rparr>"
    using rows by (auto simp: relay_ok_def intro: copy_refl)
  ultimately show ?thesis by blast
qed

lemma backfill_ok:
  assumes "table_ok W" "x \<in> set (wd_rows W)" "copy_of r x" "backfill_event_id new_id r W = (res, W')"
  shows "table_ok W' \<and> grows W W' \<and> (\<forall>i. res = Inr i \<longrightarrow> (\<exists>y \<in> set (wd_rows W'). copy_of r y \<and> ob_event_id y = Some i))"
proof (cases "\<exists>c cs. ob_event_id r = Some (c # cs)")
  case True
  then show ?thesis using assms by (auto simp: backfill_event_id_def copy_of_def)
next
  case False
  then have b: "backfill_event_id new_id r W = (case row_at (ob_id r) W of
       None \<Rightarrow> (Inl Other_Exception, W)
     | Some row \<Rightarrow> (case ob_event_id row of
         Some e \<Rightarrow> (Inr e, W)
       | None \<Rightarrow> if Some new_id \<in> set (map ob_event_id (wd_rows W)) then (Inl Other_Exception, W)
           else (Inr new_id, update_row (ob_id r) (\<lambda>x. x\<lparr>ob_event_id := Some new_id\<rparr>) W)))"
    by (auto simp: backfill_event_id_def split: option.splits list.splits)
  show ?thesis
  proof (cases "row_at (ob_id r) W")
    case None
    then show ?thesis using b assms by auto
  next
    case (Some row)
    from row_at_Some [OF this] have row: "row = x"
      using same_row [OF assms(1) _ assms(2)] assms(3) by (simp add: copy_of_def)
    show ?thesis
    proof (cases "ob_event_id x = None \<and> Some new_id \<notin> set (map ob_event_id (wd_rows W))")
      case False
      then show ?thesis using b assms Some row by (auto split: option.splits if_splits)
    next
      case True
      let ?f = "\<lambda>y. y\<lparr>ob_event_id := Some new_id\<rparr>"
      have W': "W' = update_row (ob_id x) ?f W" "res = Inr new_id"
        using b assms Some row True by (auto simp: copy_of_def split: if_splits)
      obtain xs ys where rows: "wd_rows W = xs @ x # ys" "wd_rows W' = xs @ ?f x # ys"
        unfolding W' by (rule update_split [OF assms(1,2)])
      have x: "ob_event_id x = None" "copy_of x (?f x)" using True by (simp_all add: copy_of_def)
      have g: "grows W W'"
        using rows x(2) unfolding grows_def W' by (auto intro: copy_refl)
      have "distinct (map (\<lambda>r. oc_key (ob_content r)) (wd_rows W'))" "map ob_id (wd_rows W') = [0..<length (wd_rows W')]"
        using assms(1) rows by (simp_all add: table_ok_def)
      moreover have "unique_ids (wd_rows W')"
        using assms(1) True unfolding rows table_ok_def unique_ids_def by simp
      moreover have "\<exists>ef \<in> set (wd_effects W'). sent_for y ef" if "y \<in> set (wd_rows W')" "ob_dispatched y \<noteq> None" for y
      proof (cases "y = ?f x")
        case True
        then have "ob_dispatched x \<noteq> None" using that(2) by simp
        then obtain ef where "ef \<in> set (wd_effects W)" "sent_for x ef" using dispatched_sent [OF assms(1,2)] by blast
        then show ?thesis using x(1) by (simp add: sent_for_def)
      next
        case False
        then have "y \<in> set (wd_rows W)" using that(1) rows by auto
        then show ?thesis using dispatched_sent [OF assms(1) _ that(2)] unfolding W' update_row_sel by blast
      qed
      moreover have "\<exists>y \<in> set (wd_rows W'). sent_for y ef" if e: "ef \<in> set (wd_effects W')" for ef
      proof -
        obtain z where z: "z \<in> set (wd_rows W)" "sent_for z ef"
          using effect_row [OF assms(1)] e unfolding W' update_row_sel by blast
        then show ?thesis using g sent_for_later unfolding grows_def by blast
      qed
      moreover have "?f x \<in> set (wd_rows W')" "copy_of r (?f x)" using rows assms(3) x(1) by (auto simp: copy_of_def)
      ultimately show ?thesis using g W'(2) unfolding table_ok_def by auto
    qed
  qed
qed

lemma relay_copy: "relay_ok W l \<Longrightarrow> rl_todo l = r # rs \<Longrightarrow> \<exists>x \<in> set (wd_rows W). copy_of r x"
  by (simp add: relay_ok_def)

lemma relay_row_id: "relay_ok W l \<Longrightarrow> rl_todo l = r # rs \<Longrightarrow> rl_stage l = Has_Id i \<Longrightarrow>
    \<exists>x \<in> set (wd_rows W). copy_of r x \<and> ob_event_id x = Some i"
  by (simp add: relay_ok_def)

lemma relay_row_sent: "relay_ok W l \<Longrightarrow> rl_todo l = r # rs \<Longrightarrow> rl_stage l = Sent \<Longrightarrow>
    \<exists>x \<in> set (wd_rows W). copy_of r x \<and> (\<exists>ef \<in> set (wd_effects W). sent_for x ef)"
  by (simp add: relay_ok_def)

definition step_ok :: "relay \<Rightarrow> world \<Rightarrow> relay \<times> world \<Rightarrow> bool" where
  "step_ok l W lW \<longleftrightarrow> (table_ok W \<longrightarrow> relay_ok W l \<longrightarrow> table_ok (snd lW) \<and> relay_ok (snd lW) (fst lW) \<and> grows W (snd lW))"

lemma backfill_step_ok: "step_ok l W (backfill_step new_id l W)"
proof (cases "rl_todo l = [] \<or> rl_stage l \<noteq> Claimed")
  case True
  then have "backfill_step new_id l W = (l, W)"
    by (auto simp: backfill_step_def split: list.splits stage.splits)
  then show ?thesis by (simp add: step_ok_def)
next
  case False
  then obtain r rs where l: "rl_todo l = r # rs" "rl_stage l = Claimed" by (auto simp: neq_Nil_conv)
  obtain res W' where b: "backfill_event_id new_id r W = (res, W')" by fastforce
  show ?thesis
    unfolding step_ok_def
  proof (intro impI)
    assume a: "table_ok W" "relay_ok W l"
    from relay_copy [OF a(2) l(1)] obtain x where x: "x \<in> set (wd_rows W)" "copy_of r x" by blast
    note ok = backfill_ok [OF a(1) x b]
    have l': "relay_ok W' l" using relay_ok_grows [OF a(2)] ok by blast
    show "table_ok (snd (backfill_step new_id l W)) \<and> relay_ok (snd (backfill_step new_id l W)) (fst (backfill_step new_id l W))
        \<and> grows W (snd (backfill_step new_id l W))"
    proof (cases res)
      case (Inl e)
      then show ?thesis using ok b l relay_ok_failed [OF l'] by (simp add: backfill_step_def)
    next
      case (Inr i)
      then have "relay_ok W' (l\<lparr>rl_stage := Has_Id i\<rparr>)" using ok l l' by (simp add: relay_ok_def)
      then show ?thesis using ok b l Inr by (simp add: backfill_step_def)
    qed
  qed
qed

lemma prepare_Inr: "prepare ctx c i now = Inr (d, m) \<Longrightarrow> d = destination_of c \<and> m = build_dispatch_fields c i (utc_second now)"
  by (auto simp: prepare_def Let_def split: option.splits)

lemma call_step_ok: "step_ok l W (call_step ctx now ca l W)"
proof (cases "rl_todo l = [] \<or> (\<forall>i. rl_stage l \<noteq> Has_Id i)")
  case True
  then have "call_step ctx now ca l W = (l, W)"
    by (auto simp: call_step_def split: list.splits stage.splits)
  then show ?thesis by (simp add: step_ok_def)
next
  case False
  then obtain r rs i where l: "rl_todo l = r # rs" "rl_stage l = Has_Id i" by (auto simp: neq_Nil_conv)
  show ?thesis
    unfolding step_ok_def
  proof (intro impI)
    assume a: "table_ok W" "relay_ok W l"
    from relay_row_id [OF a(2) l] obtain x where x: "x \<in> set (wd_rows W)" "copy_of r x" "ob_event_id x = Some i" by blast
    show "table_ok (snd (call_step ctx now ca l W)) \<and> relay_ok (snd (call_step ctx now ca l W)) (fst (call_step ctx now ca l W))
        \<and> grows W (snd (call_step ctx now ca l W))"
    proof (cases "prepare ctx (ob_content r) i now")
      case (Inl e)
      then show ?thesis using a l relay_ok_failed [OF a(2)] by (simp add: call_step_def)
    next
      case (Inr dm)
      obtain d m where dm: "dm = (d, m)" by fastforce
      let ?ef = "\<lparr>ef_destination = d, ef_message = m, ef_token = oc_key (ob_content r)\<rparr>"
      let ?W' = "perform ca d m (oc_key (ob_content r)) W"
      have ef: "sent_for x ?ef"
        using x prepare_Inr [of ctx "ob_content r" i now d m] Inr dm by (auto simp: sent_for_def copy_of_def)
      have t: "table_ok ?W'"
        using a(1) ef x(1) unfolding table_ok_def perform_def by (auto simp del: not_None_eq)
      have g: "grows W ?W'" by (rule grows_perform)
      have l': "relay_ok ?W' l" by (rule relay_ok_grows [OF a(2) g])
      have "relay_ok ?W' (l\<lparr>rl_stage := (case ca_raised ca of Some e \<Rightarrow> Failed (classify_failure e) | None \<Rightarrow> Sent)\<rparr>)"
      proof (cases "ca_raised ca")
        case None
        then have "?ef \<in> set (wd_effects ?W')" by (simp add: perform_def)
        then show ?thesis using None l l' x ef by (auto simp: relay_ok_def)
      next
        case (Some e)
        then show ?thesis using relay_ok_failed [OF l'] by simp
      qed
      then show ?thesis using t g l Inr dm by (simp add: call_step_def)
    qed
  qed
qed

lemma settle_step_ok: "step_ok l W (settle_step ctx now l W)"
proof (cases "rl_todo l = [] \<or> \<not> (rl_stage l = Sent \<or> (\<exists>c. rl_stage l = Failed c))")
  case True
  then have "settle_step ctx now l W = (l, W)"
    by (auto simp: settle_step_def split: list.splits stage.splits)
  then show ?thesis by (simp add: step_ok_def)
next
  case False
  then obtain r rs where l: "rl_todo l = r # rs" "rl_stage l = Sent \<or> (\<exists>c. rl_stage l = Failed c)" by (auto simp: neq_Nil_conv)
  show ?thesis
    unfolding step_ok_def
  proof (intro impI)
    assume a: "table_ok W" "relay_ok W l"
    let ?goal = "\<lambda>f. table_ok (update_row (ob_id r) f W) \<and> relay_ok (update_row (ob_id r) f W) \<lparr>rl_todo = rs, rl_stage = Claimed\<rparr>
      \<and> grows W (update_row (ob_id r) f W)"
    have upd: "?goal f" if f: "\<And>x. copy_of x (f x)" "\<And>x. ob_event_id (f x) = ob_event_id x"
      and d: "\<And>x. x \<in> set (wd_rows W) \<Longrightarrow> ob_id x = ob_id r \<Longrightarrow> ob_dispatched (f x) \<noteq> None \<Longrightarrow> \<exists>ef \<in> set (wd_effects W). sent_for x ef" for f
    proof -
      have "grows W (update_row (ob_id r) f W)" by (rule grows_update) (rule f(1))
      moreover have "table_ok (update_row (ob_id r) f W)" by (rule table_ok_update [OF a(1) f d])
      ultimately show ?thesis using relay_ok_pop [OF relay_ok_grows [OF a(2)] l(1)] by blast
    qed
    from l(2) show "table_ok (snd (settle_step ctx now l W)) \<and> relay_ok (snd (settle_step ctx now l W)) (fst (settle_step ctx now l W))
        \<and> grows W (snd (settle_step ctx now l W))"
    proof
      assume s: "rl_stage l = Sent"
      from relay_row_sent [OF a(2) l(1) s] obtain x where x: "x \<in> set (wd_rows W)" "copy_of r x"
        "\<exists>ef \<in> set (wd_effects W). sent_for x ef" by blast
      have "?goal (\<lambda>x. x\<lparr>ob_dispatched := Some now\<rparr>)"
      proof (rule upd)
        fix y assume y: "y \<in> set (wd_rows W)" "ob_id y = ob_id r"
        then have "y = x" using same_row [OF a(1) y(1) x(1)] x(2) by (simp add: copy_of_def)
        then show "\<exists>ef \<in> set (wd_effects W). sent_for y ef" using x(3) by simp
      qed (simp_all add: copy_of_def)
      then show ?thesis using l(1) s by (simp add: settle_step_def record_dispatched_def)
    next
      assume "\<exists>c. rl_stage l = Failed c"
      then obtain c where s: "rl_stage l = Failed c" by blast
      let ?t = "c = Validation_Class \<and> dc_max ctx < ob_attempts r"
      have "?goal (\<lambda>x. if ?t then x\<lparr>ob_terminal := Some now, ob_error := Some c\<rparr> else x\<lparr>ob_error := Some c\<rparr>)"
      proof (rule upd)
        fix y assume "y \<in> set (wd_rows W)" "ob_dispatched (if ?t then y\<lparr>ob_terminal := Some now, ob_error := Some c\<rparr> else y\<lparr>ob_error := Some c\<rparr>) \<noteq> None"
        then show "\<exists>ef \<in> set (wd_effects W). sent_for y ef" using dispatched_sent [OF a(1)] by (simp split: if_splits)
      qed (simp_all add: copy_of_def)
      then show ?thesis using l(1) s by (simp add: settle_step_def mark_failure_def Let_def)
    qed
  qed
qed

definition system_ok :: "system \<Rightarrow> bool" where
  "system_ok s \<longleftrightarrow> table_ok (fst s) \<and> (\<forall>w. relay_ok (fst s) (snd s w))"

lemma on_relay_ok:
  assumes "system_ok s" "step_ok (snd s w) (fst s) (f (snd s w) (fst s))"
  shows "system_ok (on_relay w f s) \<and> grows (fst s) (fst (on_relay w f s))"
proof -
  obtain l W where f: "f (snd s w) (fst s) = (l, W)" by fastforce
  then have "table_ok W" "relay_ok W l" "grows (fst s) W"
    using assms by (simp_all add: step_ok_def system_ok_def)
  then show ?thesis
    using f assms(1) relay_ok_grows by (auto simp: on_relay_def system_ok_def)
qed

lemma step_keeps: "system_ok s \<Longrightarrow> system_ok (outbox_step ctx a s) \<and> grows (fst s) (fst (outbox_step ctx a s))"
proof (induction ctx a s rule: outbox_step.induct)
  case (1 ctx c s)
  have g: "grows (fst s) (capture c (fst s))" by (rule grows_capture)
  show ?case using 1 capture_ok relay_ok_grows [OF _ g] g by (simp add: system_ok_def)
next
  case (2 ctx w now ttl batch locked s)
  show ?case
    unfolding outbox_step.simps
    by (rule on_relay_ok [OF 2]) (use claim_ok in \<open>fastforce simp: step_ok_def split: prod.split\<close>)
next
  case (3 ctx w ms random s)
  show ?case unfolding outbox_step.simps by (rule on_relay_ok [OF 3]) (rule backfill_step_ok)
next
  case (4 ctx w now ca s)
  show ?case unfolding outbox_step.simps by (rule on_relay_ok [OF 4]) (rule call_step_ok)
next
  case (5 ctx w now s)
  show ?case unfolding outbox_step.simps by (rule on_relay_ok [OF 5]) (rule settle_step_ok)
next
  case (6 ctx w s)
  show ?case unfolding outbox_step.simps by (rule on_relay_ok [OF 6]) (simp add: step_ok_def)
qed

lemma steps_keep: "system_ok s \<Longrightarrow> system_ok (fold (outbox_step ctx) acts s)"
  by (induction acts arbitrary: s) (simp_all add: step_keeps)

lemma run_ok: "system_ok (run ctx acts)"
  unfolding run_def by (rule steps_keep) (simp add: system_ok_def table_ok_def unique_ids_def)

section \<open>One identifier per row\<close>

definition envelope_id :: "effect \<Rightarrow> string" where
  "envelope_id ef = str_of (dget (ms_envelope (ef_message ef)) ''event_id'')"

lemma envelope_id_sent: "sent_for x ef \<Longrightarrow> ob_event_id x = Some (envelope_id ef)"
  by (auto simp: sent_for_def envelope_id_def build_dispatch_fields_def build_envelope_def dget_def dget_opt_def)

lemma effects_same_row:
  assumes "table_ok W" "ef \<in> set (wd_effects W)" "ef' \<in> set (wd_effects W)"
  shows "ef_token ef = ef_token ef' \<longleftrightarrow> envelope_id ef = envelope_id ef'"
proof -
  obtain x y where x: "x \<in> set (wd_rows W)" "sent_for x ef" and y: "y \<in> set (wd_rows W)" "sent_for y ef'"
    using effect_row [OF assms(1,2)] effect_row [OF assms(1,3)] by blast
  have "unique_ids (wd_rows W)" using assms(1) by (simp add: table_ok_def)
  then have "envelope_id ef = envelope_id ef' \<Longrightarrow> x = y"
    using unique_ids_eq [OF _ x(1) y(1)] envelope_id_sent x(2) y(2) by fastforce
  moreover have "ef_token ef = ef_token ef' \<Longrightarrow> x = y"
    using same_key [OF assms(1) x(1) y(1)] x(2) y(2) by (simp add: sent_for_def)
  ultimately show ?thesis
    using x(2) y(2) envelope_id_sent [OF x(2)] envelope_id_sent [OF y(2)] by (auto simp: sent_for_def)
qed

section \<open>A consumer with a replay window\<close>

text \<open>What a consumer takes of a sequence of identifiers, and where its window stands.\<close>

fun consume :: "nat \<Rightarrow> string list \<Rightarrow> string list \<Rightarrow> string list" where
  "consume capacity w [] = []"
| "consume capacity w (i # ids) = (if fst (seen capacity w i) then [] else [i]) @ consume capacity (snd (seen capacity w i)) ids"

lemma consume_append: "consume c w (xs @ ys) = consume c w xs @ consume c (foldl (\<lambda>w i. snd (seen c w i)) w xs) ys"
  by (induction c w xs rule: consume.induct) simp_all

text \<open>With room for every distinct identifier, each is taken once.\<close>

lemma consume_once: "1 \<le> c \<Longrightarrow> card (set ids) \<le> c \<Longrightarrow> distinct (consume c [] ids) \<and> set (consume c [] ids) = set ids"
proof (induction ids rule: rev_induct)
  case (snoc i ids)
  have "card (set ids) \<le> card (set (ids @ [i]))" by (rule card_mono) auto
  then have c: "card (set ids) \<le> c" using snoc.prems(2) by linarith
  then have "latest c ids = remdups ids" by (simp add: latest_def length_remdups_card_conv)
  then have "fst (seen c (remember c ids) i) \<longleftrightarrow> i \<in> set ids"
    using remember_latest [OF snoc.prems(1), of ids] by (simp add: seen_def)
  then have "consume c [] (ids @ [i]) = consume c [] ids @ (if i \<in> set ids then [] else [i])"
    by (simp add: consume_append remember_def)
  then show ?case using snoc.IH [OF snoc.prems(1) c] by auto
qed simp

definition delivered :: "string \<Rightarrow> world \<Rightarrow> string list" where
  "delivered d W = map envelope_id (filter (\<lambda>ef. ef_destination ef = d) (wd_effects W))"

lemma card_delivered:
  assumes "table_ok W"
  shows "card (set (delivered d W)) \<le> length (wd_rows W)"
proof -
  have "set (delivered d W) \<subseteq> set (map (\<lambda>x. the (ob_event_id x)) (wd_rows W))"
  proof
    fix i assume "i \<in> set (delivered d W)"
    then obtain ef where ef: "ef \<in> set (wd_effects W)" "i = envelope_id ef" by (auto simp: delivered_def)
    then obtain x where "x \<in> set (wd_rows W)" "sent_for x ef" using effect_row [OF assms ef(1)] by blast
    then show "i \<in> set (map (\<lambda>x. the (ob_event_id x)) (wd_rows W))"
      using envelope_id_sent ef(2) by force
  qed
  then have "card (set (delivered d W)) \<le> card (set (map (\<lambda>x. the (ob_event_id x)) (wd_rows W)))"
    by (rule card_mono [rotated]) simp
  then show ?thesis using card_length [of "map (\<lambda>x. the (ob_event_id x)) (wd_rows W)"] by simp
qed

section \<open>One drain is a run of steps\<close>

definition row_actions :: "nat \<Rightarrow> fate \<Rightarrow> action list" where
  "row_actions w ft = [Backfill w (ft_ms ft) (ft_random ft), Call w (ft_now ft) (ft_call ft), Settle w (ft_now ft)]"

lemma safe_process_steps:
  assumes "rl_todo (snd s w) = r # rs" "rl_stage (snd s w) = Claimed"
  shows "fold (outbox_step ctx) (row_actions w ft) s
     = (snd (safe_process ctx ft r (fst s)), (snd s)(w := \<lparr>rl_todo = rs, rl_stage = Claimed\<rparr>))"
proof -
  obtain res W1 where b: "backfill_event_id (mint_ulid (ft_ms ft) (ft_random ft)) r (fst s) = (res, W1)" by fastforce
  show ?thesis
  proof (cases res)
    case (Inl e)
    then show ?thesis using b assms
      by (simp add: row_actions_def on_relay_def backfill_step_def call_step_def settle_step_def safe_process_def process_row_def
          split: prod.split)
  next
    case (Inr i)
    show ?thesis
    proof (cases "prepare ctx (ob_content r) i (ft_now ft)")
      case (Inl e)
      then show ?thesis using b assms Inr
        by (simp add: row_actions_def on_relay_def backfill_step_def call_step_def settle_step_def safe_process_def process_row_def
            split: prod.split)
    next
      case (Inr dm)
      then show ?thesis using b assms \<open>res = Inr i\<close>
        by (cases dm; cases "ca_raised (ft_call ft)")
          (simp_all add: row_actions_def on_relay_def backfill_step_def call_step_def settle_step_def safe_process_def process_row_def
            Let_def split: prod.split)
    qed
  qed
qed

lemma process_all_steps:
  "rl_todo (snd s w) = rows \<Longrightarrow> rl_stage (snd s w) = Claimed \<Longrightarrow>
     fst (fold (outbox_step ctx) (concat (map (\<lambda>r. row_actions w (fates (ob_id r))) rows)) s) = snd (process_all ctx fates rows (fst s))"
proof (induction rows arbitrary: s)
  case (Cons r rows)
  let ?s = "fold (outbox_step ctx) (row_actions w (fates (ob_id r))) s"
  note one = safe_process_steps [OF Cons.prems, of ctx "fates (ob_id r)"]
  have "fst (fold (outbox_step ctx) (concat (map (\<lambda>r. row_actions w (fates (ob_id r))) rows)) ?s) = snd (process_all ctx fates rows (fst ?s))"
    by (rule Cons.IH) (simp_all add: one)
  then show ?case by (simp add: one split: prod.split)
qed simp

definition drain_actions :: "nat \<Rightarrow> int \<Rightarrow> int \<Rightarrow> nat \<Rightarrow> nat list \<Rightarrow> (nat \<Rightarrow> fate) \<Rightarrow> world \<Rightarrow> action list" where
  "drain_actions w now ttl batch locked fates W = Claim w now ttl batch locked
     # concat (map (\<lambda>r. row_actions w (fates (ob_id r))) (fst (claim_rows now ttl batch locked W)))"

text \<open>
  The loop of one drain, from its claim to its last row, does to the table and to the destinations
  exactly what an idle relay does by claiming and then taking each row through its three steps; so
  all that holds under crashes and overlapping relays holds of it.
\<close>

lemma drain_is_steps:
  assumes "rl_todo (relays w) = []"
  shows "fst (fold (outbox_step ctx) (drain_actions w now ttl batch locked fates W) (W, relays))
     = snd (drain_tasks_outbox ctx now ttl batch locked fates W)"
proof -
  obtain rows W1 where c: "claim_rows now ttl batch locked W = (rows, W1)" by fastforce
  let ?s = "(W1, relays (w := \<lparr>rl_todo = rows, rl_stage = Claimed\<rparr>))"
  have "fst (fold (outbox_step ctx) (concat (map (\<lambda>r. row_actions w (fates (ob_id r))) rows)) ?s) = snd (process_all ctx fates rows (fst ?s))"
    by (rule process_all_steps) simp_all
  then show ?thesis
    using c assms by (simp add: drain_actions_def drain_tasks_outbox_def on_relay_def)
qed

end
