(* ===== verification/Outbox_Settle.thy ===== *)
theory Outbox_Settle
  imports Outbox_Valid Outbox_Correct
begin

text \<open>
  What becomes of a committed row: an admitted one is never given up, under any interleaving, and a
  backlog is worked off; what the payload schema does not admit is never sent.
\<close>

section \<open>Nothing sound is quarantined\<close>

definition admissible :: "drain_ctx \<Rightarrow> content \<Rightarrow> bool" where
  "admissible ctx c \<longleftrightarrow> admitted c \<and> oc_cabinet c = dc_host ctx \<and> destination_of c \<in> set (dc_adapters ctx)
     \<and> dc_registry ctx ''tasks'' ''task-event'' 1 = Schema task_event_schema"

lemma admissible_prepares:
  assumes "admissible ctx c" "ulid_shaped i" "four_digit_day (now div 1000000 div 86400)"
  shows "prepare ctx c i now = Inr (destination_of c, build_dispatch_fields c i (utc_second now))"
  using envelope_valid [where files = "dc_registry ctx", OF _ _ assms(2,3)] assms(1)
  by (simp add: admissible_def prepare_def build_dispatch_fields_def cabinet_backstop_def raise_if_def)

text \<open>Adapters raise no validation error of their own, and calls are made in the four-digit years.\<close>

fun fair :: "action \<Rightarrow> bool" where
  "fair (Call w now ca) \<longleftrightarrow> ca_raised ca \<noteq> Some Relay_Validation \<and> four_digit_day (now div 1000000 div 86400)"
| "fair _ \<longleftrightarrow> True"

definition minted :: "world \<Rightarrow> bool" where
  "minted W \<longleftrightarrow> (\<forall>x \<in> set (wd_rows W). \<forall>i. ob_event_id x = Some i \<longrightarrow> ulid_shaped i)"

definition not_given_up :: "drain_ctx \<Rightarrow> world \<Rightarrow> bool" where
  "not_given_up ctx W \<longleftrightarrow> (\<forall>x \<in> set (wd_rows W). admissible ctx (ob_content x) \<longrightarrow> ob_terminal x = None)"

definition relay_fair :: "drain_ctx \<Rightarrow> relay \<Rightarrow> bool" where
  "relay_fair ctx l \<longleftrightarrow> (\<forall>r rs. rl_todo l = r # rs \<longrightarrow> rl_stage l = Failed Validation_Class \<longrightarrow> \<not> admissible ctx (ob_content r))"

definition fair_ok :: "drain_ctx \<Rightarrow> system \<Rightarrow> bool" where
  "fair_ok ctx s \<longleftrightarrow> system_ok s \<and> minted (fst s) \<and> not_given_up ctx (fst s) \<and> (\<forall>w. relay_fair ctx (snd s w))"

definition fair_step :: "drain_ctx \<Rightarrow> relay \<Rightarrow> world \<Rightarrow> relay \<times> world \<Rightarrow> bool" where
  "fair_step ctx l W lW \<longleftrightarrow> (table_ok W \<longrightarrow> relay_ok W l \<longrightarrow> minted W \<longrightarrow> not_given_up ctx W \<longrightarrow> relay_fair ctx l
     \<longrightarrow> minted (snd lW) \<and> not_given_up ctx (snd lW) \<and> relay_fair ctx (fst lW))"

lemma backfill_world: "backfill_event_id i r W = (res, W') \<Longrightarrow> W' = W \<or> W' = update_row (ob_id r) (\<lambda>x. x\<lparr>ob_event_id := Some i\<rparr>) W"
  by (auto simp: backfill_event_id_def split: option.splits list.splits if_splits)

lemma backfill_raise: "backfill_event_id i r W = (Inl e, W') \<Longrightarrow> e = Other_Exception"
  by (auto simp: backfill_event_id_def split: option.splits list.splits if_splits)

lemma minted_update: "minted W \<Longrightarrow> (\<And>x j. ob_event_id (f x) = Some j \<Longrightarrow> ob_event_id x \<noteq> Some j \<Longrightarrow> ulid_shaped j) \<Longrightarrow> minted (update_row i f W)"
  unfolding minted_def by auto

lemma given_up_update:
  assumes "not_given_up ctx W" "\<And>x. ob_content (f x) = ob_content x"
    "\<And>x. x \<in> set (wd_rows W) \<Longrightarrow> ob_id x = i \<Longrightarrow> admissible ctx (ob_content x) \<Longrightarrow> ob_terminal (f x) = ob_terminal x"
  shows "not_given_up ctx (update_row i f W)"
  using assms unfolding not_given_up_def by auto

lemma backfill_fair: "fair_step ctx l W (backfill_step (mint_ulid ms random) l W)"
proof (cases "rl_todo l = [] \<or> rl_stage l \<noteq> Claimed")
  case True
  then have "backfill_step (mint_ulid ms random) l W = (l, W)"
    by (auto simp: backfill_step_def split: list.splits stage.splits)
  then show ?thesis by (simp add: fair_step_def)
next
  case False
  then obtain r rs where l: "rl_todo l = r # rs" "rl_stage l = Claimed" by (auto simp: neq_Nil_conv)
  let ?f = "\<lambda>x. x\<lparr>ob_event_id := Some (mint_ulid ms random)\<rparr>"
  obtain res W' where b: "backfill_event_id (mint_ulid ms random) r W = (res, W')" by fastforce
  have "minted W \<longrightarrow> not_given_up ctx W \<longrightarrow> minted W' \<and> not_given_up ctx W'"
    using backfill_world [OF b] minted_update [of W ?f "ob_id r"] given_up_update [of ctx W ?f "ob_id r"] mint_ulid_shaped by auto
  moreover have "relay_fair ctx (fst (backfill_step (mint_ulid ms random) l W)) \<and> snd (backfill_step (mint_ulid ms random) l W) = W'"
    using b l backfill_raise [of _ r W] by (cases res) (auto simp: backfill_step_def relay_fair_def classify_failure_def)
  ultimately show ?thesis by (simp add: fair_step_def)
qed

lemma call_fair:
  assumes "ca_raised ca \<noteq> Some Relay_Validation" "four_digit_day (now div 1000000 div 86400)"
  shows "fair_step ctx l W (call_step ctx now ca l W)"
proof (cases "rl_todo l = [] \<or> (\<forall>i. rl_stage l \<noteq> Has_Id i)")
  case True
  then have "call_step ctx now ca l W = (l, W)"
    by (auto simp: call_step_def split: list.splits stage.splits)
  then show ?thesis by (simp add: fair_step_def)
next
  case False
  then obtain r rs i where l: "rl_todo l = r # rs" "rl_stage l = Has_Id i" by (auto simp: neq_Nil_conv)
  show ?thesis
    unfolding fair_step_def
  proof (intro impI)
    assume a: "table_ok W" "relay_ok W l" "minted W" "not_given_up ctx W" "relay_fair ctx l"
    from relay_row_id [OF a(2) l] obtain x where x: "x \<in> set (wd_rows W)" "copy_of r x" "ob_event_id x = Some i" by blast
    then have i: "ulid_shaped i" using a(3) by (simp add: minted_def)
    have keep: "minted (perform ca d m t W)" "not_given_up ctx (perform ca d m t W)" for d m t
      using a(3,4) by (simp_all add: minted_def not_given_up_def)
    show "minted (snd (call_step ctx now ca l W)) \<and> not_given_up ctx (snd (call_step ctx now ca l W)) \<and> relay_fair ctx (fst (call_step ctx now ca l W))"
    proof (cases "prepare ctx (ob_content r) i now")
      case (Inl e)
      then have "\<not> admissible ctx (ob_content r)" using admissible_prepares [OF _ i assms(2)] by auto
      then show ?thesis using Inl a(3,4) l by (simp add: call_step_def relay_fair_def)
    next
      case (Inr dm)
      have "classify_failure e \<noteq> Validation_Class" if "ca_raised ca = Some e" for e
        using that assms(1) by (auto simp: classify_failure_def)
      then show ?thesis using Inr keep l by (cases dm) (simp add: call_step_def relay_fair_def split: option.split)
    qed
  qed
qed

lemma settle_fair: "fair_step ctx l W (settle_step ctx now l W)"
proof (cases "rl_todo l = [] \<or> \<not> (rl_stage l = Sent \<or> (\<exists>c. rl_stage l = Failed c))")
  case True
  then have "settle_step ctx now l W = (l, W)"
    by (auto simp: settle_step_def split: list.splits stage.splits)
  then show ?thesis by (simp add: fair_step_def)
next
  case False
  then obtain r rs where l: "rl_todo l = r # rs" "rl_stage l = Sent \<or> (\<exists>c. rl_stage l = Failed c)" by (auto simp: neq_Nil_conv)
  show ?thesis
    unfolding fair_step_def
  proof (intro impI)
    assume a: "table_ok W" "relay_ok W l" "minted W" "not_given_up ctx W" "relay_fair ctx l"
    let ?d = "\<lambda>x. x\<lparr>ob_dispatched := Some now\<rparr>"
    have sent: "minted (update_row (ob_id r) ?d W)" "not_given_up ctx (update_row (ob_id r) ?d W)"
      by (rule minted_update [OF a(3)]; simp) (rule given_up_update [OF a(4)]; simp)
    have failed: "minted (update_row (ob_id r) f W) \<and> not_given_up ctx (update_row (ob_id r) f W)"
      if s: "rl_stage l = Failed c" and f: "f = (\<lambda>x. if c = Validation_Class \<and> dc_max ctx < ob_attempts r
        then x\<lparr>ob_terminal := Some now, ob_error := Some c\<rparr> else x\<lparr>ob_error := Some c\<rparr>)" for f c
    proof -
      obtain x where x: "x \<in> set (wd_rows W)" "copy_of r x" using relay_copy [OF a(2) l(1)] by blast
      have "ob_terminal (f y) = ob_terminal y" if y: "y \<in> set (wd_rows W)" "ob_id y = ob_id r" "admissible ctx (ob_content y)" for y
      proof -
        have "y = x" using same_row [OF a(1) y(1) x(1)] y(2) x(2) by (simp add: copy_of_def)
        then have "admissible ctx (ob_content r)" using y(3) x(2) by (simp add: copy_of_def)
        then have "c \<noteq> Validation_Class" using a(5) l(1) s by (auto simp: relay_fair_def)
        then show ?thesis by (simp add: f)
      qed
      then have "not_given_up ctx (update_row (ob_id r) f W)"
        by (intro given_up_update [OF a(4)]) (simp_all add: f)
      moreover have "minted (update_row (ob_id r) f W)" by (rule minted_update [OF a(3)]) (simp add: f split: if_splits)
      ultimately show ?thesis by blast
    qed
    from l(2) show "minted (snd (settle_step ctx now l W)) \<and> not_given_up ctx (snd (settle_step ctx now l W)) \<and> relay_fair ctx (fst (settle_step ctx now l W))"
      using l(1) sent failed by (auto simp: settle_step_def record_dispatched_def mark_failure_def Let_def relay_fair_def)
  qed
qed

lemma on_relay_fair:
  assumes "fair_ok ctx s" "system_ok (on_relay w f s)" "fair_step ctx (snd s w) (fst s) (f (snd s w) (fst s))"
  shows "fair_ok ctx (on_relay w f s)"
proof -
  obtain l W where f: "f (snd s w) (fst s) = (l, W)" by fastforce
  then have "minted W" "not_given_up ctx W" "relay_fair ctx l"
    using assms(1,3) by (simp_all add: fair_ok_def fair_step_def system_ok_def)
  then show ?thesis using f assms(1,2) by (auto simp: fair_ok_def on_relay_def)
qed

lemma claim_fair: "fair_step ctx l W (case claim_rows now ttl batch locked W of (rows, W1) \<Rightarrow> (\<lparr>rl_todo = rows, rl_stage = Claimed\<rparr>, W1))"
  by (auto simp: fair_step_def claim_rows_def Let_def minted_def not_given_up_def relay_fair_def claimed_def)

lemma fair_keeps: "fair_ok ctx s \<Longrightarrow> fair a \<Longrightarrow> fair_ok ctx (outbox_step ctx a s)"
proof -
  assume s: "fair_ok ctx s" and a: "fair a"
  have ok: "system_ok (outbox_step ctx a s)" using s step_keeps by (simp add: fair_ok_def)
  show ?thesis
  proof (cases a)
    case (Capture c)
    then show ?thesis using s ok
      by (auto simp: fair_ok_def capture_def minted_def not_given_up_def fresh_row_def)
  next
    case (Claim w now ttl batch locked)
    then show ?thesis using ok on_relay_fair [OF s] claim_fair by (simp add: fair_step_def)
  next
    case (Backfill w ms random)
    then show ?thesis using ok on_relay_fair [OF s] backfill_fair by simp
  next
    case (Call w now ca)
    then show ?thesis using a ok on_relay_fair [OF s] call_fair by simp
  next
    case (Settle w now)
    then show ?thesis using ok on_relay_fair [OF s] settle_fair by simp
  next
    case (Crash w)
    then show ?thesis using ok on_relay_fair [OF s, of w "\<lambda>l W. (idle, W)"] by (simp add: fair_step_def relay_fair_def idle_def)
  qed
qed

lemma fair_run: "list_all fair acts \<Longrightarrow> fair_ok ctx (run ctx acts)"
proof (induction acts rule: rev_induct)
  case Nil
  show ?case using run_ok [of ctx "[]"] by (simp add: fair_ok_def run_def minted_def not_given_up_def relay_fair_def idle_def)
next
  case (snoc a acts)
  then show ?case using fair_keeps [of ctx "run ctx acts" a] by (simp add: run_def)
qed

text \<open>Every row was captured, and what was captured stays.\<close>

definition contents :: "world \<Rightarrow> content list" where
  "contents W = map ob_content (wd_rows W)"

lemma contents_map: "(\<And>x. ob_content (f x) = ob_content x) \<Longrightarrow> contents (update_row i f W) = contents W"
  by (simp add: contents_def)

lemma contents_step: "contents (fst (outbox_step ctx a s))
    = (case a of Capture c \<Rightarrow> contents (capture c (fst s)) | _ \<Rightarrow> contents (fst s))"
proof (cases a)
  case (Claim w now ttl batch locked)
  then show ?thesis
    by (auto simp: on_relay_def claim_rows_def Let_def contents_def claimed_def split: prod.splits if_splits)
next
  case (Backfill w ms random)
  obtain l W where f: "backfill_step (mint_ulid ms random) (snd s w) (fst s) = (l, W)" by fastforce
  then have "contents W = contents (fst s)"
    by (auto simp: backfill_step_def backfill_event_id_def contents_map
        split: list.splits stage.splits option.splits prod.splits sum.splits if_splits)
  then show ?thesis using Backfill f by (simp add: on_relay_def)
next
  case (Call w now ca)
  obtain l W where f: "call_step ctx now ca (snd s w) (fst s) = (l, W)" by fastforce
  then have "contents W = contents (fst s)"
    by (auto simp: call_step_def contents_def split: list.splits stage.splits prod.splits sum.splits)
  then show ?thesis using Call f by (simp add: on_relay_def)
next
  case (Settle w now)
  obtain l W where f: "settle_step ctx now (snd s w) (fst s) = (l, W)" by fastforce
  then have "contents W = contents (fst s)"
    by (auto simp: settle_step_def record_dispatched_def mark_failure_def Let_def contents_map split: list.splits stage.splits)
  then show ?thesis using Settle f by (simp add: on_relay_def)
qed (simp_all add: on_relay_def)

definition captured :: "action list \<Rightarrow> content set" where
  "captured acts = {c. Capture c \<in> set acts}"

lemma contents_run: "set (contents (fst (run ctx acts))) \<subseteq> captured acts
    \<and> oc_key ` captured acts \<subseteq> oc_key ` set (contents (fst (run ctx acts)))"
proof (induction acts rule: rev_induct)
  case Nil
  show ?case by (simp add: run_def contents_def captured_def)
next
  case (snoc a acts)
  have run: "run ctx (acts @ [a]) = outbox_step ctx a (run ctx acts)" by (simp add: run_def)
  show ?case
  proof (cases "\<exists>c. a = Capture c")
    case True
    then obtain c where c: "a = Capture c" by blast
    have "captured (acts @ [a]) = insert c (captured acts)" by (auto simp: captured_def c)
    moreover have "contents (fst (run ctx (acts @ [a]))) = (if oc_key c \<in> oc_key ` set (contents (fst (run ctx acts)))
        then contents (fst (run ctx acts)) else contents (fst (run ctx acts)) @ [c])"
      unfolding run by (auto simp: c contents_def capture_def fresh_row_def)
    ultimately show ?thesis using snoc by auto
  next
    case False
    then have "captured (acts @ [a]) = captured acts" by (auto simp: captured_def)
    moreover have "contents (fst (run ctx (acts @ [a]))) = contents (fst (run ctx acts))"
      unfolding run contents_step using False by (simp split: action.split)
    ultimately show ?thesis using snoc by simp
  qed
qed

text \<open>
  C28: an acknowledged mutation is not lost. Whatever relays run, die and overlap, however often
  transports fail: a row that was committed with its task, and that the bounds admit, stays in the
  table unchanged and is never given up; it is either sent, with its own identifier, or still
  pending, to be claimed again when its last claim is old enough.
\<close>

theorem acknowledged_never_lost:
  fixes ctx :: drain_ctx and acts :: "action list"
  defines "W \<equiv> fst (run ctx acts)"
  assumes "list_all fair acts" "Capture c \<in> set acts" "admissible ctx c"
    and "\<forall>c'. Capture c' \<in> set acts \<longrightarrow> oc_key c' = oc_key c \<longrightarrow> c' = c"
  shows "\<exists>x \<in> set (wd_rows W). ob_content x = c \<and> ob_terminal x = None
    \<and> (pending x \<or> (\<exists>ef \<in> set (wd_effects W). ef_token ef = oc_key c \<and> ob_event_id x = Some (envelope_id ef)))"
proof -
  have ok: "fair_ok ctx (run ctx acts)" by (rule fair_run [OF assms(2)])
  have "oc_key c \<in> oc_key ` set (contents W)" using contents_run [of ctx acts] assms(3) by (auto simp: captured_def W_def)
  then obtain x where x: "x \<in> set (wd_rows W)" "oc_key (ob_content x) = oc_key c" by (auto simp: contents_def)
  have "ob_content x \<in> captured acts" using contents_run [of ctx acts] x(1) by (auto simp: contents_def W_def)
  then have c: "ob_content x = c" using assms(5) x(2) by (simp add: captured_def)
  have "ob_terminal x = None" using ok x(1) c assms(4) by (simp add: fair_ok_def not_given_up_def W_def)
  moreover have "\<exists>ef \<in> set (wd_effects W). ef_token ef = oc_key c \<and> ob_event_id x = Some (envelope_id ef)" if d: "ob_dispatched x \<noteq> None"
  proof -
    have "table_ok W" using ok by (simp add: fair_ok_def system_ok_def W_def)
    from dispatched_sent [OF this x(1) d] obtain ef where ef: "ef \<in> set (wd_effects W)" "sent_for x ef" by blast
    then have "ef_token ef = oc_key c" by (simp add: sent_for_def c)
    then show ?thesis using ef envelope_id_sent by blast
  qed
  ultimately show ?thesis using x(1) c by (cases "ob_dispatched x = None") (auto simp only: pending_def)
qed

lemma sample_admissible: "admissible sample_ctx sample_content"
  using sample_admitted by (simp add: admissible_def) (simp add: sample_content_def sample_ctx_def destination_of_def)

lemma sample_prepares: "four_digit_day (now div 1000000 div 86400) \<Longrightarrow> prepare sample_ctx sample_content (mint_ulid ms random) now
    = Inr (''stream'', build_dispatch_fields sample_content (mint_ulid ms random) (utc_second now))"
  using admissible_prepares [OF sample_admissible mint_ulid_shaped] by (simp add: destination_of_def sample_content_def)

definition sample_acts :: "action list" where
  "sample_acts = [Capture sample_content, Claim 0 1784536860000000 120000000 100 [], Backfill 0 1784536860001 5,
     Call 0 1784536860000000 \<lparr>ca_happened = True, ca_raised = Some Relay_Transport\<rparr>, Crash 0]"

theorem acknowledged_never_lost_witness:
  "\<exists>x \<in> set (wd_rows (fst (run sample_ctx sample_acts))). ob_content x = sample_content \<and> ob_terminal x = None"
proof -
  have "list_all fair sample_acts" by code_simp
  moreover have "Capture sample_content \<in> set sample_acts"
    "\<forall>c'. Capture c' \<in> set sample_acts \<longrightarrow> oc_key c' = oc_key sample_content \<longrightarrow> c' = sample_content"
    by (simp_all add: sample_acts_def)
  ultimately show ?thesis using sample_admissible acknowledged_never_lost [of sample_acts sample_content sample_ctx] by blast
qed

section \<open>A backlog is worked off\<close>

text \<open>A row a drain has finished with: no longer pending, or with attempts left.\<close>

definition finished :: "drain_ctx \<Rightarrow> outbox_row \<Rightarrow> outbox_row \<Rightarrow> bool" where
  "finished ctx x y \<longleftrightarrow> ob_id y = ob_id x \<and> ob_attempts y = ob_attempts x \<and> (pending y \<longrightarrow> ob_attempts y \<le> dc_max ctx)"

text \<open>A good turn for a row: its call is accepted, and its minted identifier is nobody's.\<close>

definition mint_of :: "fate \<Rightarrow> string" where
  "mint_of ft = mint_ulid (ft_ms ft) (ft_random ft)"

definition good_fate :: "fate \<Rightarrow> world \<Rightarrow> bool" where
  "good_fate ft W \<longleftrightarrow> ca_raised (ft_call ft) = None \<and> four_digit_day (ft_now ft div 1000000 div 86400)
     \<and> Some (mint_of ft) \<notin> set (map ob_event_id (wd_rows W))"

definition row_map :: "nat \<Rightarrow> (outbox_row \<Rightarrow> outbox_row) \<Rightarrow> outbox_row list \<Rightarrow> outbox_row list" where
  "row_map i f rows = map (\<lambda>x. if ob_id x = i then f x else x) rows"

lemma update_row_map: "wd_rows (update_row i f W) = row_map i f (wd_rows W)"
  by (simp add: row_map_def)

lemma row_map_twice: "(\<And>x. ob_id (f x) = ob_id x) \<Longrightarrow> row_map i g (row_map i f rows) = row_map i (g \<circ> f) rows"
  by (simp add: row_map_def)

lemma row_map_id: "row_map i id rows = rows"
  by (auto simp: row_map_def intro: map_idI)

lemma prepare_Inl: "prepare ctx c i now = Inl e \<Longrightarrow> e = Relay_Validation"
  by (auto simp: prepare_def Let_def raise_if_def cabinet_backstop_def run_checks.simps split: option.splits if_splits)

lemma safe_process_finishes:
  assumes "row_at (ob_id r) W = Some r" "good_fate ft W"
  shows "\<exists>f. wd_rows (snd (safe_process ctx ft r W)) = row_map (ob_id r) f (wd_rows W) \<and> finished ctx r (f r)
    \<and> (\<forall>x. ob_id (f x) = ob_id x) \<and> (\<forall>x. ob_event_id (f x) = ob_event_id x \<or> ob_event_id (f x) = Some (mint_of ft))"
proof -
  let ?mint = "mint_ulid (ft_ms ft) (ft_random ft)"
  obtain i W1 where b: "backfill_event_id ?mint r W = (Inr i, W1)" and
      W1: "W1 = W \<or> W1 = update_row (ob_id r) (\<lambda>x. x\<lparr>ob_event_id := Some ?mint\<rparr>) W"
  proof -
    obtain res W1 where r: "backfill_event_id ?mint r W = (res, W1)" by fastforce
    moreover have "res \<noteq> Inl e" for e
      using r assms by (auto simp: backfill_event_id_def good_fate_def mint_of_def split: option.splits list.splits)
    ultimately show ?thesis using that backfill_world [OF r] by (cases res) blast+
  qed
  obtain g where g: "wd_rows W1 = row_map (ob_id r) g (wd_rows W)" "g = id \<or> g = (\<lambda>x. x\<lparr>ob_event_id := Some ?mint\<rparr>)"
    using W1 row_map_id update_row_map by metis
  have g': "ob_id (g x) = ob_id x" "ob_attempts (g x) = ob_attempts x" "ob_event_id (g x) = ob_event_id x \<or> ob_event_id (g x) = Some (mint_of ft)" for x
    using g(2) by (auto simp: mint_of_def)
  obtain h where h: "wd_rows (snd (safe_process ctx ft r W)) = row_map (ob_id r) h (wd_rows W1)"
      "finished ctx r (h (g r))" "\<And>x. ob_id (h x) = ob_id x" "\<And>x. ob_event_id (h x) = ob_event_id x"
  proof (cases "prepare ctx (ob_content r) i (ft_now ft)")
    case (Inl e)
    let ?t = "dc_max ctx < ob_attempts r"
    let ?h = "\<lambda>x. if ?t then x\<lparr>ob_terminal := Some (ft_now ft), ob_error := Some Validation_Class\<rparr> else x\<lparr>ob_error := Some Validation_Class\<rparr>"
    have "wd_rows (snd (safe_process ctx ft r W)) = row_map (ob_id r) ?h (wd_rows W1)"
      using Inl b prepare_Inl [OF Inl]
      by (simp add: safe_process_def process_row_def mark_failure_def classify_failure_def Let_def row_map_def)
    moreover have "finished ctx r (?h (g r))" using g' by (simp add: finished_def pending_def)
    ultimately show ?thesis by (rule that) simp_all
  next
    case (Inr dm)
    let ?h = "\<lambda>x. x\<lparr>ob_dispatched := Some (ft_now ft)\<rparr>"
    have "wd_rows (snd (safe_process ctx ft r W)) = row_map (ob_id r) ?h (wd_rows W1)"
      using Inr b assms(2)
      by (cases dm) (simp add: safe_process_def process_row_def good_fate_def record_dispatched_def Let_def row_map_def)
    moreover have "finished ctx r (?h (g r))" using g' by (simp add: finished_def pending_def)
    ultimately show ?thesis by (rule that) simp_all
  qed
  show ?thesis
    using h g g' row_map_twice [of g "ob_id r" h] by (intro exI [of _ "h \<circ> g"]) auto
qed

lemma row_at_row_map: "i \<noteq> j \<Longrightarrow> (\<And>x. ob_id (f x) = ob_id x) \<Longrightarrow> find (\<lambda>x. ob_id x = j) (row_map i f rows) = find (\<lambda>x. ob_id x = j) rows"
  by (induction rows) (simp_all add: row_map_def)

lemma row_at_distinct: "distinct (map ob_id (wd_rows W)) \<Longrightarrow> x \<in> set (wd_rows W) \<Longrightarrow> row_at (ob_id x) W = Some y \<Longrightarrow> x = y"
  by (metis row_at_Some distinct_map inj_on_eq_iff)

lemma process_all_finishes:
  assumes "\<forall>r \<in> set rows. row_at (ob_id r) W = Some r \<and> good_fate (fates (ob_id r)) W"
    and "distinct (map ob_id rows)" "distinct (map (\<lambda>r. mint_of (fates (ob_id r))) rows)" "distinct (map ob_id (wd_rows W))"
  shows "\<exists>g. wd_rows (snd (process_all ctx fates rows W)) = map g (wd_rows W)
    \<and> (\<forall>x \<in> set (wd_rows W). ob_id (g x) = ob_id x \<and> (if ob_id x \<in> ob_id ` set rows then finished ctx x (g x) else g x = x))"
  using assms
proof (induction rows arbitrary: W)
  case Nil
  show ?case by (intro exI [of _ id]) simp
next
  case (Cons r rs)
  let ?ft = "fates (ob_id r)" and ?W1 = "snd (safe_process ctx (fates (ob_id r)) r W)"
  have r: "row_at (ob_id r) W = Some r" "good_fate ?ft W" using Cons.prems(1) by simp_all
  obtain f where f: "wd_rows ?W1 = row_map (ob_id r) f (wd_rows W)" "finished ctx r (f r)" "\<And>x. ob_id (f x) = ob_id x"
      "\<And>x. ob_event_id (f x) = ob_event_id x \<or> ob_event_id (f x) = Some (mint_of ?ft)"
    using safe_process_finishes [OF r, of ctx] by blast
  have "row_at (ob_id r') ?W1 = Some r' \<and> good_fate (fates (ob_id r')) ?W1" if r': "r' \<in> set rs" for r'
  proof -
    have "ob_id r \<noteq> ob_id r'" using Cons.prems(2) r' by auto
    moreover have "mint_of (fates (ob_id r')) \<noteq> mint_of ?ft"
    proof
      assume "mint_of (fates (ob_id r')) = mint_of ?ft"
      moreover have "mint_of (fates (ob_id r')) \<in> set (map (\<lambda>r. mint_of (fates (ob_id r))) rs)"
        using r' by (simp only: set_map) (rule imageI)
      ultimately show False using Cons.prems(3) by simp
    qed
    moreover have "set (map ob_event_id (wd_rows ?W1)) \<subseteq> insert (Some (mint_of ?ft)) (set (map ob_event_id (wd_rows W)))"
      using f(4) by (fastforce simp: f(1) row_map_def)
    moreover have W: "row_at (ob_id r') W = Some r'" "good_fate (fates (ob_id r')) W" using Cons.prems(1) r' by simp_all
    ultimately have "good_fate (fates (ob_id r')) ?W1" unfolding good_fate_def by blast
    moreover have "row_at (ob_id r') ?W1 = row_at (ob_id r') W"
      unfolding row_at_def f(1) by (rule row_at_row_map [OF \<open>ob_id r \<noteq> ob_id r'\<close> f(3)])
    ultimately show ?thesis using W(1) by simp
  qed
  moreover have ids: "map ob_id (wd_rows ?W1) = map ob_id (wd_rows W)" by (simp add: f(1) row_map_def f(3))
  ultimately obtain g where g: "wd_rows (snd (process_all ctx fates rs ?W1)) = map g (wd_rows ?W1)"
      "\<forall>x \<in> set (wd_rows ?W1). ob_id (g x) = ob_id x \<and> (if ob_id x \<in> ob_id ` set rs then finished ctx x (g x) else g x = x)"
    using Cons.IH [of ?W1] Cons.prems(2-4) by auto
  let ?g = "\<lambda>x. g (if ob_id x = ob_id r then f x else x)"
  have "wd_rows (snd (process_all ctx fates (r # rs) W)) = map ?g (wd_rows W)"
    using g(1) by (auto simp: f(1) row_map_def comp_def split: prod.split)
  moreover have "ob_id (?g x) = ob_id x \<and> (if ob_id x \<in> ob_id ` set (r # rs) then finished ctx x (?g x) else ?g x = x)"
    if x: "x \<in> set (wd_rows W)" for x
  proof (cases "ob_id x = ob_id r")
    case True
    then have "x = r" using row_at_distinct [OF Cons.prems(4) x] r(1) by simp
    moreover have "f r \<in> set (wd_rows ?W1)" using x \<open>x = r\<close> by (auto simp: f(1) row_map_def)
    moreover have "ob_id r \<notin> ob_id ` set rs" using Cons.prems(2) by simp
    ultimately show ?thesis using g(2) f(2,3) by auto
  next
    case False
    then have "x \<in> set (wd_rows ?W1)" using x by (auto simp: f(1) row_map_def)
    then show ?thesis using g(2) False by auto
  qed
  ultimately show ?case by blast
qed

text \<open>What a backlog costs: a pending row needs at most as many claims as it has attempts left, and one.\<close>

definition cost :: "drain_ctx \<Rightarrow> outbox_row \<Rightarrow> nat" where
  "cost ctx x = (if pending x then max 1 (nat (dc_max ctx + 1 - ob_attempts x)) else 0)"

definition backlog :: "drain_ctx \<Rightarrow> world \<Rightarrow> nat" where
  "backlog ctx W = sum_list (map (cost ctx) (wd_rows W))"

text \<open>The claims of the pending rows have run out.\<close>

definition expired :: "int \<Rightarrow> int \<Rightarrow> outbox_row \<Rightarrow> bool" where
  "expired now ttl x \<longleftrightarrow> (case ob_claimed x of None \<Rightarrow> True | Some t \<Rightarrow> t < now - ttl)"

definition good_drain :: "int \<Rightarrow> int \<Rightarrow> (nat \<Rightarrow> fate) \<Rightarrow> world \<Rightarrow> bool" where
  "good_drain now ttl fates W \<longleftrightarrow>
     list_all (\<lambda>x. (pending x \<longrightarrow> expired now ttl x) \<and> good_fate (fates (ob_id x)) W) (wd_rows W)
     \<and> distinct (map (\<lambda>x. mint_of (fates (ob_id x))) (wd_rows W))"

lemma cost_finished: "pending x \<Longrightarrow> finished ctx (claimed now x) y \<Longrightarrow> cost ctx y < cost ctx x"
  by (auto simp: cost_def finished_def claimed_def)

lemma cost_zero: "cost ctx x = 0 \<longleftrightarrow> \<not> pending x"
  by (simp add: cost_def)

lemma backlog_zero: "backlog ctx W = 0 \<longleftrightarrow> (\<forall>x \<in> set (wd_rows W). \<not> pending x)"
  by (simp add: backlog_def cost_zero)

lemma sum_list_less:
  assumes "\<And>x. x \<in> set xs \<Longrightarrow> f (g x) \<le> (f x :: nat)" "x \<in> set xs" "f (g x) < f x"
  shows "sum_list (map f (map g xs)) < sum_list (map f xs)"
  using assms
proof (induction xs)
  case (Cons y ys)
  have le: "sum_list (map f (map g ys)) \<le> sum_list (map f ys)"
    using Cons.prems(1) sum_list_mono [of ys "\<lambda>x. f (g x)" f] by (simp add: comp_def)
  show ?case
  proof (cases "x = y")
    case True
    then show ?thesis using le Cons.prems(3) by simp
  next
    case False
    then have "sum_list (map f (map g ys)) < sum_list (map f ys)" using Cons by simp
    then show ?thesis using Cons.prems(1) [of y] by simp
  qed
qed simp

lemma drain_shrinks:
  assumes ids: "distinct (map ob_id (wd_rows W))" and good: "good_drain now ttl fates W" and batch: "1 \<le> batch"
    and W': "W' = snd (drain_tasks_outbox ctx now ttl batch [] fates W)"
  shows "map ob_id (wd_rows W') = map ob_id (wd_rows W) \<and> (backlog ctx W = 0 \<longrightarrow> backlog ctx W' = 0)
    \<and> (backlog ctx W \<noteq> 0 \<longrightarrow> backlog ctx W' < backlog ctx W)"
proof -
  let ?open = "filter (claimable now ttl) (wd_rows W)" and ?ids = "chosen now ttl batch [] W"
  let ?c = "\<lambda>x. if ob_id x \<in> set ?ids then claimed now x else x"
  let ?W1 = "W\<lparr>wd_rows := map ?c (wd_rows W)\<rparr>" and ?rows = "filter (\<lambda>r. ob_id r \<in> set ?ids) (map ?c (wd_rows W))"
  have rows1: "wd_rows ?W1 = map ?c (wd_rows W)" by simp
  have claim: "claim_rows now ttl batch [] W = (?rows, ?W1)"
    by (simp add: claim_rows_def Let_def)
  have chosen: "?ids = take batch (map ob_id ?open)" by (simp add: chosen_def)
  have picked: "claimable now ttl x" if x: "x \<in> set (wd_rows W)" "ob_id x \<in> set ?ids" for x
  proof -
    have "ob_id x \<in> set (map ob_id ?open)" using x(2) by (simp only: chosen) (rule in_set_takeD)
    then obtain y where "y \<in> set (wd_rows W)" "claimable now ttl y" "ob_id y = ob_id x" by auto
    then show ?thesis using ids x(1) by (metis distinct_map inj_on_eq_iff)
  qed
  have cid: "ob_id (?c x) = ob_id x" "ob_event_id (?c x) = ob_event_id x" for x by (simp_all add: claimed_def)
  have ids1: "map ob_id (map ?c (wd_rows W)) = map ob_id (wd_rows W)" using cid by simp
  have fates1: "map (\<lambda>r. mint_of (fates (ob_id r))) (map ?c (wd_rows W)) = map (\<lambda>r. mint_of (fates (ob_id r))) (wd_rows W)" using cid by simp
  have at: "row_at (ob_id r) ?W1 = Some r" if r: "r \<in> set ?rows" for r
  proof -
    have "set ?rows \<subseteq> set (map ?c (wd_rows W))" by (rule filter_is_subset)
    then have "r \<in> set (map ?c (wd_rows W))" using r by (rule subsetD)
    then have m: "r \<in> set (wd_rows ?W1)" by (simp only: rows1)
    then have "row_at (ob_id r) ?W1 \<noteq> None" by (auto simp: row_at_def find_None_iff)
    then obtain y where y: "row_at (ob_id r) ?W1 = Some y" by blast
    have "distinct (map ob_id (wd_rows ?W1))" using ids by (simp only: ids1 rows1)
    from row_at_distinct [OF this m y] y show ?thesis by simp
  qed
  have fate: "good_fate (fates (ob_id r)) ?W1" if r: "r \<in> set ?rows" for r
  proof -
    have "set ?rows \<subseteq> set (map ?c (wd_rows W))" by (rule filter_is_subset)
    then have "r \<in> set (map ?c (wd_rows W))" using r by (rule subsetD)
    then obtain x where x: "x \<in> set (wd_rows W)" "r = ?c x" unfolding set_map by (rule imageE)
    have "ob_id r = ob_id x" unfolding x(2) by (rule cid(1))
    then have "good_fate (fates (ob_id r)) W" using x(1) good by (simp add: good_drain_def list_all_iff)
    moreover have "map ob_event_id (wd_rows ?W1) = map ob_event_id (wd_rows W)" using cid(2) by simp
    ultimately show ?thesis by (simp only: good_fate_def simp_thms)
  qed
  have "distinct (map ob_id ?rows)" by (rule distinct_map_filter) (simp only: ids1 ids)
  moreover have "distinct (map (\<lambda>r. mint_of (fates (ob_id r))) ?rows)"
    by (rule distinct_map_filter) (use good in \<open>simp only: fates1 good_drain_def\<close>)
  moreover have "distinct (map ob_id (wd_rows ?W1))"
    using ids by (simp only: ids1 rows1)
  moreover have "\<forall>r \<in> set ?rows. row_at (ob_id r) ?W1 = Some r \<and> good_fate (fates (ob_id r)) ?W1"
    using at fate by blast
  ultimately have "\<exists>g. wd_rows (snd (process_all ctx fates ?rows ?W1)) = map g (wd_rows ?W1)
    \<and> (\<forall>x \<in> set (wd_rows ?W1). ob_id (g x) = ob_id x \<and> (if ob_id x \<in> ob_id ` set ?rows then finished ctx x (g x) else g x = x))"
    by (intro process_all_finishes)
  then obtain g where
    g: "wd_rows W' = map g (map ?c (wd_rows W))"
      "\<forall>x \<in> set (map ?c (wd_rows W)). ob_id (g x) = ob_id x \<and> (if ob_id x \<in> ob_id ` set ?rows then finished ctx x (g x) else g x = x)"
    unfolding rows1 by (auto simp only: W' drain_tasks_outbox_def claim prod.case)
  have one: "ob_id (g (?c x)) = ob_id x \<and> (if ob_id x \<in> set ?ids then cost ctx (g (?c x)) < cost ctx x else g (?c x) = x)"
    if x: "x \<in> set (wd_rows W)" for x
  proof -
    have gx: "ob_id (g (?c x)) = ob_id (?c x) \<and> (if ob_id (?c x) \<in> ob_id ` set ?rows then finished ctx (?c x) (g (?c x)) else g (?c x) = ?c x)"
      using g(2) x by simp
    have gid: "ob_id (g (?c x)) = ob_id x" by (rule trans [OF conjunct1 [OF gx] cid(1)])
    show ?thesis
    proof (cases "ob_id x \<in> set ?ids")
      case True
      moreover have "ob_id (claimed now x) = ob_id x" by (simp add: claimed_def)
      ultimately have "?c x \<in> set ?rows" using x by auto
      then have "ob_id (?c x) \<in> ob_id ` set ?rows" by (rule imageI)
      then have "finished ctx (claimed now x) (g (?c x))" using gx True by simp
      moreover have "pending x" using picked [OF x True] by (simp add: claimable_def)
      ultimately have "cost ctx (g (?c x)) < cost ctx x" by (intro cost_finished)
      then show ?thesis using gid True by (simp only: if_True simp_thms)
    next
      case False
      then have "ob_id (?c x) \<notin> ob_id ` set ?rows" using cid(1) by auto
      then have "g (?c x) = ?c x" using gx by (simp only: if_False)
      then show ?thesis using gid False by (simp only: if_False simp_thms)
    qed
  qed
  have le: "cost ctx (g (?c x)) \<le> cost ctx x" if "x \<in> set (wd_rows W)" for x
    using one [OF that] by (auto split: if_splits)
  have sum: "backlog ctx W' = sum_list (map (cost ctx) (map (\<lambda>x. g (?c x)) (wd_rows W)))"
    by (simp add: backlog_def g(1) comp_def)
  have "backlog ctx W' < backlog ctx W" if "backlog ctx W \<noteq> 0"
  proof -
    obtain p where "p \<in> set (wd_rows W)" "pending p" using \<open>backlog ctx W \<noteq> 0\<close> by (auto simp: backlog_zero)
    then have "p \<in> set ?open" using good by (auto simp: good_drain_def list_all_iff expired_def claimable_def)
    then obtain y ys where y: "?open = y # ys" by (cases ?open) auto
    then have "y \<in> set ?open" by simp
    then have "y \<in> set (wd_rows W)" by simp
    moreover have "ob_id y \<in> set ?ids" using batch unfolding chosen y by (cases batch) simp_all
    ultimately have "cost ctx (g (?c y)) < cost ctx y" using one [of y] by simp
    show ?thesis unfolding sum unfolding backlog_def
      by (rule sum_list_less [where g = "\<lambda>x. g (?c x)" and f = "cost ctx"]) (rule le, assumption, fact+)
  qed
  moreover have "backlog ctx W' \<le> backlog ctx W"
    unfolding sum unfolding backlog_def using le by (simp add: comp_def sum_list_mono)
  moreover have "map ob_id (wd_rows W') = map ob_id (wd_rows W)"
    using one by (simp add: g(1))
  ultimately show ?thesis by auto
qed

text \<open>Drains one after the other, each when the claims of the last have run out.\<close>

type_synonym round = "int \<times> (nat \<Rightarrow> fate)"

fun drains :: "drain_ctx \<Rightarrow> int \<Rightarrow> nat \<Rightarrow> round list \<Rightarrow> world \<Rightarrow> world" where
  "drains ctx ttl batch [] W = W"
| "drains ctx ttl batch ((now, fates) # ds) W = drains ctx ttl batch ds (snd (drain_tasks_outbox ctx now ttl batch [] fates W))"

fun good_drains :: "drain_ctx \<Rightarrow> int \<Rightarrow> nat \<Rightarrow> round list \<Rightarrow> world \<Rightarrow> bool" where
  "good_drains ctx ttl batch [] W \<longleftrightarrow> True"
| "good_drains ctx ttl batch ((now, fates) # ds) W \<longleftrightarrow> good_drain now ttl fates W
     \<and> good_drains ctx ttl batch ds (snd (drain_tasks_outbox ctx now ttl batch [] fates W))"

lemma drains_empty:
  "distinct (map ob_id (wd_rows W)) \<Longrightarrow> 1 \<le> batch \<Longrightarrow> good_drains ctx ttl batch ds W \<Longrightarrow> backlog ctx W \<le> length ds
     \<Longrightarrow> backlog ctx (drains ctx ttl batch ds W) = 0"
proof (induction ctx ttl batch ds W rule: drains.induct)
  case (2 ctx ttl batch now fates ds W)
  let ?W' = "snd (drain_tasks_outbox ctx now ttl batch [] fates W)"
  have "good_drain now ttl fates W" using 2(4) by simp
  note shrinks = drain_shrinks [OF 2(2) this 2(3) refl, of ctx]
  then have "distinct (map ob_id (wd_rows ?W'))" using 2(2) by simp
  moreover have "backlog ctx ?W' \<le> length ds" using shrinks 2(5) by (cases "backlog ctx W = 0") auto
  ultimately show ?case using 2 by simp
qed simp

text \<open>The drains are a continuation of the run that led to the table.\<close>

lemma drain_continues:
  assumes "good_drain now ttl fates (fst (run ctx acts))"
  shows "\<exists>more. fst (run ctx (acts @ more)) = snd (drain_tasks_outbox ctx now ttl batch [] fates (fst (run ctx acts)))
    \<and> list_all fair more \<and> (\<forall>c. Capture c \<notin> set more)"
proof -
  let ?W = "fst (run ctx acts)" and ?l = "(snd (run ctx acts))(0 := idle)"
  let ?more = "Crash 0 # drain_actions 0 now ttl batch [] fates ?W"
  have "run ctx (acts @ [Crash 0]) = (?W, ?l)"
    by (simp add: run_def on_relay_def)
  then have "fst (run ctx (acts @ ?more)) = fst (fold (outbox_step ctx) (drain_actions 0 now ttl batch [] fates ?W) (?W, ?l))"
    by (simp add: run_def)
  also have "\<dots> = snd (drain_tasks_outbox ctx now ttl batch [] fates ?W)"
    by (rule drain_is_steps) (simp add: idle_def)
  finally have "fst (run ctx (acts @ ?more)) = snd (drain_tasks_outbox ctx now ttl batch [] fates ?W)" .
  moreover have "good_fate (fates (ob_id r)) ?W" if r: "r \<in> set (fst (claim_rows now ttl batch [] ?W))" for r
  proof -
    obtain x where "x \<in> set (wd_rows ?W)" "ob_id r = ob_id x"
      using r by (auto simp: claim_rows_def Let_def claimed_def split: if_splits)
    then show ?thesis using assms by (simp add: good_drain_def list_all_iff)
  qed
  then have "list_all fair ?more"
    by (auto simp: drain_actions_def row_actions_def list_all_iff good_fate_def)
  moreover have "Capture c \<notin> set ?more" for c
    by (auto simp: drain_actions_def row_actions_def)
  ultimately show ?thesis by blast
qed

lemma drains_continue:
  "good_drains ctx ttl batch ds (fst (run ctx acts)) \<Longrightarrow>
     \<exists>more. fst (run ctx (acts @ more)) = drains ctx ttl batch ds (fst (run ctx acts)) \<and> list_all fair more \<and> (\<forall>c. Capture c \<notin> set more)"
proof (induction ds arbitrary: acts)
  case Nil
  show ?case by (intro exI [of _ "[]"]) simp
next
  case (Cons d ds)
  obtain now fates where d: "d = (now, fates)" by fastforce
  obtain m1 where m1: "fst (run ctx (acts @ m1)) = snd (drain_tasks_outbox ctx now ttl batch [] fates (fst (run ctx acts)))"
    "list_all fair m1" "\<forall>c. Capture c \<notin> set m1"
    using drain_continues Cons.prems d by fastforce
  then have "good_drains ctx ttl batch ds (fst (run ctx (acts @ m1)))" using Cons.prems d by simp
  from Cons.IH [OF this] obtain m2 where "fst (run ctx ((acts @ m1) @ m2)) = drains ctx ttl batch ds (fst (run ctx (acts @ m1)))"
    "list_all fair m2" "\<forall>c. Capture c \<notin> set m2" by blast
  then show ?case using m1 d by (intro exI [of _ "m1 @ m2"]) simp
qed

text \<open>
  C30: a backlog is worked off. After any history of captures, drains, failures and crashes, once the
  adapters answer again, as many drains as the backlog costs, each when the earlier claims have run
  out, leave no row pending; the rows the bounds admit have all been sent under their own
  identifier, whatever rows stood before them, and only rows that are not sound were given up.
\<close>

theorem backlog_drains:
  fixes ctx :: drain_ctx and acts :: "action list" and ttl :: int and batch :: nat and ds :: "round list"
  defines "W \<equiv> fst (run ctx acts)"
  defines "W' \<equiv> drains ctx ttl batch ds W"
  assumes "list_all fair acts" "1 \<le> batch" "good_drains ctx ttl batch ds W" "backlog ctx W \<le> length ds"
  shows "\<forall>x \<in> set (wd_rows W'). \<not> pending x
    \<and> (admissible ctx (ob_content x) \<longrightarrow> (\<exists>ef \<in> set (wd_effects W'). ef_token ef = oc_key (ob_content x) \<and> ob_event_id x = Some (envelope_id ef)))"
proof -
  obtain more where more: "fst (run ctx (acts @ more)) = W'" "list_all fair more"
    using drains_continue assms(5) unfolding W_def W'_def by blast
  have fair: "fair_ok ctx (run ctx (acts @ more))" using fair_run assms(3) more(2) by simp
  then have t: "table_ok W'" and kept: "not_given_up ctx W'" by (simp_all add: fair_ok_def system_ok_def more(1))
  have "system_ok (run ctx acts)" by (rule run_ok)
  then have "distinct (map ob_id (wd_rows W))" by (simp add: system_ok_def table_ok_def W_def)
  from drains_empty [OF this assms(4,5,6)] have over: "\<not> pending x" if "x \<in> set (wd_rows W')" for x
    using that by (simp add: backlog_zero W'_def)
  have "\<exists>ef \<in> set (wd_effects W'). ef_token ef = oc_key (ob_content x) \<and> ob_event_id x = Some (envelope_id ef)"
    if x: "x \<in> set (wd_rows W')" "admissible ctx (ob_content x)" for x
  proof -
    have "ob_terminal x = None" using kept x by (simp add: not_given_up_def)
    then have "ob_dispatched x \<noteq> None" using over [OF x(1)] by (simp add: pending_def)
    from dispatched_sent [OF t x(1) this] obtain ef where ef: "ef \<in> set (wd_effects W')" "sent_for x ef" by blast
    then have "ef_token ef = oc_key (ob_content x)" by (simp add: sent_for_def)
    then show ?thesis using ef envelope_id_sent by blast
  qed
  then show ?thesis using over by blast
qed

section \<open>Redelivery\<close>

text \<open>A row sent twice: the first relay lost the reply and died.\<close>

definition twice :: "action list" where
  "twice = [Capture sample_content, Claim 0 1784536860000000 120000000 100 [], Backfill 0 1784536860001 5,
     Call 0 1784536860000000 \<lparr>ca_happened = True, ca_raised = Some Relay_Transport\<rparr>, Crash 0,
     Claim 1 1784536990000000 120000000 100 [], Backfill 1 1784536990001 6,
     Call 1 1784536990000000 \<lparr>ca_happened = True, ca_raised = None\<rparr>, Settle 1 1784536990000000]"

lemma mint_cons: "\<exists>c cs. mint_ulid ms random = c # cs"
  using mint_ulid_shaped [of ms random] by (cases "mint_ulid ms random") (simp_all add: ulid_shaped_def)

lemma backfill_known: "ob_event_id r = Some (mint_ulid ms random) \<Longrightarrow> backfill_event_id i r W = (Inr (mint_ulid ms random), W)"
  using mint_cons [of ms random] by (auto simp: backfill_event_id_def)

lemma backfill_new: "ob_event_id r = None \<Longrightarrow> row_at (ob_id r) W = Some row \<Longrightarrow> ob_event_id row = None \<Longrightarrow> Some i \<notin> set (map ob_event_id (wd_rows W)) \<Longrightarrow>
    backfill_event_id i r W = (Inr i, update_row (ob_id r) (\<lambda>x. x\<lparr>ob_event_id := Some i\<rparr>) W)"
  by (simp add: backfill_event_id_def)

lemma sample_days: "four_digit_day (1784536860000000 div 1000000 div 86400)" "four_digit_day (1784536990000000 div 1000000 div 86400)"
  by code_simp+

lemmas run_eval = run_def on_relay_def capture_def fresh_row_def claim_rows_def chosen_def claimable_def pending_def claimed_def
  backfill_step_def row_at_def call_step_def settle_step_def perform_def record_dispatched_def Let_def idle_def backfill_known backfill_new

lemma twice_eval: "wd_effects (fst (run sample_ctx twice)) =
   [\<lparr>ef_destination = ''stream'', ef_message = build_dispatch_fields sample_content (mint_ulid 1784536860001 5) (utc_second 1784536860000000), ef_token = oc_key sample_content\<rparr>,
    \<lparr>ef_destination = ''stream'', ef_message = build_dispatch_fields sample_content (mint_ulid 1784536860001 5) (utc_second 1784536990000000), ef_token = oc_key sample_content\<rparr>]"
  using sample_days by (simp add: twice_def run_eval sample_prepares)

text \<open>
  C29: redelivery repeats the identifier. Whatever relays run, die and overlap, in any order of their
  steps: every effect carries the identifier that its row has committed; two effects carry the same
  identifier exactly when they are of the same row; and a row recorded as dispatched has an effect.
\<close>

theorem redelivery_same_id:
  fixes ctx :: drain_ctx and acts :: "action list"
  defines "W \<equiv> fst (run ctx acts)"
  shows "(\<forall>ef \<in> set (wd_effects W). (\<exists>x \<in> set (wd_rows W). oc_key (ob_content x) = ef_token ef \<and> ob_event_id x = Some (envelope_id ef))
      \<and> (\<forall>ef' \<in> set (wd_effects W). ef_token ef = ef_token ef' \<longleftrightarrow> envelope_id ef = envelope_id ef'))
    \<and> (\<forall>x \<in> set (wd_rows W). ob_dispatched x \<noteq> None \<longrightarrow> (\<exists>ef \<in> set (wd_effects W). ef_token ef = oc_key (ob_content x)))"
proof -
  have t: "table_ok W" using run_ok [of ctx acts] by (simp add: system_ok_def W_def)
  have "\<exists>x \<in> set (wd_rows W). oc_key (ob_content x) = ef_token ef \<and> ob_event_id x = Some (envelope_id ef)"
    if e: "ef \<in> set (wd_effects W)" for ef
  proof -
    obtain x where x: "x \<in> set (wd_rows W)" "sent_for x ef" using effect_row [OF t e] by blast
    then have "oc_key (ob_content x) = ef_token ef" by (simp add: sent_for_def)
    then show ?thesis using envelope_id_sent [OF x(2)] x(1) by blast
  qed
  moreover have "\<exists>ef \<in> set (wd_effects W). ef_token ef = oc_key (ob_content x)"
    if x: "x \<in> set (wd_rows W)" "ob_dispatched x \<noteq> None" for x
    using dispatched_sent [OF t x] by (auto simp: sent_for_def)
  ultimately show ?thesis using effects_same_row [OF t] by blast
qed

theorem redelivery_same_id_witness:
  "length (wd_effects (fst (run sample_ctx twice))) = 2
    \<and> envelope_id (wd_effects (fst (run sample_ctx twice)) ! 0) = envelope_id (wd_effects (fst (run sample_ctx twice)) ! 1)"
proof -
  let ?E = "wd_effects (fst (run sample_ctx twice))"
  have "?E ! 0 \<in> set ?E" "?E ! 1 \<in> set ?E" "ef_token (?E ! 0) = ef_token (?E ! 1)" "length ?E = 2" by (simp_all add: twice_eval)
  moreover have "\<forall>ef \<in> set ?E. \<forall>ef' \<in> set ?E. ef_token ef = ef_token ef' \<longleftrightarrow> envelope_id ef = envelope_id ef'"
    using redelivery_same_id [of sample_ctx twice] by blast
  ultimately show ?thesis by blast
qed

text \<open>
  C31: at least once becomes once. Whatever relays run, die and overlap, a consumer of a destination
  whose replay window has room for the table takes the event of every row dispatched there, and
  takes no event twice, however often it was redelivered.
\<close>

theorem consumed_once:
  fixes ctx :: drain_ctx and acts :: "action list"
  defines "W \<equiv> fst (run ctx acts)"
  assumes "1 \<le> capacity" "length (wd_rows W) \<le> capacity"
  shows "distinct (consume capacity [] (delivered d W))
    \<and> (\<forall>x \<in> set (wd_rows W). ob_dispatched x \<noteq> None \<and> destination_of (ob_content x) = d
         \<longrightarrow> the (ob_event_id x) \<in> set (consume capacity [] (delivered d W)))"
proof -
  have t: "table_ok W" using run_ok [of ctx acts] by (simp add: system_ok_def W_def)
  have once: "distinct (consume capacity [] (delivered d W))" "set (consume capacity [] (delivered d W)) = set (delivered d W)"
    using consume_once [OF assms(2), of "delivered d W"] card_delivered [OF t, of d] assms(3) by simp_all
  have "the (ob_event_id x) \<in> set (delivered d W)"
    if x: "x \<in> set (wd_rows W)" "ob_dispatched x \<noteq> None" "destination_of (ob_content x) = d" for x
  proof -
    obtain ef where ef: "ef \<in> set (wd_effects W)" "sent_for x ef" using dispatched_sent [OF t x(1,2)] by blast
    then show ?thesis using envelope_id_sent [OF ef(2)] x(3) by (auto simp: delivered_def sent_for_def)
  qed
  then show ?thesis using once by simp
qed

theorem consumed_once_witness:
  "distinct (consume 4 [] (delivered ''stream'' (fst (run sample_ctx twice))))"
proof -
  have "length (wd_rows (fst (run sample_ctx twice))) \<le> 4"
    using sample_days by (simp add: twice_def run_eval sample_prepares)
  then show ?thesis using consumed_once [of 4 sample_ctx twice "''stream''"] by simp
qed

definition one_try :: drain_ctx where
  "one_try = sample_ctx\<lparr>dc_max := 0\<rparr>"

definition one_round :: round where
  "one_round = (1784536860000000, \<lambda>_. \<lparr>ft_ms = 1784536860001, ft_random = 5, ft_now = 1784536860000000,
     ft_call = \<lparr>ca_happened = True, ca_raised = None\<rparr>\<rparr>)"

definition waiting :: world where
  "waiting = fst (run one_try [Capture sample_content])"

definition recovered :: world where
  "recovered = drains one_try 120000000 100 [one_round] waiting"

theorem backlog_drains_witness:
  "length (wd_rows recovered) = 1 \<and> list_all (\<lambda>x. \<not> pending x) (wd_rows recovered)"
proof -
  have rows: "wd_rows waiting = [fresh_row 0 sample_content]" by (simp add: waiting_def run_def capture_def)
  have good: "good_drain (fst one_round) 120000000 (snd one_round) waiting"
    using sample_days by (simp add: good_drain_def good_fate_def rows one_round_def) (simp add: fresh_row_def expired_def)
  have cost: "backlog one_try waiting \<le> length [one_round]"
    by (simp add: backlog_def rows) (simp add: cost_def fresh_row_def one_try_def)
  have "good_drains one_try 120000000 100 [one_round] waiting" using good unfolding one_round_def by simp
  then have "\<forall>x \<in> set (wd_rows recovered). \<not> pending x"
    using backlog_drains [of "[Capture sample_content]" 100 one_try 120000000 "[one_round]"] cost
    unfolding waiting_def recovered_def by simp
  moreover have "recovered = snd (drain_tasks_outbox one_try (fst one_round) 120000000 100 [] (snd one_round) waiting)"
    by (simp add: recovered_def one_round_def)
  from drain_shrinks [OF _ good _ this] have "map ob_id (wd_rows recovered) = map ob_id (wd_rows waiting)" by (simp add: rows)
  then have "length (wd_rows recovered) = 1" by (metis length_map rows list.size(3,4) One_nat_def add_0)
  ultimately show ?thesis unfolding list_all_iff by blast
qed

section \<open>What the payload schema refuses\<close>

lemma refused_payload:
  assumes "structural_issues (inner_payload c) task_event_schema \<noteq> []"
    "dc_registry ctx ''tasks'' ''task-event'' 1 = Schema task_event_schema"
  shows "prepare ctx c i now = Inl Relay_Validation"
proof -
  let ?p = "build_envelope c i (utc_second now)"
  have get: "dget ?p ''payload_schema'' = PStr TASKS_PAYLOAD_SCHEMA" "dget ?p ''payload'' = inner_payload c" "has_key ?p ''payload_schema''"
    "is_dict ?p" "is_dict (inner_payload c)"
    by (simp_all add: envelope_eval inner_payload_def env_split)
  have parse: "parse_schema_id (PStr TASKS_PAYLOAD_SCHEMA) = Some (''tasks'', ''task-event'', 1)" by code_simp
  have declared: "dget_or task_event_schema EVENT_TYPES_KEY (PList []) \<noteq> PNone" by code_simp
  obtain rs where "check_vocabulary (dc_registry ctx) ?p = Some rs" "rs \<noteq> []"
    using assms(1) by (auto simp: check_vocabulary_def Let_def get parse declared schema_resolves [where files = "dc_registry ctx", OF assms(2)])
  then have "validate_v2 (dc_builtins ctx) (dc_registry ctx) ?p \<noteq> []"
    by (simp add: validate_v2_def Let_def get MAX_REASONS_def)
  then show ?thesis
    by (simp add: prepare_def build_dispatch_fields_def raise_if_def run_checks.simps)
qed

text \<open>
  A mutation whose blocked reason is longer than the schema's bound is captured with its task, and
  then never sent: each claim ends in a validation failure.
\<close>

theorem long_reason_refused:
  assumes "oc_blocked_reason c = Some reason" "1024 < length reason"
    "dc_registry ctx ''tasks'' ''task-event'' 1 = Schema task_event_schema"
  shows "prepare ctx c i now = Inl Relay_Validation"
proof (rule refused_payload [OF _ assms(3)])
  let ?p = "inner_payload c" and ?s = "PDict [(''type'', PList [PStr ''string'', PStr ''null'']), (''maxLength'', PInt 1024)]"
  have leaf: "collect_issues (PStr reason) ?s path \<noteq> []" for path
    using assms(2) by (simp add: schema_eval)
  have "dget task_event_schema ''type'' = PStr ''object''" "\<not> has_key task_event_schema ''enum''" "\<not> has_key task_event_schema ''const''"
    "\<not> is_str ?p" "\<not> is_number ?p" "is_dict ?p"
    by (simp_all add: inner_payload_def task_event_schema_def EVENT_TYPES_KEY_def dget_def dget_opt_def has_key_def)
  moreover have item: "(''blocked_reason'', ?s) \<in> set (items (dget task_event_schema ''properties''))" "has_key ?p ''blocked_reason''"
    "dget ?p ''blocked_reason'' = PStr reason"
    using assms(1) by (simp_all add: inner_payload_def task_event_schema_def EVENT_TYPES_KEY_def dget_def dget_opt_def has_key_def)
  moreover from item have "concat (map (\<lambda>(k, sub). if has_key ?p k then collect_issues (dget ?p k) sub (''$'' @ ''.'' @ k) else [])
      (items (dget task_event_schema ''properties''))) \<noteq> []"
    using leaf by (intro notI) (simp only: concat_eq_Nil_conv set_map, drule bspec, erule imageI, simp)
  ultimately show "structural_issues ?p task_event_schema \<noteq> []"
    unfolding structural_issues_def collect_issues.simps [of ?p]
    by (simp only: type_names_def json_type_matches_def) simp
qed

end
