(* ===== verification/Outbox_Ledger.thy ===== *)
theory Outbox_Ledger
  imports Event_Ledger
begin

text \<open>
  The older drain of \<^verbatim>\<open>framework/outbox/relay.py\<close>, whose queue is read off the event ledger.
  An operation takes the events that a replay returned and gives the events it emits, in order. How
  an adapter answers is an argument, by the identifier of the queued event; the text and traceback of
  its exception are left out. Identifiers in payloads are texts, as this module writes them.
\<close>

section \<open>The queue\<close>

definition QUEUED :: string where "QUEUED = ''outbox_queued''"
definition DISPATCHED :: string where "DISPATCHED = ''outbox_dispatched''"
definition FAILED :: string where "FAILED = ''outbox_failed''"
definition QUEUED_BY_MARKER :: string where "QUEUED_BY_MARKER = ''framework.outbox.relay''"

fun key_value :: "string option \<Rightarrow> pyval" where
  "key_value None = PNone"
| "key_value (Some k) = PStr k"

definition prior_queued :: "string option \<Rightarrow> org_event list \<Rightarrow> org_event option" where
  "prior_queued key es = (case key of None \<Rightarrow> None
     | Some k \<Rightarrow> find (\<lambda>e. dget (ev_payload e) ''idempotency_key'' = PStr k) (of_types [QUEUED] es))"

text \<open>The identifier it returns and what it emits; the scan and the emit are one step under the lock.\<close>

definition queue :: "string \<Rightarrow> int \<Rightarrow> string \<Rightarrow> pyval \<Rightarrow> string \<Rightarrow> string option \<Rightarrow> org_event list \<Rightarrow> string \<times> org_event list" where
  "queue uuid now destination payload actor key es = (case prior_queued key es of
     Some e \<Rightarrow> (ev_id e, [])
   | None \<Rightarrow> (uuid, [new_event uuid now QUEUED actor (PDict [(''destination'', PStr destination), (''payload'', payload),
       (''idempotency_key'', key_value key), (''queued_by'', PStr QUEUED_BY_MARKER)]) None]))"

definition queued_ids :: "(org_event \<Rightarrow> bool) \<Rightarrow> org_event list \<Rightarrow> pyval list" where
  "queued_ids P es = filter truthy (map (\<lambda>e. dget (ev_payload e) ''queued_event_id'') (filter P es))"

definition terminal_failure :: "org_event \<Rightarrow> bool" where
  "terminal_failure e \<longleftrightarrow> dget (ev_payload e) ''terminal'' = PBool True"

definition already_processed_ids :: "org_event list \<Rightarrow> pyval list" where
  "already_processed_ids es = queued_ids (\<lambda>_. True) (of_types [DISPATCHED] es) @ queued_ids terminal_failure (of_types [FAILED] es)"

definition is_marker_row :: "org_event \<Rightarrow> bool" where
  "is_marker_row e \<longleftrightarrow> dget (ev_payload e) ''queued_by'' = PStr QUEUED_BY_MARKER"

definition unprocessed :: "org_event list \<Rightarrow> org_event list" where
  "unprocessed es = filter (\<lambda>e. PStr (ev_id e) \<notin> set (already_processed_ids es)) (of_types [QUEUED] es)"

definition pending_queue :: "org_event list \<Rightarrow> org_event list" where
  "pending_queue es = filter is_marker_row (unprocessed es)"

definition foreign_ledger_rows :: "org_event list \<Rightarrow> org_event list" where
  "foreign_ledger_rows es = filter (\<lambda>e. \<not> is_marker_row e) (unprocessed es)"

section \<open>Dispatch\<close>

datatype dispatch_outcome = Was_Dispatched | Was_Failed | Was_Skipped

definition adapter_known :: "string list \<Rightarrow> org_event \<Rightarrow> bool" where
  "adapter_known adapters e \<longleftrightarrow> (let d = dget (ev_payload e) ''destination'' in truthy d \<and> d \<in> PStr ` set adapters)"

text \<open>\<open>accepts\<close>: the adapter returned.\<close>

definition dispatch_one :: "string list \<Rightarrow> (string \<Rightarrow> bool) \<Rightarrow> string \<Rightarrow> int \<Rightarrow> string \<Rightarrow> org_event \<Rightarrow> dispatch_outcome \<times> org_event" where
  "dispatch_one adapters accepts uuid now actor e =
     (let qid = (''queued_event_id'', PStr (ev_id e)); destination = (''destination'', dget (ev_payload e) ''destination'') in
      if \<not> adapter_known adapters e
      then (Was_Skipped, new_event uuid now FAILED actor (PDict [qid, destination, (''terminal'', PBool True)]) (Some (ev_id e)))
      else if accepts (ev_id e)
      then (Was_Dispatched, new_event uuid now DISPATCHED actor (PDict [qid, destination]) (Some (ev_id e)))
      else (Was_Failed, new_event uuid now FAILED actor (PDict [qid, destination, (''terminal'', PBool False)]) (Some (ev_id e))))"

text \<open>Over the entries pending at its start; the outcomes are the counts.\<close>

definition dispatch_pending :: "string list \<Rightarrow> (string \<Rightarrow> bool) \<Rightarrow> (string \<Rightarrow> string) \<Rightarrow> int \<Rightarrow> string \<Rightarrow> org_event list
    \<Rightarrow> (dispatch_outcome \<times> org_event) list" where
  "dispatch_pending adapters accepts uuids now actor es =
     map (\<lambda>e. dispatch_one adapters accepts (uuids (ev_id e)) now actor e) (pending_queue es)"

section \<open>What a drain leaves\<close>

lemma new_event_sel [simp]: "ev_type (new_event u n t a p q) = t" "ev_id (new_event u n t a p q) = u"
  "ev_payload (new_event u n t a (PDict (kv # kvs)) q) = PDict (kv # kvs)"
  by (simp_all add: new_event_def)

lemma queued_types: "QUEUED \<noteq> DISPATCHED" "QUEUED \<noteq> FAILED" "DISPATCHED \<noteq> FAILED"
  by (simp_all add: QUEUED_def DISPATCHED_def FAILED_def)

lemma dispatch_one_type: "ev_type (snd (dispatch_one adapters accepts u now actor e)) \<noteq> QUEUED"
  using queued_types by (simp add: dispatch_one_def Let_def)

lemma emitted_not_queued: "of_types [QUEUED] (map snd (dispatch_pending adapters accepts uuids now actor es)) = []"
  using dispatch_one_type by (auto simp: of_types_def dispatch_pending_def filter_empty_conv)

definition settles :: "string list \<Rightarrow> (string \<Rightarrow> bool) \<Rightarrow> org_event \<Rightarrow> bool" where
  "settles adapters accepts e \<longleftrightarrow> \<not> adapter_known adapters e \<or> accepts (ev_id e)"

lemma processed_append: "set (already_processed_ids (es @ fs)) = set (already_processed_ids es) \<union> set (already_processed_ids fs)"
  by (auto simp: already_processed_ids_def queued_ids_def of_types_def)

lemma processed_single: "already_processed_ids [x] = (if ev_type x = DISPATCHED \<or> ev_type x = FAILED \<and> terminal_failure x
    then filter truthy [dget (ev_payload x) ''queued_event_id''] else [])"
  using queued_types by (simp add: already_processed_ids_def queued_ids_def of_types_def)

lemma processed_one: "set (already_processed_ids [snd (dispatch_one adapters accepts u now actor e)])
    = (if settles adapters accepts e \<and> ev_id e \<noteq> [] then {PStr (ev_id e)} else {})"
  using queued_types
  by (simp add: processed_single dispatch_one_def Let_def settles_def terminal_failure_def dget_def)

lemma processed_map: "set (already_processed_ids (map f xs)) = (\<Union>x \<in> set xs. set (already_processed_ids [f x]))"
proof (induction xs)
  case (Cons x xs)
  then show ?case using processed_append [of "[f x]" "map f xs"] by simp
qed (simp add: already_processed_ids_def queued_ids_def of_types_def)

text \<open>
  A drain of the ledger settles its queue. Afterwards exactly those entries are pending whose adapter
  raised, in their order: what was sent, or has no adapter, is never taken up again, what failed is
  retried; and the rows of other writers, which carry no marker, stay where they are, undispatched.
\<close>

theorem ledger_drain_settles:
  assumes "distinct (map ev_id (of_types [QUEUED] es))" "\<forall>e \<in> set es. ev_id e \<noteq> []"
    and "es' = es @ map snd (dispatch_pending adapters accepts uuids now actor es)"
  shows "pending_queue es' = filter (\<lambda>e. adapter_known adapters e \<and> \<not> accepts (ev_id e)) (pending_queue es)
    \<and> foreign_ledger_rows es' = foreign_ledger_rows es"
proof -
  let ?Q = "of_types [QUEUED] es"
  have q: "of_types [QUEUED] es' = ?Q"
    using emitted_not_queued by (simp add: assms(3) of_types_def)
  have new: "set (already_processed_ids (map snd (dispatch_pending adapters accepts uuids now actor es)))
      = (\<lambda>e. PStr (ev_id e)) ` {e \<in> set (pending_queue es). settles adapters accepts e}" (is "?N = _")
  proof -
    have "ev_id e \<noteq> []" if "e \<in> set (pending_queue es)" for e
      using that assms(2) by (auto simp: pending_queue_def unprocessed_def of_types_def)
    then show ?thesis
      unfolding dispatch_pending_def map_map by (subst processed_map) (auto simp: processed_one)
  qed
  have same: "e = f" if "e \<in> set ?Q" "f \<in> set ?Q" "ev_id e = ev_id f" for e f
    using that assms(1) by (metis distinct_map inj_on_eq_iff)
  have in_new: "PStr (ev_id e) \<in> ?N \<longleftrightarrow> e \<in> set (pending_queue es) \<and> settles adapters accepts e" if e: "e \<in> set ?Q" for e
  proof
    assume "PStr (ev_id e) \<in> ?N"
    then obtain f where f: "f \<in> set (pending_queue es)" "settles adapters accepts f" "ev_id f = ev_id e" unfolding new by auto
    then have "f \<in> set ?Q" by (simp add: pending_queue_def unprocessed_def)
    then have "e = f" using f(3) by (intro same [OF e]) simp_all
    then show "e \<in> set (pending_queue es) \<and> settles adapters accepts e" using f by simp
  qed (auto simp: new)
  have un: "unprocessed es' = filter (\<lambda>e. \<not> (e \<in> set (pending_queue es) \<and> settles adapters accepts e)) (unprocessed es)"
    unfolding unprocessed_def q filter_filter using in_new
    by (intro filter_cong refl) (auto simp: assms(3) processed_append)
  have "pending_queue es' = filter (\<lambda>e. \<not> settles adapters accepts e) (pending_queue es)"
    unfolding pending_queue_def un filter_filter by (intro filter_cong refl) auto
  moreover have "foreign_ledger_rows es' = foreign_ledger_rows es"
    unfolding foreign_ledger_rows_def un filter_filter by (intro filter_cong refl) (auto simp: pending_queue_def)
  ultimately show ?thesis by (simp add: settles_def)
qed

lemma find_app: "find P (xs @ ys) = (case find P xs of None \<Rightarrow> find P ys | Some x \<Rightarrow> Some x)"
  by (induction xs) auto

text \<open>Queueing twice under one key is queueing once.\<close>

theorem queue_idempotent:
  assumes "queue uuid now d p actor (Some k) es = (i, new)"
  shows "queue uuid' now' d' p' actor' (Some k) (es @ new @ others) = (i, [])"
proof (cases "prior_queued (Some k) es")
  case (Some e)
  then have "prior_queued (Some k) (es @ new @ others) = Some e"
    by (auto simp: prior_queued_def of_types_def find_app split: option.splits)
  then show ?thesis using assms Some by (simp add: queue_def)
next
  case None
  then have "prior_queued (Some k) (es @ new @ others) = Some (hd new)" "ev_id (hd new) = i"
    using assms by (auto simp: prior_queued_def of_types_def queue_def find_app dget_def dget_opt_def)
  then show ?thesis by (simp add: queue_def)
qed

end
