(* ===== verification/Spec2Isabelle.thy ===== *)
theory Spec2Isabelle
  imports Matrix_Correct Graduation_Correct Posture_Correct Trust_Ladder_Correct Grants_Correct Needs_Correct
    Gate_Correct Policy_Layers Veto_Gate Veto_Window_Correct Shell_Correct Deploy_Correct Mission_Pull
    Outbox_Settle Outbox_Ledger
begin

text \<open>
  The governance core of the cabinet: a framework that lets software officers act, propose or stop.
  An act is classified into a kind, the kind has a risk class, and the authority matrix maps the
  class and the confidence earned by the (officer, lane, kind) cell to a verdict. The confidence is
  computed from an append-only ledger of consequences; the captain's posture ruling selects the
  table; standing grants and the trust ladder are the only ways past a floor; what was withheld is
  filed as a need. Work reaches the officers as missions: an outcome is compiled into a graph of
  tasks, a session pulls a ready one under a lease, and the state of both is read off one event ledger.
  What a task becomes is committed with an outbox row, and a relay carries the row to a stream as an
  envelope that the bus validates.

  \<^bold>\<open>Theories and the code they model\<close> (paths under \<^verbatim>\<open>src/framework/\<close>):
  \<^item> \<^verbatim>\<open>Cabinet_Base\<close>: Python values, dict access, truth, equality, hashability,
    raised checks, string helpers; shared by all.
  \<^item> \<^verbatim>\<open>Authority_Vocab\<close>: the closed kind sets of \<^verbatim>\<open>authority/classifier.py\<close>
    and the declared operations of \<^verbatim>\<open>env.py\<close>.
  \<^item> \<^verbatim>\<open>Matrix\<close>, \<^verbatim>\<open>Matrix_Laws\<close>, \<^verbatim>\<open>Matrix_Bind\<close>, \<^verbatim>\<open>Matrix_Correct\<close>: the validator and
    the join of \<^verbatim>\<open>authority/matrix.py\<close>, the lookups of \<^verbatim>\<open>authority/policy_engine.py\<close>;
    \<^verbatim>\<open>Shipped_Floor\<close> is the shipped \<^verbatim>\<open>policies/authority-matrix.yml\<close> as data.
  \<^item> \<^verbatim>\<open>Undo\<close>: the inverse registry (\<^verbatim>\<open>frontdoor/action_undo.py\<close>, \<^verbatim>\<open>acting/action_lane.py\<close>).
  \<^item> \<^verbatim>\<open>Keyed_Log\<close>: logs read with last-write-wins, behind the interface of a keyed store.
  \<^item> \<^verbatim>\<open>Consequence\<close>, \<^verbatim>\<open>Consequence_Correct\<close>: \<^verbatim>\<open>fidelity/consequence.py\<close>.
  \<^item> \<^verbatim>\<open>Iso_Time\<close>, \<^verbatim>\<open>Graduation\<close>, \<^verbatim>\<open>Graduation_Correct\<close>: timestamps and \<^verbatim>\<open>fidelity/graduation.py\<close>.
  \<^item> \<^verbatim>\<open>Posture\<close>, \<^verbatim>\<open>Posture_Correct\<close>: \<^verbatim>\<open>authority/posture.py\<close>.
  \<^item> \<^verbatim>\<open>Trust_Ladder\<close>, \<^verbatim>\<open>Trust_Ladder_Correct\<close>: \<^verbatim>\<open>learning/trust_ladder.py\<close>.
  \<^item> \<^verbatim>\<open>Grants\<close>, \<^verbatim>\<open>Grants_Correct\<close>: \<^verbatim>\<open>authority/grants.py\<close>, its counters behind the interface
    of a day counter.
  \<^item> \<^verbatim>\<open>Needs\<close>, \<^verbatim>\<open>Needs_Correct\<close>: \<^verbatim>\<open>authority/needs.py\<close>, whose ledger is a keyed log.
  \<^item> \<^verbatim>\<open>Gate\<close>, \<^verbatim>\<open>Gate_Correct\<close>: the matrix evaluation of
    \<^verbatim>\<open>authority/policy_engine.py\<close> with every component above it calls.
  \<^item> \<^verbatim>\<open>Policy_Layers\<close>: the assembly of the policy set and its floor check, same file.
  \<^item> \<^verbatim>\<open>Py_Text\<close>: integers as Python reads and prints them.
  \<^item> \<^verbatim>\<open>Veto_Registry\<close>, \<^verbatim>\<open>Veto_Registry_Correct\<close>: \<^verbatim>\<open>frontdoor/veto_registry.py\<close>;
    \<^verbatim>\<open>Veto_Gate\<close> puts it behind the gate.
  \<^item> \<^verbatim>\<open>Veto_Window\<close>, \<^verbatim>\<open>Veto_Window_Correct\<close>: \<^verbatim>\<open>authority/veto.py\<close>, its sweep both as
    the loop and as single calls that interleave with kills, crashes and other sweeps.

  \<^item> \<^verbatim>\<open>Shell_Lexer\<close>, \<^verbatim>\<open>Shell_Parse\<close>, \<^verbatim>\<open>Shell_Total\<close>, \<^verbatim>\<open>Shell_Correct\<close>: the shell parser of
    \<^verbatim>\<open>authority/policy_engine.py\<close> and the two rules that read the programs it finds.
  \<^item> \<^verbatim>\<open>Regex\<close>: regular expressions, their semantics and a matcher proved to list its matches.
  \<^item> \<^verbatim>\<open>Classifier\<close>, \<^verbatim>\<open>Classifier_Correct\<close>: \<^verbatim>\<open>authority/classifier.py\<close>, with the recipient
    lists of \<^verbatim>\<open>env.py\<close>; what a kind is worth, and the gate run with this classifier.
  \<^item> \<^verbatim>\<open>Deploy\<close>, \<^verbatim>\<open>Deploy_Correct\<close>: \<^verbatim>\<open>authority/deploy_classifier.py\<close> and its globs.
  \<^item> \<^verbatim>\<open>Event_Ledger\<close>: the ledger files of \<^verbatim>\<open>events/emitter.py\<close>, appends that may die
    included, behind the interface of an event log.
  \<^item> \<^verbatim>\<open>Claims\<close>, \<^verbatim>\<open>Claims_Correct\<close>: \<^verbatim>\<open>missions/claims.py\<close>; \<^verbatim>\<open>Claim_Board\<close> is the
    protocol as a machine of any number of callers, its invariant and what follows from it.
  \<^item> \<^verbatim>\<open>Work_Graph\<close>, \<^verbatim>\<open>Work_Graph_Correct\<close>: \<^verbatim>\<open>cabinet/scripts/lib/work_graph.py\<close>.
  \<^item> \<^verbatim>\<open>Missions\<close>, \<^verbatim>\<open>Missions_Correct\<close>: \<^verbatim>\<open>missions/compiler.py\<close> and
    \<^verbatim>\<open>missions/session_bridge.py\<close>; \<^verbatim>\<open>Mission_Overlay\<close> relates the compiler's view of the
    ledger to the claim protocol, \<^verbatim>\<open>Mission_Pull\<close> composes graph, overlay and claims.
  \<^item> \<^verbatim>\<open>Schema_Registry\<close>: \<^verbatim>\<open>triggers/schema_registry.py\<close>, the closed schema language.
  \<^item> \<^verbatim>\<open>Envelope\<close>, \<^verbatim>\<open>Envelope_Correct\<close>: \<^verbatim>\<open>triggers/envelope.py\<close>; the replay window is
    the last distinct identifiers, and joins never raise trust.
  \<^item> \<^verbatim>\<open>Outbox\<close>: the table drain of \<^verbatim>\<open>outbox/relay.py\<close>, as the loop and as the steps of
    any number of relays that may die between commits; \<^verbatim>\<open>Outbox_Correct\<close> has the invariant of
    the steps and the loop as a run of them, \<^verbatim>\<open>Outbox_Stamp\<close> the calendar,
    \<^verbatim>\<open>Outbox_Valid\<close> the rows whose envelope passes the bus, \<^verbatim>\<open>Outbox_Settle\<close> what
    becomes of a committed row and what a consumer takes. \<^verbatim>\<open>Outbox_Ledger\<close> is the older
    queue and drain of the same file over the event ledger, and what one drain leaves.

  \<^bold>\<open>Fuel.\<close> The two searches of the work graph take fuel: every node enters the queue of the
  topological order once, so their number plus one is enough, and the reachability queue takes at most
  the nodes and the edges; \<^verbatim>\<open>Work_Graph_Correct\<close> proves both. The shell parser takes fuel too. Its scanners advance on every call, so the length
  of the command plus two is enough; a here-document can set the main loop back to the line end, at
  most once per entry, so the square of the length plus three is enough; a nested text weighs less
  than the text around it, where a substitution weighs as much as the word left in its place, so
  twice the weight plus two levels are enough. \<^verbatim>\<open>Shell_Total\<close> proves all three. Python's own
  recursion limit is not modelled.

  \<^bold>\<open>Conventions.\<close> A YAML or JSON value is a \<^verbatim>\<open>pyval\<close>; a mapping keeps its insertion
  order and has string keys. What a component reads from its surroundings (files, environment,
  Redis, the clock, a lock attestation) is a field of a world record or an argument; a raised
  exception is the left of a sum, a check that raises an option. Integers are unbounded as in
  Python, floats are exact rationals, a moment is a number of microseconds. Characters are the code
  points below 256. Every function is total.

  \<^bold>\<open>Not modelled.\<close> The rules on paths and on command
  substrings, the executors, transports and text rendering,
  the evidence recorder, onboarding, the mission supervisor, the scheduler scripts and the web dashboard; concurrency
  of processes is the order of operations on the shared logs and counters.
\<close>

end
